(* ===== verification/Prelude.thy ===== *)
theory Prelude
  imports Complex_Main "HOL-Library.Word" "HOL-Library.State_Monad"
begin

text \<open>
  Shared vocabulary of the development: the machine-integer types of the C sources, the
  state-monad combinators in which the C functions are written, bit facts about
  words, and the fact collections the component theories add to.

  A C function becomes a term of type \<open>('s, 'a) state\<close>: \<open>'s\<close> is the memory it can
  reach and \<open>'a\<close> its result. Sequencing is the monad's \<open>do\<close> block.
\<close>

unbundle bit_operations_syntax

named_theorems frame_intros \<open>frame rules: which operations only append events\<close>
named_theorems run_simps \<open>equations that run a modelled C function on a state\<close>

section \<open>Machine integers\<close>

type_synonym u8 = "8 word"
type_synonym u16 = "16 word"
type_synonym u32 = "32 word"

text \<open>RT-Thread's error codes; functions return them negated.\<close>

abbreviation (input) RT_EOK :: int where "RT_EOK \<equiv> 0"
abbreviation (input) RT_ERROR :: int where "RT_ERROR \<equiv> 1"
abbreviation (input) RT_ENOSYS :: int where "RT_ENOSYS \<equiv> 6"
abbreviation (input) RT_EBUSY :: int where "RT_EBUSY \<equiv> 7"

section \<open>C control flow in the state monad\<close>

abbreviation ret :: "'a \<Rightarrow> ('s, 'a) state" where
  "ret \<equiv> State_Monad.return"

definition gets :: "('s \<Rightarrow> 'a) \<Rightarrow> ('s, 'a) state" where
  "gets f = State (\<lambda>s. (f s, s))"

definition modify :: "('s \<Rightarrow> 's) \<Rightarrow> ('s, unit) state" where
  "modify f = State (\<lambda>s. ((), f s))"

definition when_true :: "bool \<Rightarrow> ('s, unit) state \<Rightarrow> ('s, unit) state" where
  "when_true c m = (if c then m else ret ())"

lemma run_gets [simp, run_simps]: "run_state (gets f) s = (f s, s)"
  by (simp add: gets_def)

lemma run_modify [simp, run_simps]: "run_state (modify f) s = ((), f s)"
  by (simp add: modify_def)

lemma run_when_true [simp]:
  "run_state (when_true c m) s = (if c then run_state m s else ((), s))"
  by (simp add: when_true_def)

lemma run_if: "run_state (if c then m else n) s = (if c then run_state m s else run_state n s)"
  by simp

lemma snd_run_bind:
  "snd (run_state (m \<bind> f) s) = snd (run_state (f (fst (run_state m s))) (snd (run_state m s)))"
  by (simp add: split_beta)

lemma fst_run_bind:
  "fst (run_state (m \<bind> f) s) = fst (run_state (f (fst (run_state m s))) (snd (run_state m s)))"
  by (simp add: split_beta)

text \<open>A \<open>for\<close> loop over the elements of a list, in order.\<close>

primrec for_each :: "'a list \<Rightarrow> ('a \<Rightarrow> ('s, unit) state) \<Rightarrow> ('s, unit) state" where
  "for_each [] body = ret ()"
| "for_each (x # xs) body = do { body x; for_each xs body }"

lemma run_for_each_append:
  "run_state (for_each (xs @ ys) body) s =
     run_state (for_each ys body) (snd (run_state (for_each xs body) s))"
  by (induction xs arbitrary: s) (auto split: prod.splits)

lemma fst_run_for_each [simp]: "fst (run_state (for_each xs body) s) = ()"
  by simp

text \<open>
  \<open>yields I k m x k'\<close>: started where the situation \<open>k\<close> holds, \<open>m\<close> returns \<open>x\<close> and the
  situation \<open>k'\<close> holds afterwards. \<open>I\<close> says what a situation means of the memory.
\<close>

definition yields :: "('k \<Rightarrow> 's \<Rightarrow> bool) \<Rightarrow> 'k \<Rightarrow> ('s, 'a) state \<Rightarrow> 'a \<Rightarrow> 'k \<Rightarrow> bool" where
  "yields I k m x k' \<longleftrightarrow> (\<forall>s. I k s \<longrightarrow> fst (run_state m s) = x \<and> I k' (snd (run_state m s)))"

lemma yields_ret: "yields I k (ret x) x k"
  by (simp add: yields_def)

lemma yields_bind: "yields I k m x j \<Longrightarrow> yields I j (f x) y l \<Longrightarrow> yields I k (m \<bind> f) y l"
  unfolding yields_def snd_run_bind fst_run_bind by simp

lemma yieldsI: "(\<And>s. I k s \<Longrightarrow> \<exists>t. run_state m s = (x, t) \<and> I k' t) \<Longrightarrow> yields I k m x k'"
  unfolding yields_def by (metis fst_conv snd_conv)

lemma yieldsD: "yields I k m x k' \<Longrightarrow> I k s \<Longrightarrow> \<exists>t. run_state m s = (x, t) \<and> I k' t"
  unfolding yields_def by (metis prod.collapse)

text \<open>Which part \<open>f\<close> of the memory an operation leaves alone.\<close>

definition keeps :: "('s \<Rightarrow> 'v) \<Rightarrow> ('s, 'a) state \<Rightarrow> bool" where
  "keeps f m \<longleftrightarrow> (\<forall>s. f (snd (run_state m s)) = f s)"

named_theorems keep_intros \<open>which operations leave a part of the memory alone\<close>

lemma keepsD: "keeps f m \<Longrightarrow> run_state m s = (x, t) \<Longrightarrow> f t = f s"
  unfolding keeps_def by (metis snd_conv)

lemma keeps_prims [keep_intros]: "keeps f (ret x)" "keeps f (gets g)"
  by (simp_all add: keeps_def)

lemma keeps_modify [keep_intros]: "(\<And>s. f (g s) = f s) \<Longrightarrow> keeps f (modify g)"
  by (simp add: keeps_def)

lemma keeps_bind [keep_intros]: "keeps f m \<Longrightarrow> (\<And>x. keeps f (g x)) \<Longrightarrow> keeps f (m \<bind> g)"
  unfolding keeps_def snd_run_bind by simp

lemma keeps_if [keep_intros]: "(c \<Longrightarrow> keeps f m) \<Longrightarrow> (\<not> c \<Longrightarrow> keeps f n) \<Longrightarrow> keeps f (if c then m else n)"
  by simp

lemma keeps_when_true [keep_intros]: "(c \<Longrightarrow> keeps f m) \<Longrightarrow> keeps f (when_true c m)"
  by (simp add: when_true_def keeps_prims)

lemma keeps_for_each [keep_intros]: "(\<And>x. keeps f (body x)) \<Longrightarrow> keeps f (for_each xs body)"
  by (induction xs) (auto intro: keep_intros)

lemma keeps_case_option [keep_intros]:
  "keeps f m \<Longrightarrow> (\<And>x. keeps f (g x)) \<Longrightarrow> keeps f (case_option m g v)"
  by (cases v) auto

lemma keeps_case_prod [keep_intros]: "(\<And>x y. keeps f (g x y)) \<Longrightarrow> keeps f (case_prod g v)"
  by (cases v) auto

lemma keeps_let [keep_intros]: "keeps f (g v) \<Longrightarrow> keeps f (let x = v in g x)"
  by simp

text \<open>Which property of the memory an operation preserves, whatever it returns.\<close>

definition preserves :: "('s \<Rightarrow> bool) \<Rightarrow> ('s, 'a) state \<Rightarrow> bool" where
  "preserves I m \<longleftrightarrow> (\<forall>s. I s \<longrightarrow> I (snd (run_state m s)))"

named_theorems preserve_intros \<open>which operations preserve a property of the memory\<close>

lemma preservesD: "preserves I m \<Longrightarrow> I s \<Longrightarrow> run_state m s = (x, t) \<Longrightarrow> I t"
  unfolding preserves_def by (metis snd_conv)

lemma preservesI: "(\<And>s x t. I s \<Longrightarrow> run_state m s = (x, t) \<Longrightarrow> I t) \<Longrightarrow> preserves I m"
  unfolding preserves_def by (metis prod.collapse)

lemma preserves_keeps: "keeps f m \<Longrightarrow> (\<And>s t. f s = f t \<Longrightarrow> I s = I t) \<Longrightarrow> preserves I m"
  unfolding keeps_def preserves_def by metis

lemma preserves_prims [preserve_intros]: "preserves I (ret x)" "preserves I (gets g)"
  by (simp_all add: preserves_def)

lemma preserves_modify [preserve_intros]: "(\<And>s. I s \<Longrightarrow> I (g s)) \<Longrightarrow> preserves I (modify g)"
  by (simp add: preserves_def)

lemma preserves_bind [preserve_intros]: "preserves I m \<Longrightarrow> (\<And>x. preserves I (g x)) \<Longrightarrow> preserves I (m \<bind> g)"
  unfolding preserves_def snd_run_bind by simp

lemma preserves_if [preserve_intros]:
  "(c \<Longrightarrow> preserves I m) \<Longrightarrow> (\<not> c \<Longrightarrow> preserves I n) \<Longrightarrow> preserves I (if c then m else n)"
  by simp

lemma preserves_when_true [preserve_intros]: "(c \<Longrightarrow> preserves I m) \<Longrightarrow> preserves I (when_true c m)"
  by (simp add: when_true_def preserves_prims)

lemma preserves_case_option [preserve_intros]:
  "preserves I m \<Longrightarrow> (\<And>x. preserves I (g x)) \<Longrightarrow> preserves I (case_option m g v)"
  by (cases v) auto

lemma preserves_case_prod [preserve_intros]: "(\<And>x y. preserves I (g x y)) \<Longrightarrow> preserves I (case_prod g v)"
  by (cases v) auto

section \<open>Bits of words\<close>

text \<open>The eight bits of a byte, most significant first: the order the serial buses use.\<close>

definition bits_msb :: "u8 \<Rightarrow> bool list" where
  "bits_msb b = map (bit b) [7, 6, 5, 4, 3, 2, 1, 0]"

definition byte_of_bits :: "bool list \<Rightarrow> u8" where
  "byte_of_bits bs = foldl (\<lambda>acc v. push_bit 1 acc OR (if v then 1 else 0)) 0 bs"

lemma length_bits_msb [simp]: "length (bits_msb b) = 8"
  by (simp add: bits_msb_def)

lemma u8_eqI: "(\<And>n. n < 8 \<Longrightarrow> bit a n = bit b n) \<Longrightarrow> a = (b :: u8)"
  by (rule bit_word_eqI) simp

text \<open>Equality of bytes bit by bit: decides bit-field equations by \<open>simp\<close>.\<close>

lemma u8_all: "(a = (b :: u8)) = (bit a 0 = bit b 0 \<and> bit a 1 = bit b 1 \<and> bit a 2 = bit b 2 \<and>
   bit a 3 = bit b 3 \<and> bit a 4 = bit b 4 \<and> bit a 5 = bit b 5 \<and> bit a 6 = bit b 6 \<and> bit a 7 = bit b 7)"
  (is "_ = ?R")
proof
  assume R: ?R
  show "a = b"
  proof (rule u8_eqI)
    fix n :: nat assume "n < 8"
    then have "n \<in> {0, 1, 2, 3, 4, 5, 6, 7}" by auto
    with R show "bit a n = bit b n" by auto
  qed
qed simp

lemma push_bit_1_OR_of_bool: "push_bit 1 a OR of_bool v = of_bool v + 2 * (a :: u8)"
proof -
  have "push_bit 1 a AND of_bool v = 0"
    by (rule bit_word_eqI) (auto simp: bit_simps bit_0)
  then show ?thesis
    by (simp add: disjunctive_add_eq_or [symmetric] push_bit_eq_mult mult.commute)
qed

lemma byte_of_bits_horner: "byte_of_bits bs = horner_sum of_bool 2 (rev bs)"
proof (induction bs rule: rev_induct)
  case Nil
  show ?case by (simp add: byte_of_bits_def)
next
  case (snoc v bs)
  then show ?case
    using push_bit_1_OR_of_bool [of "byte_of_bits bs" v]
    by (cases v) (simp_all add: byte_of_bits_def mult.commute)
qed

lemma byte_of_bits_msb [simp]: "byte_of_bits (bits_msb b) = b"
proof -
  have "rev (bits_msb b) = map (bit b) [0..<8]"
    by (simp add: bits_msb_def upt_rec eval_nat_numeral)
  then show ?thesis
    by (simp add: byte_of_bits_horner horner_sum_bit_eq_take_bit take_bit_word_eq_self)
qed

lemma bits_msb_inject: "bits_msb a = bits_msb b \<longleftrightarrow> a = b"
  by (metis byte_of_bits_msb)

lemma and_eq_0x80_iff: "(b AND 0x80 \<noteq> 0) \<longleftrightarrow> bit (b :: u8) 7"
  using and_exp_eq_0_iff_not_bit [of b 7] by simp

lemma low_byte: "ucast (a AND 0xFF) = (ucast (a :: u16) :: u8)"
proof -
  have "a AND 0xFF = take_bit 8 a" by (simp add: take_bit_eq_mask mask_eq_exp_minus_1)
  then show ?thesis by (auto intro!: bit_word_eqI simp: bit_simps)
qed

lemma ucast_u8_u16 [simp]: "(ucast (ucast (b :: u8) :: u16) :: u8) = b"
  by (rule u8_eqI) (simp add: bit_simps)

section \<open>Two bytes as one value\<close>

definition be16 :: "u8 \<Rightarrow> u8 \<Rightarrow> u16" where
  "be16 hi lo = push_bit 8 (ucast hi) OR ucast lo"

lemma uint_be16: "uint (be16 hi lo) = 256 * uint hi + uint lo"
proof -
  have "\<not> bit lo n" if "8 \<le> n" for n
    using that bit_imp_le_length [of lo n] by auto
  then have "push_bit 8 (ucast hi :: u16) AND ucast lo = 0"
    by (intro bit_word_eqI) (auto simp: bit_simps)
  then have "be16 hi lo = push_bit 8 (ucast hi) + ucast lo"
    unfolding be16_def by (simp add: disjunctive_add_eq_or)
  moreover have "uint hi < 256" "uint lo < 256"
    using uint_lt2p [of hi] uint_lt2p [of lo] by simp_all
  ultimately show ?thesis
    by (simp add: uint_word_ariths unsigned_push_bit_eq unsigned_ucast_eq push_bit_eq_mult take_bit_eq_mod)
qed

lemma div_half: "0 \<le> x \<Longrightarrow> x < 2 * k \<Longrightarrow> x div k = (if x < k then 0 else 1)" for x k :: int
  using int_div_pos_eq [of x k 1 "x - k"] by auto

lemma sint8: "sint (b :: u8) = (if uint b < 128 then uint b else uint b - 256)"
proof -
  have u: "uint b < 256" "0 \<le> uint b" using uint_lt2p [of b] by simp_all
  then have "bit (uint b) 7 = (128 \<le> uint b)"
    unfolding bit_iff_odd using div_half [of "uint b" 128] by simp
  then show ?thesis
    using u(1) by (auto simp: sint_uint signed_take_bit_eq_take_bit_minus take_bit_int_eq_self)
qed

lemma sint16: "sint (b :: u16) = (if uint b < 32768 then uint b else uint b - 65536)"
proof -
  have u: "uint b < 65536" "0 \<le> uint b" using uint_lt2p [of b] by simp_all
  then have "bit (uint b) 15 = (32768 \<le> uint b)"
    unfolding bit_iff_odd using div_half [of "uint b" 32768] by simp
  then show ?thesis
    using u(1) by (auto simp: sint_uint signed_take_bit_eq_take_bit_minus take_bit_int_eq_self)
qed

lemma sint_be16: "sint (be16 hi lo) = 256 * sint hi + uint lo"
proof -
  have "0 \<le> y \<Longrightarrow> y < 256 \<Longrightarrow>
      (if 256 * x + y < 32768 then 256 * x + y else 256 * x + y - 65536) =
      256 * (if x < 128 then x else x - 256) + y" for x y :: int
    by auto
  from this [of "uint lo" "uint hi"] show ?thesis
    using uint_lt2p [of lo] unfolding sint16 sint8 uint_be16 by simp
qed

end
