(* ===== verification/Structs.thy ===== *)
theory Structs
  imports Prelude
begin

text \<open>
  The structures the drivers allocate on the heap, as records: the device structures of
  \<open>i2c_HMC5883L.h\<close>, \<open>i2c_LTR390.h\<close> and \<open>i2c_BME280.h\<close> and the sensor structures of
  \<open>Bosch_BME280_defs.h\<close>. Signed fields are words of their width, read with \<open>sint\<close>.
\<close>

section \<open>HMC5883L and LTR390\<close>

text \<open>Both drivers declare the same two structures.\<close>

record sensor_config =
  sample_num :: u8
  dor :: u16
  range_cfg :: u16
  oper_mode :: u8

record i2c_device_struct =
  dev_bus :: string
  dev_i2c_addr :: u8
  dev_config :: sensor_config

definition zero_i2c_device :: i2c_device_struct where
  "zero_i2c_device = \<lparr>dev_bus = [], dev_i2c_addr = 0,
     dev_config = \<lparr>sample_num = 0, dor = 0, range_cfg = 0, oper_mode = 0\<rparr>\<rparr>"

section \<open>BME280\<close>

record bme280_calib_data =
  dig_T1 :: u16
  dig_T2 :: u16
  dig_T3 :: u16
  dig_P1 :: u16
  dig_P2 :: u16
  dig_P3 :: u16
  dig_P4 :: u16
  dig_P5 :: u16
  dig_P6 :: u16
  dig_P7 :: u16
  dig_P8 :: u16
  dig_P9 :: u16
  dig_H1 :: u8
  dig_H2 :: u16
  dig_H3 :: u8
  dig_H4 :: u16
  dig_H5 :: u16
  dig_H6 :: u8
  t_fine :: u32

record bme280_settings =
  osr_p :: u8
  osr_t :: u8
  osr_h :: u8
  bme_filter :: u8
  standby_time :: u8

datatype bme280_intf = BME280_SPI_INTF | BME280_I2C_INTF

text \<open>The functions whose addresses the program stores in the function pointers.\<close>

datatype com_fptr = Fp_read_regs | Fp_write_regs
datatype delay_fptr = Fp_my_delay_ms

record bme280_dev =
  chip_id :: u8
  dev_id :: u8
  intf :: bme280_intf
  read_fp :: "com_fptr option"
  write_fp :: "com_fptr option"
  delay_fp :: "delay_fptr option"
  calib_data :: bme280_calib_data
  settings :: bme280_settings

record bme280_device_struct =
  bme_bus :: string
  bme_i2c_addr :: u8
  bme_dev :: bme280_dev

definition zero_settings :: bme280_settings where
  "zero_settings = \<lparr>osr_p = 0, osr_t = 0, osr_h = 0, bme_filter = 0, standby_time = 0\<rparr>"

definition zero_calib :: bme280_calib_data where
  "zero_calib = \<lparr>dig_T1 = 0, dig_T2 = 0, dig_T3 = 0, dig_P1 = 0, dig_P2 = 0, dig_P3 = 0, dig_P4 = 0,
     dig_P5 = 0, dig_P6 = 0, dig_P7 = 0, dig_P8 = 0, dig_P9 = 0, dig_H1 = 0, dig_H2 = 0, dig_H3 = 0,
     dig_H4 = 0, dig_H5 = 0, dig_H6 = 0, t_fine = 0\<rparr>"

definition zero_bme280_dev :: bme280_dev where
  "zero_bme280_dev = \<lparr>chip_id = 0, dev_id = 0, intf = BME280_SPI_INTF, read_fp = None, write_fp = None,
     delay_fp = None, calib_data = zero_calib, settings = zero_settings\<rparr>"

definition zero_bme280_device :: bme280_device_struct where
  "zero_bme280_device = \<lparr>bme_bus = [], bme_i2c_addr = 0, bme_dev = zero_bme280_dev\<rparr>"

section \<open>The heap cells\<close>

datatype cstruct = I2c_struct i2c_device_struct | Bme_struct bme280_device_struct

end
