(* ===== verification/Board.thy ===== *)
theory Board
  imports Structs
begin

text \<open>
  The world the firmware runs in. Everything the program does to hardware or to a
  service of RT-Thread and the vendor HAL is an event; the record \<open>board\<close> keeps the
  events in the order they happened. Whatever the program reads back (a pin level, an
  ADC value, an I2C reply, the tick, whether an allocation succeeds) is an arbitrary
  function of everything that happened before: the environment record \<open>env\<close>. A theorem
  without a hypothesis on \<open>env\<close> holds for every behaviour of the hardware.
\<close>

section \<open>Types of the events\<close>

text \<open>The functions the program installs as pin interrupt handlers.\<close>

datatype irq_handler =
    H_key1_change | H_key2_change
  | H_key1_irq_MENU | H_key2_irq_MENU
  | H_key1_irq_DISP_DATA | H_key2_irq_DISP_DATA
  | H_key1_irq_TAKE_PHOTO | H_key2_irq_TAKE_PHOTO
  | H_key1_irq_SD_CARD | H_key2_irq_SD_CARD
  | H_key1_irq_SETTING_SELECT | H_key2_irq_SETTING_SELECT
  | H_key1_irq_SETTING_DELAY_SELECT | H_key2_irq_SETTING_DELAY_SELECT
  | H_my_ov7725_interrupt

datatype gpio_mode =
    GPIO_MODE_OUTPUT_PP | GPIO_MODE_OUTPUT_OD | GPIO_MODE_INPUT
  | GPIO_MODE_IT_RISING | GPIO_MODE_IT_FALLING | GPIO_MODE_IT_RISING_FALLING

datatype gpio_pull = GPIO_NOPULL | GPIO_PULLUP | GPIO_PULLDOWN

datatype irqn = EXTI0 | EXTI1 | EXTI2 | EXTI3 | EXTI4 | EXTI9_5 | EXTI15_10

text \<open>One message of an I2C transfer, \<open>struct rt_i2c_msg\<close>.\<close>

record i2c_msg =
  m_addr :: u16
  m_flags :: u16
  m_len :: u16
  m_buf :: "u8 list"

text \<open>
  The calls of the LCD module's drawing interface that the application makes. They
  return nothing to it.
\<close>

datatype lcd_font = Font8x16 | Font16x24 | Font24x32

datatype lcd_call =
    ILI9341_Init
  | XPT2046_Init
  | ILI9341_GramScan nat
  | LCD_SetBackColor string
  | LCD_SetTextColor string
  | LCD_SetFont lcd_font
  | ILI9341_Clear nat nat nat nat
  | ILI9341_DispStringLine_EN nat string
  | ILI9341_DispString_EN nat nat string
  | ILI9341_OpenWindow u16 u16 u16 u16
  | ILI9341_Write_Cmd u16
  | ILI9341_Write_Data u16

datatype open_flag = O_RDONLY | O_WRONLY | O_CREAT | O_APPEND

text \<open>What C leaves undefined, or stops at, when the code reaches it.\<close>

datatype fault =
    UseAfterFree nat
  | BadShift
  | FloatToIntOverflow
  | BufferOverrun
  | UninitialisedRead
  | AssertFailed

datatype ev =
    HalGpioInit nat nat gpio_mode gpio_pull  \<comment> \<open>port, pin bit\<close>
  | HalGpioDeInit nat nat
  | HalWritePin nat nat bool
  | HalReadPin nat nat bool
  | NvicSetPriority irqn nat
  | NvicEnable irqn
  | NvicDisable irqn
  | ClkEnable nat
  | Bsrr nat u32
  | Brr nat u32
  | IdrRead nat u16
  | Spin nat
  | DelayMs int
  | DelayUs nat
  | I2cXfer string "i2c_msg list" nat
  | AdcInit nat
  | AdcConfigChannel nat
  | AdcStart
  | AdcPoll nat
  | AdcGet u32
  | AdcStop
  | ErrorHandler
  | Alloc nat
  | Free nat
  | Fault fault
  | DfsMount string string string
  | DfsUnmount string
  | Mkfs string string
  | FileOpen string "open_flag list" int  \<comment> \<open>path, flags, the descriptor or a negative number\<close>
  | FileWrite int string
  | FileRead int nat
  | FileClose int
  | DevControl string
  | DevWrite string nat "u8 list"  \<comment> \<open>block number, contents\<close>
  | DevRead string nat
  | Rand int
  | Lcd lcd_call
  | Tick u32

section \<open>The environment\<close>

datatype device_class = Device_Class_I2CBUS | Device_Class_Other

record env =
  pin_level :: "ev list \<Rightarrow> nat \<Rightarrow> nat \<Rightarrow> bool"
  idr_value :: "ev list \<Rightarrow> nat \<Rightarrow> u16"
  i2c_reply :: "ev list \<Rightarrow> string \<Rightarrow> i2c_msg list \<Rightarrow> nat \<times> u8 list list"
  adc_value :: "ev list \<Rightarrow> u32"
  adc_ok :: "ev list \<Rightarrow> bool"
  alloc_ok :: "ev list \<Rightarrow> bool"
  dfs_result :: "ev list \<Rightarrow> int"
  open_result :: "ev list \<Rightarrow> string \<Rightarrow> int"
  read_result :: "ev list \<Rightarrow> int \<Rightarrow> string"
  blk_geometry :: "ev list \<Rightarrow> string \<Rightarrow> int \<times> u32"  \<comment> \<open>result and block size\<close>
  dev_write_result :: "ev list \<Rightarrow> nat"
  dev_read_result :: "ev list \<Rightarrow> nat \<times> u8 list"
  rand_value :: "ev list \<Rightarrow> int"
  tick_ms :: "ev list \<Rightarrow> u32"
  device_type :: "string \<Rightarrow> device_class option"  \<comment> \<open>\<open>rt_device_find\<close> and the \<open>type\<close> of its result\<close>
  junk8 :: "ev list \<Rightarrow> u8"  \<comment> \<open>what an uninitialised byte happens to hold\<close>
  rnd :: "real \<Rightarrow> real"  \<comment> \<open>rounding of a \<open>double\<close> operation's exact result\<close>
  atan2_of :: "real \<Rightarrow> real \<Rightarrow> real"

record board =
  hist :: "ev list"
  env :: env
  heap :: "nat \<Rightarrow> cstruct option"

text \<open>
  A board on which every line reads low, every service succeeds and every value read is
  0: the concrete environment of the examples, varied field by field.
\<close>

definition env0 :: env where
  "env0 = \<lparr>pin_level = (\<lambda>h p n. False), idr_value = (\<lambda>h p. 0),
     i2c_reply = (\<lambda>h b ms. (length ms, map m_buf ms)), adc_value = (\<lambda>h. 0),
     adc_ok = (\<lambda>h. True), alloc_ok = (\<lambda>h. True), dfs_result = (\<lambda>h. 0),
     open_result = (\<lambda>h p. 0), read_result = (\<lambda>h f. []), blk_geometry = (\<lambda>h n. (0, 512)),
     dev_write_result = (\<lambda>h. 1), dev_read_result = (\<lambda>h. (1, [])), rand_value = (\<lambda>h. 0), tick_ms = (\<lambda>h. 0),
     device_type = (\<lambda>n. Some Device_Class_I2CBUS), junk8 = (\<lambda>h. 0), rnd = (\<lambda>x. x),
     atan2_of = (\<lambda>y x. 0)\<rparr>"

section \<open>Primitive operations\<close>

definition emit :: "ev \<Rightarrow> ('z board_scheme, unit) state" where
  "emit e = State (\<lambda>s. ((), s\<lparr>hist := hist s @ [e]\<rparr>))"

definition emits :: "ev list \<Rightarrow> ('z board_scheme, unit) state" where
  "emits es = State (\<lambda>s. ((), s\<lparr>hist := hist s @ es\<rparr>))"

text \<open>Ask the environment; \<open>f\<close> selects the question.\<close>

definition ask :: "(env \<Rightarrow> ev list \<Rightarrow> 'a) \<Rightarrow> ('z board_scheme, 'a) state" where
  "ask f = State (\<lambda>s. (f (env s) (hist s), s))"

definition fault :: "fault \<Rightarrow> ('z board_scheme, unit) state" where
  "fault f = emit (Fault f)"

lemma run_emit [simp, run_simps]:
  "run_state (emit e) s = ((), s\<lparr>hist := hist s @ [e]\<rparr>)"
  by (simp add: emit_def)

lemma run_emits [simp, run_simps]:
  "run_state (emits es) s = ((), s\<lparr>hist := hist s @ es\<rparr>)"
  by (simp add: emits_def)

lemma run_ask [simp, run_simps]:
  "run_state (ask f) s = (f (env s) (hist s), s)"
  by (simp add: ask_def)

lemma run_fault [simp, run_simps]:
  "run_state (fault f) s = ((), s\<lparr>hist := hist s @ [Fault f]\<rparr>)"
  by (simp add: fault_def)

definition rt_thread_mdelay :: "int \<Rightarrow> ('z board_scheme, unit) state" where
  "rt_thread_mdelay ms = emit (DelayMs ms)"

definition rt_hw_us_delay :: "nat \<Rightarrow> ('z board_scheme, unit) state" where
  "rt_hw_us_delay us = emit (DelayUs us)"

definition rt_tick_get_millisecond :: "('z board_scheme, u32) state" where
  "rt_tick_get_millisecond = do {
     t \<leftarrow> ask tick_ms;
     emit (Tick t);
     ret t
   }"

definition lcd :: "lcd_call \<Rightarrow> ('z board_scheme, unit) state" where
  "lcd c = emit (Lcd c)"

lemma run_rt_thread_mdelay [simp, run_simps]:
  "run_state (rt_thread_mdelay ms) s = ((), s\<lparr>hist := hist s @ [DelayMs ms]\<rparr>)"
  by (simp add: rt_thread_mdelay_def)

lemma run_rt_hw_us_delay [simp, run_simps]:
  "run_state (rt_hw_us_delay us) s = ((), s\<lparr>hist := hist s @ [DelayUs us]\<rparr>)"
  by (simp add: rt_hw_us_delay_def)

lemma run_rt_tick_get_millisecond [simp, run_simps]:
  "run_state rt_tick_get_millisecond s =
     (tick_ms (env s) (hist s), s\<lparr>hist := hist s @ [Tick (tick_ms (env s) (hist s))]\<rparr>)"
  by (simp add: rt_tick_get_millisecond_def)

lemma run_lcd [simp, run_simps]:
  "run_state (lcd c) s = ((), s\<lparr>hist := hist s @ [Lcd c]\<rparr>)"
  by (simp add: lcd_def)

section \<open>Floating point\<close>

text \<open>
  The C arithmetic on \<open>double\<close> and \<open>float\<close> is arithmetic on reals in which the result of every
  operation goes through \<open>rnd\<close>. What a theorem may need of the rounding is that integers that
  fit the mantissa are exact, and a bound on its error, relative for results of moderate
  size and absolute for tiny ones. IEEE double precision keeps these bounds.
\<close>

definition close_rounding :: "(real \<Rightarrow> real) \<Rightarrow> bool" where
  "close_rounding r \<longleftrightarrow> (\<forall>k. \<bar>k\<bar> \<le> 2 ^ 53 \<longrightarrow> r (real_of_int k) = real_of_int k) \<and>
     (\<forall>x. 1 / 2 ^ 100 \<le> \<bar>x\<bar> \<and> \<bar>x\<bar> \<le> 2 ^ 100 \<longrightarrow> \<bar>r x - x\<bar> \<le> \<bar>x\<bar> / 2 ^ 52) \<and>
     (\<forall>x. \<bar>x\<bar> \<le> 1 / 2 ^ 100 \<longrightarrow> \<bar>r x - x\<bar> \<le> 1 / 2 ^ 100)"

lemma close_roundingD:
  assumes "close_rounding r" and "1 / 2 ^ 100 \<le> x" and "x \<le> 2 ^ 100"
  shows "x - x / 2 ^ 52 \<le> r x" and "r x \<le> x + x / 2 ^ 52"
proof -
  have "0 < x" using assms(2) by (rule less_le_trans [rotated]) simp
  then have x: "\<bar>x\<bar> = x" by simp
  have "1 / 2 ^ 100 \<le> \<bar>x\<bar>" "\<bar>x\<bar> \<le> 2 ^ 100" unfolding x by (fact assms)+
  with assms(1) have "\<bar>r x - x\<bar> \<le> \<bar>x\<bar> / 2 ^ 52"
    unfolding close_rounding_def by blast
  then have "\<bar>r x - x\<bar> \<le> x / 2 ^ 52" unfolding x .
  then show "x - x / 2 ^ 52 \<le> r x" "r x \<le> x + x / 2 ^ 52" by linarith+
qed

lemma close_rounding_int: "close_rounding r \<Longrightarrow> \<bar>k\<bar> \<le> 2 ^ 53 \<Longrightarrow> r (real_of_int k) = real_of_int k"
  by (simp add: close_rounding_def)

lemma close_rounding_0: "close_rounding r \<Longrightarrow> r 0 = 0"
  using close_rounding_int [of r 0] by simp

text \<open>The error of a result that is at most \<open>B\<close> in size.\<close>

lemma close_abs:
  assumes "close_rounding r" and "\<bar>x\<bar> \<le> B" and "1 \<le> B" and "B \<le> 2 ^ 100"
  shows "\<bar>r x - x\<bar> \<le> B / 10 ^ 15"
proof (cases "1 / 2 ^ 100 \<le> \<bar>x\<bar>")
  case True
  have "\<bar>x\<bar> \<le> 2 ^ 100" using assms(2,4) by (rule order_trans)
  with True assms(1) have "\<bar>r x - x\<bar> \<le> \<bar>x\<bar> / 2 ^ 52" unfolding close_rounding_def by blast
  also have "\<dots> \<le> B / 2 ^ 52" using assms(2) by (rule divide_right_mono) simp
  also have "\<dots> \<le> B / 10 ^ 15" using assms(3) by (intro divide_left_mono) simp_all
  finally show ?thesis .
next
  case False
  then have "\<bar>x\<bar> \<le> 1 / 2 ^ 100" by simp
  with assms(1) have "\<bar>r x - x\<bar> \<le> 1 / 2 ^ 100" unfolding close_rounding_def by blast
  also have "\<dots> \<le> 1 / 10 ^ 15" by simp
  also have "\<dots> \<le> B / 10 ^ 15" using assms(3) by (rule divide_right_mono) simp
  finally show ?thesis .
qed

lemma close_rounding_id: "close_rounding (\<lambda>x. x)"
  by (simp add: close_rounding_def)

lemma close_times:
  assumes "close_rounding r" and "lo \<le> x" and "x \<le> hi" and "1 / 2 ^ 100 \<le> lo" and "hi \<le> 2 ^ 100"
  shows "lo - hi / 10 ^ 15 \<le> r x" and "r x \<le> hi + hi / 10 ^ 15"
proof -
  have "0 < (1 :: real) / 2 ^ 100" by simp
  then have "0 < x" using assms by linarith
  then have "x / 2 ^ 52 \<le> hi / 10 ^ 15" using assms(3) by (simp add: field_simps)
  with close_roundingD [OF assms(1), of x] assms show "lo - hi / 10 ^ 15 \<le> r x" "r x \<le> hi + hi / 10 ^ 15"
    by linarith+
qed

text \<open>Conversion of a \<open>double\<close> to an unsigned byte: towards zero, undefined outside 0 to 255.\<close>

definition trunc :: "real \<Rightarrow> int" where
  "trunc x = (if x \<ge> 0 then \<lfloor>x\<rfloor> else \<lceil>x\<rceil>)"

definition double_to_u8 :: "real \<Rightarrow> ('z board_scheme, u8) state" where
  "double_to_u8 x =
     (if 0 \<le> trunc x \<and> trunc x < 256 then ret (word_of_int (trunc x))
      else do { fault FloatToIntOverflow; ask junk8 })"

section \<open>The heap\<close>

text \<open>
  A device structure lives at an address. \<open>rt_calloc\<close> hands out an address not in use;
  which addresses are live is read off the history.
\<close>

fun live_step :: "nat set \<Rightarrow> ev \<Rightarrow> nat set" where
  "live_step L (Alloc a) = insert a L"
| "live_step L (Free a) = L - {a}"
| "live_step L _ = L"

definition live :: "ev list \<Rightarrow> nat set" where
  "live h = foldl live_step {} h"

definition fresh_addr :: "ev list \<Rightarrow> nat" where
  "fresh_addr h = Suc (fold max (concat (map (\<lambda>e. case e of Alloc a \<Rightarrow> [a] | _ \<Rightarrow> []) h)) 0)"

definition rt_calloc :: "('z board_scheme, nat option) state" where
  "rt_calloc = do {
     ok \<leftarrow> ask alloc_ok;
     a \<leftarrow> gets (\<lambda>s. fresh_addr (hist s));
     if ok then do { emit (Alloc a); ret (Some a) } else ret None
   }"

definition rt_free :: "nat \<Rightarrow> ('z board_scheme, unit) state" where
  "rt_free a = emit (Free a)"

text \<open>Every access through a pointer: undefined behaviour when its target was freed.\<close>

definition deref :: "nat \<Rightarrow> ('z board_scheme, unit) state" where
  "deref a = do {
     h \<leftarrow> gets hist;
     when_true (a \<notin> live h) (fault (UseAfterFree a))
   }"

text \<open>Allocating a zeroed structure, and loading and storing through a pointer to it.\<close>

definition calloc_struct :: "cstruct \<Rightarrow> ('z board_scheme, nat option) state" where
  "calloc_struct c = do {
     p \<leftarrow> rt_calloc;
     case p of
       None \<Rightarrow> ret None
     | Some a \<Rightarrow> do { modify (\<lambda>s. s\<lparr>heap := (heap s)(a \<mapsto> c)\<rparr>); ret (Some a) }
   }"

definition load_i2c :: "nat \<Rightarrow> ('z board_scheme, i2c_device_struct) state" where
  "load_i2c a = do {
     deref a;
     h \<leftarrow> gets heap;
     ret (case h a of Some (I2c_struct d) \<Rightarrow> d | _ \<Rightarrow> zero_i2c_device)
   }"

definition store_i2c :: "nat \<Rightarrow> i2c_device_struct \<Rightarrow> ('z board_scheme, unit) state" where
  "store_i2c a d = do {
     deref a;
     modify (\<lambda>s. s\<lparr>heap := (heap s)(a \<mapsto> I2c_struct d)\<rparr>)
   }"

definition load_bme :: "nat \<Rightarrow> ('z board_scheme, bme280_device_struct) state" where
  "load_bme a = do {
     deref a;
     h \<leftarrow> gets heap;
     ret (case h a of Some (Bme_struct d) \<Rightarrow> d | _ \<Rightarrow> zero_bme280_device)
   }"

definition store_bme :: "nat \<Rightarrow> bme280_device_struct \<Rightarrow> ('z board_scheme, unit) state" where
  "store_bme a d = do {
     deref a;
     modify (\<lambda>s. s\<lparr>heap := (heap s)(a \<mapsto> Bme_struct d)\<rparr>)
   }"

lemma live_Nil [simp]: "live [] = {}"
  by (simp add: live_def)

lemma live_snoc [simp]: "live (h @ [e]) = live_step (live h) e"
  by (simp add: live_def)

lemma live_append: "live (h @ es) = foldl live_step (live h) es"
  by (simp add: live_def)

lemma run_rt_free [simp, run_simps]:
  "run_state (rt_free a) s = ((), s\<lparr>hist := hist s @ [Free a]\<rparr>)"
  by (simp add: rt_free_def)

lemma run_rt_calloc:
  "run_state rt_calloc s =
     (if alloc_ok (env s) (hist s)
      then (Some (fresh_addr (hist s)), s\<lparr>hist := hist s @ [Alloc (fresh_addr (hist s))]\<rparr>)
      else (None, s))"
  by (simp add: rt_calloc_def)

lemma run_deref:
  "run_state (deref a) s =
     ((), if a \<in> live (hist s) then s else s\<lparr>hist := hist s @ [Fault (UseAfterFree a)]\<rparr>)"
  by (simp add: deref_def)

text \<open>An answer of the environment that does not matter.\<close>

lemma yields_ask: "(\<And>x. yields I k (f x) y l) \<Longrightarrow> yields I k (ask g \<bind> f) y l"
  by (simp add: yields_def)

section \<open>Operations that only append events\<close>

text \<open>
  Most driver operations leave the program's variables alone: they extend the history,
  and every event they add is of a known kind.
\<close>

definition appends :: "(ev \<Rightarrow> bool) \<Rightarrow> ('z board_scheme, 'a) state \<Rightarrow> bool" where
  "appends P m \<longleftrightarrow>
     (\<forall>s. \<exists>es. snd (run_state m s) = s\<lparr>hist := hist s @ es\<rparr> \<and> list_all P es)"

lemma appendsD:
  assumes "appends P m" and "run_state m s = (a, t)"
  obtains es where "t = s\<lparr>hist := hist s @ es\<rparr>" and "list_all P es"
proof -
  from assms(1) obtain es
    where "snd (run_state m s) = s\<lparr>hist := hist s @ es\<rparr>" "list_all P es"
    unfolding appends_def by blast
  with assms(2) that show ?thesis by simp
qed

lemma appendsI:
  assumes "\<And>s. snd (run_state m s) = s\<lparr>hist := hist s @ f s\<rparr>" and "\<And>s. list_all P (f s)"
  shows "appends P m"
  unfolding appends_def using assms by blast

lemma appends_ret [frame_intros]: "appends P (ret a)"
  unfolding appends_def by (auto intro: exI [of _ "[]"])

lemma appends_gets [frame_intros]: "appends P (gets f)"
  unfolding appends_def by (auto intro: exI [of _ "[]"])

lemma appends_ask [frame_intros]: "appends P (ask f)"
  unfolding appends_def by (auto intro: exI [of _ "[]"])

lemma appends_emit [frame_intros]: "P e \<Longrightarrow> appends P (emit e)"
  unfolding appends_def by (auto intro: exI [of _ "[e]"])

lemma appends_bind [frame_intros]:
  assumes "appends P m" and "\<And>a. appends P (f a)"
  shows "appends P (m \<bind> f)"
  unfolding appends_def
proof
  fix s
  obtain a t where t: "run_state m s = (a, t)" by (cases "run_state m s")
  obtain es where es: "t = s\<lparr>hist := hist s @ es\<rparr>" "list_all P es"
    using appendsD [OF assms(1) t] .
  obtain b u where u: "run_state (f a) t = (b, u)" by (cases "run_state (f a) t")
  obtain fs where fs: "u = t\<lparr>hist := hist t @ fs\<rparr>" "list_all P fs"
    using appendsD [OF assms(2) u] .
  show "\<exists>es. snd (run_state (m \<bind> f) s) = s\<lparr>hist := hist s @ es\<rparr> \<and> list_all P es"
    using t u es fs by (auto intro!: exI [of _ "es @ fs"])
qed

lemma appends_if [frame_intros]:
  "(c \<Longrightarrow> appends P m) \<Longrightarrow> (\<not> c \<Longrightarrow> appends P n) \<Longrightarrow> appends P (if c then m else n)"
  by simp

lemma appends_when_true [frame_intros]:
  "(c \<Longrightarrow> appends P m) \<Longrightarrow> appends P (when_true c m)"
  by (simp add: when_true_def appends_ret)

lemma appends_for_each [frame_intros]:
  "(\<And>x. appends P (body x)) \<Longrightarrow> appends P (for_each xs body)"
  by (induction xs) (auto intro: frame_intros)

lemma appends_case_option [frame_intros]:
  "appends P m \<Longrightarrow> (\<And>x. appends P (f x)) \<Longrightarrow> appends P (case_option m f v)"
  by (cases v) auto

lemma appends_let [frame_intros]: "appends P (f v) \<Longrightarrow> appends P (let x = v in f x)"
  by simp

lemma appends_env: "appends P m \<Longrightarrow> env (snd (run_state m s)) = env s"
  unfolding appends_def by (metis board.select_convs board.surjective board.update_convs(1))

lemma appends_mono: "appends P m \<Longrightarrow> (\<And>e. P e \<Longrightarrow> Q e) \<Longrightarrow> appends Q m"
  unfolding appends_def by (meson list.pred_mono_strong)

text \<open>Such operations leave every part of the memory alone that does not depend on the history.\<close>

lemma appends_keeps: "appends P m \<Longrightarrow> (\<And>s h. f (s\<lparr>hist := h\<rparr>) = f s) \<Longrightarrow> keeps f m"
  unfolding appends_def keeps_def by metis

lemma keeps_emit [keep_intros]: "(\<And>s h. f (s\<lparr>hist := h\<rparr>) = f s) \<Longrightarrow> keeps f (emit e)"
  by (simp add: keeps_def)

lemma keeps_ask [keep_intros]: "keeps f (ask g)"
  by (simp add: keeps_def)

text \<open>The weaker frame: the history is extended, other variables may change.\<close>

definition extends :: "(ev \<Rightarrow> bool) \<Rightarrow> ('z board_scheme, 'a) state \<Rightarrow> bool" where
  "extends P m \<longleftrightarrow> (\<forall>s. \<exists>es. hist (snd (run_state m s)) = hist s @ es \<and>
     env (snd (run_state m s)) = env s \<and> list_all P es)"

named_theorems extend_intros \<open>frame rules of extends\<close>

lemma extendsD:
  assumes "extends P m" and "run_state m s = (a, t)"
  obtains es where "hist t = hist s @ es" and "env t = env s" and "list_all P es"
  using assms unfolding extends_def by (metis snd_conv)

lemma extends_appends: "appends P m \<Longrightarrow> extends P m"
  unfolding appends_def extends_def
  by (metis board.select_convs board.surjective board.update_convs(1))

lemma extends_bind [extend_intros]:
  assumes "extends P m" and "\<And>a. extends P (f a)"
  shows "extends P (m \<bind> f)"
  unfolding extends_def
proof
  fix s
  obtain a t b u where t: "run_state m s = (a, t)" and u: "run_state (f a) t = (b, u)"
    by (metis prod.exhaust)
  obtain es where es: "hist t = hist s @ es" "env t = env s" "list_all P es"
    using extendsD [OF assms(1) t] .
  obtain fs where fs: "hist u = hist t @ fs" "env u = env t" "list_all P fs"
    using extendsD [OF assms(2) u] .
  show "\<exists>es. hist (snd (run_state (m \<bind> f) s)) = hist s @ es \<and>
      env (snd (run_state (m \<bind> f) s)) = env s \<and> list_all P es"
    using t u es fs by (auto intro!: exI [of _ "es @ fs"])
qed

lemma extends_prims [extend_intros]:
  "extends P (ret a)" "extends P (gets f)" "extends P (ask g)"
  by (simp_all add: extends_def)

lemma extends_emit [extend_intros]: "P e \<Longrightarrow> extends P (emit e)"
  by (simp add: extends_def)

lemma extends_modify [extend_intros]:
  "(\<And>s. hist (f s) = hist s \<and> env (f s) = env s) \<Longrightarrow> extends P (modify f)"
  by (simp add: extends_def)

lemma extends_if [extend_intros]:
  "(c \<Longrightarrow> extends P m) \<Longrightarrow> (\<not> c \<Longrightarrow> extends P n) \<Longrightarrow> extends P (if c then m else n)"
  by simp

lemma extends_when_true [extend_intros]:
  "(c \<Longrightarrow> extends P m) \<Longrightarrow> extends P (when_true c m)"
  by (simp add: when_true_def extends_prims)

lemma extends_for_each [extend_intros]:
  "(\<And>x. extends P (body x)) \<Longrightarrow> extends P (for_each xs body)"
  by (induction xs) (auto intro: extend_intros)

lemma extends_case_option [extend_intros]:
  "extends P m \<Longrightarrow> (\<And>x. extends P (f x)) \<Longrightarrow> extends P (case_option m f v)"
  by (cases v) auto

lemma extends_case_prod [extend_intros]:
  "(\<And>x y. extends P (f x y)) \<Longrightarrow> extends P (case_prod f v)"
  by (cases v) auto

lemma extends_let [extend_intros]: "extends P (f v) \<Longrightarrow> extends P (let x = v in f x)"
  by simp

lemma extends_mono: "extends P m \<Longrightarrow> (\<And>e. P e \<Longrightarrow> Q e) \<Longrightarrow> extends Q m"
  unfolding extends_def by (meson list.pred_mono_strong)

section \<open>Faults\<close>

fun is_fault :: "ev \<Rightarrow> bool" where
  "is_fault (Fault _) = True"
| "is_fault _ = False"

definition fault_free :: "ev list \<Rightarrow> bool" where
  "fault_free h \<longleftrightarrow> list_all (\<lambda>e. \<not> is_fault e) h"

lemma fault_free_append [simp]: "fault_free (g @ h) \<longleftrightarrow> fault_free g \<and> fault_free h"
  by (simp add: fault_free_def)

lemma fault_free_Nil [simp]: "fault_free []"
  by (simp add: fault_free_def)

lemma fault_free_Cons [simp]: "fault_free (e # h) \<longleftrightarrow> \<not> is_fault e \<and> fault_free h"
  by (simp add: fault_free_def)

end
