(* ===== verification/Gpio.thy ===== *)
theory Gpio
  imports Board
begin

text \<open>
  \<open>src/drivers/drv_gpio.c\<close>: the STM32 pin driver behind RT-Thread's \<open>rt_pin_*\<close> calls, in
  the configuration of this board (ports A to G, series F1). Pins of the same number on
  different ports share one external-interrupt line, and the lines 5 to 9 and 10 to 15
  share one interrupt vector each; the driver's table and mask keep track of that.

  The locale \<open>irq_pins\<close> states what clients may rely on when they install a handler, and
  is interpreted on the driver at the end.
\<close>

section \<open>Constants\<close>

datatype pin_mode =
    PIN_MODE_OUTPUT | PIN_MODE_INPUT | PIN_MODE_INPUT_PULLUP | PIN_MODE_INPUT_PULLDOWN
  | PIN_MODE_OUTPUT_OD

datatype pin_irq_mode =
    PIN_IRQ_MODE_RISING | PIN_IRQ_MODE_FALLING | PIN_IRQ_MODE_RISING_FALLING
  | PIN_IRQ_MODE_HIGH_LEVEL | PIN_IRQ_MODE_LOW_LEVEL

text \<open>\<open>GET_PIN(port, n)\<close> of \<open>drv_common.h\<close>; ports are numbered from \<open>GPIOA = 0\<close>.\<close>

definition GET_PIN :: "nat \<Rightarrow> nat \<Rightarrow> int" where
  "GET_PIN port n = 16 * int port + int n"

section \<open>State: the handler table and the enable mask\<close>

record rt_pin_irq_hdr =
  ih_pin :: int
  ih_mode :: pin_irq_mode
  ih_hdr :: "irq_handler option"
  ih_args :: nat  \<comment> \<open>0 is \<open>RT_NULL\<close>\<close>

record gpio_st = board +
  pin_irq_hdr_tab :: "rt_pin_irq_hdr list"
  pin_irq_enable_mask :: u32

definition empty_hdr :: rt_pin_irq_hdr where
  "empty_hdr = \<lparr>ih_pin = -1, ih_mode = PIN_IRQ_MODE_RISING, ih_hdr = None, ih_args = 0\<rparr>"

definition init_irq_hdr_tab :: "rt_pin_irq_hdr list" where
  "init_irq_hdr_tab = replicate 16 empty_hdr"

section \<open>Pin lookup\<close>

text \<open>
  The table \<open>pins\<close> lists the 16 pins of each port in order, so entry \<open>p\<close> is pin
  \<open>p mod 16\<close> of port \<open>p div 16\<close>. The STM32F103xE defines the ports A to G.
\<close>

definition pins :: "(nat \<times> u32) list" where
  "pins = map (\<lambda>p. (p div 16, 2 ^ (p mod 16))) [0..<112]"

definition get_pin :: "u8 \<Rightarrow> (nat \<times> u32) option" where
  "get_pin pin = (if unat pin < length pins then Some (pins ! unat pin) else None)"

fun bit2bitno_from :: "nat \<Rightarrow> nat \<Rightarrow> u32 \<Rightarrow> int" where
  "bit2bitno_from 0 i b = -1"
| "bit2bitno_from (Suc fuel) i b =
     (if push_bit i 1 = b then int i else bit2bitno_from fuel (Suc i) b)"

text \<open>The loop runs \<open>i\<close> from 0 to 31.\<close>

definition bit2bitno :: "u32 \<Rightarrow> int" where
  "bit2bitno b = bit2bitno_from 32 0 b"

definition pin_irq_map :: "(u32 \<times> irqn) list" where
  "pin_irq_map =
     [(2 ^ 0, EXTI0), (2 ^ 1, EXTI1), (2 ^ 2, EXTI2), (2 ^ 3, EXTI3), (2 ^ 4, EXTI4),
      (2 ^ 5, EXTI9_5), (2 ^ 6, EXTI9_5), (2 ^ 7, EXTI9_5), (2 ^ 8, EXTI9_5), (2 ^ 9, EXTI9_5),
      (2 ^ 10, EXTI15_10), (2 ^ 11, EXTI15_10), (2 ^ 12, EXTI15_10), (2 ^ 13, EXTI15_10),
      (2 ^ 14, EXTI15_10), (2 ^ 15, EXTI15_10)]"

definition get_pin_irq_map :: "u32 \<Rightarrow> (u32 \<times> irqn) option" where
  "get_pin_irq_map pinbit =
     (let mapindex = bit2bitno pinbit in
      if mapindex < 0 \<or> mapindex \<ge> int (length pin_irq_map) then None
      else Some (pin_irq_map ! nat mapindex))"

text \<open>Which of the 32 bit positions a mask names, for the HAL events.\<close>

definition pin_no :: "u32 \<Rightarrow> nat" where
  "pin_no pinbit = nat (bit2bitno pinbit)"

section \<open>Reading, writing and configuring a pin\<close>

definition stm32_pin_write :: "int \<Rightarrow> bool \<Rightarrow> ('z board_scheme, unit) state" where
  "stm32_pin_write pin v =
     (case get_pin (word_of_int pin) of
        None \<Rightarrow> ret ()
      | Some (port, pinbit) \<Rightarrow> emit (HalWritePin port (pin_no pinbit) v))"

definition stm32_pin_read :: "int \<Rightarrow> ('z board_scheme, bool) state" where
  "stm32_pin_read pin =
     (case get_pin (word_of_int pin) of
        None \<Rightarrow> ret False
      | Some (port, pinbit) \<Rightarrow> do {
          v \<leftarrow> ask (\<lambda>e h. pin_level e h port (pin_no pinbit));
          emit (HalReadPin port (pin_no pinbit) v);
          ret v
        })"

fun mode_settings :: "pin_mode \<Rightarrow> gpio_mode \<times> gpio_pull" where
  "mode_settings PIN_MODE_OUTPUT = (GPIO_MODE_OUTPUT_PP, GPIO_NOPULL)"
| "mode_settings PIN_MODE_INPUT = (GPIO_MODE_INPUT, GPIO_NOPULL)"
| "mode_settings PIN_MODE_INPUT_PULLUP = (GPIO_MODE_INPUT, GPIO_PULLUP)"
| "mode_settings PIN_MODE_INPUT_PULLDOWN = (GPIO_MODE_INPUT, GPIO_PULLDOWN)"
| "mode_settings PIN_MODE_OUTPUT_OD = (GPIO_MODE_OUTPUT_OD, GPIO_NOPULL)"

definition stm32_pin_mode :: "int \<Rightarrow> pin_mode \<Rightarrow> ('z board_scheme, unit) state" where
  "stm32_pin_mode pin mode =
     (case get_pin (word_of_int pin) of
        None \<Rightarrow> ret ()
      | Some (port, pinbit) \<Rightarrow>
          (case mode_settings mode of (m, pull) \<Rightarrow>
             emit (HalGpioInit port (pin_no pinbit) m pull)))"

section \<open>Installing, removing and enabling handlers\<close>

definition stm32_pin_attach_irq ::
  "int \<Rightarrow> pin_irq_mode \<Rightarrow> irq_handler option \<Rightarrow> nat \<Rightarrow> ('z gpio_st_scheme, int) state" where
  "stm32_pin_attach_irq pin mode hdr args =
     (case get_pin (word_of_int pin) of
        None \<Rightarrow> ret RT_ENOSYS
      | Some (port, pinbit) \<Rightarrow>
          let irqindex = bit2bitno pinbit in
          if irqindex < 0 \<or> irqindex \<ge> int (length pin_irq_map) then ret RT_ENOSYS
          else do {
            tab \<leftarrow> gets pin_irq_hdr_tab;
            let e = tab ! nat irqindex;
            if ih_pin e = pin \<and> ih_hdr e = hdr \<and> ih_mode e = mode \<and> ih_args e = args
            then ret RT_EOK
            else if ih_pin e \<noteq> -1 then ret RT_EBUSY
            else do {
              modify (\<lambda>s. s\<lparr>pin_irq_hdr_tab := tab[nat irqindex :=
                \<lparr>ih_pin = pin, ih_mode = mode, ih_hdr = hdr, ih_args = args\<rparr>]\<rparr>);
              ret RT_EOK
            }
          })"

definition stm32_pin_dettach_irq :: "int \<Rightarrow> ('z gpio_st_scheme, int) state" where
  "stm32_pin_dettach_irq pin =
     (case get_pin (word_of_int pin) of
        None \<Rightarrow> ret RT_ENOSYS
      | Some (port, pinbit) \<Rightarrow>
          let irqindex = bit2bitno pinbit in
          if irqindex < 0 \<or> irqindex \<ge> int (length pin_irq_map) then ret RT_ENOSYS
          else do {
            tab \<leftarrow> gets pin_irq_hdr_tab;
            if ih_pin (tab ! nat irqindex) = -1 then ret RT_EOK
            else do {
              modify (\<lambda>s. s\<lparr>pin_irq_hdr_tab := tab[nat irqindex := empty_hdr]\<rparr>);
              ret RT_EOK
            }
          })"

text \<open>
  The interrupt mode set up by \<open>PIN_IRQ_ENABLE\<close>. The switch has no case for the two
  level modes: \<open>HAL_GPIO_Init\<close> then gets uninitialised fields.
\<close>

fun irq_mode_settings :: "pin_irq_mode \<Rightarrow> (gpio_mode \<times> gpio_pull) option" where
  "irq_mode_settings PIN_IRQ_MODE_RISING = Some (GPIO_MODE_IT_RISING, GPIO_PULLDOWN)"
| "irq_mode_settings PIN_IRQ_MODE_FALLING = Some (GPIO_MODE_IT_FALLING, GPIO_PULLUP)"
| "irq_mode_settings PIN_IRQ_MODE_RISING_FALLING = Some (GPIO_MODE_IT_RISING_FALLING, GPIO_NOPULL)"
| "irq_mode_settings PIN_IRQ_MODE_HIGH_LEVEL = None"
| "irq_mode_settings PIN_IRQ_MODE_LOW_LEVEL = None"

definition lines_9_5 :: u32 where
  "lines_9_5 = 2 ^ 5 OR 2 ^ 6 OR 2 ^ 7 OR 2 ^ 8 OR 2 ^ 9"

definition lines_15_10 :: u32 where
  "lines_15_10 = 2 ^ 10 OR 2 ^ 11 OR 2 ^ 12 OR 2 ^ 13 OR 2 ^ 14 OR 2 ^ 15"

definition irq_enable_line :: "int \<Rightarrow> nat \<Rightarrow> u32 \<Rightarrow> ('z gpio_st_scheme, int) state" where
  "irq_enable_line pin port pinbit =
     (let irqindex = bit2bitno pinbit in
      if irqindex < 0 \<or> irqindex \<ge> int (length pin_irq_map) then ret RT_ENOSYS
      else do {
        tab \<leftarrow> gets pin_irq_hdr_tab;
        if ih_pin (tab ! nat irqindex) = -1 then ret RT_ENOSYS
        else do {
          let irqmap = pin_irq_map ! nat irqindex;
          (case irq_mode_settings (ih_mode (tab ! nat irqindex)) of
             Some (m, pull) \<Rightarrow> emit (HalGpioInit port (pin_no pinbit) m pull)
           | None \<Rightarrow> fault UninitialisedRead);
          emit (NvicSetPriority (snd irqmap) 5);
          emit (NvicEnable (snd irqmap));
          modify (\<lambda>s. s\<lparr>pin_irq_enable_mask := pin_irq_enable_mask s OR fst irqmap\<rparr>);
          ret RT_EOK
        }
      })"

definition irq_disable_line :: "nat \<Rightarrow> u32 \<Rightarrow> ('z gpio_st_scheme, int) state" where
  "irq_disable_line port pinbit =
     (case get_pin_irq_map pinbit of
        None \<Rightarrow> ret RT_ENOSYS
      | Some (mbit, irqno) \<Rightarrow> do {
          emit (HalGpioDeInit port (pin_no pinbit));
          modify (\<lambda>s. s\<lparr>pin_irq_enable_mask := pin_irq_enable_mask s AND NOT mbit\<rparr>);
          mask \<leftarrow> gets pin_irq_enable_mask;
          (if mbit \<ge> 2 ^ 5 \<and> mbit \<le> 2 ^ 9 then
             when_true (mask AND lines_9_5 = 0) (emit (NvicDisable irqno))
           else if mbit \<ge> 2 ^ 10 \<and> mbit \<le> 2 ^ 15 then
             when_true (mask AND lines_15_10 = 0) (emit (NvicDisable irqno))
           else emit (NvicDisable irqno));
          ret RT_EOK
        })"

abbreviation (input) PIN_IRQ_DISABLE :: nat where "PIN_IRQ_DISABLE \<equiv> 0"
abbreviation (input) PIN_IRQ_ENABLE :: nat where "PIN_IRQ_ENABLE \<equiv> 1"

definition stm32_pin_irq_enable :: "int \<Rightarrow> nat \<Rightarrow> ('z gpio_st_scheme, int) state" where
  "stm32_pin_irq_enable pin enabled =
     (case get_pin (word_of_int pin) of
        None \<Rightarrow> ret RT_ENOSYS
      | Some (port, pinbit) \<Rightarrow>
          if enabled = PIN_IRQ_ENABLE then irq_enable_line pin port pinbit
          else if enabled = PIN_IRQ_DISABLE then irq_disable_line port pinbit
          else ret (- RT_ENOSYS))"

section \<open>Dispatch\<close>

text \<open>
  \<open>pin_irq_hdr\<close> calls the handler installed for the line, if any. The model returns which
  handler is called; its body belongs to the component that installed it. A negative
  index would read before the table.
\<close>

definition pin_irq_hdr :: "int \<Rightarrow> ('z gpio_st_scheme, irq_handler option) state" where
  "pin_irq_hdr irqno =
     (if irqno < 0 \<or> irqno \<ge> 16 then do { fault BufferOverrun; ret None }
      else gets (\<lambda>s. ih_hdr (pin_irq_hdr_tab s ! nat irqno)))"

definition HAL_GPIO_EXTI_Callback :: "u32 \<Rightarrow> ('z gpio_st_scheme, irq_handler option) state" where
  "HAL_GPIO_EXTI_Callback pinbit = pin_irq_hdr (bit2bitno pinbit)"

text \<open>
  An interrupt vector asks each of its lines in turn; \<open>pending\<close> is the set of pending
  lines. The result lists the handlers called, in order.
\<close>

fun exti_lines :: "irqn \<Rightarrow> nat list" where
  "exti_lines EXTI0 = [0]"
| "exti_lines EXTI1 = [1]"
| "exti_lines EXTI2 = [2]"
| "exti_lines EXTI3 = [3]"
| "exti_lines EXTI4 = [4]"
| "exti_lines EXTI9_5 = [5, 6, 7, 8, 9]"
| "exti_lines EXTI15_10 = [10, 11, 12, 13, 14, 15]"

primrec exti_scan :: "nat list \<Rightarrow> nat set \<Rightarrow> ('z gpio_st_scheme, irq_handler list) state" where
  "exti_scan [] pending = ret []"
| "exti_scan (l # ls) pending =
     (if l \<in> pending then do {
        h \<leftarrow> HAL_GPIO_EXTI_Callback (2 ^ l);
        hs \<leftarrow> exti_scan ls pending;
        ret (case h of None \<Rightarrow> hs | Some x \<Rightarrow> x # hs)
      } else exti_scan ls pending)"

definition EXTI_IRQHandler :: "irqn \<Rightarrow> nat set \<Rightarrow> ('z gpio_st_scheme, irq_handler list) state" where
  "EXTI_IRQHandler v pending = exti_scan (exti_lines v) pending"

text \<open>
  The chip has the ports A to G; \<open>rt_device_pin_register\<close> stores the driver's operations and
  returns 0.
\<close>

definition rt_hw_pin_init :: "('z board_scheme, int) state" where
  "rt_hw_pin_init = do { for_each [0..<7] (\<lambda>p. emit (ClkEnable p)); ret RT_EOK }"

section \<open>Lookup facts\<close>

lemma length_pins [simp]: "length pins = 112"
  by (simp add: pins_def)

lemma length_pin_irq_map [simp]: "length pin_irq_map = 16"
  by (simp add: pin_irq_map_def)

lemma exp_u32_inject: "k < 32 \<Longrightarrow> i < 32 \<Longrightarrow> (2 :: u32) ^ i = 2 ^ k \<longleftrightarrow> i = k"
proof
  assume k: "k < 32" and i: "i < 32" and eq: "(2 :: u32) ^ i = 2 ^ k"
  have "bit ((2 :: u32) ^ i) k" using k eq by (simp add: bit_simps)
  then show "i = k" by (simp add: bit_simps)
qed simp

lemma bit2bitno_from_exp:
  "i \<le> k \<Longrightarrow> k < i + fuel \<Longrightarrow> k < 32 \<Longrightarrow> bit2bitno_from fuel i (2 ^ k) = int k"
proof (induction fuel arbitrary: i)
  case 0
  then show ?case by simp
next
  case (Suc fuel)
  have "(push_bit i (1 :: u32) = 2 ^ k) = (i = k)"
    using Suc.prems exp_u32_inject [of k i] by (simp add: push_bit_eq_mult)
  then show ?case
    using Suc by (cases "i = k") simp_all
qed

lemma bit2bitno_exp [simp]: "k < 32 \<Longrightarrow> bit2bitno (2 ^ k) = int k"
  unfolding bit2bitno_def by (rule bit2bitno_from_exp) simp_all

lemma pin_no_exp [simp]: "k < 32 \<Longrightarrow> pin_no (2 ^ k) = k"
  by (simp add: pin_no_def)

text \<open>The external-interrupt line of a pin.\<close>

definition line_of :: "int \<Rightarrow> nat option" where
  "line_of pin =
     (if unat (word_of_int pin :: u8) < 112
      then Some (unat (word_of_int pin :: u8) mod 16) else None)"

lemma get_pin_eq:
  "get_pin w = (if unat w < 112 then Some (unat w div 16, 2 ^ (unat w mod 16)) else None)"
  by (simp add: get_pin_def pins_def)

lemma line_of_less: "line_of pin = Some l \<Longrightarrow> l < 16"
  by (auto simp: line_of_def split: if_splits)

lemma get_pin_line:
  "line_of pin = Some l \<Longrightarrow>
     get_pin (word_of_int pin) = Some (unat (word_of_int pin :: u8) div 16, 2 ^ l)"
  by (auto simp: line_of_def get_pin_eq split: if_splits)

lemma pin_irq_map_fst: "l < 16 \<Longrightarrow> fst (pin_irq_map ! l) = 2 ^ l"
  by (auto simp: pin_irq_map_def less_Suc_eq numeral_eq_Suc nth_Cons split: nat.splits)

section \<open>The handler table as a map from lines to handlers\<close>

definition handler_on :: "'z gpio_st_scheme \<Rightarrow> nat \<Rightarrow> irq_handler option" where
  "handler_on s l = (if l < 16 then ih_hdr (pin_irq_hdr_tab s ! l) else None)"

definition irq_on :: "'z gpio_st_scheme \<Rightarrow> nat \<Rightarrow> bool" where
  "irq_on s l \<longleftrightarrow> l < 16 \<and> bit (pin_irq_enable_mask s) l"

definition hdr_ok :: "nat \<Rightarrow> rt_pin_irq_hdr \<Rightarrow> bool" where
  "hdr_ok l e \<longleftrightarrow> (if ih_pin e = -1 then e = empty_hdr
     else line_of (ih_pin e) = Some l \<and> ih_hdr e \<noteq> None)"

definition gpio_inv :: "'z gpio_st_scheme \<Rightarrow> bool" where
  "gpio_inv s \<longleftrightarrow> length (pin_irq_hdr_tab s) = 16 \<and>
     (\<forall>l < 16. hdr_ok l (pin_irq_hdr_tab s ! l))"

lemma gpio_inv_init: "pin_irq_hdr_tab s = init_irq_hdr_tab \<Longrightarrow> gpio_inv s"
  by (simp add: gpio_inv_def init_irq_hdr_tab_def hdr_ok_def empty_hdr_def)

lemma gpio_inv_update:
  assumes "gpio_inv s" and "hdr_ok l e"
  shows "gpio_inv (s\<lparr>pin_irq_hdr_tab := (pin_irq_hdr_tab s)[l := e]\<rparr>)"
  using assms by (auto simp: gpio_inv_def) (metis nth_list_update_eq nth_list_update_neq)

lemma gpio_inv_entry: "gpio_inv s \<Longrightarrow> l < 16 \<Longrightarrow> hdr_ok l (pin_irq_hdr_tab s ! l)"
  by (simp add: gpio_inv_def)

lemma handler_on_update:
  assumes "gpio_inv s" and "l < 16"
  shows "handler_on (s\<lparr>pin_irq_hdr_tab := (pin_irq_hdr_tab s)[l := e]\<rparr>) =
    (handler_on s)(l := ih_hdr e)"
  using assms by (auto simp: handler_on_def gpio_inv_def)

lemma gpio_inv_cong:
  "pin_irq_hdr_tab t = pin_irq_hdr_tab s \<Longrightarrow> gpio_inv t = gpio_inv s"
  by (simp add: gpio_inv_def)

lemma hdr_ok_empty [simp]: "hdr_ok l empty_hdr"
  by (simp add: hdr_ok_def empty_hdr_def)

lemma hdr_ok_new:
  "line_of pin = Some l \<Longrightarrow> pin \<noteq> -1 \<Longrightarrow>
     hdr_ok l \<lparr>ih_pin = pin, ih_mode = m, ih_hdr = Some h, ih_args = a\<rparr>"
  by (simp add: hdr_ok_def)

lemma line_of_neq_minus1: "line_of pin = Some l \<Longrightarrow> pin \<noteq> -1"
  by (auto simp: line_of_def unsigned_minus_1_eq_mask mask_eq_exp_minus_1 split: if_splits)

section \<open>The three operations on the map\<close>

lemma run_dettach:
  assumes "line_of pin = Some l" and "gpio_inv s"
  shows "run_state (stm32_pin_dettach_irq pin) s =
    (RT_EOK, s\<lparr>pin_irq_hdr_tab := (pin_irq_hdr_tab s)[l := empty_hdr]\<rparr>)"
proof -
  have l: "l < 16" using assms(1) by (rule line_of_less)
  have "pin_irq_hdr_tab s ! l = empty_hdr" if "ih_pin (pin_irq_hdr_tab s ! l) = -1"
    using gpio_inv_entry [OF assms(2) l] that by (simp add: hdr_ok_def)
  then have id: "(pin_irq_hdr_tab s)[l := empty_hdr] = pin_irq_hdr_tab s"
    if "ih_pin (pin_irq_hdr_tab s ! l) = -1"
    using that by (metis list_update_id)
  show ?thesis
    using l by (auto simp: stm32_pin_dettach_irq_def get_pin_line [OF assms(1)] Let_def id)
qed

lemma run_attach_free:
  assumes "line_of pin = Some l" and "gpio_inv s" and "handler_on s l = None"
  shows "run_state (stm32_pin_attach_irq pin mode (Some h) a) s =
    (RT_EOK, s\<lparr>pin_irq_hdr_tab := (pin_irq_hdr_tab s)[l :=
      \<lparr>ih_pin = pin, ih_mode = mode, ih_hdr = Some h, ih_args = a\<rparr>]\<rparr>)"
proof -
  have l: "l < 16" using assms(1) by (rule line_of_less)
  have none: "ih_hdr (pin_irq_hdr_tab s ! l) = None"
    using assms(3) l by (simp add: handler_on_def)
  then have "ih_pin (pin_irq_hdr_tab s ! l) = -1"
    using gpio_inv_entry [OF assms(2) l] by (auto simp: hdr_ok_def split: if_splits)
  then show ?thesis
    using l none by (auto simp: stm32_pin_attach_irq_def get_pin_line [OF assms(1)] Let_def)
qed

text \<open>A line that is taken refuses a second pin, and the table does not change.\<close>

lemma run_attach_busy:
  assumes "line_of pin = Some l" and "gpio_inv s"
    and "ih_pin (pin_irq_hdr_tab s ! l) \<notin> {-1, pin}"
  shows "run_state (stm32_pin_attach_irq pin mode h a) s = (RT_EBUSY, s)"
  using assms line_of_less [OF assms(1)]
  by (auto simp: stm32_pin_attach_irq_def get_pin_line [OF assms(1)] Let_def)

lemma irq_enable_rising_event:
  assumes "line_of pin = Some l" and "gpio_inv s" and "handler_on s l \<noteq> None"
    and "ih_mode (pin_irq_hdr_tab s ! l) = PIN_IRQ_MODE_RISING"
  shows "run_state (stm32_pin_irq_enable pin PIN_IRQ_ENABLE) s =
    (RT_EOK, s\<lparr>hist := hist s @
        [HalGpioInit (unat (word_of_int pin :: u8) div 16) l GPIO_MODE_IT_RISING GPIO_PULLDOWN,
         NvicSetPriority (snd (pin_irq_map ! l)) 5, NvicEnable (snd (pin_irq_map ! l))],
      pin_irq_enable_mask := pin_irq_enable_mask s OR 2 ^ l\<rparr>)"
proof -
  have l: "l < 16" using assms(1) by (rule line_of_less)
  have "ih_pin (pin_irq_hdr_tab s ! l) \<noteq> -1"
    using gpio_inv_entry [OF assms(2) l] assms(3) l
    by (auto simp: hdr_ok_def handler_on_def empty_hdr_def split: if_splits)
  then show ?thesis
    using l assms(4)
    by (simp add: stm32_pin_irq_enable_def get_pin_line [OF assms(1)] irq_enable_line_def Let_def
        pin_irq_map_fst)
qed

section \<open>The interface clients rely on\<close>

text \<open>
  What a client may assume of the pin interrupt calls: taking a pin's handler off always
  succeeds, a free line accepts a handler, and a line with a handler can be enabled. All
  of it in terms of the map from lines to handlers; the operations keep the invariant.
\<close>

locale irq_pins =
  fixes attach :: "int \<Rightarrow> irq_handler \<Rightarrow> ('s, int) state"
    and detach :: "int \<Rightarrow> ('s, int) state"
    and enable :: "int \<Rightarrow> ('s, int) state"
    and installed :: "'s \<Rightarrow> nat \<Rightarrow> irq_handler option"
    and enabled :: "'s \<Rightarrow> nat \<Rightarrow> bool"
    and rising :: "'s \<Rightarrow> nat \<Rightarrow> bool"
    and line :: "int \<Rightarrow> nat option"
    and inv :: "'s \<Rightarrow> bool"
  assumes detach_ok: "line p = Some l \<Longrightarrow> inv s \<Longrightarrow> run_state (detach p) s = (r, t) \<Longrightarrow>
      r = 0 \<and> installed t = (installed s)(l := None) \<and> enabled t = enabled s \<and> inv t"
    and attach_ok: "line p = Some l \<Longrightarrow> inv s \<Longrightarrow> installed s l = None \<Longrightarrow>
      run_state (attach p h) s = (r, t) \<Longrightarrow>
      r = 0 \<and> installed t = (installed s)(l := Some h) \<and> enabled t = enabled s \<and>
      rising t l \<and> inv t"
    and enable_ok: "line p = Some l \<Longrightarrow> inv s \<Longrightarrow> installed s l \<noteq> None \<Longrightarrow> rising s l \<Longrightarrow>
      run_state (enable p) s = (r, t) \<Longrightarrow>
      r = 0 \<and> installed t = installed s \<and> enabled t = (enabled s)(l := True) \<and> inv t"
begin

text \<open>
  The rebinding sequence of the scenes: whatever was installed before, afterwards
  exactly the new handler is on the line, and the line is enabled.
\<close>

lemma rebind:
  assumes "line p = Some l" and "inv s"
    and "run_state (do { detach p; attach p h; enable p }) s = (r, t)"
  shows "r = 0 \<and> installed t = (installed s)(l := Some h) \<and>
    enabled t = (enabled s)(l := True) \<and> inv t"
proof -
  obtain r1 s1 where 1: "run_state (detach p) s = (r1, s1)" by (cases "run_state (detach p) s")
  obtain r2 s2 where 2: "run_state (attach p h) s1 = (r2, s2)"
    by (cases "run_state (attach p h) s1")
  obtain r3 s3 where 3: "run_state (enable p) s2 = (r3, s3)" by (cases "run_state (enable p) s2")
  note d = detach_ok [OF assms(1,2) 1]
  then have free: "installed s1 l = None" by simp
  have a: "r2 = 0 \<and> installed s2 = (installed s1)(l := Some h) \<and> enabled s2 = enabled s1 \<and>
      rising s2 l \<and> inv s2"
    using attach_ok [OF assms(1) _ free 2] d by blast
  then have "installed s2 l \<noteq> None" "rising s2 l" "inv s2" by auto
  from enable_ok [OF assms(1) this(3,1,2) 3] a d 1 2 3 assms(3)
  show ?thesis by auto
qed

end

definition line_rising :: "'z gpio_st_scheme \<Rightarrow> nat \<Rightarrow> bool" where
  "line_rising s l \<longleftrightarrow> ih_mode (pin_irq_hdr_tab s ! l) = PIN_IRQ_MODE_RISING"

lemma irq_on_or:
  "l < 16 \<Longrightarrow> pin_irq_enable_mask t = pin_irq_enable_mask s OR 2 ^ l \<Longrightarrow>
     irq_on t = (irq_on s)(l := True)"
  by (auto simp: irq_on_def bit_simps fun_eq_iff)

lemma irq_on_frame [simp]:
  "irq_on (s\<lparr>pin_irq_hdr_tab := tab\<rparr>) = irq_on s" "irq_on (s\<lparr>hist := h\<rparr>) = irq_on s"
  by (simp_all add: irq_on_def fun_eq_iff)

lemma handler_on_frame [simp]:
  "handler_on (s\<lparr>hist := h\<rparr>) = handler_on s"
  "handler_on (s\<lparr>pin_irq_enable_mask := m\<rparr>) = handler_on s"
  by (simp_all add: handler_on_def fun_eq_iff)

lemma gpio_inv_frame [simp]:
  "gpio_inv (s\<lparr>hist := h\<rparr>) = gpio_inv s"
  "gpio_inv (s\<lparr>pin_irq_enable_mask := m\<rparr>) = gpio_inv s"
  by (simp_all add: gpio_inv_def)

interpretation stm32_pins: irq_pins
  "\<lambda>p h. stm32_pin_attach_irq p PIN_IRQ_MODE_RISING (Some h) 0" stm32_pin_dettach_irq
  "\<lambda>p. stm32_pin_irq_enable p PIN_IRQ_ENABLE" handler_on irq_on line_rising line_of gpio_inv
proof unfold_locales
  fix p l and s t :: "'a gpio_st_scheme" and r
  assume "line_of p = Some l" "gpio_inv s" "run_state (stm32_pin_dettach_irq p) s = (r, t)"
  then show "r = 0 \<and> handler_on t = (handler_on s)(l := None) \<and> irq_on t = irq_on s \<and> gpio_inv t"
    using line_of_less by (auto simp: run_dettach handler_on_update gpio_inv_update empty_hdr_def [symmetric])
      (simp_all add: empty_hdr_def)
next
  fix p l h and s t :: "'a gpio_st_scheme" and r
  assume l: "line_of p = Some l" and inv: "gpio_inv s" and free: "handler_on s l = None"
    and run: "run_state (stm32_pin_attach_irq p PIN_IRQ_MODE_RISING (Some h) 0) s = (r, t)"
  have "l < 16" and len: "length (pin_irq_hdr_tab s) = 16"
    using l inv by (auto simp: gpio_inv_def dest: line_of_less)
  then show "r = 0 \<and> handler_on t = (handler_on s)(l := Some h) \<and> irq_on t = irq_on s \<and>
      line_rising t l \<and> gpio_inv t"
    using run inv l unfolding run_attach_free [OF l inv free]
    by (auto simp: handler_on_update line_rising_def hdr_ok_new [OF l line_of_neq_minus1 [OF l]]
        intro!: gpio_inv_update)
next
  fix p l and s t :: "'a gpio_st_scheme" and r
  assume l: "line_of p = Some l" and inv: "gpio_inv s" and has: "handler_on s l \<noteq> None"
    and up: "line_rising s l" and run: "run_state (stm32_pin_irq_enable p PIN_IRQ_ENABLE) s = (r, t)"
  note eq = irq_enable_rising_event [OF l inv has up [unfolded line_rising_def]]
  show "r = 0 \<and> handler_on t = handler_on s \<and> irq_on t = (irq_on s)(l := True) \<and> gpio_inv t"
    using run inv unfolding eq by (auto intro!: irq_on_or line_of_less [OF l])
qed

section \<open>Shared interrupt vectors\<close>

lemma bit_exp_u32: "bit ((2 :: u32) ^ m) n \<longleftrightarrow> n = m \<and> m < 32"
  by (auto simp: bit_exp_iff)

lemma bit_lines_9_5: "bit lines_9_5 n \<longleftrightarrow> 5 \<le> n \<and> n \<le> 9"
  unfolding lines_9_5_def bit_or_iff bit_exp_u32 by auto

lemma bit_lines_15_10: "bit lines_15_10 n \<longleftrightarrow> 10 \<le> n \<and> n \<le> 15"
  unfolding lines_15_10_def bit_or_iff bit_exp_u32 by auto

lemma and_eq_0_iff_bits:
  "(m AND k = (0 :: u32)) \<longleftrightarrow> (\<forall>n. bit k n \<longrightarrow> \<not> bit m n)"
  unfolding bit_eq_iff bit_and_iff by (metis bit_0_eq bot_apply bot_bool_def bit_imp_possible_bit)

lemma less_16_cases:
  "l < 16 \<longleftrightarrow> l \<in> {0, 1, 2, 3, 4, 5, 6, 7, 8, 9, 10, 11, 12, 13, 14, 15 :: nat}"
  unfolding insert_iff empty_iff by presburger

lemma exti_lines_vector:
  assumes "l < 16"
  shows "set (exti_lines (snd (pin_irq_map ! l))) =
    (if 5 \<le> l \<and> l \<le> 9 then {5..9} else if 10 \<le> l then {10..15} else {l})"
proof -
  have r: "{5..9} = {5, 6, 7, 8, 9 :: nat}" "{10..15} = {10, 11, 12, 13, 14, 15 :: nat}" by auto
  show ?thesis
    using assms unfolding less_16_cases insert_iff empty_iff r
    by (elim disjE FalseE) (simp_all add: pin_irq_map_def)
qed

lemma get_pin_irq_map_exp:
  "l < 16 \<Longrightarrow> get_pin_irq_map (2 ^ l) = Some (2 ^ l, snd (pin_irq_map ! l))"
  using pin_irq_map_fst [of l] by (simp add: get_pin_irq_map_def prod_eq_iff)

lemma exp_le_exp_u32: "i < 32 \<Longrightarrow> j < 32 \<Longrightarrow> (2 :: u32) ^ i \<le> 2 ^ j \<longleftrightarrow> i \<le> j"
  by (simp add: word_le_def uint_2p word_gt_0)

lemma run_irq_disable:
  assumes "line_of pin = Some l"
  shows "run_state (stm32_pin_irq_enable pin PIN_IRQ_DISABLE) s =
    (RT_EOK, s\<lparr>hist := hist s @ HalGpioDeInit (unat (word_of_int pin :: u8) div 16) l #
        (if \<forall>l' \<in> set (exti_lines (snd (pin_irq_map ! l))) - {l}. \<not> irq_on s l'
         then [NvicDisable (snd (pin_irq_map ! l))] else []),
      pin_irq_enable_mask := pin_irq_enable_mask s AND NOT (2 ^ l)\<rparr>)"
proof -
  have l: "l < 16" using assms by (rule line_of_less)
  let ?m = "pin_irq_enable_mask s AND NOT (2 ^ l)"
  have bitm: "bit ?m n \<longleftrightarrow> bit (pin_irq_enable_mask s) n \<and> n \<noteq> l" if "n < 16" for n
    using that by (auto simp: bit_simps)
  have ge5: "(32 :: u32) \<le> 2 ^ l \<longleftrightarrow> 5 \<le> l" and le9: "(2 :: u32) ^ l \<le> 512 \<longleftrightarrow> l \<le> 9"
    and ge10: "(1024 :: u32) \<le> 2 ^ l \<longleftrightarrow> 10 \<le> l" and le15: "(2 :: u32) ^ l \<le> 32768"
    using exp_le_exp_u32 [of 5 l] exp_le_exp_u32 [of l 9] exp_le_exp_u32 [of 10 l]
      exp_le_exp_u32 [of l 15] l by simp_all
  have m1: "?m AND lines_9_5 = 0 \<longleftrightarrow> (\<forall>l' \<in> {5..9} - {l}. \<not> bit (pin_irq_enable_mask s) l')"
    using bitm by (auto simp: and_eq_0_iff_bits bit_lines_9_5)
  have m2: "?m AND lines_15_10 = 0 \<longleftrightarrow> (\<forall>l' \<in> {10..15} - {l}. \<not> bit (pin_irq_enable_mask s) l')"
    using bitm by (auto simp: and_eq_0_iff_bits bit_lines_15_10)
  have vec: "(\<forall>l' \<in> set (exti_lines (snd (pin_irq_map ! l))) - {l}. \<not> irq_on s l') \<longleftrightarrow>
      (if 5 \<le> l \<and> l \<le> 9 then ?m AND lines_9_5 = 0 else if 10 \<le> l then ?m AND lines_15_10 = 0
       else True)"
    unfolding m1 m2 exti_lines_vector [OF l] by (auto simp: irq_on_def)
  show ?thesis
    unfolding vec
    using l ge5 le9 ge10 le15
    by (simp add: stm32_pin_irq_enable_def get_pin_line [OF assms] irq_disable_line_def
        get_pin_irq_map_exp)
qed

section \<open>What the driver guarantees\<close>

lemma run_exti_scan:
  "\<forall>l \<in> set ls. l < 16 \<Longrightarrow>
     run_state (exti_scan ls P) s =
       (List.map_filter (\<lambda>l. if l \<in> P then handler_on s l else None) ls, s)"
  by (induction ls)
    (auto simp: HAL_GPIO_EXTI_Callback_def pin_irq_hdr_def handler_on_def split: option.splits)

lemma exti_lines_less_16: "l \<in> set (exti_lines v) \<Longrightarrow> l < 16"
  by (cases v) auto

lemma run_EXTI_IRQHandler [run_simps]:
  "run_state (EXTI_IRQHandler v P) s =
     (List.map_filter (\<lambda>l. if l \<in> P then handler_on s l else None) (exti_lines v), s)"
  unfolding EXTI_IRQHandler_def by (rule run_exti_scan) (blast dest: exti_lines_less_16)

lemma exti_lines_vector_split:
  assumes "l < 16"
  obtains xs ys where "exti_lines (snd (pin_irq_map ! l)) = xs @ l # ys"
    and "l \<notin> set xs" and "l \<notin> set ys"
proof -
  have "l \<in> set (exti_lines (snd (pin_irq_map ! l)))"
    using exti_lines_vector [OF assms] assms by (auto split: if_splits)
  moreover have "distinct (exti_lines v)" for v by (cases v) auto
  ultimately show ?thesis
    using that by (metis distinct.simps(2) distinct_append not_distinct_conv_prefix split_list_first)
qed

lemma single_line_dispatch:
  assumes "l < 16" and "handler_on s l = Some h"
  shows "run_state (EXTI_IRQHandler (snd (pin_irq_map ! l)) {l}) s = ([h], s)"
proof -
  obtain xs ys where "exti_lines (snd (pin_irq_map ! l)) = xs @ l # ys"
    and "l \<notin> set xs" and "l \<notin> set ys"
    using exti_lines_vector_split [OF assms(1)] .
  moreover have "List.map_filter (\<lambda>k. if k \<in> {l} then handler_on s k else None) zs = []"
    if "l \<notin> set zs" for zs
    using that by (auto simp: List.map_filter_def filter_empty_conv)
  ultimately show ?thesis
    using assms(2) by (simp add: run_EXTI_IRQHandler List.map_filter_def)
qed

definition gpio0 :: gpio_st where
  "gpio0 = \<lparr>hist = [], env = env0, heap = Map.empty, pin_irq_hdr_tab = init_irq_hdr_tab, pin_irq_enable_mask = 0\<rparr>"

lemma gpio_inv_gpio0 [simp]: "gpio_inv gpio0"
  by (rule gpio_inv_init) (simp add: gpio0_def)

text \<open>
  C14: detaching a pin's interrupt, attaching a handler in rising mode and enabling it
  always succeeds, whatever handler (of this or another pin of the same line) was there;
  afterwards the pin's vector runs exactly the new handler when that line is pending, and
  the handlers of all other lines are untouched.
\<close>

theorem gpio_rebind_dispatch:
  assumes "line_of pin = Some l" and "gpio_inv s"
    and "run_state (do { stm32_pin_dettach_irq pin;
           stm32_pin_attach_irq pin PIN_IRQ_MODE_RISING (Some h) 0;
           stm32_pin_irq_enable pin PIN_IRQ_ENABLE }) s = (r, t)"
  shows "r = RT_EOK \<and> gpio_inv t \<and> irq_on t l \<and>
    fst (run_state (EXTI_IRQHandler (snd (pin_irq_map ! l)) {l}) t) = [h] \<and>
    (\<forall>k. k \<noteq> l \<longrightarrow> handler_on t k = handler_on s k)"
proof -
  note b = stm32_pins.rebind [OF assms]
  then have "handler_on t l = Some h" by simp
  from single_line_dispatch [OF line_of_less [OF assms(1)] this] b show ?thesis by simp
qed

lemma gpio_rebind_dispatch_witness:
  "\<exists>r t. run_state (do { stm32_pin_dettach_irq (GET_PIN 2 13);
           stm32_pin_attach_irq (GET_PIN 2 13) PIN_IRQ_MODE_RISING (Some H_key2_irq_MENU) 0;
           stm32_pin_irq_enable (GET_PIN 2 13) PIN_IRQ_ENABLE }) gpio0 = (r, t) \<and>
     r = RT_EOK \<and> fst (run_state (EXTI_IRQHandler (snd (pin_irq_map ! 13)) {13}) t) =
       [H_key2_irq_MENU]"
proof -
  let ?m = "do { stm32_pin_dettach_irq (GET_PIN 2 13);
           stm32_pin_attach_irq (GET_PIN 2 13) PIN_IRQ_MODE_RISING (Some H_key2_irq_MENU) 0;
           stm32_pin_irq_enable (GET_PIN 2 13) PIN_IRQ_ENABLE }"
  obtain r t where run: "run_state ?m gpio0 = (r, t)" by (cases "run_state ?m gpio0")
  have "line_of (GET_PIN 2 13) = Some 13" by (simp add: line_of_def GET_PIN_def)
  from gpio_rebind_dispatch [OF this gpio_inv_gpio0 run] run show ?thesis by blast
qed

text \<open>
  C13: disabling a pin's interrupt clears exactly its bit of the enable mask, and masks the
  interrupt vector if and only if no other line of that vector is still enabled: a pin
  never silences another pin that shares its vector.
\<close>

theorem gpio_disable_keeps_shared_vector:
  assumes "line_of pin = Some l"
    and "run_state (stm32_pin_irq_enable pin PIN_IRQ_DISABLE) s = (r, t)"
  shows "r = RT_EOK \<and> irq_on t = (irq_on s)(l := False) \<and> handler_on t = handler_on s \<and>
    (\<exists>es. hist t = hist s @ es \<and>
      (NvicDisable (snd (pin_irq_map ! l)) \<in> set es \<longleftrightarrow>
        (\<forall>k \<in> set (exti_lines (snd (pin_irq_map ! l))). k \<noteq> l \<longrightarrow> \<not> irq_on s k)))"
proof -
  have "irq_on (s\<lparr>pin_irq_enable_mask := pin_irq_enable_mask s AND NOT (2 ^ l)\<rparr>) =
      (irq_on s)(l := False)"
    using line_of_less [OF assms(1)] by (auto simp: irq_on_def bit_simps fun_eq_iff)
  moreover have "irq_on t = irq_on (s\<lparr>pin_irq_enable_mask := pin_irq_enable_mask s AND NOT (2 ^ l)\<rparr>)"
    and "handler_on t = handler_on s" and "r = RT_EOK"
    using assms(2) unfolding run_irq_disable [OF assms(1)] by (auto simp: irq_on_def fun_eq_iff)
  ultimately show ?thesis
    using assms(2) unfolding run_irq_disable [OF assms(1)] by auto
qed

lemma gpio_disable_keeps_shared_vector_witness:
  "line_of 7 = Some 7 \<and>
   irq_on (snd (run_state (stm32_pin_irq_enable 7 PIN_IRQ_DISABLE)
     (gpio0\<lparr>pin_irq_enable_mask := 0xC0\<rparr>))) 6"
proof -
  have l: "line_of 7 = Some 7" by (simp add: line_of_def)
  obtain r t where run: "run_state (stm32_pin_irq_enable 7 PIN_IRQ_DISABLE)
      (gpio0\<lparr>pin_irq_enable_mask := 0xC0\<rparr>) = (r, t)"
    by (cases "run_state (stm32_pin_irq_enable 7 PIN_IRQ_DISABLE)
      (gpio0\<lparr>pin_irq_enable_mask := 0xC0\<rparr>)")
  have "irq_on (gpio0\<lparr>pin_irq_enable_mask := 0xC0\<rparr>) 6" by (simp add: irq_on_def)
  then show ?thesis
    using gpio_disable_keeps_shared_vector [OF l run] run l by simp
qed

text \<open>
  the driver does not check who owns a line. Detaching any other pin of the same
  number removes the handler a pin has installed, and reports success.
\<close>

theorem gpio_detach_ignores_owner:
  assumes "line_of p = Some l" and "line_of q = Some l" and "gpio_inv s"
    and "handler_on s l = Some h" and "ih_pin (pin_irq_hdr_tab s ! l) = p" and "p \<noteq> q"
    and "run_state (stm32_pin_dettach_irq q) s = (r, t)"
  shows "r = RT_EOK \<and> handler_on t l = None"
  using stm32_pins.detach_ok [OF assms(2,3,7)] by simp

lemma gpio_detach_ignores_owner_witness:
  "\<exists>s. handler_on s 0 = Some H_key1_irq_MENU \<and>
     fst (run_state (stm32_pin_dettach_irq (GET_PIN 1 0)) (s :: gpio_st)) = RT_EOK \<and>
     handler_on (snd (run_state (stm32_pin_dettach_irq (GET_PIN 1 0)) s)) 0 = None"
proof -
  let ?e = "\<lparr>ih_pin = GET_PIN 0 0, ih_mode = PIN_IRQ_MODE_RISING, ih_hdr = Some H_key1_irq_MENU,
    ih_args = 0\<rparr>"
  let ?s = "gpio0\<lparr>pin_irq_hdr_tab := (pin_irq_hdr_tab gpio0)[0 := ?e]\<rparr>"
  have p: "line_of (GET_PIN 0 0) = Some 0" and q: "line_of (GET_PIN 1 0) = Some 0"
    by (simp_all add: line_of_def GET_PIN_def)
  have inv: "gpio_inv ?s"
    by (intro gpio_inv_update gpio_inv_gpio0 hdr_ok_new p line_of_neq_minus1 [OF p])
  have h: "handler_on ?s 0 = Some H_key1_irq_MENU"
    by (simp add: handler_on_update)
  have own: "ih_pin (pin_irq_hdr_tab ?s ! 0) = GET_PIN 0 0"
    by (simp add: gpio0_def init_irq_hdr_tab_def)
  obtain r t where run: "run_state (stm32_pin_dettach_irq (GET_PIN 1 0)) ?s = (r, t)"
    by (cases "run_state (stm32_pin_dettach_irq (GET_PIN 1 0)) ?s")
  have "GET_PIN 0 0 \<noteq> GET_PIN 1 0" by (simp add: GET_PIN_def)
  from gpio_detach_ignores_owner [OF p q inv h own this run] run h show ?thesis
    by (intro exI [of _ ?s]) simp
qed

section \<open>Frame\<close>

text \<open>Configuring pins and interrupts produces configuration events only.\<close>

fun pin_setup :: "ev \<Rightarrow> bool" where
  "pin_setup (HalGpioInit _ _ _ _) = True"
| "pin_setup (HalGpioDeInit _ _) = True"
| "pin_setup (NvicSetPriority _ _) = True"
| "pin_setup (NvicEnable _) = True"
| "pin_setup (NvicDisable _) = True"
| "pin_setup (Fault _) = True"
| "pin_setup _ = False"

lemma pin_setup_extends [extend_intros]:
  "extends pin_setup (stm32_pin_mode p m)"
  "extends pin_setup (stm32_pin_attach_irq p im hdr args)"
  "extends pin_setup (stm32_pin_dettach_irq p)"
  "extends pin_setup (stm32_pin_irq_enable p en)"
  unfolding stm32_pin_mode_def stm32_pin_attach_irq_def stm32_pin_dettach_irq_def
    stm32_pin_irq_enable_def irq_enable_line_def irq_disable_line_def fault_def
  by (auto intro!: extend_intros split: option.splits prod.splits)

end
