(* ===== verification/Led_Key.thy ===== *)
theory Led_Key
  imports Gpio
begin

text \<open>
  \<open>src/applications/led_embedded.c\<close> and \<open>src/applications/key_embedded.c\<close>: the three-colour
  status LED (active low) and the two push buttons.
\<close>

section \<open>The LED\<close>

definition LED_EMBEDDED_R :: int where "LED_EMBEDDED_R = GET_PIN 1 5"
definition LED_EMBEDDED_G :: int where "LED_EMBEDDED_G = GET_PIN 1 0"
definition LED_EMBEDDED_B :: int where "LED_EMBEDDED_B = GET_PIN 1 1"

abbreviation (input) LED_WHITE :: int where "LED_WHITE \<equiv> 7"
abbreviation (input) LED_RED :: int where "LED_RED \<equiv> 4"
abbreviation (input) LED_GREEN :: int where "LED_GREEN \<equiv> 2"
abbreviation (input) LED_BLUE :: int where "LED_BLUE \<equiv> 1"

abbreviation (input) PIN_LOW :: bool where "PIN_LOW \<equiv> False"
abbreviation (input) PIN_HIGH :: bool where "PIN_HIGH \<equiv> True"

definition rgb_write :: "bool \<Rightarrow> bool \<Rightarrow> bool \<Rightarrow> ('z board_scheme, unit) state" where
  "rgb_write r g b = do {
     stm32_pin_write LED_EMBEDDED_R r;
     stm32_pin_write LED_EMBEDDED_G g;
     stm32_pin_write LED_EMBEDDED_B b
   }"

definition led_embedded_off :: "('z board_scheme, unit) state" where
  "led_embedded_off = rgb_write PIN_HIGH PIN_HIGH PIN_HIGH"

definition led_embedded_init :: "('z board_scheme, unit) state" where
  "led_embedded_init = do {
     stm32_pin_mode LED_EMBEDDED_R PIN_MODE_OUTPUT;
     stm32_pin_mode LED_EMBEDDED_G PIN_MODE_OUTPUT;
     stm32_pin_mode LED_EMBEDDED_B PIN_MODE_OUTPUT;
     led_embedded_off
   }"

definition led_embedded_color :: "int \<Rightarrow> ('z board_scheme, unit) state" where
  "led_embedded_color color =
     (if color = LED_WHITE then rgb_write PIN_LOW PIN_LOW PIN_LOW
      else if color = LED_RED then rgb_write PIN_LOW PIN_HIGH PIN_HIGH
      else if color = LED_GREEN then rgb_write PIN_HIGH PIN_LOW PIN_HIGH
      else if color = LED_BLUE then rgb_write PIN_HIGH PIN_HIGH PIN_LOW
      else led_embedded_off)"

definition led_embedded_blink :: "int \<Rightarrow> ('z board_scheme, unit) state" where
  "led_embedded_blink millisecond = do {
     led_embedded_color LED_RED;
     rt_thread_mdelay millisecond;
     led_embedded_color LED_GREEN;
     rt_thread_mdelay millisecond;
     led_embedded_color LED_BLUE;
     rt_thread_mdelay millisecond
   }"

section \<open>The keys\<close>

record key_st = gpio_st +
  key1_isChanged :: bool
  key2_isChanged :: bool

definition KEY1_EMBEDDED :: int where "KEY1_EMBEDDED = GET_PIN 0 0"
definition KEY2_EMBEDDED :: int where "KEY2_EMBEDDED = GET_PIN 2 13"

definition key_embedded_init :: "('z gpio_st_scheme, unit) state" where
  "key_embedded_init = do {
     stm32_pin_mode KEY1_EMBEDDED PIN_MODE_INPUT_PULLDOWN;
     stm32_pin_attach_irq KEY1_EMBEDDED PIN_IRQ_MODE_RISING (Some H_key1_change) 0;
     stm32_pin_irq_enable KEY1_EMBEDDED PIN_IRQ_ENABLE;
     stm32_pin_mode KEY2_EMBEDDED PIN_MODE_INPUT_PULLDOWN;
     stm32_pin_attach_irq KEY2_EMBEDDED PIN_IRQ_MODE_RISING (Some H_key2_change) 0;
     stm32_pin_irq_enable KEY2_EMBEDDED PIN_IRQ_ENABLE;
     ret ()
   }"

definition key1_isPressed :: "('z board_scheme, bool) state" where
  "key1_isPressed = do { v \<leftarrow> stm32_pin_read KEY1_EMBEDDED; ret (v = PIN_HIGH) }"

definition key2_isPressed :: "('z board_scheme, bool) state" where
  "key2_isPressed = do { v \<leftarrow> stm32_pin_read KEY2_EMBEDDED; ret (v = PIN_HIGH) }"

definition key1_change :: "('z key_st_scheme, unit) state" where
  "key1_change = modify (\<lambda>s. s\<lparr>key1_isChanged := True\<rparr>)"

definition key2_change :: "('z key_st_scheme, unit) state" where
  "key2_change = modify (\<lambda>s. s\<lparr>key2_isChanged := True\<rparr>)"

section \<open>What the LED shows\<close>

text \<open>
  The output levels of the three LED pins after a history: the last value written wins.
  \<open>None\<close> is a pin never written.
\<close>

fun pin_out_step :: "(nat \<times> nat \<Rightarrow> bool option) \<Rightarrow> ev \<Rightarrow> (nat \<times> nat \<Rightarrow> bool option)" where
  "pin_out_step m (HalWritePin port n v) = m((port, n) := Some v)"
| "pin_out_step m _ = m"

definition pin_out :: "ev list \<Rightarrow> (nat \<times> nat \<Rightarrow> bool option)" where
  "pin_out h = foldl pin_out_step (\<lambda>_. None) h"

text \<open>Red, green and blue element lit: the pin is driven low.\<close>

definition lit :: "ev list \<Rightarrow> bool list" where
  "lit h = map (\<lambda>n. pin_out h (1, n) = Some False) [5, 0, 1]"

lemma run_rgb_write [simp, run_simps]:
  "run_state (rgb_write r g b) s =
     ((), s\<lparr>hist := hist s @ [HalWritePin 1 5 r, HalWritePin 1 0 g, HalWritePin 1 1 b]\<rparr>)"
  using pin_no_exp [of 5] pin_no_exp [of 0] pin_no_exp [of 1]
  by (simp add: rgb_write_def stm32_pin_write_def LED_EMBEDDED_R_def LED_EMBEDDED_G_def
      LED_EMBEDDED_B_def GET_PIN_def get_pin_eq)

definition rgb_levels :: "int \<Rightarrow> bool list" where
  "rgb_levels color = (if color \<in> {LED_WHITE, LED_RED, LED_GREEN, LED_BLUE}
     then [bit color 2, bit color 1, bit color 0] else [False, False, False])"

lemma run_led_embedded_color [run_simps]:
  "run_state (led_embedded_color c) s = ((), s\<lparr>hist := hist s @
     map2 (\<lambda>n v. HalWritePin 1 n (\<not> v)) [5, 0, 1] (rgb_levels c)\<rparr>)"
  by (auto simp: led_embedded_color_def led_embedded_off_def rgb_levels_def bit_0 bit_iff_odd)

lemma appends_led_embedded_color [frame_intros]:
  "appends (\<lambda>e. \<exists>n v. e = HalWritePin 1 n v) (led_embedded_color c)"
  by (rule appendsI [where f = "\<lambda>_. map2 (\<lambda>n v. HalWritePin 1 n (\<not> v)) [5, 0, 1] (rgb_levels c)"])
    (auto simp: run_led_embedded_color rgb_levels_def)

text \<open>
  \<open>led_embedded_color\<close> lights exactly the elements whose bits are set in the colour
  code (white, red, green, blue); every other code switches the LED off. Nothing but the
  three LED pins is written.
\<close>

theorem led_color_lights_code:
  "lit (hist (snd (run_state (led_embedded_color c) s))) =
     (if c \<in> {LED_WHITE, LED_RED, LED_GREEN, LED_BLUE} then [bit c 2, bit c 1, bit c 0]
      else [False, False, False])"
  by (auto simp: run_led_embedded_color rgb_levels_def lit_def pin_out_def)

lemma led_blink_ends_blue:
  "lit (hist (snd (run_state (led_embedded_blink ms) s))) = [False, False, True]"
  by (auto simp: led_embedded_blink_def run_led_embedded_color rgb_levels_def lit_def pin_out_def
      bit_iff_odd)

section \<open>The keys' handlers\<close>

lemma line_of_keys [simp]:
  "line_of KEY1_EMBEDDED = Some 0" "line_of KEY2_EMBEDDED = Some 13"
  by (simp_all add: line_of_def KEY1_EMBEDDED_def KEY2_EMBEDDED_def GET_PIN_def)

lemma run_stm32_pin_mode:
  "\<exists>es. run_state (stm32_pin_mode p m) s = ((), s\<lparr>hist := hist s @ es\<rparr>)"
  by (auto simp: stm32_pin_mode_def split: option.splits prod.splits intro: exI [of _ "[]"])

text \<open>Installing the boot-time handlers of both keys, on lines nobody has taken.\<close>

lemma key_embedded_init_installs:
  assumes "gpio_inv s" and "handler_on s 0 = None" and "handler_on s 13 = None"
    and "run_state key_embedded_init s = (u, t)"
  shows "gpio_inv t \<and> handler_on t = (handler_on s)(0 := Some H_key1_change,
      13 := Some H_key2_change) \<and> irq_on t 0 \<and> irq_on t 13"
proof -
  let ?at = "\<lambda>p h. stm32_pin_attach_irq p PIN_IRQ_MODE_RISING (Some h) 0"
  obtain es1 where 1: "run_state (stm32_pin_mode KEY1_EMBEDDED PIN_MODE_INPUT_PULLDOWN) s =
      ((), s\<lparr>hist := hist s @ es1\<rparr>)" using run_stm32_pin_mode by blast
  let ?s1 = "s\<lparr>hist := hist s @ es1\<rparr>"
  obtain r2 s2 where 2: "run_state (?at KEY1_EMBEDDED H_key1_change) ?s1 = (r2, s2)"
    by (cases "run_state (?at KEY1_EMBEDDED H_key1_change) ?s1")
  note a1 = stm32_pins.attach_ok [OF line_of_keys(1) _ _ 2]
  have b1: "handler_on s2 = (handler_on s)(0 := Some H_key1_change)" "gpio_inv s2"
      "line_rising s2 0"
    using a1 assms(1,2) by simp_all
  obtain r3 s3 where 3: "run_state (stm32_pin_irq_enable KEY1_EMBEDDED PIN_IRQ_ENABLE) s2 = (r3, s3)"
    by (cases "run_state (stm32_pin_irq_enable KEY1_EMBEDDED PIN_IRQ_ENABLE) s2")
  have b2: "handler_on s3 = handler_on s2" "gpio_inv s3" "irq_on s3 0"
    using stm32_pins.enable_ok [OF line_of_keys(1) b1(2) _ b1(3) 3] b1(1) by auto
  obtain es4 where 4: "run_state (stm32_pin_mode KEY2_EMBEDDED PIN_MODE_INPUT_PULLDOWN) s3 =
      ((), s3\<lparr>hist := hist s3 @ es4\<rparr>)" using run_stm32_pin_mode by blast
  let ?s4 = "s3\<lparr>hist := hist s3 @ es4\<rparr>"
  obtain r5 s5 where 5: "run_state (?at KEY2_EMBEDDED H_key2_change) ?s4 = (r5, s5)"
    by (cases "run_state (?at KEY2_EMBEDDED H_key2_change) ?s4")
  have b3: "handler_on s5 = (handler_on s3)(13 := Some H_key2_change)" "gpio_inv s5"
      "line_rising s5 13" "irq_on s5 = irq_on s3"
    using stm32_pins.attach_ok [OF line_of_keys(2) _ _ 5] b1 b2 assms(3) by simp_all
  obtain r6 s6 where 6: "run_state (stm32_pin_irq_enable KEY2_EMBEDDED PIN_IRQ_ENABLE) s5 = (r6, s6)"
    by (cases "run_state (stm32_pin_irq_enable KEY2_EMBEDDED PIN_IRQ_ENABLE) s5")
  have "handler_on s6 = handler_on s5" "gpio_inv s6" "irq_on s6 = (irq_on s5)(13 := True)"
    using stm32_pins.enable_ok [OF line_of_keys(2) b3(2) _ b3(3) 6] b3(1) by auto
  then show ?thesis
    using assms(4) 1 2 3 4 5 6 b1 b2 b3 by (auto simp: key_embedded_init_def)
qed

end
