(* ===== verification/Sccb.thy ===== *)
theory Sccb
  imports Board
begin

text \<open>
  \<open>src/applications/bsp_ov7725_sccb.c\<close>: the bit-banged two-wire bus (SCCB, an I2C
  variant) to the camera. The functions toggle the lines PC6 (clock) and PC7 (data)
  through the port's set/reset register and sample the data line.

  What a device on the bus sees is defined independently by a monitor that watches the
  two lines: start and stop conditions, and one bit per clock pulse. The frame theorems
  say which symbols the transfer functions put on the wire, for every behaviour of the
  device.
\<close>

section \<open>The lines\<close>

abbreviation (input) ENABLE :: bool where "ENABLE \<equiv> True"
abbreviation (input) DISABLE :: bool where "DISABLE \<equiv> False"

definition GPIO_PIN_6 :: u32 where "GPIO_PIN_6 = 2 ^ 6"
definition GPIO_PIN_7 :: u32 where "GPIO_PIN_7 = 2 ^ 7"

text \<open>The macros \<open>digitalHi\<close> and \<open>digitalLo\<close> on port C (number 2).\<close>

definition digitalHi :: "nat \<Rightarrow> u32 \<Rightarrow> ('z board_scheme, unit) state" where
  "digitalHi p i = emit (Bsrr p i)"

definition digitalLo :: "nat \<Rightarrow> u32 \<Rightarrow> ('z board_scheme, unit) state" where
  "digitalLo p i = emit (Bsrr p (push_bit 16 i))"

definition SCL_H :: "('z board_scheme, unit) state" where "SCL_H = digitalHi 2 GPIO_PIN_6"
definition SCL_L :: "('z board_scheme, unit) state" where "SCL_L = digitalLo 2 GPIO_PIN_6"
definition SDA_H :: "('z board_scheme, unit) state" where "SDA_H = digitalHi 2 GPIO_PIN_7"
definition SDA_L :: "('z board_scheme, unit) state" where "SDA_L = digitalLo 2 GPIO_PIN_7"

definition SDA_read :: "('z board_scheme, bool) state" where
  "SDA_read = do {
     v \<leftarrow> ask (\<lambda>e h. pin_level e h 2 7);
     emit (HalReadPin 2 7 v);
     ret v
   }"

definition SCCB_GPIO_Config :: "('z board_scheme, unit) state" where
  "SCCB_GPIO_Config = do {
     emit (ClkEnable 2);
     emit (HalGpioInit 2 7 GPIO_MODE_OUTPUT_OD GPIO_NOPULL);
     emit (HalGpioInit 2 6 GPIO_MODE_OUTPUT_OD GPIO_NOPULL)
   }"

text \<open>The delay loop counts a 16-bit variable from 400 down to 0.\<close>

definition SCCB_delay :: "('z board_scheme, unit) state" where
  "SCCB_delay = emit (Spin 400)"

section \<open>Conditions, acknowledge and bytes\<close>

definition SCCB_Start :: "('z board_scheme, bool) state" where
  "SCCB_Start = do {
     SDA_H; SCL_H; SCCB_delay;
     v \<leftarrow> SDA_read;
     if \<not> v then ret DISABLE
     else do {
       SDA_L; SCCB_delay;
       w \<leftarrow> SDA_read;
       if w then ret DISABLE
       else do { SDA_L; SCCB_delay; ret ENABLE }
     }
   }"

definition SCCB_Stop :: "('z board_scheme, unit) state" where
  "SCCB_Stop = do {
     SCL_L; SCCB_delay; SDA_L; SCCB_delay; SCL_H; SCCB_delay; SDA_H; SCCB_delay
   }"

definition SCCB_Ack :: "('z board_scheme, unit) state" where
  "SCCB_Ack = do {
     SCL_L; SCCB_delay; SDA_L; SCCB_delay; SCL_H; SCCB_delay; SCL_L; SCCB_delay
   }"

definition SCCB_NoAck :: "('z board_scheme, unit) state" where
  "SCCB_NoAck = do {
     SCL_L; SCCB_delay; SDA_H; SCCB_delay; SCL_H; SCCB_delay; SCL_L; SCCB_delay
   }"

definition SCCB_WaitAck :: "('z board_scheme, bool) state" where
  "SCCB_WaitAck = do {
     SCL_L; SCCB_delay; SDA_H; SCCB_delay; SCL_H; SCCB_delay;
     v \<leftarrow> SDA_read;
     if v then do { SCL_L; ret DISABLE }
     else do { SCL_L; ret ENABLE }
   }"

text \<open>The \<open>while (i--)\<close> loop of \<open>SCCB_SendByte\<close>, \<open>i\<close> counting down.\<close>

primrec send_bits :: "nat \<Rightarrow> u8 \<Rightarrow> ('z board_scheme, unit) state" where
  "send_bits 0 SendByte = ret ()"
| "send_bits (Suc i) SendByte = do {
     SCL_L; SCCB_delay;
     (if SendByte AND 0x80 \<noteq> 0 then SDA_H else SDA_L);
     let SendByte = push_bit 1 SendByte;
     SCCB_delay; SCL_H; SCCB_delay;
     send_bits i SendByte
   }"

definition SCCB_SendByte :: "u8 \<Rightarrow> ('z board_scheme, unit) state" where
  "SCCB_SendByte b = do { send_bits 8 b; SCL_L }"

primrec receive_bits :: "nat \<Rightarrow> u8 \<Rightarrow> ('z board_scheme, u8) state" where
  "receive_bits 0 ReceiveByte = ret ReceiveByte"
| "receive_bits (Suc i) ReceiveByte = do {
     let ReceiveByte = push_bit 1 ReceiveByte;
     SCL_L; SCCB_delay; SCL_H; SCCB_delay;
     v \<leftarrow> SDA_read;
     receive_bits i (if v then ReceiveByte OR 1 else ReceiveByte)
   }"

definition SCCB_ReceiveByte :: "('z board_scheme, u8) state" where
  "SCCB_ReceiveByte = do { SDA_H; b \<leftarrow> receive_bits 8 0; SCL_L; ret b }"

section \<open>Transfers\<close>

definition DEV_ADR :: u8 where "DEV_ADR = 0x42"

definition SCCB_WriteByte :: "u16 \<Rightarrow> u8 \<Rightarrow> ('z board_scheme, bool) state" where
  "SCCB_WriteByte WriteAddress SendByte = do {
     ok \<leftarrow> SCCB_Start;
     if \<not> ok then ret DISABLE
     else do {
       SCCB_SendByte DEV_ADR;
       ack \<leftarrow> SCCB_WaitAck;
       if \<not> ack then do { SCCB_Stop; ret DISABLE }
       else do {
         SCCB_SendByte (ucast (WriteAddress AND 0x00FF));
         SCCB_WaitAck;
         SCCB_SendByte SendByte;
         SCCB_WaitAck;
         SCCB_Stop;
         ret ENABLE
       }
     }
   }"

text \<open>The read loop; the result lists the bytes stored through \<open>pBuffer\<close>.\<close>

primrec read_bytes :: "nat \<Rightarrow> ('z board_scheme, u8 list) state" where
  "read_bytes 0 = ret []"
| "read_bytes (Suc len) = do {
     b \<leftarrow> SCCB_ReceiveByte;
     (if Suc len = 1 then SCCB_NoAck else SCCB_Ack);
     bs \<leftarrow> read_bytes len;
     ret (b # bs)
   }"

text \<open>\<open>None\<close> is the return value 0; then the caller's buffer keeps its contents.\<close>

definition SCCB_ReadByte :: "u16 \<Rightarrow> u8 \<Rightarrow> ('z board_scheme, u8 list option) state" where
  "SCCB_ReadByte len ReadAddress = do {
     ok \<leftarrow> SCCB_Start;
     if \<not> ok then ret None
     else do {
       SCCB_SendByte DEV_ADR;
       ack \<leftarrow> SCCB_WaitAck;
       if \<not> ack then do { SCCB_Stop; ret None }
       else do {
         SCCB_SendByte ReadAddress;
         SCCB_WaitAck;
         SCCB_Stop;
         ok2 \<leftarrow> SCCB_Start;
         if \<not> ok2 then ret None
         else do {
           SCCB_SendByte (DEV_ADR + 1);
           ack2 \<leftarrow> SCCB_WaitAck;
           if \<not> ack2 then do { SCCB_Stop; ret None }
           else do {
             bs \<leftarrow> read_bytes (unat len);
             SCCB_Stop;
             ret (Some bs)
           }
         }
       }
     }
   }"

section \<open>A monitor of the wire\<close>

text \<open>
  The monitor follows the levels the controller drives on the two open-drain lines and
  keeps the data level of a clock pulse until the clock falls: a change of the data line
  while the clock is high is a start or stop condition, not a bit. A bit the controller
  leaves at 1 is a slot in which the device may answer; \<open>Samp\<close> records what the
  controller read from the data line.
\<close>

datatype symbol = Start | Stop | Bit bool | Samp bool

record wire =
  w_scl :: bool
  w_sda :: bool
  w_bit :: "bool option"
  w_syms :: "symbol list"

definition set_scl :: "bool \<Rightarrow> wire \<Rightarrow> wire" where
  "set_scl v w =
     (if v then (if w_scl w then w else w\<lparr>w_scl := True, w_bit := Some (w_sda w)\<rparr>)
      else w\<lparr>w_scl := False, w_bit := None,
        w_syms := w_syms w @ (case w_bit w of Some b \<Rightarrow> [Bit b] | None \<Rightarrow> [])\<rparr>)"

definition set_sda :: "bool \<Rightarrow> wire \<Rightarrow> wire" where
  "set_sda v w =
     (if v = w_sda w then w
      else if w_scl w
        then w\<lparr>w_sda := v, w_bit := None, w_syms := w_syms w @ [if v then Stop else Start]\<rparr>
      else w\<lparr>w_sda := v\<rparr>)"

definition on_bsrr :: "u32 \<Rightarrow> wire \<Rightarrow> wire" where
  "on_bsrr v w =
     (if v = GPIO_PIN_6 then set_scl True w
      else if v = push_bit 16 GPIO_PIN_6 then set_scl False w
      else if v = GPIO_PIN_7 then set_sda True w
      else if v = push_bit 16 GPIO_PIN_7 then set_sda False w
      else w)"

fun wire_step :: "wire \<Rightarrow> ev \<Rightarrow> wire" where
  "wire_step w (Bsrr p v) = (if p = 2 then on_bsrr v w else w)"
| "wire_step w (HalReadPin p n v) =
     (if p = 2 \<and> n = 7 then w\<lparr>w_syms := w_syms w @ [Samp v]\<rparr> else w)"
| "wire_step w _ = w"

text \<open>Power-up: both lines released by the pull-ups.\<close>

definition wire0 :: wire where
  "wire0 = \<lparr>w_scl = True, w_sda = True, w_bit = None, w_syms = []\<rparr>"

definition wire_of :: "ev list \<Rightarrow> wire" where
  "wire_of h = foldl wire_step wire0 h"

section \<open>Laws of the lines\<close>

text \<open>
  Two open-drain lines and a pause, as a bus driver uses them: what each operation does to
  the wire the devices see. The lemmas of the locale are the signalling elements of the bus.
\<close>

locale two_wire =
  fixes scl :: "bool \<Rightarrow> ('s, unit) state"
    and sda :: "bool \<Rightarrow> ('s, unit) state"
    and sample :: "('s, bool) state"
    and pause :: "('s, unit) state"
    and wire :: "'s \<Rightarrow> wire"
  assumes scl_wire: "wire (snd (run_state (scl v) s)) = set_scl v (wire s)"
    and sda_wire: "wire (snd (run_state (sda v) s)) = set_sda v (wire s)"
    and pause_wire: "wire (snd (run_state pause s)) = wire s"
    and sample_wire: "wire (snd (run_state sample s)) =
      (wire s)\<lparr>w_syms := w_syms (wire s) @ [Samp (fst (run_state sample s))]\<rparr>"
begin

lemmas line_laws = scl_wire sda_wire pause_wire sample_wire split_beta

text \<open>One bit out: the symbol pending on the clock is completed, the new one is pending.\<close>

lemma clock_bit:
  "wire (snd (run_state (do { scl False; pause; sda v; pause; scl True; pause }) s)) =
     \<lparr>w_scl = True, w_sda = v, w_bit = Some v,
      w_syms = w_syms (wire s) @ (case w_bit (wire s) of Some b \<Rightarrow> [Bit b] | None \<Rightarrow> [])\<rparr>"
  by (cases "wire s") (simp add: line_laws set_scl_def set_sda_def)

text \<open>A stop condition from a low clock leaves both lines released.\<close>

lemma stop_condition:
  "wire (snd (run_state (do { scl False; pause; sda False; pause; scl True; pause; sda True; pause }) s)) =
     \<lparr>w_scl = True, w_sda = True, w_bit = None,
      w_syms = w_syms (wire s) @ (case w_bit (wire s) of Some b \<Rightarrow> [Bit b] | None \<Rightarrow> []) @ [Stop]\<rparr>"
  by (cases "wire s") (simp add: line_laws set_scl_def set_sda_def)

text \<open>A start condition on released lines.\<close>

lemma start_condition:
  assumes "w_scl (wire s)" and "w_sda (wire s)"
  shows "wire (snd (run_state (do { sda False; pause }) s)) =
    (wire s)\<lparr>w_sda := False, w_bit := None, w_syms := w_syms (wire s) @ [Start]\<rparr>"
  using assms by (cases "wire s") (simp add: line_laws set_sda_def)

end

definition scl_set :: "bool \<Rightarrow> ('z board_scheme, unit) state" where
  "scl_set v = (if v then SCL_H else SCL_L)"

definition sda_set :: "bool \<Rightarrow> ('z board_scheme, unit) state" where
  "sda_set v = (if v then SDA_H else SDA_L)"

definition wire_in :: "'z board_scheme \<Rightarrow> wire" where
  "wire_in s = wire_of (hist s)"

lemma wire_of_snoc [simp]: "wire_of (h @ [e]) = wire_step (wire_of h) e"
  by (simp add: wire_of_def)

lemma on_bsrr_lines [simp]:
  "on_bsrr GPIO_PIN_6 w = set_scl True w"
  "on_bsrr (push_bit 16 GPIO_PIN_6) w = set_scl False w"
  "on_bsrr GPIO_PIN_7 w = set_sda True w"
  "on_bsrr (push_bit 16 GPIO_PIN_7) w = set_sda False w"
  by (simp_all add: on_bsrr_def GPIO_PIN_6_def GPIO_PIN_7_def)

interpretation sccb: two_wire scl_set sda_set SDA_read SCCB_delay wire_in
  by unfold_locales
    (auto simp: scl_set_def sda_set_def SCL_H_def SCL_L_def SDA_H_def SDA_L_def digitalHi_def
      digitalLo_def SCCB_delay_def SDA_read_def wire_in_def)

section \<open>Bytes on the wire\<close>

definition pend :: "wire \<Rightarrow> symbol list" where
  "pend w = (case w_bit w of Some b \<Rightarrow> [Bit b] | None \<Rightarrow> [])"

primrec msbs :: "nat \<Rightarrow> u8 \<Rightarrow> bool list" where
  "msbs 0 b = []"
| "msbs (Suc n) b = bit b 7 # msbs n (push_bit 1 b)"

lemma bit_shl_1: "k < 8 \<Longrightarrow> bit (push_bit 1 (b :: u8)) k \<longleftrightarrow> k \<noteq> 0 \<and> bit b (k - 1)"
  unfolding bit_push_bit_iff by auto

lemma msbs_eq: "n \<le> 8 \<Longrightarrow> msbs n b = map (\<lambda>i. bit b (7 - i)) [0..<n]"
proof (induction n arbitrary: b)
  case 0
  then show ?case by simp
next
  case (Suc n)
  have "map (\<lambda>i. bit (push_bit 1 b) (7 - i)) [0..<n] = map (\<lambda>i. bit b (7 - Suc i)) [0..<n]"
  proof (rule map_cong [OF refl])
    fix i assume "i \<in> set [0..<n]"
    then have "7 - i \<noteq> 0" "7 - i < 8" using Suc.prems by auto
    then show "bit (push_bit 1 b) (7 - i) = bit b (7 - Suc i)"
      unfolding bit_shl_1 [OF \<open>7 - i < 8\<close>] by (simp add: diff_Suc split: nat.split)
  qed
  also have "\<dots> = map (\<lambda>i. bit b (7 - i)) [1..<Suc n]"
    by (simp only: One_nat_def map_Suc_upt [symmetric] list.map_comp comp_def)
  finally show ?case
    using Suc by (simp add: upt_conv_Cons del: upt_Suc)
qed

lemma msbs_8: "msbs 8 b = bits_msb b"
  unfolding msbs_eq [OF order_refl] bits_msb_def by (simp add: upt_rec)

lemma SCL_L_set: "SCL_L = scl_set False" and SCL_H_set: "SCL_H = scl_set True"
  and SDA_L_set: "SDA_L = sda_set False" and SDA_H_set: "SDA_H = sda_set True"
  by (simp_all add: scl_set_def sda_set_def)

lemmas line_sets = SCL_L_set SCL_H_set SDA_L_set SDA_H_set

lemma send_bits_Suc_eq:
  "send_bits (Suc i) b = do {
     do { scl_set False; SCCB_delay; sda_set (bit b 7); SCCB_delay; scl_set True; SCCB_delay };
     send_bits i (push_bit 1 b) }"
  by (simp add: line_sets and_eq_0x80_iff Let_def sda_set_def [of "bit b 7"])

lemma wire_send_bits:
  "w_scl (wire_in t) = (n > 0 \<or> w_scl (wire_in s)) \<and>
   w_syms (wire_in t) @ pend (wire_in t) =
     w_syms (wire_in s) @ pend (wire_in s) @ map Bit (msbs n b)"
  if "t = snd (run_state (send_bits n b) s)"
  using that
proof (induction n arbitrary: b s)
  case 0
  then show ?case by simp
next
  case (Suc n)
  let ?m = "do { scl_set False; SCCB_delay; sda_set (bit b 7); SCCB_delay; scl_set True; SCCB_delay }"
  let ?u = "snd (run_state ?m s)"
  have "t = snd (run_state (send_bits n (push_bit 1 b)) ?u)"
    using Suc.prems unfolding send_bits_Suc_eq snd_run_bind [of ?m] by simp
  from Suc.IH [OF this] show ?case
    unfolding sccb.clock_bit by (simp add: pend_def)
qed

section \<open>The signalling functions on the wire\<close>

text \<open>
  Three situations between the calls: the bus at rest (both lines released), just started
  (clock high, data low), and with the clock low; each with the symbols seen so far.
\<close>

definition at_rest :: "'z board_scheme \<Rightarrow> symbol list \<Rightarrow> bool" where
  "at_rest s ys \<longleftrightarrow>
     wire_in s = \<lparr>w_scl = True, w_sda = True, w_bit = None, w_syms = ys\<rparr>"

definition started :: "'z board_scheme \<Rightarrow> symbol list \<Rightarrow> bool" where
  "started s ys \<longleftrightarrow>
     wire_in s = \<lparr>w_scl = True, w_sda = False, w_bit = None, w_syms = ys\<rparr>"

definition clock_low :: "'z board_scheme \<Rightarrow> symbol list \<Rightarrow> bool" where
  "clock_low s ys \<longleftrightarrow> \<not> w_scl (wire_in s) \<and> w_bit (wire_in s) = None \<and> w_syms (wire_in s) = ys"

lemma start_wire:
  assumes "run_state SCCB_Start s = (ok, t)" and "at_rest s ys"
  shows "if ok then started t (ys @ [Samp True, Start, Samp False])
    else at_rest t (ys @ [Samp False]) \<or> started t (ys @ [Samp True, Start, Samp True])"
  using assms
  by (auto simp: SCCB_Start_def line_sets sccb.line_laws at_rest_def started_def set_scl_def
      set_sda_def split: if_splits)

lemma send_byte_wire:
  assumes "run_state (SCCB_SendByte b) s = (u, t)"
    and "ys = w_syms (wire_in s) @ pend (wire_in s)"
  shows "clock_low t (ys @ map Bit (bits_msb b))"
proof -
  let ?v = "snd (run_state (send_bits 8 b) s)"
  have "t = snd (run_state SCL_L ?v)"
    using assms(1) by (simp add: SCCB_SendByte_def split_beta)
  then have "wire_in t = set_scl False (wire_in ?v)"
    by (simp add: line_sets sccb.line_laws)
  with wire_send_bits [OF refl, of 8 b s] assms(2) show ?thesis
    by (simp add: clock_low_def set_scl_def pend_def msbs_8)
qed

lemma send_after_start:
  assumes "run_state (SCCB_SendByte b) s = (u, t)" and "started s ys"
  shows "clock_low t (ys @ map Bit (bits_msb b))"
proof -
  have "ys = w_syms (wire_in s) @ pend (wire_in s)"
    using assms(2) by (simp add: started_def pend_def)
  with assms(1) show ?thesis by (rule send_byte_wire)
qed

lemma send_after_low:
  assumes "run_state (SCCB_SendByte b) s = (u, t)" and "clock_low s ys"
  shows "clock_low t (ys @ map Bit (bits_msb b))"
proof -
  have "ys = w_syms (wire_in s) @ pend (wire_in s)"
    using assms(2) by (simp add: clock_low_def pend_def)
  with assms(1) show ?thesis by (rule send_byte_wire)
qed

lemma wait_ack_wire:
  assumes "run_state SCCB_WaitAck s = (ack, t)" and "clock_low s ys"
  shows "clock_low t (ys @ [Samp (\<not> ack), Bit True])"
  using assms
  by (cases "wire_in s")
    (auto simp: SCCB_WaitAck_def line_sets sccb.line_laws clock_low_def set_scl_def
      set_sda_def split: if_splits)

lemma stop_wire:
  assumes "run_state SCCB_Stop s = (u, t)" and "clock_low s ys"
  shows "at_rest t (ys @ [Stop])"
proof -
  have "wire_in t = \<lparr>w_scl = True, w_sda = True, w_bit = None,
      w_syms = w_syms (wire_in s) @ (case w_bit (wire_in s) of Some b \<Rightarrow> [Bit b] | None \<Rightarrow> []) @ [Stop]\<rparr>"
    using sccb.stop_condition [of s] assms(1) by (simp add: SCCB_Stop_def line_sets)
  then show ?thesis using assms(2) by (simp add: at_rest_def clock_low_def)
qed

text \<open>A byte and its acknowledge slot, as the devices see them.\<close>

definition slot :: "u8 \<Rightarrow> bool \<Rightarrow> symbol list" where
  "slot b ack = map Bit (bits_msb b) @ [Samp (\<not> ack), Bit True]"

text \<open>
  C30: the wire protocol of a register write. On a bus at rest, \<open>SCCB_WriteByte\<close> returns 1
  exactly when the start condition took and the device acknowledged its address, and then
  the frame on the wire is start, device address, low byte of the register address, data,
  stop, each byte most significant bit first with its acknowledge slot; the other two
  acknowledgements are ignored. If the address is not acknowledged the transfer is
  stopped there. After either, the bus is at rest again.
\<close>

theorem SCCB_WriteByte_frame:
  assumes "run_state (SCCB_WriteByte a d) s = (ok, t)" and "at_rest s ys"
  shows "if ok
    then \<exists>x y. at_rest t (ys @ [Samp True, Start, Samp False] @ slot DEV_ADR True @
        slot (ucast a) x @ slot d y @ [Stop])
    else at_rest t (ys @ [Samp False]) \<or> started t (ys @ [Samp True, Start, Samp True]) \<or>
      at_rest t (ys @ [Samp True, Start, Samp False] @ slot DEV_ADR False @ [Stop])"
proof -
  have a: "ucast (a AND 0x00FF) = (ucast a :: u8)"
    by (rule low_byte)
  show ?thesis
    using assms unfolding SCCB_WriteByte_def a
    apply (clarsimp split: prod.splits if_splits)
      apply (drule (1) start_wire, simp)
     apply (drule (1) start_wire, simp, drule (1) send_after_start, drule (1) wait_ack_wire,
        drule (1) stop_wire, simp add: slot_def)
    apply (drule (1) start_wire, simp)
    apply (drule (1) send_after_start, drule (1) wait_ack_wire)
    apply ((drule (1) send_after_low, drule (1) wait_ack_wire)+, drule (1) stop_wire)
    apply (auto simp: slot_def)
    done
qed

text \<open>
  Devices for the examples: the data line reads high at the samples numbered in \<open>K\<close> and
  low at all others, so \<open>K = {0}\<close> is a device that acknowledges everything.
\<close>

fun not_read :: "ev \<Rightarrow> bool" where
  "not_read (HalReadPin _ _ _) = False"
| "not_read _ = True"

definition samples :: "ev list \<Rightarrow> nat" where
  "samples h = length (filter (\<lambda>e. \<not> not_read e) h)"

definition device :: "nat set \<Rightarrow> board" where
  "device K = \<lparr>hist = [], env = env0\<lparr>pin_level := \<lambda>h p n. samples h \<in> K\<rparr>, heap = Map.empty\<rparr>"

definition sampled :: "nat set \<Rightarrow> nat \<Rightarrow> board \<Rightarrow> bool" where
  "sampled K k s \<longleftrightarrow> env s = env (device K) \<and> samples (hist s) = k"

lemma at_rest_device [simp]: "at_rest (device K) []"
  by (simp add: at_rest_def wire_in_def device_def wire_of_def wire0_def)

lemma sampled_device: "sampled K 0 (device K)"
  by (simp add: sampled_def device_def samples_def)

lemma samples_append [simp]: "samples (g @ h) = samples g + samples h"
  by (simp add: samples_def)

lemma samples_0: "list_all not_read h \<Longrightarrow> samples h = 0"
  by (induction h) (auto simp: samples_def)

lemma runs_quiet:
  assumes "appends not_read m"
  shows "yields (sampled K) k m () k"
proof -
  have "sampled K k (snd (run_state m s))" if "sampled K k s" for s
  proof -
    obtain es where "snd (run_state m s) = s\<lparr>hist := hist s @ es\<rparr>" "list_all not_read es"
      using assms unfolding appends_def by blast
    with that show ?thesis by (simp add: sampled_def samples_0)
  qed
  then show ?thesis by (simp add: yields_def)
qed

lemma runs_read: "yields (sampled K) k SDA_read (k \<in> K) (Suc k)"
  by (simp add: yields_def SDA_read_def sampled_def device_def) (simp add: samples_def)

lemma quiet_lines [frame_intros]:
  "appends not_read SCL_L" "appends not_read SCL_H" "appends not_read SDA_L"
  "appends not_read SDA_H" "appends not_read SCCB_delay"
  by (auto simp: SCL_L_def SCL_H_def SDA_L_def SDA_H_def digitalHi_def digitalLo_def
      SCCB_delay_def intro!: frame_intros)

lemma quiet_send [frame_intros]: "appends not_read (SCCB_SendByte b)"
proof -
  have "appends not_read (send_bits n b)" for n
    by (induction n arbitrary: b) (auto intro!: frame_intros)
  then show ?thesis unfolding SCCB_SendByte_def by (intro frame_intros)
qed

lemma quiet_stop_acks [frame_intros]:
  "appends not_read SCCB_Stop" "appends not_read SCCB_Ack" "appends not_read SCCB_NoAck"
  unfolding SCCB_Stop_def SCCB_Ack_def SCCB_NoAck_def by (intro frame_intros)+

lemmas runs_rules = quiet_lines [THEN runs_quiet] quiet_send [THEN runs_quiet]
  quiet_stop_acks [THEN runs_quiet] yields_ret runs_read

lemma runs_start:
  assumes "k \<in> K" and "Suc k \<notin> K"
  shows "yields (sampled K) k SCCB_Start True (Suc (Suc k))"
  unfolding SCCB_Start_def by (auto simp: assms intro!: yields_bind runs_rules)

lemma runs_wait: "yields (sampled K) k SCCB_WaitAck (k \<notin> K) (Suc k)"
  unfolding SCCB_WaitAck_def by (auto intro!: yields_bind runs_rules)

lemma runs_write: "yields (sampled {0}) 0 (SCCB_WriteByte a d) True (Suc (Suc (Suc (Suc (Suc 0)))))"
  unfolding SCCB_WriteByte_def
  by (rule yields_bind, rule runs_start, simp, simp, simp, (rule yields_bind runs_rules runs_wait | simp)+)

lemma device_accepts: "fst (run_state (SCCB_WriteByte a d) (device {0}))"
  using runs_write sampled_device by (auto simp: yields_def)

lemma SCCB_WriteByte_frame_witness:
  "\<exists>x y. at_rest (snd (run_state (SCCB_WriteByte 0x12 0x80) (device {0})))
     ([Samp True, Start, Samp False] @ slot DEV_ADR True @ slot 0x12 x @ slot 0x80 y @ [Stop])"
proof -
  obtain ok t where run: "run_state (SCCB_WriteByte 0x12 0x80) (device {0}) = (ok, t)"
    by (cases "run_state (SCCB_WriteByte 0x12 0x80) (device {0})")
  then have "ok" using device_accepts by (metis fst_conv)
  with SCCB_WriteByte_frame [OF run at_rest_device] run show ?thesis by simp
qed

section \<open>Receiving\<close>

lemma wire_receive_bits:
  assumes "run_state (receive_bits n acc) s = (b, t)" and "w_sda (wire_in s)"
  shows "\<exists>vs. length vs = n \<and> b = foldl (\<lambda>a v. if v then push_bit 1 a OR 1 else push_bit 1 a) acc vs \<and>
    w_sda (wire_in t) \<and> w_scl (wire_in t) = (n > 0 \<or> w_scl (wire_in s)) \<and>
    w_syms (wire_in t) @ pend (wire_in t) =
      w_syms (wire_in s) @ pend (wire_in s) @ concat (map (\<lambda>v. [Samp v, Bit True]) vs)"
  using assms
proof (induction n arbitrary: acc s)
  case 0
  then show ?case by simp
next
  case (Suc n)
  let ?m = "do { scl_set False; SCCB_delay; scl_set True; SCCB_delay; SDA_read }"
  obtain v u where u: "run_state ?m s = (v, u)" by (cases "run_state ?m s")
  let ?acc = "if v then push_bit 1 acc OR 1 else push_bit 1 acc"
  have wu: "wire_in u = \<lparr>w_scl = True, w_sda = True, w_bit = Some True,
      w_syms = w_syms (wire_in s) @ pend (wire_in s) @ [Samp v]\<rparr>"
  proof -
    have "u = snd (run_state ?m s)" and "v = fst (run_state ?m s)" using u by simp_all
    then show ?thesis
      using Suc.prems(2)
      by (cases "wire_in s") (auto simp: sccb.line_laws set_scl_def pend_def)
  qed
  have "run_state (receive_bits n ?acc) u = (b, t)"
    using Suc.prems(1) u by (auto simp: line_sets Let_def split: prod.splits if_splits)
  from Suc.IH [OF this] wu obtain vs
    where "length vs = n" "b = foldl (\<lambda>a v. if v then push_bit 1 a OR 1 else push_bit 1 a) ?acc vs"
      "w_sda (wire_in t)" "w_scl (wire_in t)"
      "w_syms (wire_in t) @ pend (wire_in t) = w_syms (wire_in s) @ pend (wire_in s) @
         [Samp v, Bit True] @ concat (map (\<lambda>v. [Samp v, Bit True]) vs)"
    by (auto simp: pend_def)
  then show ?case
    by (intro exI [of _ "v # vs"]) simp
qed

lemma bits_msb_of_bits:
  assumes "length vs = 8"
  shows "bits_msb (byte_of_bits vs) = vs"
proof (rule nth_equalityI)
  show "length (bits_msb (byte_of_bits vs)) = length vs" using assms by simp
next
  fix i assume "i < length (bits_msb (byte_of_bits vs))"
  then have i: "i < 8" by simp
  have "bits_msb (byte_of_bits vs) ! i = bit (byte_of_bits vs) (7 - i)"
    using msbs_eq [OF order_refl, of "byte_of_bits vs"] msbs_8 [of "byte_of_bits vs"] i
    by (metis (no_types, lifting) add.left_neutral diff_zero length_upt nth_map nth_upt)
  also have "\<dots> = rev vs ! (7 - i)"
    using assms less_imp_diff_less [of 7 8 i]
    by (simp add: byte_of_bits_horner bit_horner_sum_bit_word_iff)
  also have "\<dots> = vs ! i"
    using assms i by (simp add: rev_nth)
  finally show "bits_msb (byte_of_bits vs) ! i = vs ! i" .
qed

text \<open>A byte the device sends: the controller leaves the line released and samples it.\<close>

definition recv :: "u8 \<Rightarrow> symbol list" where
  "recv b = concat (map (\<lambda>v. [Samp v, Bit True]) (bits_msb b))"

lemma receive_byte_wire:
  assumes "run_state SCCB_ReceiveByte s = (b, t)" and "clock_low s ys"
  shows "clock_low t (ys @ recv b)"
proof -
  obtain s1 where s1: "run_state SDA_H s = ((), s1)" by (cases "run_state SDA_H s") simp
  obtain c u where u: "run_state (receive_bits 8 0) s1 = (c, u)"
    by (cases "run_state (receive_bits 8 0) s1")
  have "s1 = snd (run_state (sda_set True) s)" using s1 by (simp add: line_sets)
  then have w1: "wire_in s1 = (wire_in s)\<lparr>w_sda := True\<rparr>"
    using assms(2) by (cases "wire_in s") (simp add: sccb.line_laws set_sda_def clock_low_def)
  then obtain vs where vs: "length vs = 8"
      "c = foldl (\<lambda>a v. if v then push_bit 1 a OR 1 else push_bit 1 a) 0 vs"
      "w_scl (wire_in u)"
      "w_syms (wire_in u) @ pend (wire_in u) = ys @ concat (map (\<lambda>v. [Samp v, Bit True]) vs)"
    using wire_receive_bits [OF u] assms(2) by (auto simp: clock_low_def pend_def)
  have "foldl (\<lambda>a v. if v then push_bit 1 a OR 1 else push_bit 1 a) 0 vs = byte_of_bits vs"
    unfolding byte_of_bits_def by (rule foldl_cong) auto
  then have c: "bits_msb c = vs" using vs(1,2) by (simp add: bits_msb_of_bits)
  have "t = snd (run_state (scl_set False) u)" "b = c"
    using assms(1) s1 u by (auto simp: SCCB_ReceiveByte_def line_sets split: prod.splits)
  then show ?thesis
    using vs(4) c by (auto simp: clock_low_def sccb.line_laws set_scl_def pend_def recv_def)
qed

lemma ack_wire:
  assumes "run_state (if last_one then SCCB_NoAck else SCCB_Ack) s = (u, t)" and "clock_low s ys"
  shows "clock_low t (ys @ [Bit last_one])"
proof -
  have t: "t = snd (run_state (if last_one then SCCB_NoAck else SCCB_Ack) s)"
    using assms(1) by simp
  show ?thesis
    using assms(2) unfolding t
    by (cases "wire_in s"; cases last_one)
      (simp_all add: SCCB_NoAck_def SCCB_Ack_def line_sets sccb.line_laws clock_low_def
        set_scl_def set_sda_def)
qed

text \<open>A run of bytes: each is acknowledged but the last.\<close>

primrec recv_all :: "u8 list \<Rightarrow> symbol list" where
  "recv_all [] = []"
| "recv_all (b # bs) = recv b @ [Bit (bs = [])] @ recv_all bs"

lemma read_bytes_wire:
  "run_state (read_bytes n) s = (bs, t) \<Longrightarrow> clock_low s ys \<Longrightarrow>
     length bs = n \<and> clock_low t (ys @ recv_all bs)"
proof (induction n arbitrary: s bs ys t)
  case 0
  then show ?case by auto
next
  case (Suc n)
  obtain b s1 where 1: "run_state SCCB_ReceiveByte s = (b, s1)"
    by (cases "run_state SCCB_ReceiveByte s")
  obtain s2 where 2: "run_state (if n = 0 then SCCB_NoAck else SCCB_Ack) s1 = ((), s2)"
    by (cases "run_state (if n = 0 then SCCB_NoAck else SCCB_Ack) s1") simp
  obtain cs s3 where 3: "run_state (read_bytes n) s2 = (cs, s3)" by (cases "run_state (read_bytes n) s2")
  have "clock_low s2 (ys @ recv b @ [Bit (n = 0)])"
    using ack_wire [OF 2 receive_byte_wire [OF 1 Suc.prems(2)]] by simp
  from Suc.IH [OF 3 this] have IH: "length cs = n" "clock_low s3 (ys @ recv b @ [Bit (n = 0)] @ recv_all cs)"
    by simp_all
  have "bs = b # cs" "t = s3"
    using Suc.prems(1) 1 2 3 by (auto simp: split_beta split: if_splits)
  with IH show ?case by (cases cs) auto
qed

text \<open>
  C31: reading registers. On success \<open>SCCB_ReadByte\<close> returns exactly as many bytes as asked
  for, and they are the bits the device put on the data line, most significant first; every
  byte but the last is acknowledged by the controller, the last is not, and the bus is at
  rest again. The register address goes out in a write frame that is stopped before the
  read frame starts.
\<close>

theorem SCCB_ReadByte_frame:
  assumes "run_state (SCCB_ReadByte n a) s = (Some bs, t)" and "at_rest s ys"
  shows "length bs = unat n \<and> (\<exists>x. at_rest t (ys @
    [Samp True, Start, Samp False] @ slot DEV_ADR True @ slot a x @ [Stop] @
    [Samp True, Start, Samp False] @ slot (DEV_ADR + 1) True @ recv_all bs @ [Stop]))"
  using assms unfolding SCCB_ReadByte_def
  apply (clarsimp split: prod.splits if_splits)
  apply (drule (1) start_wire, simp)
  apply (drule (1) send_after_start, drule (1) wait_ack_wire)
  apply (drule (1) send_after_low, drule (1) wait_ack_wire, drule (1) stop_wire)
  apply (drule (1) start_wire, simp)
  apply (drule (1) send_after_start, drule (1) wait_ack_wire)
  apply (drule (1) read_bytes_wire, clarsimp)
  apply (drule (1) stop_wire)
  apply (auto simp: slot_def)
  done

lemma runs_receive_bits: "\<exists>b. yields (sampled K) k (receive_bits n acc) b (k + n)"
proof (induction n arbitrary: k acc)
  case 0
  show ?case by (auto intro: yields_ret)
next
  case (Suc n)
  let ?acc = "if k \<in> K then push_bit 1 acc OR 1 else push_bit 1 acc"
  obtain b where b: "yields (sampled K) (Suc k) (receive_bits n ?acc) b (Suc k + n)"
    using Suc.IH by blast
  have "yields (sampled K) k (receive_bits (Suc n) acc) b (Suc k + n)"
    unfolding receive_bits.simps Let_def by (rule b yields_bind runs_rules)+
  then show ?case by auto
qed

lemma runs_read_bytes: "\<exists>bs. yields (sampled K) k (read_bytes n) bs (k + 8 * n)"
proof (induction n arbitrary: k)
  case 0
  show ?case by (auto intro: yields_ret)
next
  case (Suc n)
  obtain b where b: "yields (sampled K) k (receive_bits 8 0) b (k + 8)"
    using runs_receive_bits by blast
  obtain bs where bs: "yields (sampled K) (k + 8) (read_bytes n) bs (k + 8 + 8 * n)"
    using Suc.IH by blast
  have "yields (sampled K) k SCCB_ReceiveByte b (k + 8)"
    unfolding SCCB_ReceiveByte_def by (rule yields_bind runs_rules b)+
  moreover have "yields (sampled K) (k + 8) (if Suc n = 1 then SCCB_NoAck else SCCB_Ack) () (k + 8)"
    by (simp add: runs_rules)
  ultimately have "yields (sampled K) k (read_bytes (Suc n)) (b # bs) (k + 8 + 8 * n)"
    unfolding read_bytes.simps using bs by (blast intro: yields_bind yields_ret)
  then show ?case by (auto simp: algebra_simps)
qed

lemma device_answers:
  "\<exists>bs. fst (run_state (SCCB_ReadByte n a) (device {0, 4})) = Some bs"
proof -
  let ?k = "Suc (Suc (Suc (Suc (Suc (Suc (Suc 0))))))"
  obtain bs where bs: "yields (sampled {0, 4}) ?k (read_bytes (unat n)) bs (?k + 8 * unat n)"
    using runs_read_bytes by blast
  have "yields (sampled {0, 4}) 0 (SCCB_ReadByte n a) (Some bs) (?k + 8 * unat n)"
    unfolding SCCB_ReadByte_def
    by (rule yields_bind, rule runs_start, simp, simp, simp,
        (rule yields_bind runs_rules runs_wait | simp)+, rule runs_start, simp, simp, simp,
        (rule bs | rule yields_bind runs_rules runs_wait | simp)+)
  with sampled_device show ?thesis by (auto simp: yields_def)
qed

lemma SCCB_ReadByte_frame_witness:
  "\<exists>bs x. length bs = 2 \<and> at_rest (snd (run_state (SCCB_ReadByte 2 0x0A) (device {0, 4})))
    ([Samp True, Start, Samp False] @ slot DEV_ADR True @ slot 0x0A x @ [Stop] @
     [Samp True, Start, Samp False] @ slot (DEV_ADR + 1) True @ recv_all bs @ [Stop])"
proof -
  obtain bs where bs: "fst (run_state (SCCB_ReadByte 2 0x0A) (device {0, 4})) = Some bs"
    using device_answers by blast
  then obtain t where run: "run_state (SCCB_ReadByte 2 0x0A) (device {0, 4}) = (Some bs, t)"
    by (cases "run_state (SCCB_ReadByte 2 0x0A) (device {0, 4})") simp
  from SCCB_ReadByte_frame [OF this at_rest_device] run show ?thesis by auto
qed

end
