(* ===== verification/Sccb_Device.thy ===== *)
theory Sccb_Device
  imports Sccb
begin

text \<open>
  The SCCB bus with a device on it. The device is any register file that keeps the bus
  protocol: it acknowledges its own address and the bytes written to it, and when it is
  addressed for reading it sends one register, most significant bit first. What the
  registers hold is left open (a function \<open>rv\<close> of the frames received so far), so the
  camera's own behaviour is a parameter. On such a bus the bit-banged transfer functions
  are register reads and writes that never fail.
\<close>

section \<open>Frames\<close>

text \<open>
  The bits between a start and a stop condition form a frame. \<open>frames\<close> reads the symbols
  on the wire as the open frame, if any, and the frames completed so far.
\<close>

type_synonym frame = "bool list"

fun frame_step :: "frame option \<times> frame list \<Rightarrow> symbol \<Rightarrow> frame option \<times> frame list" where
  "frame_step (c, d) Start = (Some [], d)"
| "frame_step (c, d) Stop = (None, case c of Some f \<Rightarrow> d @ [f] | None \<Rightarrow> d)"
| "frame_step (c, d) (Bit b) = (map_option (\<lambda>f. f @ [b]) c, d)"
| "frame_step (c, d) (Samp v) = (c, d)"

definition frames :: "symbol list \<Rightarrow> frame option \<times> frame list" where
  "frames ys = foldl frame_step (None, []) ys"

lemma frames_append: "frames (xs @ ys) = foldl frame_step (frames xs) ys"
  by (simp add: frames_def)

lemma frame_bits: "foldl frame_step (Some f, d) (map Bit bs) = (Some (f @ bs), d)"
  by (induction bs arbitrary: f) simp_all

text \<open>Byte \<open>k\<close> of a frame; every ninth bit is the acknowledge slot.\<close>

definition frame_byte :: "nat \<Rightarrow> frame \<Rightarrow> u8" where
  "frame_byte k f = byte_of_bits (take 8 (drop (9 * k) f))"

definition write_frame :: "u8 \<Rightarrow> u8 \<Rightarrow> frame" where
  "write_frame a v = bits_msb DEV_ADR @ [True] @ bits_msb a @ [True] @ bits_msb v @ [True]"

definition addr_frame :: "u8 \<Rightarrow> frame" where
  "addr_frame a = bits_msb DEV_ADR @ [True] @ bits_msb a @ [True]"

definition read_frame :: frame where
  "read_frame = bits_msb (DEV_ADR + 1) @ [True] @ replicate 8 True @ [True]"

text \<open>The register a frame selects: its second byte, if it is addressed for writing.\<close>

definition selected :: "frame list \<Rightarrow> u8" where
  "selected d = frame_byte 1 (last d)"

section \<open>The protocol of the device\<close>

text \<open>Whether the device pulls the data line low, with \<open>f\<close> received in the open frame.\<close>

definition pulls_low :: "(frame list \<Rightarrow> u8 \<Rightarrow> u8) \<Rightarrow> frame list \<Rightarrow> frame \<Rightarrow> bool" where
  "pulls_low rv d f =
     (let k = length f; a = frame_byte 0 f in
      if k < 8 then False
      else if k = 8 then a = DEV_ADR \<or> a = DEV_ADR + 1
      else if a = DEV_ADR then k mod 9 = 8
      else if a = DEV_ADR + 1 then k mod 9 \<noteq> 8 \<and> \<not> bit (rv d (selected d)) (7 - k mod 9)
      else False)"

definition line_level :: "(frame list \<Rightarrow> u8 \<Rightarrow> u8) \<Rightarrow> wire \<Rightarrow> bool" where
  "line_level rv w = (w_sda w \<and>
     \<not> (w_bit w = Some True \<and>
        (case frames (w_syms w) of (Some f, d) \<Rightarrow> pulls_low rv d f | _ \<Rightarrow> False)))"

text \<open>The environment has such a device on the bus and no other driver of the data line.\<close>

definition compliant :: "(frame list \<Rightarrow> u8 \<Rightarrow> u8) \<Rightarrow> 'z board_scheme \<Rightarrow> bool" where
  "compliant rv s \<longleftrightarrow> (\<forall>h. pin_level (env s) h 2 7 = line_level rv (wire_of h))"

section \<open>The bus between the calls\<close>

datatype phase =
    Idle "frame list"
  | Opened "frame list"
  | Low frame "frame list"
  | Reading frame "frame list"

fun on_bus :: "(frame list \<Rightarrow> u8 \<Rightarrow> u8) \<Rightarrow> phase \<Rightarrow> 'z board_scheme \<Rightarrow> bool" where
  "on_bus rv (Idle d) s = (compliant rv s \<and> (\<exists>ys. at_rest s ys \<and> frames ys = (None, d)))"
| "on_bus rv (Opened d) s = (compliant rv s \<and> (\<exists>ys. started s ys \<and> frames ys = (Some [], d)))"
| "on_bus rv (Low f d) s = (compliant rv s \<and> (\<exists>ys. clock_low s ys \<and> frames ys = (Some f, d)))"
| "on_bus rv (Reading f d) s = (compliant rv s \<and> w_sda (wire_in s) \<and>
     frames (w_syms (wire_in s) @ pend (wire_in s)) = (Some f, d))"

lemma sample_level:
  "compliant rv s \<Longrightarrow> fst (run_state SDA_read s) = line_level rv (wire_in s)"
  by (simp add: SDA_read_def compliant_def wire_in_def)

lemma compliant_appends:
  "appends P m \<Longrightarrow> compliant rv s \<Longrightarrow> run_state m s = (x, t) \<Longrightarrow> compliant rv t"
  using appends_env [of P m s] by (simp add: compliant_def)

abbreviation (input) any_event :: "ev \<Rightarrow> bool" where "any_event \<equiv> \<lambda>e. True"

lemma appends_any: "appends P m \<Longrightarrow> appends any_event m"
  by (erule appends_mono) simp

lemma sccb_appends [frame_intros]:
  "appends any_event SDA_read" "appends any_event SCCB_Start" "appends any_event SCCB_WaitAck"
  "appends any_event SCCB_ReceiveByte"
proof -
  note q = quiet_lines [THEN appends_any]
  show r: "appends any_event SDA_read"
    unfolding SDA_read_def by (intro frame_intros TrueI)
  show "appends any_event SCCB_Start" "appends any_event SCCB_WaitAck"
    unfolding SCCB_Start_def SCCB_WaitAck_def by (intro frame_intros TrueI q r)+
  have "appends any_event (receive_bits n acc)" for n acc
    by (induction n arbitrary: acc) (auto simp: Let_def intro!: frame_intros q r)
  then show "appends any_event SCCB_ReceiveByte"
    unfolding SCCB_ReceiveByte_def by (intro frame_intros TrueI q)
qed

lemmas keeps_compliant = sccb_appends [THEN compliant_appends]

text \<open>The lines leave the environment alone, so a compliant device stays one.\<close>

lemma env_appends: "appends P m \<Longrightarrow> compliant rv (snd (run_state m s)) = compliant rv s"
  using appends_env [of P m s] by (simp add: compliant_def)

lemma compliant_lines [simp]:
  "compliant rv (snd (run_state (scl_set v) s)) = compliant rv s"
  "compliant rv (snd (run_state (sda_set v) s)) = compliant rv s"
  "compliant rv (snd (run_state SCCB_delay s)) = compliant rv s"
  "compliant rv (snd (run_state SDA_read s)) = compliant rv s"
proof -
  have "appends not_read (scl_set v)" "appends not_read (sda_set v)" for v
    by (simp_all add: scl_set_def sda_set_def quiet_lines)
  note that = this
  show "compliant rv (snd (run_state (scl_set v) s)) = compliant rv s"
    "compliant rv (snd (run_state (sda_set v) s)) = compliant rv s"
    "compliant rv (snd (run_state SCCB_delay s)) = compliant rv s"
    "compliant rv (snd (run_state SDA_read s)) = compliant rv s"
    by (rule env_appends, rule that sccb_appends quiet_lines)+
qed

section \<open>The signalling functions with a device\<close>

lemma bus_start: "yields (on_bus rv) (Idle d) SCCB_Start True (Opened d)"
proof (rule yieldsI)
  fix s assume "on_bus rv (Idle d) s"
  then obtain ys where s: "compliant rv s" "at_rest s ys" "frames ys = (None, d)" by auto
  obtain ok t where run: "run_state SCCB_Start s = (ok, t)" by (cases "run_state SCCB_Start s")
  have "ok"
    using run s(1,2)
    by (auto simp: SCCB_Start_def line_sets sccb.line_laws at_rest_def set_scl_def set_sda_def
        sample_level [of rv] line_level_def split: if_splits)
  with start_wire [OF run s(2)] keeps_compliant(2) [OF s(1) run] s(3) run
  show "\<exists>t. run_state SCCB_Start s = (True, t) \<and> on_bus rv (Opened d) t"
    by (auto simp: frames_append)
qed

lemma bus_send_opened:
  "yields (on_bus rv) (Opened d) (SCCB_SendByte b) () (Low (bits_msb b) d)"
proof (rule yieldsI)
  fix s assume "on_bus rv (Opened d) s"
  then obtain ys where s: "compliant rv s" "started s ys" "frames ys = (Some [], d)" by auto
  obtain t where run: "run_state (SCCB_SendByte b) s = ((), t)"
    by (cases "run_state (SCCB_SendByte b) s") simp
  with send_after_start [OF run s(2)] compliant_appends [OF quiet_send s(1) run] s(3)
  show "\<exists>t. run_state (SCCB_SendByte b) s = ((), t) \<and> on_bus rv (Low (bits_msb b) d) t"
    by (auto simp: frames_append frame_bits)
qed

lemma bus_send_low:
  "yields (on_bus rv) (Low f d) (SCCB_SendByte b) () (Low (f @ bits_msb b) d)"
proof (rule yieldsI)
  fix s assume "on_bus rv (Low f d) s"
  then obtain ys where s: "compliant rv s" "clock_low s ys" "frames ys = (Some f, d)" by auto
  obtain t where run: "run_state (SCCB_SendByte b) s = ((), t)"
    by (cases "run_state (SCCB_SendByte b) s") simp
  with send_after_low [OF run s(2)] compliant_appends [OF quiet_send s(1) run] s(3)
  show "\<exists>t. run_state (SCCB_SendByte b) s = ((), t) \<and> on_bus rv (Low (f @ bits_msb b) d) t"
    by (auto simp: frames_append frame_bits)
qed

lemma bus_wait_ack:
  "yields (on_bus rv) (Low f d) SCCB_WaitAck (pulls_low rv d f) (Low (f @ [True]) d)"
proof (rule yieldsI)
  fix s assume "on_bus rv (Low f d) s"
  then obtain ys where s: "compliant rv s" "clock_low s ys" "frames ys = (Some f, d)" by auto
  obtain ack t where run: "run_state SCCB_WaitAck s = (ack, t)" by (cases "run_state SCCB_WaitAck s")
  have "ack = pulls_low rv d f"
    using run s
    by (cases "wire_in s")
      (auto simp: SCCB_WaitAck_def line_sets sccb.line_laws clock_low_def set_scl_def set_sda_def
        sample_level [of rv] line_level_def split: if_splits)
  with wait_ack_wire [OF run s(2)] keeps_compliant(3) [OF s(1) run] s(3) run
  show "\<exists>t. run_state SCCB_WaitAck s = (pulls_low rv d f, t) \<and> on_bus rv (Low (f @ [True]) d) t"
    by (auto simp: frames_append)
qed

lemma bus_stop: "yields (on_bus rv) (Low f d) SCCB_Stop () (Idle (d @ [f]))"
proof (rule yieldsI)
  fix s assume "on_bus rv (Low f d) s"
  then obtain ys where s: "compliant rv s" "clock_low s ys" "frames ys = (Some f, d)" by auto
  obtain t where run: "run_state SCCB_Stop s = ((), t)" by (cases "run_state SCCB_Stop s") simp
  with stop_wire [OF run s(2)] compliant_appends [OF quiet_stop_acks(1) s(1) run] s(3)
  show "\<exists>t. run_state SCCB_Stop s = ((), t) \<and> on_bus rv (Idle (d @ [f])) t"
    by (auto simp: frames_append)
qed

lemma bus_no_ack:
  "yields (on_bus rv) (Low f d) SCCB_NoAck () (Low (f @ [True]) d)"
proof (rule yieldsI)
  fix s assume "on_bus rv (Low f d) s"
  then obtain ys where s: "compliant rv s" "clock_low s ys" "frames ys = (Some f, d)" by auto
  obtain t where run: "run_state SCCB_NoAck s = ((), t)" by (cases "run_state SCCB_NoAck s") simp
  with ack_wire [of True, OF _ s(2)] compliant_appends [OF quiet_stop_acks(3) s(1) run] s(3)
  show "\<exists>t. run_state SCCB_NoAck s = ((), t) \<and> on_bus rv (Low (f @ [True]) d) t"
    by (fastforce simp: frames_append)
qed

section \<open>Receiving from the device\<close>

lemma bus_clock_in:
  "yields (on_bus rv) (Reading f d) (do { scl_set False; SCCB_delay; scl_set True; SCCB_delay; SDA_read })
     (\<not> pulls_low rv d f) (Reading (f @ [True]) d)"
proof -
  let ?m = "do { scl_set False; SCCB_delay; scl_set True; SCCB_delay; SDA_read }"
  have "fst (run_state ?m s) = (\<not> pulls_low rv d f) \<and> on_bus rv (Reading (f @ [True]) d) (snd (run_state ?m s))"
    if "on_bus rv (Reading f d) s" for s :: "'a board_scheme"
    using that
    by (cases "wire_in s")
      (auto simp: sccb.line_laws set_scl_def pend_def sample_level [of rv] line_level_def frames_append)
  then show ?thesis unfolding yields_def by blast
qed

lemma receive_bits_Suc_eq:
  "receive_bits (Suc n) acc =
     do { scl_set False; SCCB_delay; scl_set True; SCCB_delay; SDA_read } \<bind>
     (\<lambda>v. receive_bits n (push_bit 1 acc OR (if v then 1 else 0)))"
proof -
  have "(if v then push_bit 1 acc OR 1 else push_bit 1 acc) = push_bit 1 acc OR (if v then 1 else 0)"
    for v by simp
  then show ?thesis
    unfolding receive_bits.simps Let_def line_sets by (simp only: bind_assoc)
qed

lemma bus_receive_bits:
  "yields (on_bus rv :: phase \<Rightarrow> 'z board_scheme \<Rightarrow> bool) (Reading f d) (receive_bits n acc)
     (foldl (\<lambda>a v. push_bit 1 a OR (if v then 1 else 0)) acc
       (map (\<lambda>i. \<not> pulls_low rv d (f @ replicate i True)) [0..<n]))
     (Reading (f @ replicate n True) d)"
proof (induction n arbitrary: acc f)
  case 0
  show ?case by (simp add: yields_ret)
next
  case (Suc n)
  let ?v = "\<not> pulls_low rv d f"
  have "yields (on_bus rv :: phase \<Rightarrow> 'z board_scheme \<Rightarrow> bool) (Reading f d) (receive_bits (Suc n) acc)
      (foldl (\<lambda>a v. push_bit 1 a OR (if v then 1 else 0)) (push_bit 1 acc OR (if ?v then 1 else 0))
        (map (\<lambda>i. \<not> pulls_low rv d ((f @ [True]) @ replicate i True)) [0..<n]))
      (Reading ((f @ [True]) @ replicate n True) d)"
    by (subst receive_bits_Suc_eq, rule yields_bind, rule bus_clock_in, rule Suc.IH)
  moreover have "map (\<lambda>i. \<not> pulls_low rv d (f @ replicate i True)) [0..<Suc n] =
      ?v # map (\<lambda>i. \<not> pulls_low rv d ((f @ [True]) @ replicate i True)) [0..<n]"
    by (simp add: upt_conv_Cons map_Suc_upt [symmetric] del: upt_Suc)
  ultimately show ?case
    by (simp only: foldl.simps append_assoc append_Cons append_Nil replicate_Suc)
qed

text \<open>An open frame that selects the device for reading.\<close>

lemma frame_byte_0: "frame_byte 0 (bits_msb b @ f) = b"
  by (simp add: frame_byte_def)

lemma frame_byte_1: "frame_byte 1 (bits_msb b @ [x] @ bits_msb c @ f) = c"
  by (simp add: frame_byte_def)

definition read_open :: frame where
  "read_open = bits_msb (DEV_ADR + 1) @ [True]"

lemma pulls_low_data:
  assumes "i < 8"
  shows "pulls_low rv d (read_open @ replicate i True) = (\<not> bit (rv d (selected d)) (7 - i))"
proof -
  have "(9 + i) mod 9 = i" using assms by simp
  moreover have "frame_byte 0 (read_open @ replicate i True) = DEV_ADR + 1"
    by (simp add: read_open_def frame_byte_0)
  ultimately show ?thesis
    using assms by (simp add: pulls_low_def read_open_def DEV_ADR_def Let_def)
qed

lemma bits_msb_upt: "bits_msb b = map (\<lambda>i. bit b (7 - i)) [0..<8]"
  by (simp add: bits_msb_def upt_rec)

lemma bus_receive_byte:
  "yields (on_bus rv) (Low read_open d) SCCB_ReceiveByte (rv d (selected d))
     (Low (read_open @ replicate 8 True) d)"
proof -
  have 1: "yields (on_bus rv) (Low f d) SDA_H () (Reading f d)" for f
    unfolding yields_def by (auto simp: clock_low_def line_sets sccb.line_laws set_sda_def pend_def)
  have 3: "yields (on_bus rv) (Reading f d) SCL_L () (Low f d)" for f
    unfolding yields_def by (auto simp: clock_low_def line_sets sccb.line_laws set_scl_def pend_def)
  have "map (\<lambda>i. \<not> pulls_low rv d (read_open @ replicate i True)) [0..<8] =
      bits_msb (rv d (selected d))"
    unfolding bits_msb_upt by (simp add: pulls_low_data)
  then have 2: "yields (on_bus rv) (Reading read_open d) (receive_bits 8 0) (rv d (selected d))
      (Reading (read_open @ replicate 8 True) d)"
    using bus_receive_bits [of rv read_open d 8 0]
    by (simp only: byte_of_bits_def [symmetric] byte_of_bits_msb)
  show ?thesis
    unfolding SCCB_ReceiveByte_def by (rule 1 2 3 yields_bind yields_ret)+
qed

section \<open>Register access\<close>

lemma acknowledges:
  "pulls_low rv d (bits_msb DEV_ADR)" "pulls_low rv d (bits_msb (DEV_ADR + 1))"
  "pulls_low rv d (bits_msb DEV_ADR @ [True] @ bits_msb a)"
  "pulls_low rv d (bits_msb DEV_ADR @ [True] @ bits_msb a @ [True] @ bits_msb v)"
  using frame_byte_0 [of _ "[]"] by (simp_all add: pulls_low_def frame_byte_0 Let_def)

lemmas bus_rules = yields_bind yields_ret bus_start bus_send_opened bus_send_low bus_wait_ack bus_stop

lemma bus_write:
  "yields (on_bus rv) (Idle d) (SCCB_WriteByte a v) True (Idle (d @ [write_frame (ucast a) v]))"
  unfolding SCCB_WriteByte_def low_byte write_frame_def
  by (rule bus_rules, rule bus_rules, simp, (rule bus_rules | simp add: acknowledges)+)

lemma selected_addr [simp]: "selected (d @ [addr_frame a]) = a"
  by (simp add: selected_def addr_frame_def frame_byte_def)

lemma bus_read:
  "yields (on_bus rv) (Idle d) (SCCB_ReadByte 1 a) (Some [rv (d @ [addr_frame a]) a])
     (Idle (d @ [addr_frame a, read_frame]))"
proof -
  let ?d = "d @ [addr_frame a]"
  have r: "yields (on_bus rv) (Low (bits_msb (DEV_ADR + 1) @ [True]) ?d) (read_bytes (unat (1 :: u16)))
      [rv ?d a] (Low read_frame ?d)"
    using bus_receive_byte [of rv ?d]
    by (simp add: read_open_def read_frame_def) (rule yields_bind, assumption, rule yields_bind,
        rule bus_no_ack, simp add: yields_ret)
  have left: "addr_frame a = ((bits_msb DEV_ADR @ [True]) @ bits_msb a) @ [True]"
    "d @ [addr_frame a, read_frame] = ?d @ [read_frame]"
    by (simp_all add: addr_frame_def)
  have ack: "pulls_low rv e ((bits_msb DEV_ADR @ [True]) @ bits_msb a)" for e
    using acknowledges(3) by simp
  show ?thesis
    unfolding SCCB_ReadByte_def left(2)
    using r unfolding left(1)
    apply -
    apply (rule bus_rules, rule bus_rules, simp only: simp_thms if_False)
    apply (assumption | rule bus_rules | simp only: acknowledges ack simp_thms if_False)+
    done
qed

section \<open>A bus of registers\<close>

text \<open>
  What the camera driver needs of its bus: writes and single-register reads that succeed and
  act on an abstract device \<open>'d\<close>.
\<close>

locale reg_bus =
  fixes wr :: "u16 \<Rightarrow> u8 \<Rightarrow> ('s, bool) state"
    and rd :: "u16 \<Rightarrow> u8 \<Rightarrow> ('s, u8 list option) state"
    and dev :: "'d \<Rightarrow> 's \<Rightarrow> bool"
    and wrote :: "u8 \<Rightarrow> u8 \<Rightarrow> 'd \<Rightarrow> 'd"
    and asked :: "u8 \<Rightarrow> 'd \<Rightarrow> 'd"
    and reg :: "u8 \<Rightarrow> 'd \<Rightarrow> u8"
  assumes write_law: "yields dev d (wr a v) True (wrote (ucast a) v d)"
    and read_law: "yields dev d (rd 1 b) (Some [reg b d]) (asked b d)"
begin

text \<open>A list of writes whose results are ignored, and one that stops at a failure.\<close>

lemma write_all:
  "yields dev d (for_each rs (\<lambda>r. do { wr (ucast (fst r)) (snd r); ret () })) ()
     (fold (\<lambda>r. wrote (fst r) (snd r)) rs d)"
proof (induction rs arbitrary: d)
  case Nil
  show ?case by (simp add: yields_ret)
next
  case (Cons r rs)
  have "yields dev d (wr (ucast (fst r)) (snd r)) True (wrote (fst r) (snd r) d)"
    using write_law [of d "ucast (fst r)" "snd r"] by simp
  then show ?case
    by simp (rule yields_bind, assumption, rule Cons.IH)
qed

lemma read_or_keep:
  "yields dev d (do { r \<leftarrow> rd 1 a; ret (case r of None \<Rightarrow> x | Some bs \<Rightarrow> hd bs) }) (reg a d) (asked a d)"
proof -
  let ?f = "\<lambda>r. case r of None \<Rightarrow> x | Some bs \<Rightarrow> hd bs"
  have "yields dev d (do { r \<leftarrow> rd 1 a; ret (?f r) }) (?f (Some [reg a d])) (asked a d)"
    by (rule yields_bind, rule read_law, rule yields_ret)
  then show ?thesis by simp
qed

end

text \<open>The register writes among the frames of a history.\<close>

definition writes :: "frame list \<Rightarrow> (u8 \<times> u8) list" where
  "writes d = concat (map (\<lambda>f. if length f = 27 \<and> frame_byte 0 f = DEV_ADR
     then [(frame_byte 1 f, frame_byte 2 f)] else []) d)"

lemma writes_Nil [simp]: "writes [] = []"
  by (simp add: writes_def)

lemma writes_append [simp]: "writes (d @ e) = writes d @ writes e"
  by (simp add: writes_def)

lemma writes_frames [simp]:
  "writes (write_frame a v # d) = (a, v) # writes d"
  "writes (addr_frame a # d) = writes d"
  "writes (read_frame # d) = writes d"
  by (simp_all add: writes_def write_frame_def addr_frame_def read_frame_def frame_byte_def)

definition bus_dev :: "(frame list \<Rightarrow> u8 \<Rightarrow> u8) \<Rightarrow> frame list \<Rightarrow> 'z board_scheme \<Rightarrow> bool" where
  "bus_dev rv d s = on_bus rv (Idle d) s"

definition dev_wrote :: "u8 \<Rightarrow> u8 \<Rightarrow> frame list \<Rightarrow> frame list" where
  "dev_wrote a v d = d @ [write_frame a v]"

definition dev_asked :: "u8 \<Rightarrow> frame list \<Rightarrow> frame list" where
  "dev_asked a d = d @ [addr_frame a, read_frame]"

definition dev_reg :: "(frame list \<Rightarrow> u8 \<Rightarrow> u8) \<Rightarrow> u8 \<Rightarrow> frame list \<Rightarrow> u8" where
  "dev_reg rv a d = rv (d @ [addr_frame a]) a"

lemma yields_map: "yields I (g k) m x (g k') \<longleftrightarrow> yields (\<lambda>k. I (g k)) k m x k'"
  by (simp add: yields_def)

interpretation camera_bus: reg_bus SCCB_WriteByte SCCB_ReadByte "bus_dev rv" dev_wrote dev_asked "dev_reg rv"
  for rv
proof
  show "yields (bus_dev rv) d (SCCB_WriteByte a v) True (dev_wrote (ucast a) v d)" for d a v
    using bus_write [of rv d a v]
    by (simp only: yields_map [of _ Idle] bus_dev_def [abs_def] dev_wrote_def)
  show "yields (bus_dev rv) d (SCCB_ReadByte 1 b) (Some [dev_reg rv b d]) (dev_asked b d)" for d b
    using bus_read [of rv d b]
    by (simp only: yields_map [of _ Idle] bus_dev_def [abs_def] dev_asked_def dev_reg_def)
qed

lemma writes_dev [simp]:
  "writes (dev_wrote a v d) = writes d @ [(a, v)]"
  "writes (dev_asked a d) = writes d"
  by (simp_all add: dev_wrote_def dev_asked_def)

lemma writes_fold [simp]:
  "writes (fold (\<lambda>r. dev_wrote (fst r) (snd r)) rs d) = writes d @ rs"
  by (induction rs arbitrary: d) simp_all

text \<open>A board with nothing but such a device on it.\<close>

definition device_board :: "(frame list \<Rightarrow> u8 \<Rightarrow> u8) \<Rightarrow> board" where
  "device_board rv = \<lparr>hist = [],
     env = env0\<lparr>pin_level := \<lambda>h p n. line_level rv (wire_of h)\<rparr>, heap = Map.empty\<rparr>"

lemma device_board_idle: "bus_dev rv [] (device_board rv)"
  by (auto simp: bus_dev_def device_board_def compliant_def at_rest_def wire_in_def wire_of_def
      wire0_def frames_def)

text \<open>
  C10: the bit-banged bus implements register access. On an idle bus with a compliant device
  \<open>SCCB_WriteByte\<close> returns 1 and the device has received exactly one more frame, the write
  of \<open>v\<close> to the register named by the low address byte; \<open>SCCB_ReadByte\<close> of one byte returns
  the value the device has in the register asked for, and writes nothing. The bus is idle
  again after both.
\<close>

theorem SCCB_register_access:
  assumes "bus_dev rv d s"
  shows "(let (ok, t) = run_state (SCCB_WriteByte a v) s; d' = d @ [write_frame (ucast a) v] in
      ok \<and> bus_dev rv d' t \<and> writes d' = writes d @ [(ucast a, v)]) \<and>
    (let (r, t) = run_state (SCCB_ReadByte 1 b) s; d' = d @ [addr_frame b, read_frame] in
      r = Some [rv (d @ [addr_frame b]) b] \<and> bus_dev rv d' t \<and> writes d' = writes d)"
  using yieldsD [OF camera_bus.write_law assms, of a v] yieldsD [OF camera_bus.read_law assms, of b]
  by (auto simp: dev_wrote_def dev_asked_def dev_reg_def)

text \<open>A device that keeps what was last written to each register.\<close>

definition memory :: "frame list \<Rightarrow> u8 \<Rightarrow> u8" where
  "memory d a = (case map_of (rev (writes d)) a of Some v \<Rightarrow> v | None \<Rightarrow> 0)"

lemma SCCB_register_access_witness:
  "fst (run_state (SCCB_WriteByte 0x12 0x80) (device_board memory)) \<and>
   fst (run_state (SCCB_ReadByte 1 0x12) (snd (run_state (SCCB_WriteByte 0x12 0x80) (device_board memory))))
     = Some [0x80]"
proof -
  let ?t = "snd (run_state (SCCB_WriteByte 0x12 0x80) (device_board memory))"
  have 1: "fst (run_state (SCCB_WriteByte 0x12 0x80) (device_board memory))"
      "bus_dev memory [write_frame 0x12 0x80] ?t"
    using SCCB_register_access [OF device_board_idle [of memory], where a = "0x12" and v = "0x80"]
    by (auto simp: split_beta)
  then show ?thesis
    using SCCB_register_access [OF 1(2), where b = "0x12"] by (auto simp: split_beta memory_def)
qed

end
