(* ===== verification/Ov7725_Frames.thy ===== *)
theory Ov7725_Frames
  imports Ov7725
begin

text \<open>
  The camera in operation: start-up as a whole, and the hand-over of frames between the
  vertical-sync interrupt and the main loop through the FIFO chip. A monitor of the FIFO's
  control lines states what the chip does; the interrupt and the main loop are the steps of
  a transition system.
\<close>

section \<open>Start-up\<close>

definition wire_quiet :: "ev \<Rightarrow> bool" where
  "wire_quiet e \<longleftrightarrow> (\<forall>w. wire_step w e = w)"

lemma wire_of_quiet: "list_all wire_quiet es \<Longrightarrow> wire_of (h @ es) = wire_of h"
  by (induction es arbitrary: h rule: rev_induct) (auto simp: wire_quiet_def simp flip: append_assoc)

lemma dev_quiet:
  fixes m :: "('z board_scheme, 'a) state"
  assumes "extends wire_quiet m" and "\<And>s. fst (run_state m s) = x"
  shows "yields (bus_dev rv) d m x d"
  unfolding yields_def
proof (intro allI impI conjI assms(2))
  fix s :: "'z board_scheme" assume s: "bus_dev rv d s"
  obtain es where "hist (snd (run_state m s)) = hist s @ es" "env (snd (run_state m s)) = env s"
      "list_all wire_quiet es"
    using assms(1) unfolding extends_def by blast
  then have "wire_in (snd (run_state m s)) = wire_in s" "env (snd (run_state m s)) = env s"
    by (simp_all add: wire_in_def wire_of_quiet)
  with s show "bus_dev rv d (snd (run_state m s))"
    by (simp add: bus_dev_def compliant_def at_rest_def)
qed

lemma pin_setup_quiet: "pin_setup e \<Longrightarrow> wire_quiet e"
  by (cases e) (simp_all add: wire_quiet_def)

lemma quiet_evs [simp]:
  "wire_quiet (ClkEnable p)" "wire_quiet (HalGpioInit p n m u)" "wire_quiet (Brr p v)"
  "p \<noteq> 2 \<Longrightarrow> wire_quiet (Bsrr p v)"
  by (simp_all add: wire_quiet_def)

lemma OV7725_GPIO_Config_dev: "yields (bus_dev rv) d OV7725_GPIO_Config () d"
proof -
  have "extends wire_quiet VSYNC_GPIO_Config"
    unfolding VSYNC_GPIO_Config_def
    by (rule extends_mono [of pin_setup]) (intro extend_intros, erule pin_setup_quiet)
  then have "extends wire_quiet OV7725_GPIO_Config"
    unfolding OV7725_GPIO_Config_def SCCB_GPIO_Config_def FIFO_GPIO_Config_def FIFO_OE_L_def FIFO_WE_H_def
    by (intro extend_intros) simp_all
  then show ?thesis by (rule dev_quiet) simp
qed

lemma bus_dev_modify: "(\<And>s. hist (f s) = hist s \<and> env (f s) = env s) \<Longrightarrow> yields (bus_dev rv) d (modify f) () d"
  by (rule dev_quiet) (auto intro: extend_intros)

lemma vsync_dev: "yields (bus_dev rv) d (modify (\<lambda>s. s\<lparr>Ov7725_vsync := v\<rparr>)) () d"
  by (rule bus_dev_modify) simp

text \<open>The retry loop: six attempts at most.\<close>

fun attempts :: "(frame list \<Rightarrow> u8 \<Rightarrow> u8) \<Rightarrow> nat \<Rightarrow> frame list \<Rightarrow> bool \<times> frame list" where
  "attempts rv 0 d = (False, d)"
| "attempts rv (Suc n) d = (if chip_id rv d = OV7725_ID then (True, init_end rv d)
     else attempts rv n (init_end rv d))"

lemma init_retry_dev:
  "retry \<le> 5 \<Longrightarrow>
   yields (bus_dev rv :: frame list \<Rightarrow> 'z board_scheme \<Rightarrow> bool) d (init_retry retry) (fst (attempts rv (6 - retry) d))
     (snd (attempts rv (6 - retry) d))"
proof (induction retry arbitrary: d rule: init_retry.induct)
  case (1 retry)
  have n: "6 - retry = Suc (5 - retry)" using 1(2) by simp
  have rest: "yields (bus_dev rv :: frame list \<Rightarrow> 'z board_scheme \<Rightarrow> bool) (init_end rv d)
      (if Suc retry > 5 then ret False else init_retry (Suc retry))
      (fst (attempts rv (5 - retry) (init_end rv d))) (snd (attempts rv (5 - retry) (init_end rv d)))"
    if "chip_id rv d \<noteq> OV7725_ID"
    using that 1(1) [of ERROR] 1(2) by (cases "retry = 5") (auto simp: yields_ret)
  show ?case
    unfolding n init_retry.simps [of retry]
    by (rule yields_bind, rule OV7725_Init_dev) (use rest in \<open>auto simp: yields_ret split: if_splits\<close>)
qed

text \<open>The settings written after the registers have been configured.\<close>

definition mode_writes :: "(u8 \<times> u8) list" where
  "mode_writes = [(0xA6, 0x06), (0x60, 0x80), (0x61, 0x80),
     (0x13, 0xFF), (0x0E, 0x65), (0x2D, 0x00), (0x2E, 0x00),
     (REG_USAT, 0x40), (REG_VSAT, 0x40), (REG_BRIGHT, 0x08), (REG_SIGN, 0x06), (REG_CNST, 0x20),
     (0xA6, 0x06), (0x60, 0x80), (0x61, 0x80)]"

lemma yields_end: "yields I k m x j \<Longrightarrow> j = k' \<Longrightarrow> yields I k m x k'"
  by simp

abbreviation (input) dev_writes :: "(u8 \<times> u8) list \<Rightarrow> frame list \<Rightarrow> frame list" where
  "dev_writes ws \<equiv> fold (\<lambda>r. dev_wrote (fst r) (snd r)) ws"

lemma default_ops_dev:
  "yields (bus_dev rv) d (OV7725_Special_Effect 0) () (dev_writes [(0xA6, 0x06), (0x60, 0x80), (0x61, 0x80)] d)"
  "yields (bus_dev rv) d (OV7725_Light_Mode 0) ()
     (dev_writes [(0x13, 0xFF), (0x0E, 0x65), (0x2D, 0x00), (0x2E, 0x00)] d)"
  "yields (bus_dev rv) d (OV7725_Color_Saturation 0) () (dev_writes [(REG_USAT, 0x40), (REG_VSAT, 0x40)] d)"
  "yields (bus_dev rv) d (OV7725_Brightness 0) () (dev_writes [(REG_BRIGHT, 0x08), (REG_SIGN, 0x06)] d)"
  "yields (bus_dev rv) d (OV7725_Contrast 0) () (dev_writes [(REG_CNST, 0x20)] d)"
proof -
  show "yields (bus_dev rv) d (OV7725_Special_Effect 0) () (dev_writes [(0xA6, 0x06), (0x60, 0x80), (0x61, 0x80)] d)"
    "yields (bus_dev rv) d (OV7725_Light_Mode 0) ()
      (dev_writes [(0x13, 0xFF), (0x0E, 0x65), (0x2D, 0x00), (0x2E, 0x00)] d)"
    unfolding OV7725_Special_Effect_def OV7725_Light_Mode_def if_P [OF refl] by (rule reg_writes_dev)+
  show "yields (bus_dev rv) d (OV7725_Color_Saturation 0) () (dev_writes [(REG_USAT, 0x40), (REG_VSAT, 0x40)] d)"
    by (simp add: OV7725_Color_Saturation_def) (rule dev_rules)+
  show "yields (bus_dev rv) d (OV7725_Brightness 0) () (dev_writes [(REG_BRIGHT, 0x08), (REG_SIGN, 0x06)] d)"
    by (simp add: OV7725_Brightness_def brightness_values_def when_true_def)
      (rule yields_ask, rule yields_ask, (rule dev_rules)+)
  show "yields (bus_dev rv) d (OV7725_Contrast 0) () (dev_writes [(REG_CNST, 0x20)] d)"
    by (simp add: OV7725_Contrast_def reg_write_dev)
qed

text \<open>What start-up leaves on the wire, with a camera that answers to its name.\<close>

definition boot_end :: "(frame list \<Rightarrow> u8 \<Rightarrow> u8) \<Rightarrow> frame list \<Rightarrow> frame list" where
  "boot_end rv d = window_end REG_HREF rv 0 0 320 240
     (dev_wrote REG_COM7 0x46 (dev_writes mode_writes (init_end rv d)))"

definition answers :: "(frame list \<Rightarrow> u8 \<Rightarrow> u8) \<Rightarrow> u8 \<Rightarrow> bool" where
  "answers rv i \<longleftrightarrow> (\<forall>d. rv d 0x0B = i)"

lemma my_ov7725_test_init_good:
  assumes "answers rv OV7725_ID"
  shows "yields (bus_dev rv :: frame list \<Rightarrow> 'z cam_st_scheme \<Rightarrow> bool) d my_ov7725_test_init RT_EOK
    (boot_end rv d)"
proof -
  have "attempts rv 6 d = (True, init_end rv d)"
    using assms by (simp add: answers_def chip_id_def dev_reg_def eval_nat_numeral)
  then have r: "yields (bus_dev rv :: frame list \<Rightarrow> 'z cam_st_scheme \<Rightarrow> bool) d (init_retry 0) True
      (init_end rv d)"
    using init_retry_dev [of 0 rv d] by simp
  show ?thesis
    unfolding my_ov7725_test_init_def cam_mode_def OV7725_MODE_PARAM.simps
    by (rule yields_end, rule yields_bind, rule OV7725_GPIO_Config_dev, rule yields_bind, rule r,
        simp only: simp_thms if_False,
        (rule default_ops_dev OV7725_Window_Set_dev vsync_dev yields_bind yields_ret)+,
        simp add: boot_end_def mode_writes_def com7_mode_def)
qed

lemma attempts_bad:
  "answers rv i \<Longrightarrow> i \<noteq> OV7725_ID \<Longrightarrow>
     fst (attempts rv n d) = False \<and> writes (snd (attempts rv n d)) = writes d @ replicate n (0x12, 0x80)"
  by (induction n arbitrary: d) (simp_all add: answers_def chip_id_def dev_reg_def writes_init_end)

lemma my_ov7725_test_init_bad:
  assumes "answers rv i" and "i \<noteq> OV7725_ID"
  shows "yields (bus_dev rv :: frame list \<Rightarrow> 'z cam_st_scheme \<Rightarrow> bool) d my_ov7725_test_init (- RT_ERROR)
    (snd (attempts rv 6 d))"
proof -
  have r: "yields (bus_dev rv :: frame list \<Rightarrow> 'z cam_st_scheme \<Rightarrow> bool) d (init_retry 0) False
      (snd (attempts rv 6 d))"
    using init_retry_dev [of 0 rv d] attempts_bad [OF assms, of 6 d] by simp
  show ?thesis
    unfolding my_ov7725_test_init_def
    by (rule yields_bind, rule OV7725_GPIO_Config_dev, rule yields_bind, rule r) (simp add: yields_ret)
qed

lemma test_init_vsync:
  "run_state my_ov7725_test_init s = (RT_EOK, t) \<Longrightarrow> Ov7725_vsync t = 0"
  by (auto simp: my_ov7725_test_init_def split: prod.splits if_splits)

text \<open>
  C33: start-up of the camera. With a camera that identifies itself as 0x21
  \<open>my_ov7725_test_init\<close> returns \<open>RT_EOK\<close>, leaves the frame state idle, and the camera has
  received the reset, the default configuration, the default modes and a 320 x 240 window,
  in this order. With any other identification it returns an error after exactly six
  attempts, each of them one reset, and nothing is configured.
\<close>

theorem my_ov7725_test_init_outcome:
  assumes "bus_dev rv d s" and "answers rv i" and "run_state my_ov7725_test_init s = (r, t)"
  shows "if i = OV7725_ID
    then r = RT_EOK \<and> Ov7725_vsync t = 0 \<and> (\<exists>d' ws. bus_dev rv d' t \<and>
      writes d' = writes d @ (0x12, 0x80) # Sensor_Config @ mode_writes @ (REG_COM7, 0x46) # ws \<and>
      last_write ws REG_HSIZE = Some 80 \<and> last_write ws REG_VSIZE = Some 120)
    else r = - RT_ERROR \<and> (\<exists>d'. bus_dev rv d' t \<and> writes d' = writes d @ replicate 6 (0x12, 0x80))"
proof (cases "i = OV7725_ID")
  case True
  have "chip_id rv d = OV7725_ID"
    using assms(2) True by (simp add: answers_def chip_id_def dev_reg_def)
  then have w: "writes (boot_end rv d) = writes d @ (0x12, 0x80) # Sensor_Config @ mode_writes @
      (REG_COM7, 0x46) # window_writes REG_HREF rv 0 0 320 240
        (dev_wrote REG_COM7 0x46 (dev_writes mode_writes (init_end rv d)))"
    by (simp add: boot_end_def writes_window_end writes_init_end)
  have "r = RT_EOK \<and> bus_dev rv (boot_end rv d) t"
    using yieldsD [OF my_ov7725_test_init_good assms(1)] assms(2,3) True by auto
  with True w test_init_vsync assms(3) show ?thesis
    by (auto intro!: exI [of _ "boot_end rv d"] simp: window_writes_def Let_def last_write_def)
next
  case False
  then show ?thesis
    using yieldsD [OF my_ov7725_test_init_bad [OF assms(2) False] assms(1)] attempts_bad [OF assms(2) False, of 6 d]
      assms(3) by auto
qed

definition cam_board :: "(frame list \<Rightarrow> u8 \<Rightarrow> u8) \<Rightarrow> cam_st" where
  "cam_board rv = \<lparr>hist = [], env = env (device_board rv), heap = Map.empty, pin_irq_hdr_tab = init_irq_hdr_tab,
     pin_irq_enable_mask = 0, key1_isChanged = False, key2_isChanged = False, Ov7725_vsync = 0\<rparr>"

lemma cam_board_idle: "bus_dev rv [] (cam_board rv)"
  using device_board_idle [of rv]
  by (simp add: bus_dev_def cam_board_def compliant_def at_rest_def wire_in_def device_board_def)

lemma my_ov7725_test_init_outcome_witness:
  "fst (run_state my_ov7725_test_init (cam_board good_camera)) = RT_EOK \<and>
   fst (run_state my_ov7725_test_init (cam_board (\<lambda>_ _. 0x76))) = - RT_ERROR"
proof -
  obtain r t r' t' where
    1: "run_state my_ov7725_test_init (cam_board good_camera) = (r, t)" and
    2: "run_state my_ov7725_test_init (cam_board (\<lambda>_ _. 0x76)) = (r', t')"
    by (metis prod.exhaust)
  have "answers good_camera OV7725_ID" "answers (\<lambda>_ _. 0x76) 0x76" "(0x76 :: u8) \<noteq> OV7725_ID"
    by (simp_all add: answers_def good_camera_def OV7725_ID_def)
  with my_ov7725_test_init_outcome [OF cam_board_idle _ 1] my_ov7725_test_init_outcome [OF cam_board_idle _ 2]
  show ?thesis using 1 2 by fastforce
qed

section \<open>The FIFO chip\<close>

text \<open>
  The chip's control lines, the read pointer (reset by a read clock while \<open>RRST\<close> is low),
  the pointer at every sample of the data lines, and whether a sample was ever taken while
  the write enable was high.
\<close>

record fifo =
  f_we :: bool
  f_wrst :: bool
  f_rclk :: bool
  f_rrst :: bool
  f_pos :: nat
  f_reads :: "nat list"
  f_overlap :: bool

definition set_line :: "bool \<Rightarrow> nat \<Rightarrow> u32 \<Rightarrow> fifo \<Rightarrow> fifo" where
  "set_line v p b w =
     (if p = 3 \<and> b = 2 ^ 3 then w\<lparr>f_we := v\<rparr>
      else if p = 2 \<and> b = 2 ^ 4 then w\<lparr>f_wrst := v\<rparr>
      else if p = 0 \<and> b = 2 ^ 2 then w\<lparr>f_rrst := v\<rparr>
      else if p = 2 \<and> b = 2 ^ 5 then
        (if v \<and> \<not> f_rclk w then w\<lparr>f_rclk := True, f_pos := if f_rrst w then f_pos w + 1 else 0\<rparr>
         else w\<lparr>f_rclk := v\<rparr>)
      else w)"

fun fifo_step :: "fifo \<Rightarrow> ev \<Rightarrow> fifo" where
  "fifo_step w (Bsrr p b) = set_line True p b w"
| "fifo_step w (Brr p b) = set_line False p b w"
| "fifo_step w (IdrRead p v) =
     (if p = 1 then w\<lparr>f_reads := f_reads w @ [f_pos w], f_overlap := f_overlap w \<or> f_we w\<rparr> else w)"
| "fifo_step w _ = w"

definition fifo0 :: fifo where
  "fifo0 = \<lparr>f_we = False, f_wrst = False, f_rclk = False, f_rrst = False, f_pos = 0, f_reads = [],
     f_overlap = False\<rparr>"

definition fifo_in :: "'z board_scheme \<Rightarrow> fifo" where
  "fifo_in s = foldl fifo_step fifo0 (hist s)"

text \<open>The bytes sampled, and what the display received.\<close>

fun idr_ev :: "ev \<Rightarrow> u16 list" where
  "idr_ev (IdrRead p v) = (if p = 1 then [v] else [])"
| "idr_ev _ = []"

fun lcd_ev :: "ev \<Rightarrow> lcd_call list" where
  "lcd_ev (Lcd c) = [c]"
| "lcd_ev _ = []"

definition idr_of :: "ev list \<Rightarrow> u16 list" where "idr_of es = concat (map idr_ev es)"
definition lcd_of :: "ev list \<Rightarrow> lcd_call list" where "lcd_of es = concat (map lcd_ev es)"

lemma ev_lists [simp]:
  "idr_of [] = []" "idr_of (e # es) = idr_ev e @ idr_of es" "idr_of (es @ fs) = idr_of es @ idr_of fs"
  "lcd_of [] = []" "lcd_of (e # es) = lcd_ev e @ lcd_of es" "lcd_of (es @ fs) = lcd_of es @ lcd_of fs"
  by (simp_all add: idr_of_def lcd_of_def)

text \<open>Two successive bytes make a pixel, high byte first.\<close>

fun pixels :: "u16 list \<Rightarrow> u16 list" where
  "pixels (hi # lo # bs) = ((hi AND 0xFF00) OR (drop_bit 8 lo AND 0x00FF)) # pixels bs"
| "pixels _ = []"

lemma pixels_append: "even (length xs) \<Longrightarrow> pixels (xs @ ys) = pixels xs @ pixels ys"
  by (induction xs rule: pixels.induct) auto

section \<open>Emptying the FIFO\<close>

text \<open>\<open>m\<close> takes \<open>n\<close> pixels from the FIFO, in order and each from the next two bytes, and sends them to the display.\<close>

definition ready :: "fifo \<Rightarrow> bool" where
  "ready w \<longleftrightarrow> f_rclk w \<and> f_rrst w \<and> \<not> f_we w"

definition shows_pixels :: "nat \<Rightarrow> ('z board_scheme, unit) state \<Rightarrow> bool" where
  "shows_pixels n m \<longleftrightarrow> (\<forall>s. ready (fifo_in s) \<longrightarrow> (\<exists>es. snd (run_state m s) = s\<lparr>hist := hist s @ es\<rparr> \<and>
     length (idr_of es) = 2 * n \<and> lcd_of es = map ILI9341_Write_Data (pixels (idr_of es)) \<and>
     fifo_in (snd (run_state m s)) = (fifo_in s)\<lparr>f_pos := f_pos (fifo_in s) + 2 * n,
       f_reads := f_reads (fifo_in s) @ [f_pos (fifo_in s)..<f_pos (fifo_in s) + 2 * n]\<rparr>))"

lemma shows_none: "shows_pixels 0 (ret ())"
  by (auto simp: shows_pixels_def intro!: exI [of _ "[]"])

lemma shows_bind:
  fixes m m' :: "('z board_scheme, unit) state"
  assumes "shows_pixels n m" and "shows_pixels k m'"
  shows "shows_pixels (n + k) (m \<bind> (\<lambda>_. m'))"
  unfolding shows_pixels_def
proof (intro allI impI)
  fix s :: "'z board_scheme" assume s: "ready (fifo_in s)"
  let ?t = "snd (run_state m s)"
  obtain es where es: "?t = s\<lparr>hist := hist s @ es\<rparr>" "length (idr_of es) = 2 * n"
      "lcd_of es = map ILI9341_Write_Data (pixels (idr_of es))"
      "fifo_in ?t = (fifo_in s)\<lparr>f_pos := f_pos (fifo_in s) + 2 * n,
        f_reads := f_reads (fifo_in s) @ [f_pos (fifo_in s)..<f_pos (fifo_in s) + 2 * n]\<rparr>"
    using assms(1) s unfolding shows_pixels_def by blast
  then have "ready (fifo_in ?t)" using s by (simp add: ready_def)
  then obtain fs where fs: "snd (run_state m' ?t) = ?t\<lparr>hist := hist ?t @ fs\<rparr>" "length (idr_of fs) = 2 * k"
      "lcd_of fs = map ILI9341_Write_Data (pixels (idr_of fs))"
      "fifo_in (snd (run_state m' ?t)) = (fifo_in ?t)\<lparr>f_pos := f_pos (fifo_in ?t) + 2 * k,
        f_reads := f_reads (fifo_in ?t) @ [f_pos (fifo_in ?t)..<f_pos (fifo_in ?t) + 2 * k]\<rparr>"
    using assms(2) unfolding shows_pixels_def by blast
  have u: "[p..<p + n * 2] @ [p + n * 2..<p + (k * 2 + n * 2)] = [p..<p + (k * 2 + n * 2)]" for p
    using upt_add_eq_append [of p "p + n * 2" "k * 2"] by (simp add: algebra_simps)
  show "\<exists>es. snd (run_state (m \<bind> (\<lambda>_. m')) s) = s\<lparr>hist := hist s @ es\<rparr> \<and> length (idr_of es) = 2 * (n + k) \<and>
      lcd_of es = map ILI9341_Write_Data (pixels (idr_of es)) \<and>
      fifo_in (snd (run_state (m \<bind> (\<lambda>_. m')) s)) = (fifo_in s)\<lparr>f_pos := f_pos (fifo_in s) + 2 * (n + k),
        f_reads := f_reads (fifo_in s) @ [f_pos (fifo_in s)..<f_pos (fifo_in s) + 2 * (n + k)]\<rparr>"
    using es fs
    by (intro exI [of _ "es @ fs"])
      (simp add: snd_run_bind pixels_append algebra_simps u del: run_state_bind)
qed

lemma fifo_in_emit [simp]: "fifo_in (s\<lparr>hist := hist s @ es\<rparr>) = foldl fifo_step (fifo_in s) es"
  by (simp add: fifo_in_def)

lemma shows_pixel:
  "shows_pixels 1 (do { c \<leftarrow> READ_FIFO_PIXEL; lcd (ILI9341_Write_Data c) })"
  unfolding shows_pixels_def
proof (intro allI impI)
  fix s :: "'z board_scheme" assume s: "ready (fifo_in s)"
  let ?m = "do { c \<leftarrow> READ_FIFO_PIXEL; lcd (ILI9341_Write_Data c) }"
  define hi where "hi = idr_value (env s) (hist s @ [Brr 2 (2 ^ 5)]) 1"
  define h2 where "h2 = hist s @ [Brr 2 (2 ^ 5), IdrRead 1 hi, Bsrr 2 (2 ^ 5), Brr 2 (2 ^ 5)]"
  define lo where "lo = idr_value (env s) h2 1"
  let ?es = "[Brr 2 (2 ^ 5), IdrRead 1 hi, Bsrr 2 (2 ^ 5), Brr 2 (2 ^ 5), IdrRead 1 lo, Bsrr 2 (2 ^ 5),
    Lcd (ILI9341_Write_Data ((hi AND 0xFF00) OR (drop_bit 8 lo AND 0x00FF)))]"
  have "run_state ?m s = ((), s\<lparr>hist := hist s @ ?es\<rparr>)"
    unfolding READ_FIFO_PIXEL_def FIFO_RCLK_L_def FIFO_RCLK_H_def data_IDR_def Let_def
    by (simp add: hi_def lo_def h2_def)
  then show "\<exists>es. snd (run_state ?m s) = s\<lparr>hist := hist s @ es\<rparr> \<and> length (idr_of es) = 2 * 1 \<and>
      lcd_of es = map ILI9341_Write_Data (pixels (idr_of es)) \<and>
      fifo_in (snd (run_state ?m s)) = (fifo_in s)\<lparr>f_pos := f_pos (fifo_in s) + 2 * 1,
        f_reads := f_reads (fifo_in s) @ [f_pos (fifo_in s)..<f_pos (fifo_in s) + 2 * 1]\<rparr>"
    using s
    by (intro exI [of _ ?es]) (cases "fifo_in s", simp add: ready_def set_line_def)
qed

lemma shows_loop:
  "(\<And>x. shows_pixels n (body x)) \<Longrightarrow> shows_pixels (length xs * n) (for_each xs body)"
  by (induction xs) (auto simp: shows_none intro: shows_bind)

lemma shows_image: "shows_pixels (unat width * unat height) (image_loop width height)"
proof -
  have "shows_pixels (unat height) (for_each [0..<unat height] (\<lambda>j. do {
       Camera_Data \<leftarrow> READ_FIFO_PIXEL;
       lcd (ILI9341_Write_Data Camera_Data)
     }))"
    using shows_loop [OF shows_pixel, of "[0..<unat height]"] by simp
  then show ?thesis
    using shows_loop [where xs = "[0..<unat width]"] unfolding image_loop_def by fastforce
qed

definition frame_size :: nat where "frame_size = 320 * 240"

lemma displays_frame:
  assumes "Ov7725_vsync s = 2" and "\<not> f_we (fifo_in s)" and "run_state my_ov7725_test s = (u, t)"
  shows "Ov7725_vsync t = 0 \<and> f_overlap (fifo_in t) = f_overlap (fifo_in s) \<and>
    (\<exists>es. hist t = hist s @ es \<and> length (idr_of es) = 2 * frame_size \<and>
      f_reads (fifo_in t) = f_reads (fifo_in s) @ [1..<1 + 2 * frame_size] \<and>
      lcd_of es = ILI9341_OpenWindow 0 0 320 240 # ILI9341_Write_Cmd CMD_SetPixel #
        map ILI9341_Write_Data (pixels (idr_of es)))"
proof -
  let ?body = "image_loop 320 240"
  let ?es1 = "map2 (\<lambda>n v. HalWritePin 1 n (\<not> v)) [5, 0, 1] (rgb_levels LED_BLUE) @
    [Brr 0 (2 ^ 2), Brr 2 (2 ^ 5), Bsrr 2 (2 ^ 5), Bsrr 0 (2 ^ 2), Brr 2 (2 ^ 5), Bsrr 2 (2 ^ 5),
     Lcd (ILI9341_OpenWindow 0 0 320 240), Lcd (ILI9341_Write_Cmd CMD_SetPixel)]"
  let ?s1 = "s\<lparr>hist := hist s @ ?es1\<rparr>"
  let ?es3 = "map2 (\<lambda>n v. HalWritePin 1 n (\<not> v)) [5, 0, 1] (rgb_levels LED_GREEN)"
  have f1: "fifo_in ?s1 = (fifo_in s)\<lparr>f_rclk := True, f_rrst := True, f_pos := 1\<rparr>"
    by (cases "fifo_in s") (simp add: rgb_levels_def set_line_def)
  then have r: "ready (fifo_in ?s1)" using assms(2) by (simp add: ready_def)
  have size: "unat (320 :: u16) * unat (240 :: u16) = frame_size" by (simp add: frame_size_def)
  obtain es where es: "snd (run_state ?body ?s1) = ?s1\<lparr>hist := hist ?s1 @ es\<rparr>"
      "length (idr_of es) = 2 * frame_size" "lcd_of es = map ILI9341_Write_Data (pixels (idr_of es))"
      "fifo_in (snd (run_state ?body ?s1)) = (fifo_in ?s1)\<lparr>f_pos := f_pos (fifo_in ?s1) + 2 * frame_size,
        f_reads := f_reads (fifo_in ?s1) @ [f_pos (fifo_in ?s1)..<f_pos (fifo_in ?s1) + 2 * frame_size]\<rparr>"
    using shows_image [of 320 240] r unfolding shows_pixels_def size by blast
  define b where "b = snd (run_state ?body ?s1)"
  have t: "b\<lparr>Ov7725_vsync := 0, hist := hist b @ ?es3\<rparr> = t"
    using assms(1,3)
    by (simp add: b_def my_ov7725_test_def cam_mode_def ImagDisp_def FIFO_PREPARE_def FIFO_RRST_L_def
        FIFO_RCLK_L_def FIFO_RCLK_H_def FIFO_RRST_H_def run_led_embedded_color split_beta)
  have "fifo_in t = fifo_in b"
    unfolding t [symmetric] by (simp add: fifo_in_def rgb_levels_def)
  moreover have "hist t = hist s @ ?es1 @ es @ ?es3"
    unfolding t [symmetric] using es(1) by (simp add: b_def)
  moreover have "idr_of ?es1 = []" "idr_of ?es3 = []" "lcd_of ?es3 = []"
      "lcd_of ?es1 = [ILI9341_OpenWindow 0 0 320 240, ILI9341_Write_Cmd CMD_SetPixel]"
    by (simp_all add: rgb_levels_def)
  moreover have "Ov7725_vsync t = 0"
    unfolding t [symmetric] by simp
  ultimately show ?thesis
    using es(2-4) f1 unfolding b_def [symmetric] by (intro conjI exI [of _ "?es1 @ es @ ?es3"]) simp_all
qed

text \<open>
  A complete frame reaches the display. When the interrupt has stored a frame (state 2)
  and closed the FIFO, \<open>my_ov7725_test\<close> resets the FIFO's read pointer, samples the next
  2 * 320 * 240 bytes in order, none twice and none skipped, and sends the display the
  window and then exactly the 320 * 240 pixels those bytes make, high byte first. The state
  is idle afterwards, and no sample was taken with the write enable high.
\<close>

theorem my_ov7725_test_displays_frame:
  assumes "Ov7725_vsync s = 2" and "\<not> f_we (fifo_in s)" and "run_state my_ov7725_test s = (u, t)"
  shows "Ov7725_vsync t = 0 \<and> f_overlap (fifo_in t) = f_overlap (fifo_in s) \<and>
    (\<exists>es. hist t = hist s @ es \<and> length (idr_of es) = 2 * frame_size \<and>
      f_reads (fifo_in t) = f_reads (fifo_in s) @ [1..<1 + 2 * frame_size] \<and>
      lcd_of es = ILI9341_OpenWindow 0 0 320 240 # ILI9341_Write_Cmd CMD_SetPixel #
        map ILI9341_Write_Data (pixels (idr_of es)))"
  using displays_frame [OF assms] .

lemma my_ov7725_test_displays_frame_witness:
  "\<exists>es. hist (snd (run_state my_ov7725_test ((cam_board memory)\<lparr>Ov7725_vsync := 2\<rparr>))) = es \<and>
     length (idr_of es) = 2 * frame_size"
proof -
  let ?s = "(cam_board memory)\<lparr>Ov7725_vsync := 2\<rparr>"
  obtain u t where r: "run_state my_ov7725_test ?s = (u, t)" by (metis prod.exhaust)
  have "Ov7725_vsync ?s = 2" "\<not> f_we (fifo_in ?s)" "hist ?s = []"
    by (simp_all add: cam_board_def fifo_in_def fifo0_def)
  with my_ov7725_test_displays_frame [OF _ _ r] r show ?thesis by auto
qed

section \<open>Interrupt and main loop\<close>

text \<open>
  The vertical-sync interrupt may come at any time. A step is one run of the handler, one
  poll of the main loop, or anything else that leaves the FIFO's lines and the frame state
  alone. Polls are steps of their own because the handler does nothing in state 2, the only
  state in which a poll acts.
\<close>

lemma interrupt_idle_in_state_2:
  "Ov7725_vsync s = 2 \<Longrightarrow> run_state my_ov7725_interrupt s = ((), s)"
  by (simp add: my_ov7725_interrupt_def)

inductive cam_step :: "'z cam_st_scheme \<Rightarrow> 'z cam_st_scheme \<Rightarrow> bool" where
  vsync: "cam_step s (snd (run_state my_ov7725_interrupt s))"
| poll: "cam_step s (snd (run_state my_ov7725_test s))"
| other: "fifo_in t = fifo_in s \<Longrightarrow> Ov7725_vsync t = Ov7725_vsync s \<Longrightarrow> cam_step s t"

definition cam_inv :: "'z cam_st_scheme \<Rightarrow> bool" where
  "cam_inv s \<longleftrightarrow> \<not> f_overlap (fifo_in s) \<and>
     (Ov7725_vsync s = 0 \<or> Ov7725_vsync s = 1 \<and> f_we (fifo_in s) \<and> f_wrst (fifo_in s) \<or>
      Ov7725_vsync s = 2 \<and> \<not> f_we (fifo_in s))"

lemma fifo_in_vsync [simp]: "fifo_in (s\<lparr>Ov7725_vsync := v\<rparr>) = fifo_in s"
  by (simp add: fifo_in_def)

lemma cam_inv_interrupt: "cam_inv s \<Longrightarrow> cam_inv (snd (run_state my_ov7725_interrupt s))"
  by (cases "fifo_in s")
    (auto simp: cam_inv_def my_ov7725_interrupt_def FIFO_WRST_L_def FIFO_WE_H_def FIFO_WRST_H_def FIFO_WE_L_def
      fifo_in_def set_line_def)

lemma cam_inv_poll:
  assumes "cam_inv s"
  shows "cam_inv (snd (run_state my_ov7725_test s))"
proof (cases "Ov7725_vsync s = 2")
  case True
  obtain u t where r: "run_state my_ov7725_test s = (u, t)" by (metis prod.exhaust)
  have "\<not> f_we (fifo_in s)" using assms True by (simp add: cam_inv_def)
  with displays_frame [OF True _ r] assms r show ?thesis by (simp add: cam_inv_def)
next
  case False
  with assms show ?thesis by (simp add: my_ov7725_test_def)
qed

lemma cam_inv_step: "cam_step s t \<Longrightarrow> cam_inv s \<Longrightarrow> cam_inv t"
  by (induction rule: cam_step.induct) (auto simp: cam_inv_interrupt cam_inv_poll, auto simp: cam_inv_def)

text \<open>
  C6: the camera and the processor never use the FIFO at the same time. However the
  interrupt, the polls and the rest of the program interleave, no byte is ever read while
  the write enable is high, the state variable stays in 0, 1, 2, a frame is being stored in
  state 1 only, and in state 2 the FIFO is closed for writing.
\<close>

theorem fifo_never_shared:
  assumes "cam_step\<^sup>*\<^sup>* s t" and "Ov7725_vsync s = 0" and "\<not> f_overlap (fifo_in s)"
  shows "\<not> f_overlap (fifo_in t) \<and> Ov7725_vsync t \<in> {0, 1, 2} \<and>
    (Ov7725_vsync t = 1 \<longrightarrow> f_we (fifo_in t) \<and> f_wrst (fifo_in t)) \<and>
    (Ov7725_vsync t = 2 \<longrightarrow> \<not> f_we (fifo_in t))"
proof -
  have "cam_inv t"
    using assms(1)
  proof (induction rule: rtranclp_induct)
    case base
    show ?case using assms(2,3) by (simp add: cam_inv_def)
  next
    case (step u v)
    then show ?case by (blast intro: cam_inv_step)
  qed
  then show ?thesis by (auto simp: cam_inv_def)
qed

lemma fifo_never_shared_witness:
  "\<not> f_overlap (fifo_in (snd (run_state my_ov7725_test (snd (run_state my_ov7725_interrupt
     (snd (run_state my_ov7725_interrupt (cam_board memory))))))))"
proof -
  define a where "a = snd (run_state my_ov7725_interrupt (cam_board memory))"
  define b where "b = snd (run_state my_ov7725_interrupt a)"
  define c where "c = snd (run_state my_ov7725_test b)"
  have "cam_step (cam_board memory) a" "cam_step a b" "cam_step b c"
    unfolding a_def b_def c_def by (rule cam_step.vsync cam_step.poll)+
  then have "cam_step\<^sup>*\<^sup>* (cam_board memory) c"
    by (meson converse_rtranclp_into_rtranclp rtranclp.rtrancl_refl)
  moreover have "Ov7725_vsync (cam_board memory) = 0" "\<not> f_overlap (fifo_in (cam_board memory))"
    by (simp_all add: cam_board_def fifo_in_def fifo0_def)
  ultimately have "\<not> f_overlap (fifo_in c)"
    by (rule fifo_never_shared [THEN conjunct1])
  then show ?thesis unfolding a_def b_def c_def .
qed

end
