(* ===== verification/I2c.thy ===== *)
theory I2c
  imports Board
begin

text \<open>
  The I2C services the sensor drivers use: \<open>rt_i2c_transfer\<close> of RT-Thread's
  \<open>rt-thread/components/drivers/i2c/i2c_core.c\<close>, and the register access functions that
  \<open>i2c_HMC5883L.c\<close>, \<open>i2c_LTR390.c\<close> and \<open>i2c_BME280.c\<close> build on it in the same words. A
  device with registers on the bus is described by its protocol only; what its registers
  hold is a function \<open>rv\<close> of the writes it has received.
\<close>

section \<open>Transfers\<close>

definition RT_I2C_WR :: u16 where "RT_I2C_WR = 0x0000"
definition RT_I2C_RD :: u16 where "RT_I2C_RD = 1"
definition RT_I2C_NO_START :: u16 where "RT_I2C_NO_START = 0x10"
definition RT_I2C_NO_STOP :: u16 where "RT_I2C_NO_STOP = 0x80"

text \<open>
  A transfer returns the number of messages done and leaves bytes in the messages' buffers.
  A bus without a transfer function is one whose answer is 0.
\<close>

definition rt_i2c_transfer :: "string \<Rightarrow> i2c_msg list \<Rightarrow> ('z board_scheme, nat \<times> u8 list list) state" where
  "rt_i2c_transfer bus msgs = do {
     r \<leftarrow> ask (\<lambda>e h. i2c_reply e h bus msgs);
     emit (I2cXfer bus msgs (fst r));
     ret r
   }"

text \<open>The contents of a buffer after bytes \<open>bs\<close> have been stored from its start.\<close>

definition stored :: "u8 list \<Rightarrow> u8 list \<Rightarrow> u8 list" where
  "stored buf bs = take (length buf) bs @ drop (length bs) buf"

definition i2c_read_regs :: "string \<Rightarrow> u8 \<Rightarrow> u8 \<Rightarrow> u8 list \<Rightarrow> ('z board_scheme, int \<times> u8 list) state" where
  "i2c_read_regs bus addr reg buf = do {
     r \<leftarrow> rt_i2c_transfer bus
       [\<lparr>m_addr = ucast addr, m_flags = RT_I2C_WR, m_len = 1, m_buf = [reg]\<rparr>,
        \<lparr>m_addr = ucast addr, m_flags = RT_I2C_RD, m_len = of_nat (length buf), m_buf = buf\<rparr>];
     let buf' = (if 1 < length (snd r) then stored buf (snd r ! 1) else buf);
     ret (if fst r = 2 then RT_EOK else - RT_ERROR, buf')
   }"

definition i2c_write_regs :: "string \<Rightarrow> u8 \<Rightarrow> u8 \<Rightarrow> u8 list \<Rightarrow> ('z board_scheme, int) state" where
  "i2c_write_regs bus addr reg buf = do {
     r \<leftarrow> rt_i2c_transfer bus
       [\<lparr>m_addr = ucast addr, m_flags = RT_I2C_WR OR RT_I2C_NO_STOP, m_len = 1, m_buf = [reg]\<rparr>,
        \<lparr>m_addr = ucast addr, m_flags = RT_I2C_WR OR RT_I2C_NO_START,
         m_len = of_nat (length buf), m_buf = buf\<rparr>];
     ret (if fst r = 2 then RT_EOK else - RT_ERROR)
   }"

definition i2c_write_reg :: "string \<Rightarrow> u8 \<Rightarrow> u8 \<Rightarrow> u8 \<Rightarrow> ('z board_scheme, int) state" where
  "i2c_write_reg bus addr reg data = do {
     r \<leftarrow> rt_i2c_transfer bus
       [\<lparr>m_addr = ucast addr, m_flags = RT_I2C_WR, m_len = 2, m_buf = [reg, data]\<rparr>];
     ret (if fst r = 1 then RT_EOK else - RT_ERROR)
   }"

section \<open>Access through a device structure\<close>

text \<open>\<open>dev->bus->type\<close>, \<open>dev->i2c_addr\<close>: the pointer is followed before every transfer.\<close>

definition on_i2c_bus :: "nat \<Rightarrow> 'a \<Rightarrow> (string \<Rightarrow> u8 \<Rightarrow> ('z board_scheme, 'a) state) \<Rightarrow> ('z board_scheme, 'a) state" where
  "on_i2c_bus a err m = do {
     d \<leftarrow> load_i2c a;
     t \<leftarrow> ask (\<lambda>e h. device_type e (dev_bus d));
     if t = Some Device_Class_I2CBUS then m (dev_bus d) (dev_i2c_addr d) else ret err
   }"

definition dev_read_regs :: "nat \<Rightarrow> u8 \<Rightarrow> u8 list \<Rightarrow> ('z board_scheme, int \<times> u8 list) state" where
  "dev_read_regs a reg buf =
     on_i2c_bus a (- RT_ERROR, buf) (\<lambda>bus addr. i2c_read_regs bus addr reg buf)"

definition dev_write_regs :: "nat \<Rightarrow> u8 \<Rightarrow> u8 list \<Rightarrow> ('z board_scheme, int) state" where
  "dev_write_regs a reg buf =
     on_i2c_bus a (- RT_ERROR) (\<lambda>bus addr. i2c_write_regs bus addr reg buf)"

definition dev_write_reg :: "nat \<Rightarrow> u8 \<Rightarrow> u8 \<Rightarrow> ('z board_scheme, int) state" where
  "dev_write_reg a reg data =
     on_i2c_bus a (- RT_ERROR) (\<lambda>bus addr. i2c_write_reg bus addr reg data)"

section \<open>A device with registers\<close>

text \<open>
  What the device at \<open>addr\<close> receives in a transfer: the bytes of the write messages. Two
  bytes and nothing to read are a register write.
\<close>

definition is_read :: "i2c_msg \<Rightarrow> bool" where
  "is_read m \<longleftrightarrow> m_flags m AND RT_I2C_RD \<noteq> 0"

definition sent :: "i2c_msg list \<Rightarrow> u8 list" where
  "sent ms = concat (map (\<lambda>m. if is_read m then [] else m_buf m) ms)"

fun xfer_write :: "string \<Rightarrow> u8 \<Rightarrow> ev \<Rightarrow> (u8 \<times> u8) list" where
  "xfer_write bus addr (I2cXfer b ms n) =
     (if b = bus \<and> ms \<noteq> [] \<and> m_addr (hd ms) = ucast addr \<and> list_all (\<lambda>m. \<not> is_read m) ms \<and> n = length ms
      then (case sent ms of [r, v] \<Rightarrow> [(r, v)] | _ \<Rightarrow> []) else [])"
| "xfer_write bus addr _ = []"

definition xfer_writes :: "string \<Rightarrow> u8 \<Rightarrow> ev list \<Rightarrow> (u8 \<times> u8) list" where
  "xfer_writes bus addr h = concat (map (xfer_write bus addr) h)"

text \<open>The device's answer: it accepts everything and reads out registers in ascending order.\<close>

definition dev_answer :: "((u8 \<times> u8) list \<Rightarrow> u8 \<Rightarrow> u8) \<Rightarrow> (u8 \<times> u8) list \<Rightarrow> i2c_msg list \<Rightarrow> nat \<times> u8 list list" where
  "dev_answer rv ws ms = (length ms,
     map (\<lambda>m. if is_read m
       then map (\<lambda>i. rv ws (hd (sent ms) + of_nat i)) [0..<length (m_buf m)] else m_buf m) ms)"

definition i2c_dev :: "string \<Rightarrow> u8 \<Rightarrow> ((u8 \<times> u8) list \<Rightarrow> u8 \<Rightarrow> u8) \<Rightarrow> (u8 \<times> u8) list \<Rightarrow> 'z board_scheme \<Rightarrow> bool" where
  "i2c_dev bus addr rv ws s \<longleftrightarrow> xfer_writes bus addr (hist s) = ws \<and>
     (\<forall>h ms. ms \<noteq> [] \<and> m_addr (hd ms) = ucast addr \<longrightarrow>
        i2c_reply (env s) h bus ms = dev_answer rv (xfer_writes bus addr h) ms)"

lemma xfer_writes_append [simp]:
  "xfer_writes bus addr (h @ es) = xfer_writes bus addr h @ xfer_writes bus addr es"
  by (simp add: xfer_writes_def)

lemma xfer_writes_Nil [simp]: "xfer_writes bus addr [] = []"
  by (simp add: xfer_writes_def)

lemma xfer_writes_Cons [simp]:
  "xfer_writes bus addr (e # h) = xfer_write bus addr e @ xfer_writes bus addr h"
  by (simp add: xfer_writes_def)

lemma flags [simp]:
  "RT_I2C_WR AND RT_I2C_RD = 0" "RT_I2C_RD AND RT_I2C_RD = RT_I2C_RD" "RT_I2C_RD \<noteq> 0"
  "(RT_I2C_WR OR RT_I2C_NO_STOP) AND RT_I2C_RD = 0" "(RT_I2C_WR OR RT_I2C_NO_START) AND RT_I2C_RD = 0"
  by (simp_all add: RT_I2C_WR_def RT_I2C_RD_def RT_I2C_NO_STOP_def RT_I2C_NO_START_def)

lemma stored_full: "length bs = length buf \<Longrightarrow> stored buf bs = bs"
  by (simp add: stored_def)

lemma i2c_read_dev:
  assumes "i2c_dev bus addr rv ws s"
  shows "\<exists>t. run_state (i2c_read_regs bus addr reg buf) s =
      ((RT_EOK, map (\<lambda>i. rv ws (reg + of_nat i)) [0..<length buf]), t) \<and>
    i2c_dev bus addr rv ws t \<and> (\<exists>es. t = s\<lparr>hist := hist s @ es\<rparr> \<and> live (hist t) = live (hist s))"
  using assms
  by (auto simp: i2c_read_regs_def rt_i2c_transfer_def i2c_dev_def dev_answer_def is_read_def sent_def stored_full Let_def)

lemma i2c_write_dev:
  assumes "i2c_dev bus addr rv ws s"
  shows "\<exists>t. run_state (i2c_write_reg bus addr reg v) s = (RT_EOK, t) \<and>
    i2c_dev bus addr rv (ws @ [(reg, v)]) t \<and> (\<exists>es. t = s\<lparr>hist := hist s @ es\<rparr> \<and> live (hist t) = live (hist s))"
  using assms
  by (auto simp: i2c_write_reg_def rt_i2c_transfer_def i2c_dev_def dev_answer_def is_read_def sent_def)

lemma i2c_write_regs_dev:
  assumes "i2c_dev bus addr rv ws s"
  shows "\<exists>t. run_state (i2c_write_regs bus addr reg [v]) s = (RT_EOK, t) \<and>
    i2c_dev bus addr rv (ws @ [(reg, v)]) t \<and> (\<exists>es. t = s\<lparr>hist := hist s @ es\<rparr> \<and> live (hist t) = live (hist s))"
  using assms
  by (auto simp: i2c_write_regs_def rt_i2c_transfer_def i2c_dev_def dev_answer_def is_read_def sent_def)

section \<open>Register files\<close>

text \<open>
  What a sensor driver relies on: block reads and single writes that succeed on an abstract
  register file.
\<close>

locale reg_file =
  fixes rd :: "u8 \<Rightarrow> u8 list \<Rightarrow> ('s, int \<times> u8 list) state"
    and wr :: "u8 \<Rightarrow> u8 \<Rightarrow> ('s, int) state"
    and dev :: "(u8 \<times> u8) list \<Rightarrow> 's \<Rightarrow> bool"
    and rv :: "(u8 \<times> u8) list \<Rightarrow> u8 \<Rightarrow> u8"
  assumes rd_law: "yields dev ws (rd r buf) (RT_EOK, map (\<lambda>i. rv ws (r + of_nat i)) [0..<length buf]) ws"
    and wr_law: "yields dev ws (wr r v) RT_EOK (ws @ [(r, v)])"
begin

lemma read_one: "yields dev ws (rd r [x]) (RT_EOK, [rv ws r]) ws"
  using rd_law [of ws r "[x]"] by simp

text \<open>Read, change, write back.\<close>

lemma update:
  "yields dev ws (do { b \<leftarrow> rd r [x]; if fst b \<noteq> RT_EOK then ret (fst b) else wr r (f (hd (snd b))) })
     RT_EOK (ws @ [(r, f (rv ws r))])"
  by (rule yields_bind, rule read_one) (simp add: wr_law)

end

text \<open>A device structure at \<open>a\<close> that points to such a device.\<close>

definition attached :: "nat \<Rightarrow> string \<Rightarrow> u8 \<Rightarrow> ((u8 \<times> u8) list \<Rightarrow> u8 \<Rightarrow> u8) \<Rightarrow> (u8 \<times> u8) list \<Rightarrow> 'z board_scheme \<Rightarrow> bool" where
  "attached a bus addr rv ws s \<longleftrightarrow> a \<in> live (hist s) \<and> device_type (env s) bus = Some Device_Class_I2CBUS \<and>
     (\<exists>d. heap s a = Some (I2c_struct d) \<and> dev_bus d = bus \<and> dev_i2c_addr d = addr) \<and>
     i2c_dev bus addr rv ws s"

lemma on_i2c_bus_attached:
  assumes "attached a bus addr rv ws s"
  shows "run_state (on_i2c_bus a err m) s = run_state (m bus addr) s"
  using assms by (auto simp: attached_def on_i2c_bus_def load_i2c_def run_deref)

interpretation dev_regs: reg_file "dev_read_regs a" "dev_write_reg a" "attached a bus addr rv" rv
  for a bus addr rv
proof
  show "yields (attached a bus addr rv) ws (dev_read_regs a r buf)
      (RT_EOK, map (\<lambda>i. rv ws (r + of_nat i)) [0..<length buf]) ws" for ws r buf
  proof (rule yieldsI)
    fix s assume s: "attached a bus addr rv ws s"
    then have "i2c_dev bus addr rv ws s" by (simp add: attached_def)
    from i2c_read_dev [OF this, of r buf] s
    show "\<exists>t. run_state (dev_read_regs a r buf) s =
        ((RT_EOK, map (\<lambda>i. rv ws (r + of_nat i)) [0..<length buf]), t) \<and> attached a bus addr rv ws t"
      unfolding dev_read_regs_def on_i2c_bus_attached [OF s] by (auto simp: attached_def)
  qed
  show "yields (attached a bus addr rv) ws (dev_write_reg a r v) RT_EOK (ws @ [(r, v)])" for ws r v
  proof (rule yieldsI)
    fix s assume s: "attached a bus addr rv ws s"
    then have "i2c_dev bus addr rv ws s" by (simp add: attached_def)
    from i2c_write_dev [OF this, of r v] s
    show "\<exists>t. run_state (dev_write_reg a r v) s = (RT_EOK, t) \<and> attached a bus addr rv (ws @ [(r, v)]) t"
      unfolding dev_write_reg_def on_i2c_bus_attached [OF s] by (auto simp: attached_def)
  qed
qed

text \<open>Registers that keep what was last written to them.\<close>

definition last_written :: "(u8 \<Rightarrow> u8) \<Rightarrow> (u8 \<times> u8) list \<Rightarrow> u8 \<Rightarrow> u8" where
  "last_written init ws r = (case map_of (rev ws) r of Some v \<Rightarrow> v | None \<Rightarrow> init r)"

lemma last_written_snoc [simp]:
  "last_written init (ws @ [(r, v)]) q = (if q = r then v else last_written init ws q)"
  by (simp add: last_written_def)

section \<open>Allocation\<close>

text \<open>Transfers neither allocate nor free.\<close>

definition no_alloc :: "ev \<Rightarrow> bool" where
  "no_alloc e \<longleftrightarrow> (\<forall>L. live_step L e = L)"

lemma no_alloc_evs [simp]:
  "no_alloc (I2cXfer b ms n)" "no_alloc (Fault f)" "no_alloc (DelayMs d)" "no_alloc (DelayUs u)"
  by (simp_all add: no_alloc_def)

lemma live_no_alloc: "list_all no_alloc es \<Longrightarrow> live (h @ es) = live h"
  by (induction es arbitrary: h rule: rev_induct) (auto simp: no_alloc_def simp flip: append_assoc)

lemma live_extends: "extends no_alloc m \<Longrightarrow> run_state m s = (x, t) \<Longrightarrow> live (hist t) = live (hist s)"
  by (erule (1) extendsD) (simp add: live_no_alloc)

lemma extends_transfer [extend_intros]: "extends no_alloc (rt_i2c_transfer bus ms)"
  unfolding rt_i2c_transfer_def by (intro extend_intros) simp

lemma extends_deref [extend_intros]: "extends no_alloc (deref a)"
  unfolding deref_def fault_def by (intro extend_intros) simp

lemma extends_i2c [extend_intros]:
  "extends no_alloc (i2c_read_regs bus addr reg buf)" "extends no_alloc (i2c_write_regs bus addr reg buf)"
  "extends no_alloc (i2c_write_reg bus addr reg v)"
  "extends no_alloc (load_i2c a)" "extends no_alloc (store_i2c a d)"
  unfolding i2c_read_regs_def i2c_write_regs_def i2c_write_reg_def load_i2c_def store_i2c_def
  by (auto intro!: extend_intros)

lemma extends_dev [extend_intros]:
  "extends no_alloc (dev_read_regs a reg buf)" "extends no_alloc (dev_write_regs a reg buf)"
  "extends no_alloc (dev_write_reg a reg v)"
  unfolding dev_read_regs_def dev_write_regs_def dev_write_reg_def on_i2c_bus_def
  by (intro extend_intros)+

lemma fold_max: "a \<le> fold max xs (a :: nat) \<and> (\<forall>x\<in>set xs. x \<le> fold max xs a)"
proof (induction xs arbitrary: a)
  case (Cons y ys)
  from Cons [of "max y a"] show ?case by auto
qed simp

lemma fresh_not_live: "fresh_addr h \<notin> live h"
proof -
  let ?as = "\<lambda>h. concat (map (\<lambda>e. case e of Alloc a \<Rightarrow> [a] | _ \<Rightarrow> []) h)"
  have "live h \<subseteq> set (?as h)"
  proof (induction h rule: rev_induct)
    case Nil
    show ?case by simp
  next
    case (snoc e h)
    then show ?case by (cases e) auto
  qed
  then have "x \<le> fold max (?as h) 0" if "x \<in> live h" for x
    using that fold_max [of 0 "?as h"] by blast
  from this [of "fresh_addr h"] show ?thesis
    unfolding fresh_addr_def by auto
qed

lemma calloc_live:
  assumes "run_state (calloc_struct c) s = (p, t)"
  shows "case p of None \<Rightarrow> t = s
    | Some a \<Rightarrow> a \<notin> live (hist s) \<and> live (hist t) = insert a (live (hist s))"
  using assms fresh_not_live by (auto simp: calloc_struct_def run_rt_calloc split: if_splits)

text \<open>
  A function body that has been given the fresh structure \<open>a\<close>: it returns \<open>a\<close>, or frees it
  and returns null.
\<close>

definition hands_over :: "nat \<Rightarrow> ('z board_scheme, nat option) state \<Rightarrow> bool" where
  "hands_over a m \<longleftrightarrow> (\<forall>s. a \<in> live (hist s) \<longrightarrow>
     (case fst (run_state m s) of
        None \<Rightarrow> live (hist (snd (run_state m s))) = live (hist s) - {a}
      | Some b \<Rightarrow> b = a \<and> live (hist (snd (run_state m s))) = live (hist s)))"

lemma handover_ends:
  "hands_over a (ret (Some a))" "hands_over a (do { rt_free a; ret None })"
  by (simp_all add: hands_over_def)

lemma handover_bind:
  fixes m :: "('z board_scheme, 'b) state"
  assumes "extends no_alloc m" and "\<And>x. hands_over a (f x)"
  shows "hands_over a (m \<bind> f)"
  unfolding hands_over_def
proof (intro allI impI)
  fix s :: "'z board_scheme" assume s: "a \<in> live (hist s)"
  obtain x t where r: "run_state m s = (x, t)" by (metis prod.exhaust)
  have "live (hist t) = live (hist s)" by (rule live_extends [OF assms(1) r])
  with assms(2) [of x, unfolded hands_over_def, rule_format, of t] s
  show "case fst (run_state (m \<bind> f) s) of
      None \<Rightarrow> live (hist (snd (run_state (m \<bind> f) s))) = live (hist s) - {a}
    | Some b \<Rightarrow> b = a \<and> live (hist (snd (run_state (m \<bind> f) s))) = live (hist s)"
    by (simp add: r cong: option.case_cong)
qed

lemma handover_if: "hands_over a m \<Longrightarrow> hands_over a n \<Longrightarrow> hands_over a (if c then m else n)"
  by simp

lemma handover_case_prod: "(\<And>x y. hands_over a (f x y)) \<Longrightarrow> hands_over a (case_prod f v)"
  by (cases v) auto

lemmas handover_rules = handover_ends handover_if handover_case_prod handover_bind

text \<open>
  A function that creates a structure: it returns a fresh allocated one, or returns null and
  leaves the heap as it was.
\<close>

definition hands_out :: "('z board_scheme, nat option) state \<Rightarrow> bool" where
  "hands_out m \<longleftrightarrow> (\<forall>s. let (p, t) = run_state m s in
     case p of None \<Rightarrow> live (hist t) = live (hist s)
     | Some a \<Rightarrow> a \<notin> live (hist s) \<and> live (hist t) = insert a (live (hist s)))"

lemma alloc_no_leak:
  fixes body :: "nat \<Rightarrow> ('z board_scheme, nat option) state"
  assumes "\<And>a. hands_over a (body a)"
  shows "hands_out (do { p \<leftarrow> calloc_struct c; case p of None \<Rightarrow> ret None | Some a \<Rightarrow> body a })"
  unfolding hands_out_def
proof
  fix s :: "'z board_scheme"
  obtain q u where q: "run_state (calloc_struct c) s = (q, u)" by (metis prod.exhaust)
  show "let (p, t) = run_state (do { p \<leftarrow> calloc_struct c; case p of None \<Rightarrow> ret None | Some a \<Rightarrow> body a }) s in
    case p of None \<Rightarrow> live (hist t) = live (hist s)
    | Some a \<Rightarrow> a \<notin> live (hist s) \<and> live (hist t) = insert a (live (hist s))"
  proof (cases q)
    case None
    then show ?thesis using q calloc_live [OF q] by simp
  next
    case (Some a)
    with assms [of a] calloc_live [OF q] q show ?thesis
      unfolding hands_over_def by (fastforce split: option.splits prod.splits)
  qed
qed

section \<open>A concrete device\<close>

text \<open>A board with a structure at address 1 and a device of any behaviour at the other end.\<close>

definition i2c_board :: "string \<Rightarrow> u8 \<Rightarrow> ((u8 \<times> u8) list \<Rightarrow> u8 \<Rightarrow> u8) \<Rightarrow> board" where
  "i2c_board bus addr rv = \<lparr>hist = [Alloc 1],
     env = env0\<lparr>i2c_reply := \<lambda>h b ms. dev_answer rv (xfer_writes bus addr h) ms\<rparr>,
     heap = Map.empty(1 \<mapsto> I2c_struct (zero_i2c_device\<lparr>dev_bus := bus, dev_i2c_addr := addr\<rparr>))\<rparr>"

lemma i2c_board_attached: "attached 1 bus addr rv [] (i2c_board bus addr rv)"
  using live_snoc [of "[]" "Alloc 1"]
  by (simp add: attached_def i2c_board_def i2c_dev_def env0_def zero_i2c_device_def)

end
