(* ===== verification/Hmc5883l.thy ===== *)
theory Hmc5883l
  imports I2c
begin

text \<open>
  \<open>src/applications/i2c_HMC5883L.c\<close>: the three-axis magnetometer. A device is a structure on
  the heap, named by its address; every function first follows that pointer.
\<close>

section \<open>Register access\<close>

definition hmc_read_regs :: "nat \<Rightarrow> u8 \<Rightarrow> u8 list \<Rightarrow> ('z board_scheme, int \<times> u8 list) state" where
  "hmc_read_regs dev reg buf = dev_read_regs dev reg buf"

definition hmc_write_regs :: "nat \<Rightarrow> u8 \<Rightarrow> u8 list \<Rightarrow> ('z board_scheme, int) state" where
  "hmc_write_regs dev reg buf = dev_write_regs dev reg buf"

definition hmc_write_reg :: "nat \<Rightarrow> u8 \<Rightarrow> u8 \<Rightarrow> ('z board_scheme, int) state" where
  "hmc_write_reg dev reg data = dev_write_reg dev reg data"

text \<open>
  The shift distance is computed on \<open>int\<close>; shifting by a negative distance is undefined, and
  the byte is then arbitrary. The mask is cut to eight bits when it is stored.
\<close>

definition field_shift :: "u8 \<Rightarrow> u8 \<Rightarrow> int" where
  "field_shift start_bit len = uint start_bit - uint len + 1"

definition field_mask :: "u8 \<Rightarrow> u8 \<Rightarrow> u8" where
  "field_mask start_bit len =
     word_of_int ((2 ^ unat len - 1) * 2 ^ nat (field_shift start_bit len))"

definition extract_bits :: "u8 \<Rightarrow> u8 \<Rightarrow> u8 \<Rightarrow> u8" where
  "extract_bits start_bit len byte =
     (let byte = byte AND field_mask start_bit len
      in drop_bit (nat (field_shift start_bit len)) byte)"

definition read_bits :: "nat \<Rightarrow> u8 \<Rightarrow> u8 \<Rightarrow> u8 \<Rightarrow> u8 \<Rightarrow> ('z board_scheme, int \<times> u8) state" where
  "read_bits dev reg start_bit len data = do {
     byte0 \<leftarrow> ask junk8;
     (res, buf) \<leftarrow> hmc_read_regs dev reg [byte0];
     if res \<noteq> RT_EOK then ret (res, data)
     else if field_shift start_bit len < 0 then do {
       fault BadShift;
       x \<leftarrow> ask junk8;
       ret (RT_EOK, x)
     }
     else ret (RT_EOK, extract_bits start_bit len (hd buf))
   }"

text \<open>The byte \<open>write_bits\<close> writes back.\<close>

definition insert_bits :: "u8 \<Rightarrow> u8 \<Rightarrow> u8 \<Rightarrow> u8 \<Rightarrow> u8" where
  "insert_bits start_bit len data byte =
     (let mask = field_mask start_bit len;
          data = push_bit (nat (field_shift start_bit len)) data;
          data = data AND mask;
          byte = byte AND NOT mask
      in byte OR data)"

definition write_bits :: "nat \<Rightarrow> u8 \<Rightarrow> u8 \<Rightarrow> u8 \<Rightarrow> u8 \<Rightarrow> ('z board_scheme, int) state" where
  "write_bits dev reg start_bit len data = do {
     byte0 \<leftarrow> ask junk8;
     (res, buf) \<leftarrow> hmc_read_regs dev reg [byte0];
     if res \<noteq> RT_EOK then ret res
     else if field_shift start_bit len < 0 then do {
       fault BadShift;
       x \<leftarrow> ask junk8;
       hmc_write_reg dev reg x
     }
     else hmc_write_reg dev reg (insert_bits start_bit len data (hd buf))
   }"

text \<open>The status of the read is not looked at; the buffer was cleared before.\<close>

definition self_test :: "nat \<Rightarrow> ('z board_scheme, int) state" where
  "self_test dev = do {
     (res, data) \<leftarrow> hmc_read_regs dev 0x0A [0, 0, 0];
     if data ! 0 = 0x48 \<and> data ! 1 = 0x34 \<and> data ! 2 = 0x33 then ret RT_EOK else ret (- RT_ERROR)
   }"

section \<open>Parameters\<close>

datatype hmc5883l_cmd = HMC5883L_SAMPLE_NUM | HMC5883L_DOR | HMC5883L_RANGE | HMC5883L_OPER_MODE

text \<open>The register, start bit and width that a parameter is read from and written to.\<close>

fun get_field :: "hmc5883l_cmd \<Rightarrow> u8 \<times> u8 \<times> u8" where
  "get_field HMC5883L_SAMPLE_NUM = (0x00, 5, 2)"
| "get_field HMC5883L_DOR = (0x00, 2, 3)"
| "get_field HMC5883L_RANGE = (0x01, 5, 3)"
| "get_field HMC5883L_OPER_MODE = (0x02, 0, 2)"

fun set_field :: "hmc5883l_cmd \<Rightarrow> u8 \<times> u8 \<times> u8" where
  "set_field HMC5883L_SAMPLE_NUM = (0x00, 5, 2)"
| "set_field HMC5883L_DOR = (0x00, 2, 3)"
| "set_field HMC5883L_RANGE = (0x01, 5, 3)"
| "set_field HMC5883L_OPER_MODE = (0x02, 1, 2)"

definition my_hmc5883l_get_param :: "nat option \<Rightarrow> hmc5883l_cmd \<Rightarrow> ('z board_scheme, int \<times> u8) state" where
  "my_hmc5883l_get_param dev cmd =
     (case dev of
        None \<Rightarrow> do { fault AssertFailed; ret (- RT_ERROR, 0) }
      | Some a \<Rightarrow> (case get_field cmd of (reg, start_bit, len) \<Rightarrow> read_bits a reg start_bit len 0))"

fun set_config :: "hmc5883l_cmd \<Rightarrow> u8 \<Rightarrow> sensor_config \<Rightarrow> sensor_config" where
  "set_config HMC5883L_SAMPLE_NUM param c = c\<lparr>sample_num := param\<rparr>"
| "set_config HMC5883L_DOR param c = c\<lparr>dor := ucast param\<rparr>"
| "set_config HMC5883L_RANGE param c = c\<lparr>range_cfg := ucast param\<rparr>"
| "set_config HMC5883L_OPER_MODE param c = c\<lparr>oper_mode := param\<rparr>"

definition my_hmc5883l_set_param :: "nat option \<Rightarrow> hmc5883l_cmd \<Rightarrow> u8 \<Rightarrow> ('z board_scheme, int) state" where
  "my_hmc5883l_set_param dev cmd param =
     (case dev of
        None \<Rightarrow> do { fault AssertFailed; ret (- RT_ERROR) }
      | Some a \<Rightarrow> do {
          res \<leftarrow> (case set_field cmd of (reg, start_bit, len) \<Rightarrow> write_bits a reg start_bit len param);
          d \<leftarrow> load_i2c a;
          store_i2c a (d\<lparr>dev_config := set_config cmd param (dev_config d)\<rparr>);
          ret res
        })"

section \<open>Creating and reading a device\<close>

definition my_hmc5883l_init :: "string \<Rightarrow> u8 \<Rightarrow> ('z board_scheme, nat option) state" where
  "my_hmc5883l_init i2c_bus_name addr = do {
     p \<leftarrow> calloc_struct (I2c_struct zero_i2c_device);
     case p of
       None \<Rightarrow> ret None
     | Some a \<Rightarrow> do {
         t \<leftarrow> ask (\<lambda>e h. device_type e i2c_bus_name);
         d \<leftarrow> load_i2c a;
         store_i2c a (d\<lparr>dev_bus := i2c_bus_name\<rparr>);
         if t \<noteq> Some Device_Class_I2CBUS then do { rt_free a; ret None }
         else do {
           d \<leftarrow> load_i2c a;
           store_i2c a (d\<lparr>dev_i2c_addr := addr\<rparr>);
           ok \<leftarrow> self_test a;
           if ok \<noteq> RT_EOK then do { rt_free a; ret None }
           else do {
             r1 \<leftarrow> hmc_write_reg a 0x00 0x70;
             r2 \<leftarrow> (if r1 \<noteq> RT_EOK then ret r1 else hmc_write_reg a 0x01 0xA0);
             if r2 \<noteq> RT_EOK then do { rt_free a; ret None }
             else ret (Some a)
           }
         }
       }
   }"

definition my_hmc5883l_destroy :: "nat option \<Rightarrow> ('z board_scheme, unit) state" where
  "my_hmc5883l_destroy hmc5883l =
     (case hmc5883l of None \<Rightarrow> fault AssertFailed | Some a \<Rightarrow> rt_free a)"

record hmc5883l_data =
  mag_x :: u16
  mag_y :: u16
  mag_z :: u16

text \<open>\<open>data\<close> is the structure the caller's pointer refers to; the result carries its new contents.\<close>

definition my_hmc5883l_get_data ::
  "nat option \<Rightarrow> hmc5883l_data \<Rightarrow> ('z board_scheme, int \<times> hmc5883l_data) state" where
  "my_hmc5883l_get_data hmc5883l data =
     (case hmc5883l of
        None \<Rightarrow> ret (- RT_ERROR, data)
      | Some a \<Rightarrow> do {
          r \<leftarrow> hmc_write_reg a 0x02 0x01;
          if r \<noteq> RT_EOK then ret (- RT_ERROR, data)
          else do {
            j \<leftarrow> ask junk8;
            (r2, buffer) \<leftarrow> hmc_read_regs a 0x03 (replicate 6 j);
            if r2 \<noteq> RT_EOK then ret (- RT_ERROR, data)
            else ret (RT_EOK, \<lparr>mag_x = be16 (buffer ! 0) (buffer ! 1),
              mag_y = be16 (buffer ! 4) (buffer ! 5), mag_z = be16 (buffer ! 2) (buffer ! 3)\<rparr>)
          }
        })"

section \<open>On a device that answers\<close>

lemma hmc_read_dev:
  "yields (attached a bus addr rv) ws (hmc_read_regs a r buf)
     (RT_EOK, map (\<lambda>i. rv ws (r + of_nat i)) [0..<length buf]) ws"
  unfolding hmc_read_regs_def by (rule dev_regs.rd_law)

lemma hmc_write_dev:
  "yields (attached a bus addr rv) ws (hmc_write_reg a r v) RT_EOK (ws @ [(r, v)])"
  unfolding hmc_write_reg_def by (rule dev_regs.wr_law)

lemma read_bits_dev:
  assumes "field_shift sb len \<ge> 0"
  shows "yields (attached a bus addr rv) ws (read_bits a r sb len x) (RT_EOK, extract_bits sb len (rv ws r)) ws"
  unfolding read_bits_def
  by (rule yields_ask, rule yields_bind, rule hmc_read_dev) (use assms in \<open>simp add: yields_ret\<close>)

lemma write_bits_dev:
  assumes "field_shift sb len \<ge> 0"
  shows "yields (attached a bus addr rv) ws (write_bits a r sb len v) RT_EOK
    (ws @ [(r, insert_bits sb len v (rv ws r))])"
  unfolding write_bits_def
  by (rule yields_ask, rule yields_bind, rule hmc_read_dev) (use assms in \<open>simp add: hmc_write_dev\<close>)

lemma store_config_dev:
  "yields (attached a bus addr rv) ws
     (do { d \<leftarrow> load_i2c a; store_i2c a (d\<lparr>dev_config := f (dev_config d)\<rparr>); ret x }) x ws"
  unfolding yields_def attached_def i2c_dev_def
  by (auto simp: load_i2c_def store_i2c_def run_deref)

definition sane :: "hmc5883l_cmd \<Rightarrow> bool" where
  "sane cmd \<longleftrightarrow> cmd \<noteq> HMC5883L_OPER_MODE"

lemma field_shift_sane: "get_field cmd = (r, sb, len) \<Longrightarrow> sane cmd \<Longrightarrow> field_shift sb len \<ge> 0"
  by (cases cmd) (auto simp: sane_def field_shift_def)

lemma field_shift_set: "set_field cmd = (r, sb, len) \<Longrightarrow> field_shift sb len \<ge> 0"
  by (cases cmd) (auto simp: field_shift_def)

definition field_value :: "hmc5883l_cmd \<Rightarrow> (u8 \<Rightarrow> u8) \<Rightarrow> u8" where
  "field_value cmd regs = (case get_field cmd of (r, sb, len) \<Rightarrow> extract_bits sb len (regs r))"

lemma get_param_dev:
  "sane cmd \<Longrightarrow> yields (attached a bus addr rv) ws (my_hmc5883l_get_param (Some a) cmd)
     (RT_EOK, field_value cmd (rv ws)) ws"
  by (auto simp: my_hmc5883l_get_param_def field_value_def split: prod.split
      intro!: read_bits_dev dest: field_shift_sane)

definition set_writes :: "hmc5883l_cmd \<Rightarrow> u8 \<Rightarrow> (u8 \<Rightarrow> u8) \<Rightarrow> u8 \<times> u8" where
  "set_writes cmd p regs = (case set_field cmd of (r, sb, len) \<Rightarrow> (r, insert_bits sb len p (regs r)))"

lemma set_param_dev:
  "yields (attached a bus addr rv) ws (my_hmc5883l_set_param (Some a) cmd p) RT_EOK
     (ws @ [set_writes cmd p (rv ws)])"
proof -
  obtain r sb len where f: "set_field cmd = (r, sb, len)" by (metis prod_cases3)
  show ?thesis
    unfolding my_hmc5883l_set_param_def set_writes_def f option.case prod.case
    by (rule yields_bind, rule write_bits_dev, rule field_shift_set, rule f, rule store_config_dev)
qed

definition field_width :: "hmc5883l_cmd \<Rightarrow> nat" where
  "field_width cmd = (case get_field cmd of (_, _, len) \<Rightarrow> unat len)"

lemmas field_simps = extract_bits_def insert_bits_def field_mask_def field_shift_def Let_def

lemma field_value_set:
  assumes "sane cmd" and "sane cmd'"
  shows "field_value cmd' (\<lambda>q. if q = fst (set_writes cmd p regs) then snd (set_writes cmd p regs) else regs q) =
    (if cmd' = cmd then p AND mask (field_width cmd) else field_value cmd' regs)"
  using assms
  by (cases cmd; cases cmd')
    (simp_all add: sane_def set_writes_def field_value_def field_width_def field_simps,
     simp_all add: u8_all bit_simps mask_eq_exp_minus_1)

text \<open>
  C12: parameters can be set and read back. On a device whose registers keep what is written,
  setting the sample count, the data rate or the range succeeds; each of the three then
  reads back, the one just set as the low bits of the value given, the other two as they
  were before, though two of them share a register.
\<close>

theorem hmc5883l_param_roundtrip:
  assumes "attached a bus addr (last_written init) ws s" and "sane cmd" and "sane cmd'"
    and "run_state (my_hmc5883l_set_param (Some a) cmd p) s = (r, t)"
  shows "r = RT_EOK \<and> fst (run_state (my_hmc5883l_get_param (Some a) cmd') t) =
    (if cmd' = cmd then (RT_EOK, p AND mask (field_width cmd))
     else fst (run_state (my_hmc5883l_get_param (Some a) cmd') s))"
proof -
  let ?rv = "last_written init"
  let ?w = "set_writes cmd p (?rv ws)"
  have t: "r = RT_EOK" "attached a bus addr ?rv (ws @ [?w]) t"
    using yieldsD [OF set_param_dev assms(1), of cmd p] assms(4) by auto
  have "?rv (ws @ [?w]) = (\<lambda>q. if q = fst ?w then snd ?w else ?rv ws q)"
    by (cases ?w) (auto simp: fun_eq_iff)
  then have "field_value cmd' (?rv (ws @ [?w])) =
      (if cmd' = cmd then p AND mask (field_width cmd) else field_value cmd' (?rv ws))"
    using field_value_set [OF assms(2,3)] by simp
  then show ?thesis
    using t yieldsD [OF get_param_dev [OF assms(3)] t(2)] yieldsD [OF get_param_dev [OF assms(3)] assms(1)]
    by auto
qed

lemma hmc5883l_param_roundtrip_witness:
  "fst (run_state (my_hmc5883l_get_param (Some 1) HMC5883L_DOR)
     (snd (run_state (my_hmc5883l_set_param (Some 1) HMC5883L_DOR 0x0C)
       (i2c_board ''i2c1'' 0x1E (last_written (\<lambda>_. 0)))))) = (RT_EOK, 0x04)"
proof -
  let ?s = "i2c_board ''i2c1'' 0x1E (last_written (\<lambda>_. 0))"
  obtain r t where r: "run_state (my_hmc5883l_set_param (Some 1) HMC5883L_DOR 0x0C) ?s = (r, t)"
    by (metis prod.exhaust)
  have "sane HMC5883L_DOR" by (simp add: sane_def)
  with hmc5883l_param_roundtrip [OF i2c_board_attached _ _ r, of HMC5883L_DOR] r
  show ?thesis by (simp add: field_width_def mask_eq_exp_minus_1)
qed

text \<open>
  reading the operating mode is undefined behaviour. Whenever the register can be read,
  \<open>my_hmc5883l_get_param\<close> shifts by -1 for \<open>HMC5883L_OPER_MODE\<close> (it names start bit 0 for a
  two-bit field; \<open>my_hmc5883l_set_param\<close> names bit 1).
\<close>

theorem hmc5883l_get_mode_bad_shift:
  assumes "attached a bus addr rv ws s"
    and "run_state (my_hmc5883l_get_param (Some a) HMC5883L_OPER_MODE) s = (r, t)"
  shows "Fault BadShift \<in> set (hist t)"
proof -
  obtain u where u: "run_state (hmc_read_regs a 0x02 [junk8 (env s) (hist s)]) s = ((RT_EOK, [rv ws 0x02]), u)"
    using yieldsD [OF hmc_read_dev assms(1), of "0x02" "[junk8 (env s) (hist s)]"] by auto
  with assms(2) show ?thesis
    by (auto simp: my_hmc5883l_get_param_def read_bits_def field_shift_def)
qed

lemma hmc5883l_get_mode_bad_shift_witness:
  "Fault BadShift \<in> set (hist (snd (run_state (my_hmc5883l_get_param (Some 1) HMC5883L_OPER_MODE)
     (i2c_board ''i2c1'' 0x1E (\<lambda>_ _. 0)))))"
  using hmc5883l_get_mode_bad_shift [OF i2c_board_attached [of "''i2c1''" "0x1E" "\<lambda>_ _. 0"], OF surjective_pairing]
  by simp

text \<open>Reading the measurement.\<close>

lemma get_data_dev:
  "yields (attached a bus addr rv) ws (my_hmc5883l_get_data (Some a) data)
     (let w = ws @ [(0x02, 0x01)] in (RT_EOK, \<lparr>mag_x = be16 (rv w 3) (rv w 4),
        mag_y = be16 (rv w 7) (rv w 8), mag_z = be16 (rv w 5) (rv w 6)\<rparr>)) (ws @ [(0x02, 0x01)])"
proof -
  have "map (\<lambda>i. rv w (3 + of_nat i)) [0..<6] = [rv w 3, rv w 4, rv w 5, rv w 6, rv w 7, rv w 8]" for w
    by (simp add: upt_rec)
  then show ?thesis
    unfolding my_hmc5883l_get_data_def option.case Let_def
    apply -
    apply (rule yields_bind, rule hmc_write_dev, simp)
    apply (rule yields_ask, rule yields_bind, rule hmc_read_dev)
    apply (simp add: yields_ret)
    done
qed

text \<open>
  A measurement. On a device that answers, \<open>my_hmc5883l_get_data\<close> starts one single
  measurement (register 2 := 1, nothing else is written) and returns the three signed
  16-bit values of the six data registers, high byte first, in the sensor's order x, z, y.
\<close>

theorem hmc5883l_get_data_values:
  assumes "attached a bus addr rv ws s"
    and "run_state (my_hmc5883l_get_data (Some a) data) s = ((r, data'), t)"
  shows "let w = ws @ [(0x02, 0x01)] in r = RT_EOK \<and> attached a bus addr rv w t \<and>
    sint (mag_x data') = 256 * sint (rv w 3) + uint (rv w 4) \<and>
    sint (mag_z data') = 256 * sint (rv w 5) + uint (rv w 6) \<and>
    sint (mag_y data') = 256 * sint (rv w 7) + uint (rv w 8)"
  using yieldsD [OF get_data_dev assms(1), of data] assms(2) by (auto simp: Let_def sint_be16)

lemma hmc5883l_get_data_values_witness:
  "sint (mag_y (snd (fst (run_state (my_hmc5883l_get_data (Some 1) \<lparr>mag_x = 0, mag_y = 0, mag_z = 0\<rparr>)
     (i2c_board ''i2c1'' 0x1E (\<lambda>_ r. if r = 7 then 0xFF else 0x10)))))) = - 240"
proof -
  let ?rv = "\<lambda>(_ :: (u8 \<times> u8) list) r. if r = (7 :: u8) then 0xFF else (0x10 :: u8)"
  let ?m = "my_hmc5883l_get_data (Some 1) \<lparr>mag_x = 0, mag_y = 0, mag_z = 0\<rparr>"
  obtain r d t where m: "run_state ?m (i2c_board ''i2c1'' 0x1E ?rv) = ((r, d), t)"
    by (metis prod.exhaust)
  from hmc5883l_get_data_values [OF i2c_board_attached m] m show ?thesis
    by (simp add: Let_def sint8)
qed

section \<open>Allocation\<close>

lemma hmc_extends [extend_intros]:
  "extends no_alloc (hmc_read_regs a r buf)" "extends no_alloc (hmc_write_reg a r v)" "extends no_alloc (self_test a)"
  unfolding hmc_read_regs_def hmc_write_reg_def self_test_def by (intro extend_intros)+

lemma hmc5883l_init_hands_out: "hands_out (my_hmc5883l_init name addr)"
  unfolding my_hmc5883l_init_def
  by (rule alloc_no_leak) (intro handover_rules extend_intros)

end
