(* ===== verification/Ltr390.thy ===== *)
theory Ltr390
  imports I2c
begin

text \<open>
  \<open>src/applications/i2c_LTR390.c\<close>: the ambient-light and UV sensor, a device structure on
  the heap like the magnetometer's.
\<close>

section \<open>Register access\<close>

definition ltr_read_regs :: "nat \<Rightarrow> u8 \<Rightarrow> u8 list \<Rightarrow> ('z board_scheme, int \<times> u8 list) state" where
  "ltr_read_regs dev reg buf = dev_read_regs dev reg buf"

definition ltr_write_regs :: "nat \<Rightarrow> u8 \<Rightarrow> u8 list \<Rightarrow> ('z board_scheme, int) state" where
  "ltr_write_regs dev reg buf = dev_write_regs dev reg buf"

definition ltr_write_reg :: "nat \<Rightarrow> u8 \<Rightarrow> u8 \<Rightarrow> ('z board_scheme, int) state" where
  "ltr_write_reg dev reg data = dev_write_reg dev reg data"

abbreviation (input) LTR390_REGISTER_MAIN_CTRL :: u8 where "LTR390_REGISTER_MAIN_CTRL \<equiv> 0x00"
abbreviation (input) LTR390_REGISTER_MEAS_RATE :: u8 where "LTR390_REGISTER_MEAS_RATE \<equiv> 0x04"
abbreviation (input) LTR390_REGISTER_GAIN :: u8 where "LTR390_REGISTER_GAIN \<equiv> 0x05"
abbreviation (input) LTR390_REGISTER_MAIN_STATUS :: u8 where "LTR390_REGISTER_MAIN_STATUS \<equiv> 0x07"
abbreviation (input) LTR390_REGISTER_ALSDATA :: u8 where "LTR390_REGISTER_ALSDATA \<equiv> 0x0D"
abbreviation (input) LTR390_REGISTER_UVSDATA :: u8 where "LTR390_REGISTER_UVSDATA \<equiv> 0x10"
abbreviation (input) LTR390_REGISTER_INT_CFG :: u8 where "LTR390_REGISTER_INT_CFG \<equiv> 0x19"
abbreviation (input) LTR390_RESOLUTION_16BIT_TIME25MS :: u8 where "LTR390_RESOLUTION_16BIT_TIME25MS \<equiv> 0x40"
abbreviation (input) LTR390_RATE_25MS :: u8 where "LTR390_RATE_25MS \<equiv> 0x00"
abbreviation (input) LTR390_GAIN_3 :: u8 where "LTR390_GAIN_3 \<equiv> 0x01"

section \<open>Creating a device\<close>

definition my_ltr390_init :: "string \<Rightarrow> u8 \<Rightarrow> ('z board_scheme, nat option) state" where
  "my_ltr390_init i2c_bus_name addr = do {
     p \<leftarrow> calloc_struct (I2c_struct zero_i2c_device);
     case p of
       None \<Rightarrow> ret None
     | Some a \<Rightarrow> do {
         t \<leftarrow> ask (\<lambda>e h. device_type e i2c_bus_name);
         d \<leftarrow> load_i2c a;
         store_i2c a (d\<lparr>dev_bus := i2c_bus_name\<rparr>);
         if t \<noteq> Some Device_Class_I2CBUS then do { rt_free a; ret None }
         else do {
           d \<leftarrow> load_i2c a;
           store_i2c a (d\<lparr>dev_i2c_addr := addr\<rparr>);
           r1 \<leftarrow> ltr_write_reg a LTR390_REGISTER_MEAS_RATE
             (LTR390_RESOLUTION_16BIT_TIME25MS OR LTR390_RATE_25MS);
           r2 \<leftarrow> (if r1 \<noteq> RT_EOK then ret r1 else ltr_write_reg a LTR390_REGISTER_GAIN LTR390_GAIN_3);
           if r2 \<noteq> RT_EOK then do { rt_free a; ret None }
           else ret (Some a)
         }
       }
   }"

definition my_ltr390_destroy :: "nat option \<Rightarrow> ('z board_scheme, unit) state" where
  "my_ltr390_destroy ltr390 =
     (case ltr390 of None \<Rightarrow> fault AssertFailed | Some a \<Rightarrow> rt_free a)"

section \<open>Measuring\<close>

record ltr390_data =
  lux :: real
  uvi :: u8

definition raw24 :: "u8 list \<Rightarrow> u32" where
  "raw24 buffer = push_bit 16 (ucast (buffer ! 2)) OR push_bit 8 (ucast (buffer ! 1)) OR ucast (buffer ! 0)"

definition lux_of :: "(real \<Rightarrow> real) \<Rightarrow> u32 \<Rightarrow> real" where
  "lux_of r alsData = r (r (r 0.6 * real_of_int (uint alsData)) / r (3 * 0.25))"

definition sensitivity :: "(real \<Rightarrow> real) \<Rightarrow> real" where
  "sensitivity r = r (r (r (1400 / 18) * 3) / 2 ^ (20 - 16))"

text \<open>
  The condition \<open>write_reg(..., MAIN_CTRL, m) && write_reg(..., INT_CFG, i) != RT_EOK\<close>: the
  second write is made only if the first one failed.
\<close>

definition select_channel :: "nat \<Rightarrow> u8 \<Rightarrow> u8 \<Rightarrow> ('z board_scheme, bool) state" where
  "select_channel a m i = do {
     r1 \<leftarrow> ltr_write_reg a LTR390_REGISTER_MAIN_CTRL m;
     if r1 \<noteq> 0 then do { r2 \<leftarrow> ltr_write_reg a LTR390_REGISTER_INT_CFG i; ret (r2 \<noteq> RT_EOK) }
     else ret False
   }"

text \<open>One of the two measurements: \<open>None\<close> is the return of an error.\<close>

definition measure_channel :: "nat \<Rightarrow> u8 \<Rightarrow> u8 \<Rightarrow> u8 \<Rightarrow> ('z board_scheme, u32 option option) state" where
  "measure_channel a m i reg = do {
     bad \<leftarrow> select_channel a m i;
     if bad then ret None
     else do {
       rt_thread_mdelay 25;
       (r, st) \<leftarrow> ltr_read_regs a LTR390_REGISTER_MAIN_STATUS [0x00];
       if r \<noteq> RT_EOK then ret None
       else if hd st AND 0x08 = 0x08 then do {
         j \<leftarrow> ask junk8;
         (r2, buffer) \<leftarrow> ltr_read_regs a reg (replicate 3 j);
         if r2 \<noteq> RT_EOK then ret None
         else ret (Some (Some (raw24 buffer)))
       }
       else ret (Some None)
     }
   }"

definition my_ltr390_get_data :: "nat option \<Rightarrow> ltr390_data \<Rightarrow> ('z board_scheme, int \<times> ltr390_data) state" where
  "my_ltr390_get_data ltr390 data =
     (case ltr390 of
        None \<Rightarrow> ret (- RT_ERROR, data)
      | Some a \<Rightarrow> do {
          r \<leftarrow> ask (\<lambda>e h. rnd e);
          als \<leftarrow> measure_channel a 0x02 0x14 LTR390_REGISTER_ALSDATA;
          case als of
            None \<Rightarrow> ret (- RT_ERROR, data)
          | Some alsData \<Rightarrow> do {
              let data = (case alsData of Some v \<Rightarrow> data\<lparr>lux := lux_of r v\<rparr> | None \<Rightarrow> data);
              uvs \<leftarrow> measure_channel a 0x0A 0x34 LTR390_REGISTER_UVSDATA;
              case uvs of
                None \<Rightarrow> ret (- RT_ERROR, data)
              | Some None \<Rightarrow> ret (RT_EOK, data)
              | Some (Some uvsData) \<Rightarrow> do {
                  u \<leftarrow> double_to_u8 (r (real_of_int (uint uvsData) / sensitivity r));
                  ret (RT_EOK, data\<lparr>uvi := u\<rparr>)
                }
            }
        })"

section \<open>Allocation\<close>

lemma ltr_extends [extend_intros]:
  "extends no_alloc (ltr_read_regs a r buf)" "extends no_alloc (ltr_write_reg a r v)"
  unfolding ltr_read_regs_def ltr_write_reg_def by (intro extend_intros)+

lemma ltr390_init_hands_out: "hands_out (my_ltr390_init name addr)"
  unfolding my_ltr390_init_def
  by (rule alloc_no_leak) (intro handover_rules extend_intros)

section \<open>On a device that answers\<close>

lemma delay_dev: "yields (attached a bus addr rv) ws (rt_thread_mdelay ms) () ws"
  by (simp add: yields_def attached_def i2c_dev_def)

lemma select_channel_dev:
  "yields (attached a bus addr rv) ws (select_channel a m i) False (ws @ [(LTR390_REGISTER_MAIN_CTRL, m)])"
  unfolding select_channel_def ltr_write_reg_def
  by (rule yields_bind, rule dev_regs.wr_law) (simp add: yields_ret)

text \<open>What a measurement with new data reads: three registers, low byte first.\<close>

definition raw_at :: "((u8 \<times> u8) list \<Rightarrow> u8 \<Rightarrow> u8) \<Rightarrow> (u8 \<times> u8) list \<Rightarrow> u8 \<Rightarrow> u32" where
  "raw_at rv ws reg = raw24 [rv ws reg, rv ws (reg + 1), rv ws (reg + 2)]"

definition has_data :: "((u8 \<times> u8) list \<Rightarrow> u8 \<Rightarrow> u8) \<Rightarrow> (u8 \<times> u8) list \<Rightarrow> bool" where
  "has_data rv ws \<longleftrightarrow> rv ws LTR390_REGISTER_MAIN_STATUS AND 0x08 = 0x08"

lemma measure_channel_dev:
  "let w = ws @ [(LTR390_REGISTER_MAIN_CTRL, m)] in
   yields (attached a bus addr rv) ws (measure_channel a m i reg)
     (Some (if has_data rv w then Some (raw_at rv w reg) else None)) w"
proof -
  have three: "map (\<lambda>i. rv w (reg + of_nat i)) [0..<3] = [rv w reg, rv w (reg + 1), rv w (reg + 2)]" for w
    by (simp add: upt_rec)
  show ?thesis
    unfolding Let_def measure_channel_def ltr_read_regs_def
    apply (rule yields_bind, rule select_channel_dev, simp only: if_False)
    apply (rule yields_bind, rule delay_dev, rule yields_bind, rule dev_regs.rd_law)
    apply (auto simp: has_data_def yields_ret)
    apply (rule yields_ask, rule yields_bind, rule dev_regs.rd_law)
    apply (simp add: three raw_at_def yields_ret)
    done
qed

section \<open>A measurement\<close>

text \<open>A device: what its registers hold after the two channel selections.\<close>

definition after_als :: "(u8 \<times> u8) list \<Rightarrow> (u8 \<times> u8) list" where
  "after_als ws = ws @ [(LTR390_REGISTER_MAIN_CTRL, 0x02)]"

definition after_uvs :: "(u8 \<times> u8) list \<Rightarrow> (u8 \<times> u8) list" where
  "after_uvs ws = after_als ws @ [(LTR390_REGISTER_MAIN_CTRL, 0x0A)]"

definition uvi_exact :: "(real \<Rightarrow> real) \<Rightarrow> u32 \<Rightarrow> int" where
  "uvi_exact r v = trunc (r (real_of_int (uint v) / sensitivity r))"

lemma get_data_run:
  assumes "attached a bus addr rv ws s" and "run_state (my_ltr390_get_data (Some a) data) s = ((r, data'), t)"
  shows "r = RT_EOK \<and> attached a bus addr rv (after_uvs ws) t \<and>
    lux data' = (if has_data rv (after_als ws) then lux_of (rnd (env s)) (raw_at rv (after_als ws) LTR390_REGISTER_ALSDATA)
      else lux data) \<and>
    (let v = uvi_exact (rnd (env s)) (raw_at rv (after_uvs ws) LTR390_REGISTER_UVSDATA) in
     if \<not> has_data rv (after_uvs ws) then uvi data' = uvi data
     else if 0 \<le> v \<and> v < 256 then uint (uvi data') = v
     else Fault FloatToIntOverflow \<in> set (hist t))"
proof -
  let ?m1 = "measure_channel a 0x02 0x14 LTR390_REGISTER_ALSDATA"
  let ?m2 = "measure_channel a 0x0A 0x34 LTR390_REGISTER_UVSDATA"
  let ?r1 = "if has_data rv (after_als ws) then Some (raw_at rv (after_als ws) LTR390_REGISTER_ALSDATA) else None"
  let ?r2 = "if has_data rv (after_uvs ws) then Some (raw_at rv (after_uvs ws) LTR390_REGISTER_UVSDATA) else None"
  obtain s1 where 1: "run_state ?m1 s = (Some ?r1, s1)" "attached a bus addr rv (after_als ws) s1"
    using yieldsD [OF measure_channel_dev [unfolded Let_def] assms(1), of "0x02" "0x14" LTR390_REGISTER_ALSDATA]
    unfolding after_als_def by blast
  obtain s2 where 2: "run_state ?m2 s1 = (Some ?r2, s2)" "attached a bus addr rv (after_uvs ws) s2"
    using yieldsD [OF measure_channel_dev [unfolded Let_def] 1(2), of "0x0A" "0x34" LTR390_REGISTER_UVSDATA]
    unfolding after_uvs_def by blast
  have att: "attached a bus addr rv w (u\<lparr>hist := hist u @ [Fault f]\<rparr>)" if "attached a bus addr rv w u"
    for w f and u :: "'a board_scheme"
    using that by (simp add: attached_def i2c_dev_def)
  show ?thesis
    using assms(2) 1 2 att [OF 2(2)]
    by (auto simp: my_ltr390_get_data_def double_to_u8_def Let_def uvi_exact_def take_bit_int_eq_self
        uint_word_of_int_eq split: if_splits)
qed

text \<open>
  the interrupt configuration is never written. On a device that acknowledges, a
  measurement succeeds and writes register 0 twice, 0x02 and then 0x0A, and no other
  register: the writes of \<open>INT_CFG\<close> after the \<open>&&\<close> are skipped because the first write
  returned \<open>RT_EOK\<close>, which is 0.
\<close>

theorem ltr390_skips_INT_CFG:
  assumes "attached a bus addr rv ws s"
    and "run_state (my_ltr390_get_data (Some a) data) s = ((r, data'), t)"
  shows "r = RT_EOK \<and> xfer_writes bus addr (hist t) = ws @
    [(LTR390_REGISTER_MAIN_CTRL, 0x02), (LTR390_REGISTER_MAIN_CTRL, 0x0A)]"
  using get_data_run [OF assms] by (simp add: attached_def i2c_dev_def after_uvs_def after_als_def)

lemma ltr390_skips_INT_CFG_witness:
  "\<forall>v. (LTR390_REGISTER_INT_CFG, v) \<notin> set (xfer_writes ''i2c1'' 0x53
     (hist (snd (run_state (my_ltr390_get_data (Some 1) \<lparr>lux = 0, uvi = 0\<rparr>)
       (i2c_board ''i2c1'' 0x53 (\<lambda>_ _. 0x08))))))"
proof -
  let ?m = "my_ltr390_get_data (Some 1) \<lparr>lux = 0, uvi = 0\<rparr>"
  obtain r d t where m: "run_state ?m (i2c_board ''i2c1'' 0x53 (\<lambda>_ _. 0x08)) = ((r, d), t)"
    by (metis prod.exhaust)
  from ltr390_skips_INT_CFG [OF i2c_board_attached m] m show ?thesis by simp
qed

text \<open>The two conversions, with the rounding errors of \<open>double\<close> arithmetic.\<close>

lemma sensitivity_close:
  assumes "close_rounding r"
  shows "14.58333333333 \<le> sensitivity r" and "sensitivity r \<le> 14.58333333334"
proof -
  let ?a = "r (1400 / 18)" let ?b = "r (?a * 3)"
  have a: "77.77777777777 \<le> ?a" "?a \<le> 77.77777777778"
    using close_times [OF assms, of "1400 / 18" "1400 / 18" "1400 / 18"] by simp_all
  have b: "233.33333333329 \<le> ?b" "?b \<le> 233.33333333336"
    using close_times [OF assms, of "233.33333333331" "?a * 3" "233.33333333334"] a by simp_all
  show "14.58333333333 \<le> sensitivity r" "sensitivity r \<le> 14.58333333334"
    using close_times [OF assms, of "14.58333333333050" "?b / 16" "14.58333333333515"] b
    unfolding sensitivity_def by simp_all
qed

lemma quotient_close:
  assumes "close_rounding r" and "1 \<le> u" and "u < 2 ^ 24"
  shows "\<bar>r (u / sensitivity r) - u * 12 / 175\<bar> \<le> u / 10 ^ 11"
proof -
  let ?s = "sensitivity r"
  have s: "14.58333333333 \<le> ?s" "?s \<le> 14.58333333334" by (rule sensitivity_close [OF assms(1)])+
  have "0 < ?s" using s(1) by (rule less_le_trans [rotated]) simp
  with s have i: "0.0685714285713 \<le> 1 / ?s" "1 / ?s \<le> 0.06857142857146"
    by (simp_all add: field_simps)
  define v where "v = u / ?s"
  have q: "0.0685714285713 * u \<le> v" "v \<le> 0.06857142857146 * u"
    using mult_left_mono [OF i(1), of u] mult_left_mono [OF i(2), of u] assms(2)
    by (simp_all add: v_def mult.commute)
  have "1 / 20 \<le> v" using q(1) assms(2) by simp
  then have "1 / 2 ^ 100 \<le> v" by (rule order_trans [rotated]) simp
  moreover have "v \<le> 2 ^ 24" using q(2) assms(2,3) by simp
  then have "v \<le> 2 ^ 100" by (rule order_trans) simp
  ultimately have r: "v - v / 2 ^ 52 \<le> r v" "r v \<le> v + v / 2 ^ 52"
    by (rule close_roundingD [OF assms(1)])+
  have "v / 2 ^ 52 \<le> 0.000000000000001 * u" using q(2) assms(2) by simp
  with r q have "0.068571428571 * u \<le> r v" "r v \<le> 0.068571428572 * u"
    using assms(2) by simp_all
  then have "\<bar>r v - u * 12 / 175\<bar> \<le> u / 10 ^ 11"
    using assms(2) by (intro abs_leI) simp_all
  then show ?thesis unfolding v_def .
qed

lemma lux_close:
  assumes "close_rounding r" and "1 \<le> u" and "u < 2 ^ 24"
  shows "\<bar>r (r (r 0.6 * u) / r (3 * 0.25)) - 0.8 * u\<bar> \<le> u / 10 ^ 11"
proof -
  let ?a = "r 0.6" let ?c = "r (3 * 0.25)" let ?b = "r (?a * u)"
  have a: "0.599999999999999 \<le> ?a" "?a \<le> 0.600000000000001"
    using close_times [OF assms(1), of "0.6" "0.6" "0.6"] by simp_all
  have c: "0.749999999999999 \<le> ?c" "?c \<le> 0.750000000000001"
    using close_times [OF assms(1), of "0.75" "3 * 0.25" "0.75"] by simp_all
  have au: "0.599999999999999 * u \<le> ?a * u" "?a * u \<le> 0.600000000000001 * u"
    using a assms(2) by (auto intro: mult_right_mono)
  have b: "0.59999999999999 * u \<le> ?b" "?b \<le> 0.60000000000001 * u"
    using close_times [OF assms(1) au] assms(2,3) by simp_all
  have b0: "0 \<le> ?b" using b(1) assms(2) by simp
  have "0 < ?c" using c(1) by (rule less_le_trans [rotated]) simp
  with c have "1.33333333333333 \<le> 1 / ?c" "1 / ?c \<le> 1.3333333333334"
    by (simp_all add: field_simps)
  then have "1.33333333333333 * ?b \<le> ?b / ?c" "?b / ?c \<le> 1.3333333333334 * ?b"
    using mult_left_mono [of "1.33333333333333" "1 / ?c" ?b] mult_left_mono [of "1 / ?c" "1.3333333333334" ?b] b0
    by (simp_all add: mult.commute)
  with b have q: "0.7999999999999 * u \<le> ?b / ?c" "?b / ?c \<le> 0.8000000000001 * u"
    using assms(2) by simp_all
  show ?thesis
    using close_times [OF assms(1) q] q assms(2,3) by (intro abs_leI) simp_all
qed

lemma uint_raw24: "uint (raw24 [a, b, c]) = uint a + 256 * uint b + 65536 * uint c"
proof -
  have le: "n < 8" if "bit (x :: u8) n" for x n using that bit_imp_le_length [of x n] by simp
  have "(push_bit 16 (ucast c) OR push_bit 8 (ucast b) :: u32) AND ucast a = 0"
    by (intro bit_word_eqI) (auto simp: bit_simps dest: le)
  moreover have "push_bit 16 (ucast c) AND (push_bit 8 (ucast b) :: u32) = 0"
    by (intro bit_word_eqI) (auto simp: bit_simps dest!: le)
  ultimately have "raw24 [a, b, c] = push_bit 16 (ucast c) + push_bit 8 (ucast b) + ucast a"
    by (simp add: raw24_def disjunctive_add_eq_or or.assoc)
  moreover have "uint a < 256" "uint b < 256" "uint c < 256"
    using uint_lt2p [of a] uint_lt2p [of b] uint_lt2p [of c] by simp_all
  ultimately show ?thesis
    by (simp add: uint_word_ariths unsigned_push_bit_eq unsigned_ucast_eq push_bit_eq_mult take_bit_eq_mod)
qed

text \<open>A three-byte register value as a number.\<close>

definition value24 :: "((u8 \<times> u8) list \<Rightarrow> u8 \<Rightarrow> u8) \<Rightarrow> (u8 \<times> u8) list \<Rightarrow> u8 \<Rightarrow> int" where
  "value24 rv ws reg = uint (rv ws reg) + 256 * uint (rv ws (reg + 1)) + 65536 * uint (rv ws (reg + 2))"

lemma value24_range: "0 \<le> value24 rv ws reg" "value24 rv ws reg < 2 ^ 24"
  using uint_lt2p [of "rv ws reg"] uint_lt2p [of "rv ws (reg + 1)"] uint_lt2p [of "rv ws (reg + 2)"]
  by (simp_all add: value24_def)

lemma uint_raw_at: "uint (raw_at rv ws reg) = value24 rv ws reg"
  by (simp add: raw_at_def uint_raw24 value24_def)

lemma lux_of_close:
  assumes "close_rounding r"
  shows "\<bar>lux_of r (raw_at rv ws reg) - 0.8 * value24 rv ws reg\<bar> \<le> value24 rv ws reg / 10 ^ 11"
proof (cases "value24 rv ws reg = 0")
  case True
  with assms show ?thesis by (simp add: lux_of_def uint_raw_at close_rounding_0)
next
  case False
  then have "1 \<le> real_of_int (value24 rv ws reg)" "real_of_int (value24 rv ws reg) < 2 ^ 24"
    using value24_range [of rv ws reg] by simp_all
  from lux_close [OF assms this] show ?thesis unfolding lux_of_def uint_raw_at .
qed

lemma uvi_exact_close:
  fixes rv :: "(u8 \<times> u8) list \<Rightarrow> u8 \<Rightarrow> u8" and ws reg
  assumes "close_rounding r"
  defines "u \<equiv> value24 rv ws reg" and "v \<equiv> uvi_exact r (raw_at rv ws reg)"
  shows "0 \<le> v" and "real_of_int v \<le> real_of_int u * 12 / 175 + 1 / 1000" and "real_of_int u * 12 / 175 - 1 / 1000 < real_of_int v + 1"
    and "u \<le> 3733 \<Longrightarrow> v < 256" and "3734 \<le> u \<Longrightarrow> 256 \<le> v"
proof -
  define q where "q = r (real_of_int u / sensitivity r)"
  have v: "v = trunc q" unfolding v_def uvi_exact_def uint_raw_at u_def q_def ..
  have u: "0 \<le> u" "u < 2 ^ 24" unfolding u_def by (rule value24_range)+
  have q: "\<bar>q - real_of_int u * 12 / 175\<bar> \<le> real_of_int u / 10 ^ 11"
  proof (cases "u = 0")
    case True then show ?thesis using assms(1) by (simp add: q_def close_rounding_0)
  next
    case False
    then show ?thesis unfolding q_def using u quotient_close [OF assms(1), of "real_of_int u"] by simp
  qed
  then have q': "real_of_int u * 12 / 175 - real_of_int u / 10 ^ 11 \<le> q" "q \<le> real_of_int u * 12 / 175 + real_of_int u / 10 ^ 11"
    unfolding abs_le_iff by linarith+
  then have "0 \<le> q" using u by simp
  then have fl: "v = \<lfloor>q\<rfloor>" by (simp add: v trunc_def)
  then show "0 \<le> v" using \<open>0 \<le> q\<close> by simp
  have b: "real_of_int u / 10 ^ 11 \<le> 1 / 1000" using u by simp
  show "real_of_int v \<le> real_of_int u * 12 / 175 + 1 / 1000" "real_of_int u * 12 / 175 - 1 / 1000 < real_of_int v + 1"
    using q' b of_int_floor_le [of q] floor_less_iff [of q "v + 1"] unfolding fl by linarith+
  show "v < 256" if "u \<le> 3733" using that q'(2) unfolding fl floor_less_iff by simp
  show "256 \<le> v" if "3734 \<le> u" using that q'(1) unfolding fl le_floor_iff by simp
qed

text \<open>
  The values of a measurement. On a device that acknowledges and reports new data, the
  illuminance is 0.8 lux for each count of the three ALS registers, and the UV index is the
  whole part of 12/175 of the UVS count, up to the rounding of \<open>double\<close> arithmetic, as long as
  the count is at most 3733. From 3734 on the quotient does not fit the unsigned byte it is
  stored in, and the conversion is undefined.
\<close>

theorem ltr390_get_data_values:
  assumes "attached a bus addr rv ws s" and "close_rounding (rnd (env s))"
    and "has_data rv (after_als ws)" and "has_data rv (after_uvs ws)"
    and "run_state (my_ltr390_get_data (Some a) data) s = ((r, data'), t)"
  shows "let als = value24 rv (after_als ws) LTR390_REGISTER_ALSDATA;
      uvs = value24 rv (after_uvs ws) LTR390_REGISTER_UVSDATA in
    \<bar>lux data' - 0.8 * real_of_int als\<bar> \<le> real_of_int als / 10 ^ 11 \<and>
    (if uvs \<le> 3733
     then real_of_int (uint (uvi data')) \<le> real_of_int uvs * 12 / 175 + 1 / 1000 \<and>
       real_of_int uvs * 12 / 175 - 1 / 1000 < real_of_int (uint (uvi data')) + 1
     else Fault FloatToIntOverflow \<in> set (hist t))"
proof -
  let ?v = "uvi_exact (rnd (env s)) (raw_at rv (after_uvs ws) LTR390_REGISTER_UVSDATA)"
  note v = uvi_exact_close [OF assms(2), of rv "after_uvs ws" LTR390_REGISTER_UVSDATA]
  have lux: "lux data' = lux_of (rnd (env s)) (raw_at rv (after_als ws) LTR390_REGISTER_ALSDATA)"
    and uvi: "if 0 \<le> ?v \<and> ?v < 256 then uint (uvi data') = ?v else Fault FloatToIntOverflow \<in> set (hist t)"
    using get_data_run [OF assms(1,5)] assms(3,4) by (simp_all add: Let_def)
  show ?thesis
  proof (cases "value24 rv (after_uvs ws) LTR390_REGISTER_UVSDATA \<le> 3733")
    case True
    with uvi v(1,4) have "uint (uvi data') = ?v" by simp
    with True v(2,3) lux_of_close [OF assms(2)] show ?thesis unfolding Let_def lux by simp
  next
    case False
    with uvi v(5) have "Fault FloatToIntOverflow \<in> set (hist t)" by simp
    with False lux_of_close [OF assms(2)] show ?thesis unfolding Let_def lux by simp
  qed
qed

definition uv_lamp :: "(u8 \<times> u8) list \<Rightarrow> u8 \<Rightarrow> u8" where
  "uv_lamp ws r = (if r = LTR390_REGISTER_MAIN_STATUS then 0x08 else if r = LTR390_REGISTER_UVSDATA then 100 else 0)"

lemma ltr390_get_data_values_witness:
  "uvi (snd (fst (run_state (my_ltr390_get_data (Some 1) \<lparr>lux = 0, uvi = 0\<rparr>)
     (i2c_board ''i2c1'' 0x53 uv_lamp)))) = 6"
proof -
  let ?m = "my_ltr390_get_data (Some 1) \<lparr>lux = 0, uvi = 0\<rparr>"
  obtain r d t where m: "run_state ?m (i2c_board ''i2c1'' 0x53 uv_lamp) = ((r, d), t)"
    by (metis prod.exhaust)
  have "close_rounding (rnd (env (i2c_board ''i2c1'' 0x53 uv_lamp)))"
    by (simp add: i2c_board_def env0_def close_rounding_id)
  moreover have "has_data uv_lamp ws" "value24 uv_lamp ws LTR390_REGISTER_UVSDATA = 100" for ws
    by (simp_all add: has_data_def value24_def uv_lamp_def)
  ultimately have "real_of_int (uint (uvi d)) \<le> 100 * 12 / 175 + 1 / 1000 \<and>
      100 * 12 / 175 - 1 / 1000 < real_of_int (uint (uvi d)) + 1"
    using ltr390_get_data_values [OF i2c_board_attached _ _ _ m] by (simp add: Let_def)
  then have "uint (uvi d) = 6" by linarith
  then have "uvi d = 6" by (metis word_of_int_uint word_of_int_numeral)
  with m show ?thesis by simp
qed

end
