(* ===== verification/Adc_Sensors.thy ===== *)
theory Adc_Sensors
  imports Ov7725
begin

text \<open>
  \<open>src/applications/adc_GP2Y1014AU0F.c\<close> and \<open>src/applications/adc_LM386.c\<close>: the dust sensor and
  the microphone amplifier, two analogue inputs that share the converter ADC1. \<open>Error_Handler\<close>
  never returns; a function that may end there returns whether it came back.
\<close>

section \<open>The shared converter\<close>

definition my_MX_ADC1_Init :: "nat \<Rightarrow> ('z board_scheme, bool) state" where
  "my_MX_ADC1_Init channel = do {
     ok \<leftarrow> ask (\<lambda>e. adc_ok e);
     emit (AdcInit 1);
     if \<not> ok then do { emit ErrorHandler; ret False }
     else do {
       ok \<leftarrow> ask (\<lambda>e. adc_ok e);
       emit (AdcConfigChannel channel);
       if \<not> ok then do { emit ErrorHandler; ret False }
       else ret True
     }
   }"

text \<open>Start a conversion, wait for it at most 100 ms, and fetch the result.\<close>

definition convert :: "('z board_scheme, u32) state" where
  "convert = do {
     emit AdcStart;
     emit (AdcPoll 100);
     v \<leftarrow> ask (\<lambda>e. adc_value e);
     emit (AdcGet v);
     ret v
   }"

section \<open>The dust sensor\<close>

record dust_st = cam_st +
  flag_first :: u32
  filter_buffer :: "u32 list"
  filter_sum :: u32

definition GP2Y1014AU0F_ILED_PIN :: int where "GP2Y1014AU0F_ILED_PIN = GET_PIN 0 7"

definition my_gp2y1014au0f_init :: "('z board_scheme, bool) state" where
  "my_gp2y1014au0f_init = do {
     ok \<leftarrow> my_MX_ADC1_Init 5;
     if \<not> ok then ret False
     else do {
       stm32_pin_mode GP2Y1014AU0F_ILED_PIN PIN_MODE_OUTPUT;
       stm32_pin_write GP2Y1014AU0F_ILED_PIN PIN_LOW;
       ret True
     }
   }"

text \<open>The statements of the filter: each changes its static variables.\<close>

definition add_sum :: "nat \<Rightarrow> ('z dust_st_scheme, unit) state" where
  "add_sum i = modify (\<lambda>s. s\<lparr>filter_sum := filter_sum s + filter_buffer s ! i\<rparr>)"

definition set_buffer :: "nat \<Rightarrow> u32 \<Rightarrow> ('z dust_st_scheme, unit) state" where
  "set_buffer i x = modify (\<lambda>s. s\<lparr>filter_buffer := (filter_buffer s)[i := x]\<rparr>)"

definition my_filter :: "u32 \<Rightarrow> ('z dust_st_scheme, u32) state" where
  "my_filter data = do {
     f \<leftarrow> gets flag_first;
     if f = 0 then do {
       modify (\<lambda>s. s\<lparr>flag_first := 1, filter_sum := 0\<rparr>);
       for_each [0..<10] (\<lambda>i. do { set_buffer i data; add_sum i });
       ret data
     }
     else do {
       modify (\<lambda>s. s\<lparr>filter_sum := filter_sum s - filter_buffer s ! 0\<rparr>);
       for_each [0..<9] (\<lambda>i. do { b \<leftarrow> gets filter_buffer; set_buffer i (b ! (i + 1)) });
       set_buffer 9 data;
       add_sum 9;
       r \<leftarrow> ask (\<lambda>e h. rnd e);
       sum \<leftarrow> gets filter_sum;
       i \<leftarrow> double_to_u8 (r (real_of_int (uint sum) / 10));
       ret (ucast i)
     }
   }"

definition dust_density :: "(real \<Rightarrow> real) \<Rightarrow> real \<Rightarrow> real" where
  "dust_density r v =
     (let voltage = r (r (r (v / 4096) * r 3.3) * 11)
      in if voltage \<ge> r 0.6 then r (r (voltage - r 0.6) * (100 / 0.5)) else 0)"

definition my_gp2y1014au0f_get_data :: "('z dust_st_scheme, real) state" where
  "my_gp2y1014au0f_get_data = do {
     stm32_pin_write GP2Y1014AU0F_ILED_PIN PIN_HIGH;
     rt_hw_us_delay 300;
     v \<leftarrow> convert;
     stm32_pin_write GP2Y1014AU0F_ILED_PIN PIN_LOW;
     v \<leftarrow> my_filter v;
     r \<leftarrow> ask (\<lambda>e h. rnd e);
     emit AdcStop;
     ret (dust_density r (real_of_int (uint v)))
   }"

primrec density_sum :: "nat \<Rightarrow> real \<Rightarrow> ('z dust_st_scheme, real) state" where
  "density_sum 0 avg = ret avg"
| "density_sum (Suc n) avg = do {
     d \<leftarrow> my_gp2y1014au0f_get_data;
     r \<leftarrow> ask (\<lambda>e h. rnd e);
     density_sum n (r (avg + d))
   }"

text \<open>\<open>None\<close> is the NaN of a division by no samples.\<close>

definition my_gp2y1014au0f_get_data_avg :: "u32 \<Rightarrow> ('z dust_st_scheme, real option) state" where
  "my_gp2y1014au0f_get_data_avg num = do {
     avg \<leftarrow> density_sum (unat num) 0;
     r \<leftarrow> ask (\<lambda>e h. rnd e);
     ret (if num = 0 then None else Some (r (avg / real_of_int (uint num))))
   }"

section \<open>The microphone amplifier\<close>

definition my_lm386_init :: "('z board_scheme, bool) state" where
  "my_lm386_init = my_MX_ADC1_Init 6"

definition my_lm386_get_data :: "('z board_scheme, real) state" where
  "my_lm386_get_data = do {
     v \<leftarrow> convert;
     r \<leftarrow> ask (\<lambda>e h. rnd e);
     emit AdcStop;
     ret (r (r (real_of_int (uint v) / 4096) * r 3.3))
   }"

section \<open>The running mean\<close>

text \<open>The last ten values, the first value standing in for those before it.\<close>

definition window :: "u32 list \<Rightarrow> u32 list" where
  "window vs = drop (length vs - 1) (replicate 9 (hd vs) @ vs)"

text \<open>The static variables after the values \<open>vs\<close> have been filtered.\<close>

definition filtered :: "u32 list \<Rightarrow> 'z dust_st_scheme \<Rightarrow> bool" where
  "filtered vs s \<longleftrightarrow>
     (if vs = [] then flag_first s = 0 \<and> length (filter_buffer s) = 10
      else flag_first s = 1 \<and> filter_buffer s = window vs \<and> filter_sum s = sum_list (window vs))"

lemma length_window [simp]: "vs \<noteq> [] \<Longrightarrow> length (window vs) = 10"
  by (cases vs) (simp_all add: window_def)

lemma window_one: "window [v] = replicate 10 v"
  by (simp add: window_def eval_nat_numeral)

lemma window_snoc: "vs \<noteq> [] \<Longrightarrow> window (vs @ [v]) = tl (window vs) @ [v]"
proof -
  assume vs: "vs \<noteq> []"
  let ?X = "replicate 9 (hd vs) @ vs"
  have "tl (drop (length vs - 1) ?X) = drop (Suc (length vs - 1)) ?X"
    by (simp only: tl_drop drop_Suc)
  moreover have "Suc (length vs - 1) = length vs" using vs by (cases vs) simp_all
  moreover have "window (vs @ [v]) = drop (length vs) (?X @ [v])" using vs by (simp add: window_def)
  moreover have "drop (length vs) (?X @ [v]) = drop (length vs) ?X @ [v]"
    by (subst drop_append) simp
  ultimately show ?thesis by (simp only: window_def)
qed

lemma set_window: "vs \<noteq> [] \<Longrightarrow> set (window vs) \<subseteq> set vs"
  using set_drop_subset [of "length vs - 1" "replicate 9 (hd vs) @ vs"] by (auto simp: window_def)

lemma list10:
  assumes "length b = 10"
  obtains b0 b1 b2 b3 b4 b5 b6 b7 b8 b9 where "b = [b0, b1, b2, b3, b4, b5, b6, b7, b8, b9]"
  using assms by (auto simp: length_Suc_conv eval_nat_numeral)

lemmas filter_ops = set_buffer_def add_sum_def

lemma fill_run:
  assumes "length (filter_buffer s) = 10"
  shows "run_state (for_each [0..<10] (\<lambda>i. do { set_buffer i v; add_sum i })) (s\<lparr>filter_sum := 0\<rparr>) =
    ((), s\<lparr>filter_sum := sum_list (replicate 10 v), filter_buffer := replicate 10 v\<rparr>)"
proof -
  obtain b0 b1 b2 b3 b4 b5 b6 b7 b8 b9 where b: "filter_buffer s = [b0, b1, b2, b3, b4, b5, b6, b7, b8, b9]"
    by (rule list10 [OF assms])
  have u: "[0..<10] = [0, 1, 2, 3, 4, 5, 6, 7, 8, 9]" by (simp add: upt_rec)
  show ?thesis unfolding u filter_ops
    by (simp add: b numeral_eq_Suc algebra_simps)
qed

lemma shift_run:
  assumes "filter_buffer s = b # bs" and "length bs = 9"
  shows "run_state (for_each [0..<9] (\<lambda>i. do { b \<leftarrow> gets filter_buffer; set_buffer i (b ! (i + 1)) })) s =
    ((), s\<lparr>filter_buffer := bs @ [last bs]\<rparr>)"
proof -
  obtain b1 b2 b3 b4 b5 b6 b7 b8 b9 where b: "bs = [b1, b2, b3, b4, b5, b6, b7, b8, b9]"
    using assms(2) by (auto simp: length_Suc_conv eval_nat_numeral)
  have u: "[0..<9] = [0, 1, 2, 3, 4, 5, 6, 7, 8]" by (simp add: upt_rec)
  show ?thesis unfolding u filter_ops
    by (simp add: assms(1) b numeral_eq_Suc)
qed

lemma uint_sum_small:
  "uint (sum_list (ws :: u32 list)) = sum_list (map uint ws) mod 2 ^ 32"
  by (induction ws) (simp_all add: uint_word_ariths mod_simps)

lemma sum_small: "\<forall>v \<in> set ws. uint v < 4096 \<Longrightarrow> sum_list (map uint ws) \<le> 4096 * int (length ws)"
  by (induction ws) auto

lemma sum_nonneg_uint: "0 \<le> sum_list (map uint (ws :: u32 list))"
  by (induction ws) auto

lemma trunc_tenth:
  assumes "close_rounding r" and "0 \<le> S" and "S \<le> 2 ^ 32"
  shows "trunc (r (real_of_int S / 10)) = S div 10"
proof (cases "S mod 10 = 0")
  case True
  then have S: "S = 10 * (S div 10)" by presburger
  then have "real_of_int S / 10 = real_of_int (S div 10)" by linarith
  moreover have "r (real_of_int (S div 10)) = real_of_int (S div 10)"
    using assms by (intro close_rounding_int) simp_all
  moreover have "0 \<le> S div 10" using assms(2) by simp
  ultimately show ?thesis by (simp add: trunc_def)
next
  case False
  have S: "S = 10 * (S div 10) + S mod 10" by simp
  with False have "10 * (S div 10) + 1 \<le> S" "S \<le> 10 * (S div 10) + 9"
    using pos_mod_bound [of 10 S] pos_mod_sign [of 10 S] by linarith+
  then have R: "10 * real_of_int (S div 10) + 1 \<le> real_of_int S" "real_of_int S \<le> 10 * real_of_int (S div 10) + 9"
    by linarith+
  have "S \<noteq> 0" using False by auto
  then have b: "0 \<le> S div 10" "1 \<le> real_of_int S" "real_of_int S \<le> 4294967296" using assms(2,3) by auto
  let ?x = "real_of_int S / 10"
  have r: "?x - ?x / 2 ^ 52 \<le> r ?x" "r ?x \<le> ?x + ?x / 2 ^ 52"
    by (rule close_roundingD [OF assms(1)]; use b in simp)+
  have "?x / 2 ^ 52 \<le> 1 / 1000" using b by simp
  with r R have "real_of_int (S div 10) \<le> r ?x" "r ?x < real_of_int (S div 10) + 1" by linarith+
  moreover from this(1) b(1) have "0 \<le> r ?x" by linarith
  ultimately show ?thesis unfolding trunc_def by (simp add: floor_eq_iff)
qed

text \<open>
  C38: the filter is a running mean of ten. After twelve-bit readings \<open>vs\<close> the next reading \<open>v\<close>
  leaves the buffer with the last ten of them (the first standing in for missing ones) and
  their sum. The first reading is returned as it is; after that the result is the whole
  part of the mean, provided it is below 256: the mean is kept in an unsigned byte on the
  way, and converting a larger one is undefined.
\<close>

theorem dust_filter_running_mean:
  assumes "filtered vs s" and "\<forall>x \<in> set (vs @ [v]). uint x < 4096" and "close_rounding (rnd (env s))"
    and "run_state (my_filter v) s = (x, t)"
  shows "filtered (vs @ [v]) t \<and>
    (if vs = [] then x = v
     else let m = sum_list (map uint (window (vs @ [v]))) div 10 in
       if m < 256 then uint x = m else Fault FloatToIntOverflow \<in> set (hist t))"
proof (cases "vs = []")
  case True
  with assms(1) have f: "flag_first s = 0" "length (filter_buffer s) = 10" by (simp_all add: filtered_def)
  then have "run_state (my_filter v) s =
      (v, s\<lparr>flag_first := 1, filter_sum := sum_list (replicate 10 v), filter_buffer := replicate 10 v\<rparr>)"
    using fill_run [of "s\<lparr>flag_first := 1\<rparr>" v] by (simp add: my_filter_def)
  with assms(4) True show ?thesis by (auto simp: filtered_def window_one)
next
  case False
  let ?w = "window (vs @ [v])"
  obtain b bs where w: "window vs = b # bs" and bs: "length bs = 9"
    using length_window [OF False] by (cases "window vs") auto
  have f: "flag_first s = 1" "filter_buffer s = b # bs" "filter_sum s = b + sum_list bs"
    using assms(1) False w by (simp_all add: filtered_def)
  have w': "?w = bs @ [v]" using window_snoc [OF False] w by simp
  have W: "\<forall>y \<in> set ?w. uint y < 4096" using set_window [of "vs @ [v]"] assms(2) by auto
  have S: "0 \<le> sum_list (map uint ?w)" "sum_list (map uint ?w) \<le> 40960"
    using sum_nonneg_uint sum_small [OF W] by simp_all
  let ?S = "uint (sum_list bs + v)"
  have u: "?S = sum_list (map uint ?w)"
    using S uint_sum_small [of ?w] by (simp add: w')
  let ?s = "s\<lparr>filter_buffer := bs @ [v], filter_sum := sum_list bs + v\<rparr>"
  have l: "(bs @ [last bs])[9 := v] = bs @ [v]" using bs by (simp add: list_update_append)
  have n: "(bs @ [v]) ! 9 = v" using bs by (simp add: nth_append)
  have tr: "trunc (rnd (env s) (real_of_int ?S / 10)) = ?S div 10"
    using S by (intro trunc_tenth [OF assms(3)]) (simp_all add: u)
  have "run_state (my_filter v) s =
      run_state (do { i \<leftarrow> double_to_u8 (rnd (env s) (real_of_int ?S / 10)); ret (ucast i) }) ?s"
    using shift_run [of "s\<lparr>filter_sum := sum_list bs\<rparr>" b bs] f bs
    by (simp add: my_filter_def filter_ops l n)
  moreover have "filtered (vs @ [v]) ?s" using f(1) by (simp add: filtered_def w')
  moreover have "filtered (vs @ [v]) (?s\<lparr>hist := h\<rparr>)" for h using f(1) by (simp add: filtered_def w')
  moreover have "0 \<le> ?S div 10" by (simp add: pos_imp_zdiv_nonneg_iff)
  ultimately show ?thesis
    using assms(4) False S unfolding Let_def u [symmetric]
    by (auto simp: double_to_u8_def tr [simplified of_int_uint] unsigned_ucast_eq uint_word_of_int_eq take_bit_int_eq_self split: if_splits)
qed

text \<open>Its use on a concrete board: two readings, 60 and 41, average 58.1.\<close>

definition dust_board :: "(ev list \<Rightarrow> u32) \<Rightarrow> dust_st" where
  "dust_board f = \<lparr>hist = [], env = env0\<lparr>adc_value := f\<rparr>, heap = Map.empty,
     pin_irq_hdr_tab = init_irq_hdr_tab, pin_irq_enable_mask = 0, key1_isChanged = False, key2_isChanged = False,
     Ov7725_vsync = 0, flag_first = 0, filter_buffer = replicate 10 0, filter_sum = 0\<rparr>"

lemma dust_filter_running_mean_witness:
  "let (x, s1) = run_state (my_filter 60) (dust_board (\<lambda>_. 0)); (y, s2) = run_state (my_filter 41) s1 in
   x = 60 \<and> y = 58"
proof -
  let ?s = "dust_board (\<lambda>_. 0)"
  obtain x s1 y s2 where r: "run_state (my_filter 60) ?s = (x, s1)" "run_state (my_filter 41) s1 = (y, s2)"
    by (metis prod.exhaust)
  have 1: "filtered [] ?s" "close_rounding (rnd (env ?s))"
    by (simp_all add: filtered_def dust_board_def env0_def close_rounding_id)
  from dust_filter_running_mean [OF 1(1) _ 1(2) r(1)] have x: "x = 60" "filtered [60] s1" by simp_all
  have "run_state (my_filter 60) ?s = (60, s1)" using r(1) x by simp
  then have "env s1 = env ?s"
    using fill_run [of "?s\<lparr>flag_first := 1\<rparr>" 60] by (auto simp: my_filter_def dust_board_def)
  with 1(2) have "close_rounding (rnd (env s1))" by simp
  moreover have "window [60, 41] = [60, 60, 60, 60, 60, 60, 60, 60, 60, 41]"
    by (simp add: window_def eval_nat_numeral)
  ultimately have "uint y = 58"
    using dust_filter_running_mean [OF x(2) _ _ r(2)] by (simp add: Let_def)
  then have "y = 58" by (metis word_of_int_uint word_of_int_numeral)
  with r x show ?thesis by simp
qed

section \<open>Which input is converted\<close>

text \<open>
  Both initialisers configure rank 1 of the same converter; the channel configured last is
  the one every later conversion samples.
\<close>

fun adc_step :: "nat option \<Rightarrow> ev \<Rightarrow> nat option" where
  "adc_step c (AdcConfigChannel k) = Some k"
| "adc_step c _ = c"

definition adc_channel :: "ev list \<Rightarrow> nat option" where
  "adc_channel h = foldl adc_step None h"

primrec adc_samples_from :: "nat option \<Rightarrow> ev list \<Rightarrow> nat option list" where
  "adc_samples_from c [] = []"
| "adc_samples_from c (e # h) = (if e = AdcStart then [c] else []) @ adc_samples_from (adc_step c e) h"

definition adc_samples :: "ev list \<Rightarrow> nat option list" where
  "adc_samples h = adc_samples_from None h"

lemma adc_samples_from_append: "adc_samples_from c (g @ h) = adc_samples_from c g @ adc_samples_from (foldl adc_step c g) h"
  by (induction g arbitrary: c) auto

lemma adc_samples_append: "adc_samples (g @ h) = adc_samples g @ adc_samples_from (adc_channel g) h"
  by (simp add: adc_samples_def adc_channel_def adc_samples_from_append)

lemma adc_channel_append: "adc_channel (g @ h) = foldl adc_step (adc_channel g) h"
  by (simp add: adc_channel_def)

text \<open>Situation \<open>(ch, xs)\<close>: channel \<open>ch\<close> is configured and \<open>xs\<close> has been sampled.\<close>

definition adc_at :: "nat option \<times> nat option list \<Rightarrow> 'z board_scheme \<Rightarrow> bool" where
  "adc_at k s \<longleftrightarrow> adc_channel (hist s) = fst k \<and> adc_samples (hist s) = snd k"

definition quiet_adc :: "ev \<Rightarrow> bool" where
  "quiet_adc e \<longleftrightarrow> e \<noteq> AdcStart \<and> (\<forall>c. adc_step c e = c)"

lemma quiet_list: "list_all quiet_adc es \<Longrightarrow> foldl adc_step c es = c \<and> adc_samples_from c es = []"
  by (induction es) (auto simp: quiet_adc_def)

definition leads :: "nat option \<times> nat option list \<Rightarrow> ('z board_scheme, 'a) state \<Rightarrow> nat option \<times> nat option list \<Rightarrow> bool" where
  "leads k m k' \<longleftrightarrow> (\<forall>s. adc_at k s \<longrightarrow> adc_at k' (snd (run_state m s)))"

lemma leads_quiet:
  fixes m :: "('z board_scheme, 'a) state"
  shows "extends quiet_adc m \<Longrightarrow> leads k m k"
  unfolding leads_def
proof (intro allI impI)
  fix s :: "'z board_scheme" assume m: "extends quiet_adc m" and s: "adc_at k s"
  obtain es where es: "hist (snd (run_state m s)) = hist s @ es" "list_all quiet_adc es"
    using m unfolding extends_def by blast
  from quiet_list [OF es(2), of "adc_channel (hist s)"] s show "adc_at k (snd (run_state m s))"
    by (simp add: adc_at_def es(1) adc_channel_append adc_samples_append)
qed

lemma leads_bind: "leads k m l \<Longrightarrow> (\<And>x. leads l (f x) k') \<Longrightarrow> leads k (m \<bind> f) k'"
  unfolding leads_def snd_run_bind by blast

lemma leads_emit: "e \<noteq> AdcStart \<Longrightarrow> leads (c, xs) (emit e) (adc_step c e, xs)"
  by (simp add: leads_def adc_at_def adc_channel_append adc_samples_append)

lemma leads_start: "leads (c, xs) (emit AdcStart) (c, xs @ [c])"
  by (simp add: leads_def adc_at_def adc_channel_append adc_samples_append)

lemma adc_quiet_evs [simp]:
  "quiet_adc (HalWritePin p n b)" "quiet_adc (DelayUs u)" "quiet_adc (AdcPoll m)" "quiet_adc (AdcGet v)"
  "quiet_adc AdcStop" "quiet_adc (Fault f)"
  by (simp_all add: quiet_adc_def)

lemma leads_convert: "leads (c, xs) convert (c, xs @ [c])"
  unfolding convert_def
  by (rule leads_bind, rule leads_start, rule leads_quiet, intro extend_intros) simp_all

lemma quiet_pin_write [extend_intros]: "extends quiet_adc (stm32_pin_write p v)"
  unfolding stm32_pin_write_def by (auto intro!: extend_intros split: option.split prod.split)

lemma quiet_double_to_u8 [extend_intros]: "extends quiet_adc (double_to_u8 x)"
  unfolding double_to_u8_def fault_def by (intro extend_intros) simp

lemma quiet_filter [extend_intros]: "extends quiet_adc (my_filter v)"
  unfolding my_filter_def filter_ops by (intro extend_intros) simp_all

lemma leads_get_data: "leads (c, xs) my_gp2y1014au0f_get_data (c, xs @ [c])"
  unfolding my_gp2y1014au0f_get_data_def rt_hw_us_delay_def
  apply (rule leads_bind, rule leads_quiet, intro extend_intros)
  apply (rule leads_bind, rule leads_quiet, intro extend_intros, simp)
  apply (rule leads_bind, rule leads_convert)
  apply (rule leads_quiet, intro extend_intros, simp_all)
  done

lemma leads_density_sum:
  "leads (c, xs) (density_sum n avg :: ('z dust_st_scheme, real) state) (c, xs @ replicate n c)"
proof (induction n arbitrary: xs avg)
  case 0
  show ?case by (simp add: leads_quiet extend_intros)
next
  case (Suc n)
  have "leads (c, xs @ [c]) (ask (\<lambda>e h. rnd e) \<bind> (\<lambda>r. density_sum n (r (avg + d)) :: ('z dust_st_scheme, real) state))
      (c, (xs @ [c]) @ replicate n c)" for d
    by (rule leads_bind) (rule leads_quiet, intro extend_intros, rule Suc.IH)
  then show ?case
    unfolding density_sum.simps
    by (intro leads_bind [OF leads_get_data]) (simp add: replicate_app_Cons_same)
qed

text \<open>
  The dust readings sample the microphone. Once \<open>my_lm386_init\<close> has succeeded, every
  conversion that the dust sensor's \<open>get_data_avg\<close> makes samples channel 6, the
  microphone's, and not channel 5: both drivers configure the one regular rank of ADC1, and
  \<open>main.c\<close> initialises the microphone last.
\<close>

theorem dust_samples_microphone:
  "let (ok1, s1) = run_state my_gp2y1014au0f_init s;
       (ok2, s2) = run_state my_lm386_init s1;
       (d, s3) = run_state (my_gp2y1014au0f_get_data_avg num) s2 in
   ok2 \<longrightarrow> adc_samples (hist s3) = adc_samples (hist s2) @ replicate (unat num) (Some 6)"
proof -
  obtain ok1 s1 ok2 s2 d s3 where r: "run_state my_gp2y1014au0f_init s = (ok1, s1)"
    "run_state my_lm386_init s1 = (ok2, s2)" "run_state (my_gp2y1014au0f_get_data_avg num) s2 = (d, s3)"
    by (metis prod.exhaust)
  have "ok2 \<Longrightarrow> adc_at (Some 6, adc_samples (hist s2)) s2"
    using r(2) by (auto simp: my_lm386_init_def my_MX_ADC1_Init_def adc_at_def adc_channel_append split: if_splits)
  moreover have "leads (c, xs) (my_gp2y1014au0f_get_data_avg num) (c, xs @ replicate (unat num) c)" for c xs
    unfolding my_gp2y1014au0f_get_data_avg_def
    by (rule leads_bind, rule leads_density_sum, rule leads_quiet, intro extend_intros)
  ultimately have "ok2 \<Longrightarrow> adc_at (Some 6, adc_samples (hist s2) @ replicate (unat num) (Some 6)) s3"
    using r(3) unfolding leads_def by (metis snd_conv)
  then show ?thesis using r by (simp add: adc_at_def)
qed

lemma replicate_numeral_3: "replicate 3 x = [x, x, x]"
  by (simp add: numeral_eq_Suc)

lemma dust_samples_microphone_witness:
  "let (ok1, s1) = run_state my_gp2y1014au0f_init (dust_board (\<lambda>_. 0));
       (ok2, s2) = run_state my_lm386_init s1;
       (d, s3) = run_state (my_gp2y1014au0f_get_data_avg 3) s2 in
   adc_samples (hist s3) = adc_samples (hist s2) @ [Some 6, Some 6, Some 6]"
proof -
  obtain ok1 s1 ok2 s2 d s3 where r: "run_state my_gp2y1014au0f_init (dust_board (\<lambda>_. 0)) = (ok1, s1)"
    "run_state my_lm386_init s1 = (ok2, s2)" "run_state (my_gp2y1014au0f_get_data_avg 3) s2 = (d, s3)"
    by (metis prod.exhaust)
  have "extends (\<lambda>_. True) (my_gp2y1014au0f_init :: (dust_st, bool) state)"
    unfolding my_gp2y1014au0f_init_def my_MX_ADC1_Init_def stm32_pin_mode_def stm32_pin_write_def
    by (auto intro!: extend_intros split: option.split prod.split)
  then have "env s1 = env (dust_board (\<lambda>_. 0))" by (rule extendsD [OF _ r(1)])
  then have "ok2" using r(2)
    by (auto simp: my_lm386_init_def my_MX_ADC1_Init_def dust_board_def env0_def)
  with dust_samples_microphone [of "dust_board (\<lambda>_. 0)" 3] r show ?thesis
    by (simp add: replicate_numeral_3)
qed

section \<open>The density\<close>

lemma dust_voltage:
  assumes "close_rounding r" and "1 \<le> v" and "v < 4096"
  shows "v * 36.3 / 4096 - 1 / 10 ^ 11 \<le> r (r (r (v / 4096) * r 3.3) * 11)"
    and "r (r (r (v / 4096) * r 3.3) * 11) \<le> v * 36.3 / 4096 + 1 / 10 ^ 11"
proof -
  define w where "w = v / 4096"
  have w: "1 / 4096 \<le> w" "w \<le> 1" "v * 36.3 / 4096 = 36.3 * w" using assms(2,3) by (simp_all add: w_def)
  have a: "w - 1 / 10 ^ 15 \<le> r w" "r w \<le> w + 1 / 10 ^ 15"
    using close_times [OF assms(1), of w w w] w by simp_all
  have s: "3.2999999999999 \<le> r 3.3" "r 3.3 \<le> 3.3000000000001"
    using close_times [OF assms(1), of "3.3" "3.3" "3.3"] by simp_all
  have "(w - 1 / 10 ^ 15) * 3.2999999999999 \<le> r w * r 3.3" "r w * r 3.3 \<le> (w + 1 / 10 ^ 15) * 3.3000000000001"
    using mult_mono [OF a(1) s(1)] mult_mono [OF a(2) s(2)] a s w(1) by simp_all
  then have p: "3.3 * w - 2 / 10 ^ 13 \<le> r w * r 3.3" "r w * r 3.3 \<le> 3.3 * w + 2 / 10 ^ 13"
    using w(1,2) by (simp_all add: algebra_simps)
  let ?p = "r (r w * r 3.3)"
  have q: "3.3 * w - 3 / 10 ^ 13 \<le> ?p" "?p \<le> 3.3 * w + 3 / 10 ^ 13"
    using close_times [OF assms(1) p] w(1,2) by (simp_all add: add_divide_distrib)
  then have q11: "36.3 * w - 33 / 10 ^ 13 \<le> ?p * 11" "?p * 11 \<le> 36.3 * w + 33 / 10 ^ 13"
    by (simp_all add: algebra_simps)
  have "36.3 * w - 1 / 10 ^ 11 \<le> r (?p * 11)" "r (?p * 11) \<le> 36.3 * w + 1 / 10 ^ 11"
    using close_times [OF assms(1) q11] w(1,2) by (simp_all add: add_divide_distrib)
  then show "v * 36.3 / 4096 - 1 / 10 ^ 11 \<le> r (r (r (v / 4096) * r 3.3) * 11)"
    "r (r (r (v / 4096) * r 3.3) * 11) \<le> v * 36.3 / 4096 + 1 / 10 ^ 11"
    unfolding w(3) w_def .
qed

text \<open>
  The density formula. For every twelve-bit value, up to the rounding of \<open>double\<close>
  arithmetic, the density is 0 below 0.6 V (values up to 67) and otherwise 200 ug/m3 for
  every volt above it, where a value counts 36.3/4096 V.
\<close>

theorem dust_density_values:
  assumes "close_rounding r" and "v < 4096"
  shows "if v \<le> 67 then dust_density r (real v) = 0
    else \<bar>dust_density r (real v) - (real v * 36.3 / 4096 - 0.6) * 200\<bar> \<le> 1 / 10 ^ 8"
proof (cases "v = 0")
  case True
  have "0.5 \<le> r 0.6" using close_times [OF assms(1), of "0.6" "0.6" "0.6"] by simp
  with True show ?thesis by (simp add: dust_density_def close_rounding_0 [OF assms(1)] Let_def)
next
  case False
  define x where "x = real v"
  have x: "1 \<le> x" "x < 4096" using False assms(2) by (simp_all add: x_def)
  define V where "V = r (r (r (x / 4096) * r 3.3) * 11)"
  let ?w = "x * 36.3 / 4096"
  have V: "?w - 1 / 10 ^ 11 \<le> V" "V \<le> ?w + 1 / 10 ^ 11"
    unfolding V_def by (rule dust_voltage [OF assms(1)]; use x in simp)+
  have z: "0.59999999999 \<le> r 0.6" "r 0.6 \<le> 0.60000000001"
    using close_times [OF assms(1), of "0.6" "0.6" "0.6"] by simp_all
  have D: "dust_density r (real v) = (if V \<ge> r 0.6 then r (r (V - r 0.6) * (100 / 0.5)) else 0)"
    by (simp add: dust_density_def Let_def V_def x_def)
  show ?thesis
  proof (cases "v \<le> 67")
    case True
    then have "x \<le> 67" by (simp add: x_def)
    with V(2) z(1) have "V < r 0.6" by simp
    with True show ?thesis unfolding D by simp
  next
    case False
    then have v: "68 \<le> x" by (simp add: x_def)
    define U where "U = r (V - r 0.6)"
    have d: "?w - 0.60000000002 \<le> V - r 0.6" "V - r 0.6 \<le> ?w - 0.59999999998"
      using V z by simp_all
    have "?w - 0.60000000003 \<le> U" "U \<le> ?w - 0.59999999997"
      using close_times [OF assms(1) d] v x unfolding U_def by (simp_all add: diff_divide_distrib)
    then have e: "(?w - 0.60000000003) * 200 \<le> U * 200" "U * 200 \<le> (?w - 0.59999999997) * 200"
      by simp_all
    have "(?w - 0.60000000004) * 200 \<le> r (U * 200)" "r (U * 200) \<le> (?w - 0.59999999996) * 200"
      using close_times [OF assms(1) e] v x by (simp_all add: diff_divide_distrib)
    then have "\<bar>r (U * 200) - (?w - 0.6) * 200\<bar> \<le> 1 / 10 ^ 8"
      by (intro abs_leI) simp_all
    moreover have "r 0.6 \<le> V" using V(1) z(2) v by simp
    ultimately show ?thesis using False unfolding D by (simp add: U_def x_def)
  qed
qed

lemma dust_density_values_witness:
  "dust_density (\<lambda>x. x) (real 67) = 0 \<and> \<bar>dust_density (\<lambda>x. x) (real 100) - 57.24609375\<bar> \<le> 1 / 10 ^ 8"
  using dust_density_values [OF close_rounding_id, of 67] dust_density_values [OF close_rounding_id, of 100]
  by simp

end
