(* ===== verification/Bme280_Data.thy ===== *)
theory Bme280_Data
  imports Board
begin

text \<open>
  The data path of the BME280 driver, \<open>src/applications/Bosch_BME280.c\<close>: calibration data,
  raw measurements, and their compensation (the variant with floating point, which
  \<open>Bosch_BME280_defs.h\<close> selects). Signed calibration values are words read with \<open>sint\<close>.
\<close>

section \<open>Bytes to values\<close>

definition BME280_CONCAT_BYTES :: "u8 \<Rightarrow> u8 \<Rightarrow> u16" where
  "BME280_CONCAT_BYTES msb lsb = be16 msb lsb"

definition parse_temp_press_calib_data :: "u8 list \<Rightarrow> bme280_calib_data \<Rightarrow> bme280_calib_data" where
  "parse_temp_press_calib_data reg_data c = c\<lparr>
     dig_T1 := BME280_CONCAT_BYTES (reg_data ! 1) (reg_data ! 0),
     dig_T2 := BME280_CONCAT_BYTES (reg_data ! 3) (reg_data ! 2),
     dig_T3 := BME280_CONCAT_BYTES (reg_data ! 5) (reg_data ! 4),
     dig_P1 := BME280_CONCAT_BYTES (reg_data ! 7) (reg_data ! 6),
     dig_P2 := BME280_CONCAT_BYTES (reg_data ! 9) (reg_data ! 8),
     dig_P3 := BME280_CONCAT_BYTES (reg_data ! 11) (reg_data ! 10),
     dig_P4 := BME280_CONCAT_BYTES (reg_data ! 13) (reg_data ! 12),
     dig_P5 := BME280_CONCAT_BYTES (reg_data ! 15) (reg_data ! 14),
     dig_P6 := BME280_CONCAT_BYTES (reg_data ! 17) (reg_data ! 16),
     dig_P7 := BME280_CONCAT_BYTES (reg_data ! 19) (reg_data ! 18),
     dig_P8 := BME280_CONCAT_BYTES (reg_data ! 21) (reg_data ! 20),
     dig_P9 := BME280_CONCAT_BYTES (reg_data ! 23) (reg_data ! 22),
     dig_H1 := reg_data ! 25\<rparr>"

definition parse_humidity_calib_data :: "u8 list \<Rightarrow> bme280_calib_data \<Rightarrow> bme280_calib_data" where
  "parse_humidity_calib_data reg_data c =
     (let dig_H4_msb = scast (reg_data ! 3) * 16 :: u16;
          dig_H4_lsb = ucast (reg_data ! 4 AND 0x0F) :: u16;
          dig_H5_msb = scast (reg_data ! 5) * 16 :: u16;
          dig_H5_lsb = ucast (drop_bit 4 (reg_data ! 4)) :: u16
      in c\<lparr>dig_H2 := BME280_CONCAT_BYTES (reg_data ! 1) (reg_data ! 0),
           dig_H3 := reg_data ! 2,
           dig_H4 := dig_H4_msb OR dig_H4_lsb,
           dig_H5 := dig_H5_msb OR dig_H5_lsb,
           dig_H6 := reg_data ! 6\<rparr>)"

record bme280_uncomp_data =
  raw_pressure :: u32
  raw_temperature :: u32
  raw_humidity :: u32

definition bme280_parse_sensor_data :: "u8 list \<Rightarrow> bme280_uncomp_data" where
  "bme280_parse_sensor_data reg_data = \<lparr>
     raw_pressure = push_bit 12 (ucast (reg_data ! 0)) OR push_bit 4 (ucast (reg_data ! 1))
       OR drop_bit 4 (ucast (reg_data ! 2)),
     raw_temperature = push_bit 12 (ucast (reg_data ! 3)) OR push_bit 4 (ucast (reg_data ! 4))
       OR drop_bit 4 (ucast (reg_data ! 5)),
     raw_humidity = ucast (reg_data ! 7) OR push_bit 8 (ucast (reg_data ! 6))\<rparr>"

section \<open>Compensation\<close>

record bme280_data =
  temperature :: real
  humidity :: real
  pressure :: real

abbreviation (input) BME280_PRESS :: u8 where "BME280_PRESS \<equiv> 1"
abbreviation (input) BME280_TEMP :: u8 where "BME280_TEMP \<equiv> 2"
abbreviation (input) BME280_HUM :: u8 where "BME280_HUM \<equiv> 4"
abbreviation (input) BME280_ALL :: u8 where "BME280_ALL \<equiv> 0x07"

text \<open>Conversion of a \<open>double\<close> to \<open>int32_t\<close>.\<close>

definition double_to_i32 :: "real \<Rightarrow> ('z board_scheme, u32) state" where
  "double_to_i32 x =
     (if - (2 ^ 31) \<le> trunc x \<and> trunc x < 2 ^ 31 then ret (word_of_int (trunc x))
      else do { fault FloatToIntOverflow; j \<leftarrow> ask junk8; ret (ucast j) })"

text \<open>Division and multiplication by a power of two and conversions to \<open>double\<close> are exact too;
  they go through \<open>r\<close> like every other operation.\<close>

definition unsigned_d :: "'w::len word \<Rightarrow> real" where "unsigned_d w = real_of_int (uint w)"
definition signed_d :: "'w::len word \<Rightarrow> real" where "signed_d w = real_of_int (sint w)"

definition temperature_vars :: "(real \<Rightarrow> real) \<Rightarrow> bme280_uncomp_data \<Rightarrow> bme280_calib_data \<Rightarrow> real \<times> real" where
  "temperature_vars r u c =
     (let var1 = r (r (unsigned_d (raw_temperature u) / 16384) - r (unsigned_d (dig_T1 c) / 1024));
          var1 = r (var1 * signed_d (dig_T2 c));
          var2 = r (r (unsigned_d (raw_temperature u) / 131072) - r (unsigned_d (dig_T1 c) / 8192));
          var2 = r (r (var2 * var2) * signed_d (dig_T3 c))
      in (var1, var2))"

definition clamp :: "real \<Rightarrow> real \<Rightarrow> real \<Rightarrow> real" where
  "clamp lo hi x = (if x < lo then lo else if x > hi then hi else x)"

definition compensate_temperature ::
  "bme280_uncomp_data \<Rightarrow> bme280_calib_data \<Rightarrow> ('z board_scheme, real \<times> bme280_calib_data) state" where
  "compensate_temperature u c = do {
     r \<leftarrow> ask (\<lambda>e h. rnd e);
     let (var1, var2) = temperature_vars r u c;
     t \<leftarrow> double_to_i32 (r (var1 + var2));
     let temp = r (r (var1 + var2) / 5120);
     ret (clamp (-40) 85 temp, c\<lparr>t_fine := t\<rparr>)
   }"

definition compensate_pressure :: "(real \<Rightarrow> real) \<Rightarrow> bme280_uncomp_data \<Rightarrow> bme280_calib_data \<Rightarrow> real" where
  "compensate_pressure r u c =
     (let var1 = r (r (signed_d (t_fine c) / 2) - 64000);
          var2 = r (r (r (var1 * var1) * signed_d (dig_P6 c)) / 32768);
          var2 = r (var2 + r (r (var1 * signed_d (dig_P5 c)) * 2));
          var2 = r (r (var2 / 4) + r (signed_d (dig_P4 c) * 65536));
          var3 = r (r (r (signed_d (dig_P3 c) * var1) * var1) / 524288);
          var1 = r (r (var3 + r (signed_d (dig_P2 c) * var1)) / 524288);
          var1 = r (r (1 + r (var1 / 32768)) * unsigned_d (dig_P1 c))
      in if var1 \<noteq> 0 then
           let pressure = r (1048576 - unsigned_d (raw_pressure u));
               pressure = r (r (r (pressure - r (var2 / 4096)) * 6250) / var1);
               var1 = r (r (r (signed_d (dig_P9 c) * pressure) * pressure) / 2147483648);
               var2 = r (r (pressure * signed_d (dig_P8 c)) / 32768);
               pressure = r (pressure + r (r (r (var1 + var2) + signed_d (dig_P7 c)) / 16))
           in clamp 30000 110000 pressure
         else 30000)"

definition compensate_humidity :: "(real \<Rightarrow> real) \<Rightarrow> bme280_uncomp_data \<Rightarrow> bme280_calib_data \<Rightarrow> real" where
  "compensate_humidity r u c =
     (let var1 = r (signed_d (t_fine c) - 76800);
          var2 = r (r (signed_d (dig_H4 c) * 64) + r (r (signed_d (dig_H5 c) / 16384) * var1));
          var3 = r (unsigned_d (raw_humidity u) - var2);
          var4 = r (signed_d (dig_H2 c) / 65536);
          var5 = r (1 + r (r (unsigned_d (dig_H3 c) / 67108864) * var1));
          var6 = r (1 + r (r (r (signed_d (dig_H6 c) / 67108864) * var1) * var5));
          var6 = r (r (var3 * var4) * r (var5 * var6));
          humidity = r (var6 * r (1 - r (r (unsigned_d (dig_H1 c) * var6) / 524288)))
      in if humidity > 100 then 100 else if humidity < 0 then 0 else humidity)"

text \<open>The pointers given to \<open>bme280_compensate_data\<close> are addresses of variables, not null.\<close>

definition bme280_compensate_data ::
  "u8 \<Rightarrow> bme280_uncomp_data \<Rightarrow> bme280_calib_data \<Rightarrow> ('z board_scheme, bme280_data \<times> bme280_calib_data) state" where
  "bme280_compensate_data sensor_comp u c = do {
     r \<leftarrow> ask (\<lambda>e h. rnd e);
     (t, c) \<leftarrow> (if sensor_comp AND (BME280_PRESS OR BME280_TEMP OR BME280_HUM) \<noteq> 0
       then compensate_temperature u c else ret (0, c));
     let p = (if sensor_comp AND BME280_PRESS \<noteq> 0 then compensate_pressure r u c else 0);
     let h = (if sensor_comp AND BME280_HUM \<noteq> 0 then compensate_humidity r u c else 0);
     ret (\<lparr>temperature = t, humidity = h, pressure = p\<rparr>, c)
   }"

section \<open>Parsing\<close>

lemma uint8_bounds: "0 \<le> uint (b :: u8)" "uint (b :: u8) < 256"
  using uint_lt2p [of b] by simp_all

lemma u8_bit_lt: "bit (x :: u8) n \<Longrightarrow> n < 8"
  using bit_imp_le_length [of x n] by simp

lemma raw20: "uint (push_bit 12 (ucast a) OR push_bit 4 (ucast b) OR drop_bit 4 (ucast c) :: u32) =
   4096 * uint (a :: u8) + 16 * uint (b :: u8) + uint (c :: u8) div 16"
proof -
  have "(push_bit 12 (ucast a) OR push_bit 4 (ucast b) :: u32) AND drop_bit 4 (ucast c) = 0"
    by (intro bit_word_eqI) (auto simp: bit_simps dest: u8_bit_lt)
  moreover have "push_bit 12 (ucast a) AND (push_bit 4 (ucast b) :: u32) = 0"
    by (intro bit_word_eqI) (auto simp: bit_simps dest!: u8_bit_lt)
  ultimately have "(push_bit 12 (ucast a) OR push_bit 4 (ucast b) OR drop_bit 4 (ucast c) :: u32) =
      push_bit 12 (ucast a) + push_bit 4 (ucast b) + drop_bit 4 (ucast c)"
    by (simp add: disjunctive_add_eq_or or.assoc)
  moreover have "uint c div 16 < 16" "0 \<le> uint c div 16"
    using uint8_bounds [of c] by (auto simp: pos_imp_zdiv_nonneg_iff)
  moreover have "uint (ucast c div 16 :: u32) = uint c div 16"
    using uint8_bounds [of c] by (simp add: uint_div unsigned_ucast_eq take_bit_eq_mod)
  ultimately show ?thesis
    using uint8_bounds [of a] uint8_bounds [of b]
    by (simp add: uint_word_ariths unsigned_push_bit_eq unsigned_ucast_eq
        push_bit_eq_mult take_bit_eq_mod drop_bit_eq_div)
qed

lemma raw16: "uint (ucast lo OR push_bit 8 (ucast hi) :: u32) = 256 * uint (hi :: u8) + uint (lo :: u8)"
proof -
  have "ucast lo AND (push_bit 8 (ucast hi) :: u32) = 0"
    by (intro bit_word_eqI) (auto simp: bit_simps dest!: u8_bit_lt)
  then have "(ucast lo OR push_bit 8 (ucast hi) :: u32) = ucast lo + push_bit 8 (ucast hi)"
    by (simp add: disjunctive_add_eq_or)
  then show ?thesis
    using uint8_bounds [of lo] uint8_bounds [of hi]
    by (simp add: uint_word_ariths unsigned_push_bit_eq unsigned_ucast_eq push_bit_eq_mult take_bit_eq_mod)
qed

lemma signed12:
  assumes "uint (z :: u8) < 16"
  shows "sint ((scast (x :: u8) * 16 :: u16) OR ucast z) = 16 * sint x + uint z"
proof -
  have z: "\<not> bit z n" if "4 \<le> n" for n
  proof -
    have "take_bit 4 (uint z) = uint z" using assms by (simp add: take_bit_int_eq_self)
    then have "bit (uint z) n \<Longrightarrow> n < 4" by (metis bit_take_bit_iff)
    with that show ?thesis by (auto simp: bit_uint_iff dest: u8_bit_lt)
  qed
  have "(scast x * 16 :: u16) = push_bit 4 (scast x)" by (simp add: push_bit_eq_mult)
  moreover have "push_bit 4 (scast x) AND (ucast z :: u16) = 0"
    by (intro bit_word_eqI) (auto simp: bit_simps dest: z)
  ultimately have "(scast x * 16 :: u16) OR ucast z = scast x * 16 + ucast z"
    by (simp add: disjunctive_add_eq_or)
  also have "\<dots> = word_of_int (16 * sint x + uint z)" by simp
  finally have "(scast x * 16 :: u16) OR ucast z = word_of_int (16 * sint x + uint z)" .
  moreover have "- 128 \<le> sint x" "sint x < 128"
    using sint_greater_eq [of x] sint_less [of x] by simp_all
  then have "- 32768 \<le> 16 * sint x + uint z" "16 * sint x + uint z < 32768"
    using assms uint8_bounds [of z] by linarith+
  then have "signed_take_bit 15 (16 * sint x + uint z) = 16 * sint x + uint z"
    by (intro signed_take_bit_int_eq_self) simp_all
  ultimately show ?thesis
    by (simp only: sint_sbintrunc') simp
qed

text \<open>
  Parsing calibration data. The coefficients are little-endian sixteen-bit values, the
  signed ones in two's complement; H4 and H5 are signed twelve-bit values that share the
  byte at 0xE5, whose low nibble belongs to H4 and whose high nibble to H5.
\<close>

theorem bme280_calibration_values:
  "let c = parse_humidity_calib_data h (parse_temp_press_calib_data p c0) in
   uint (dig_T1 c) = uint (p ! 0) + 256 * uint (p ! 1) \<and>
   sint (dig_T2 c) = uint (p ! 2) + 256 * sint (p ! 3) \<and>
   sint (dig_T3 c) = uint (p ! 4) + 256 * sint (p ! 5) \<and>
   uint (dig_P1 c) = uint (p ! 6) + 256 * uint (p ! 7) \<and>
   map sint [dig_P2 c, dig_P3 c, dig_P4 c, dig_P5 c, dig_P6 c, dig_P7 c, dig_P8 c, dig_P9 c] =
     map (\<lambda>i. uint (p ! i) + 256 * sint (p ! (i + 1))) [8, 10, 12, 14, 16, 18, 20, 22] \<and>
   dig_H1 c = p ! 25 \<and> sint (dig_H2 c) = uint (h ! 0) + 256 * sint (h ! 1) \<and> dig_H3 c = h ! 2 \<and>
   sint (dig_H4 c) = 16 * sint (h ! 3) + uint (h ! 4) mod 16 \<and>
   sint (dig_H5 c) = 16 * sint (h ! 5) + uint (h ! 4) div 16 \<and> dig_H6 c = h ! 6"
proof -
  have lo: "uint (b AND 0x0F) = uint b mod 16" for b :: u8
  proof -
    have "b AND 0x0F = take_bit 4 b" by (simp add: take_bit_eq_mask mask_eq_exp_minus_1)
    then show ?thesis by (simp only: unsigned_take_bit_eq) (simp add: take_bit_eq_mod)
  qed
  have hi: "uint (drop_bit 4 b) = uint b div 16" for b :: u8
    using uint8_bounds [of b]
    by (simp only: unsigned_drop_bit_eq) (simp add: drop_bit_eq_div take_bit_eq_mod)
  have "uint b div 16 < 16" for b :: u8 using uint8_bounds [of b] by auto
  then show ?thesis
    by (simp add: Let_def parse_humidity_calib_data_def parse_temp_press_calib_data_def BME280_CONCAT_BYTES_def
        uint_be16 sint_be16 signed12 lo hi)
qed

text \<open>
  Parsing a measurement. Pressure and temperature are twenty-bit values, high byte
  first, whose last byte carries four bits at its top; humidity has sixteen bits.
\<close>

theorem bme280_raw_values:
  "let u = bme280_parse_sensor_data d in
   uint (raw_pressure u) = 4096 * uint (d ! 0) + 16 * uint (d ! 1) + uint (d ! 2) div 16 \<and>
   uint (raw_temperature u) = 4096 * uint (d ! 3) + 16 * uint (d ! 4) + uint (d ! 5) div 16 \<and>
   uint (raw_humidity u) = 256 * uint (d ! 6) + uint (d ! 7) \<and>
   uint (raw_pressure u) < 2 ^ 20 \<and> uint (raw_temperature u) < 2 ^ 20 \<and> uint (raw_humidity u) < 2 ^ 16"
proof -
  have b: "uint x div 16 < 16" for x :: u8 using uint8_bounds [of x] by auto
  show ?thesis
    unfolding bme280_parse_sensor_data_def Let_def bme280_uncomp_data.simps raw20 raw16
    using uint8_bounds [of "d ! 0"] uint8_bounds [of "d ! 1"] b [of "d ! 2"] uint8_bounds [of "d ! 3"]
      uint8_bounds [of "d ! 4"] b [of "d ! 5"] uint8_bounds [of "d ! 6"] uint8_bounds [of "d ! 7"]
    by simp
qed

section \<open>Compensation\<close>

lemma close_step:
  assumes "close_rounding r" and "\<bar>x - X\<bar> \<le> k" and "\<bar>x\<bar> \<le> B" and "1 \<le> B" and "B \<le> 2 ^ 100"
  shows "\<bar>r x - X\<bar> \<le> k + B / 10 ^ 15"
  using close_abs [OF assms(1,3,4,5)] assms(2) by linarith

lemma mult_close:
  fixes x X m :: real
  assumes "\<bar>x - X\<bar> \<le> k" and "\<bar>m\<bar> \<le> M"
  shows "\<bar>x * m - X * m\<bar> \<le> k * M"
proof -
  have "\<bar>x * m - X * m\<bar> = \<bar>x - X\<bar> * \<bar>m\<bar>" by (simp add: abs_mult flip: left_diff_distrib)
  also have "\<dots> \<le> k * M" using assms by (intro mult_mono) auto
  finally show ?thesis .
qed

lemma abs_mult_le: "\<bar>x\<bar> \<le> a \<Longrightarrow> \<bar>m\<bar> \<le> M \<Longrightarrow> \<bar>x * m\<bar> \<le> a * M" for x m :: real
  using mult_close [of x 0 a m M] by simp

lemma near: "\<bar>x - X\<bar> \<le> k \<Longrightarrow> \<bar>X\<bar> \<le> B \<Longrightarrow> \<bar>x\<bar> \<le> B + k" for x X :: real
  by linarith

lemma near_trans: "\<bar>a - b\<bar> \<le> k \<Longrightarrow> \<bar>b - c\<bar> \<le> l \<Longrightarrow> \<bar>a - c\<bar> \<le> k + l" for a c :: real
  by linarith

lemma diff_close: "\<bar>a - A\<bar> \<le> k \<Longrightarrow> \<bar>b - B\<bar> \<le> l \<Longrightarrow> \<bar>(a - b) - (A - B)\<bar> \<le> k + l" for a A :: real
  by linarith

lemma add_close: "\<bar>a - A\<bar> \<le> k \<Longrightarrow> \<bar>b - B\<bar> \<le> l \<Longrightarrow> \<bar>(a + b) - (A + B)\<bar> \<le> k + l" for a A :: real
  by linarith

lemma square_close:
  fixes y Y :: real
  assumes "\<bar>y - Y\<bar> \<le> k" and "\<bar>y\<bar> \<le> a" and "\<bar>Y\<bar> \<le> b"
  shows "\<bar>y * y - Y ^ 2\<bar> \<le> k * (a + b)"
proof -
  have "y * y - Y ^ 2 = y * (y + Y) - Y * (y + Y)" by (simp add: power2_eq_square algebra_simps)
  moreover have "\<bar>y + Y\<bar> \<le> a + b" using assms(2,3) by linarith
  ultimately show ?thesis using mult_close [OF assms(1)] by simp
qed

text \<open>The value the data sheet's formula computes, in 5120ths of a degree.\<close>

definition fine_temperature :: "bme280_uncomp_data \<Rightarrow> bme280_calib_data \<Rightarrow> real" where
  "fine_temperature u c =
     (let x = unsigned_d (raw_temperature u) / 16384 - unsigned_d (dig_T1 c) / 1024
      in x * signed_d (dig_T2 c) + (x / 8) ^ 2 * signed_d (dig_T3 c))"

lemma var1_close:
  assumes r: "close_rounding r" and T: "0 \<le> T" "T < 1048576" and P: "0 \<le> P" "P < 65536" and m: "\<bar>m\<bar> \<le> 32768"
  shows "\<bar>r (r (r (T / 16384) - r (P / 1024)) * m) - (T / 16384 - P / 1024) * m\<bar> \<le> 1 / 10 ^ 8"
    and "\<bar>r (r (r (T / 16384) - r (P / 1024)) * m)\<bar> \<le> 2200000"
proof -
  let ?a = "r (T / 16384)" let ?b = "r (P / 1024)" let ?x = "r (?a - ?b)"
  let ?X = "T / 16384 - P / 1024"
  have "\<bar>?a - T / 16384\<bar> \<le> 64 / 10 ^ 15" "\<bar>?b - P / 1024\<bar> \<le> 64 / 10 ^ 15"
    by (rule close_abs [OF r]; use T P in simp)+
  from diff_close [OF this] have ab: "\<bar>(?a - ?b) - ?X\<bar> \<le> 128 / 10 ^ 15" by simp
  have X: "\<bar>?X\<bar> \<le> 64" using T P by (intro abs_leI) simp_all
  from near [OF ab this] have "\<bar>?a - ?b\<bar> \<le> 65" by simp
  from close_step [OF r ab this] have x: "\<bar>?x - ?X\<bar> \<le> 193 / 10 ^ 15" by simp
  from near [OF this X] have x65: "\<bar>?x\<bar> \<le> 65" by simp
  from close_step [OF r mult_close [OF x m] abs_mult_le [OF x65 m]]
  show 1: "\<bar>r (?x * m) - ?X * m\<bar> \<le> 1 / 10 ^ 8" by simp
  from near [OF this abs_mult_le [OF X m]] show "\<bar>r (?x * m)\<bar> \<le> 2200000" by simp
qed

lemma var2_close:
  assumes r: "close_rounding r" and T: "0 \<le> T" "T < 1048576" and P: "0 \<le> P" "P < 65536" and m: "\<bar>m\<bar> \<le> 32768"
  defines "y \<equiv> r (r (T / 131072) - r (P / 8192))"
  shows "\<bar>r (r (y * y) * m) - ((T / 16384 - P / 1024) / 8) ^ 2 * m\<bar> \<le> 4 / 10 ^ 8"
    and "\<bar>r (r (y * y) * m)\<bar> \<le> 2200000"
proof -
  let ?a = "r (T / 131072)" let ?b = "r (P / 8192)"
  let ?Y = "(T / 16384 - P / 1024) / 8"
  have "\<bar>?a - T / 131072\<bar> \<le> 8 / 10 ^ 15" "\<bar>?b - P / 8192\<bar> \<le> 8 / 10 ^ 15"
    by (rule close_abs [OF r]; use T P in simp)+
  from diff_close [OF this] have ab: "\<bar>(?a - ?b) - ?Y\<bar> \<le> 16 / 10 ^ 15"
    by (simp add: diff_divide_distrib)
  have Y: "\<bar>?Y\<bar> \<le> 8" using T P by (intro abs_leI) (simp_all add: diff_divide_distrib)
  from near [OF ab this] have "\<bar>?a - ?b\<bar> \<le> 9" by simp
  from close_step [OF r ab this] have y: "\<bar>y - ?Y\<bar> \<le> 25 / 10 ^ 15" by (simp add: y_def)
  from near [OF this Y] have y9: "\<bar>y\<bar> \<le> 9" by simp
  from square_close [OF y y9 Y] have "\<bar>y * y - ?Y ^ 2\<bar> \<le> 425 / 10 ^ 15" by simp
  from close_step [OF r this abs_mult_le [OF y9 y9]] have p: "\<bar>r (y * y) - ?Y ^ 2\<bar> \<le> 506 / 10 ^ 15" by simp
  have Y2: "\<bar>?Y ^ 2\<bar> \<le> 64" using abs_mult_le [OF Y Y] by (simp add: power2_eq_square)
  from near [OF p this] have p65: "\<bar>r (y * y)\<bar> \<le> 65" by simp
  from close_step [OF r mult_close [OF p m] abs_mult_le [OF p65 m]]
  show 1: "\<bar>r (r (y * y) * m) - ?Y ^ 2 * m\<bar> \<le> 4 / 10 ^ 8" by simp
  from near [OF this abs_mult_le [OF Y2 m]] show "\<bar>r (r (y * y) * m)\<bar> \<le> 2200000" by simp
qed

lemma signed_d_bound: "\<bar>signed_d (w :: u16)\<bar> \<le> 32768"
proof -
  have "- 32768 \<le> sint w" "sint w \<le> 32768" using sint_greater_eq [of w] sint_less [of w] by simp_all
  then show ?thesis unfolding signed_d_def abs_le_iff by linarith
qed

lemma trunc_near: "\<bar>real_of_int (trunc x) - x\<bar> \<le> 1"
  unfolding trunc_def by (simp add: abs_le_iff) linarith

lemma clamp_close: "\<bar>a - b\<bar> \<le> k \<Longrightarrow> lo \<le> hi \<Longrightarrow> \<bar>clamp lo hi a - clamp lo hi b\<bar> \<le> k"
  unfolding clamp_def by (auto split: if_splits)

lemma clamp_range: "lo \<le> hi \<Longrightarrow> lo \<le> clamp lo hi x \<and> clamp lo hi x \<le> hi"
  by (simp add: clamp_def)

lemma compensate_temperature_run:
  assumes r: "close_rounding (rnd (env s))" and T: "uint (raw_temperature u) < 2 ^ 20"
    and run: "run_state (compensate_temperature u c) s = ((temp, c'), t)"
  shows "t = s" and "\<bar>temp - clamp (-40) 85 (fine_temperature u c / 5120)\<bar> \<le> 1 / 10 ^ 9"
    and "\<bar>real_of_int (sint (t_fine c')) - fine_temperature u c\<bar> \<le> 1 + 1 / 10 ^ 6"
    and "c' = c\<lparr>t_fine := t_fine c'\<rparr>"
proof -
  let ?r = "rnd (env s)"
  let ?T = "unsigned_d (raw_temperature u)" let ?P = "unsigned_d (dig_T1 c)"
  let ?F = "fine_temperature u c"
  obtain v1 v2 where v: "temperature_vars ?r u c = (v1, v2)" by (metis prod.exhaust)
  have T': "0 \<le> ?T" "?T < 1048576" using T by (simp_all add: unsigned_d_def del: of_int_uint)
  have P': "0 \<le> ?P" "?P < 65536" using uint_lt2p [of "dig_T1 c"]
    by (simp_all add: unsigned_d_def del: of_int_uint)
  note c1 = var1_close [OF r T' P' signed_d_bound [of "dig_T2 c"]]
  note c2 = var2_close [OF r T' P' signed_d_bound [of "dig_T3 c"]]
  have e: "v1 = ?r (?r (?r (?T / 16384) - ?r (?P / 1024)) * signed_d (dig_T2 c))"
    "v2 = ?r (?r (?r (?r (?T / 131072) - ?r (?P / 8192)) * ?r (?r (?T / 131072) - ?r (?P / 8192))) * signed_d (dig_T3 c))"
    using v by (auto simp: temperature_vars_def Let_def)
  have "\<bar>(v1 + v2) - ?F\<bar> \<le> 1 / 10 ^ 8 + 4 / 10 ^ 8"
    unfolding fine_temperature_def Let_def e by (rule add_close [OF c1(1) c2(1)])
  moreover have b: "\<bar>v1 + v2\<bar> \<le> 4400000" using c1(2) c2(2) unfolding e [symmetric] by linarith
  ultimately have S: "\<bar>?r (v1 + v2) - ?F\<bar> \<le> 6 / 10 ^ 8"
    using close_step [OF r, of "v1 + v2" ?F "1 / 10 ^ 8 + 4 / 10 ^ 8" 4400000] by simp
  from close_abs [OF r b] have "\<bar>?r (v1 + v2) - (v1 + v2)\<bar> \<le> 1" by simp
  from near [OF this b] have S5: "\<bar>?r (v1 + v2)\<bar> \<le> 5000000" by simp
  have tr: "- 2147483648 \<le> trunc (?r (v1 + v2))" "trunc (?r (v1 + v2)) < 2147483648"
    using trunc_near [of "?r (v1 + v2)"] S5 by linarith+
  have run': "temp = clamp (-40) 85 (?r (?r (v1 + v2) / 5120)) \<and> t = s \<and>
      c' = c\<lparr>t_fine := word_of_int (trunc (?r (v1 + v2)))\<rparr>"
    using run tr by (auto simp: compensate_temperature_def v Let_def double_to_i32_def)
  then show "t = s" "c' = c\<lparr>t_fine := t_fine c'\<rparr>" by simp_all
  have "sint (t_fine c') = trunc (?r (v1 + v2))"
    using run' tr by (simp add: sint_sbintrunc' signed_take_bit_int_eq_self)
  then show "\<bar>real_of_int (sint (t_fine c')) - ?F\<bar> \<le> 1 + 1 / 10 ^ 6"
    using near_trans [OF trunc_near [of "?r (v1 + v2)"] S] by simp
  have "\<bar>?r (v1 + v2) / 5120 - ?F / 5120\<bar> \<le> 6 / 10 ^ 8 / 5120"
    using mult_close [OF S, of "1 / 5120" "1 / 5120"] by simp
  moreover have "\<bar>?r (v1 + v2) / 5120\<bar> \<le> 1000" using S5 by simp
  ultimately have "\<bar>?r (?r (v1 + v2) / 5120) - ?F / 5120\<bar> \<le> 1 / 10 ^ 9"
    using close_step [OF r, of "?r (v1 + v2) / 5120" "?F / 5120" "6 / 10 ^ 8 / 5120" 1000] by simp
  from clamp_close [OF this] show "\<bar>temp - clamp (-40) 85 (?F / 5120)\<bar> \<le> 1 / 10 ^ 9"
    using run' by simp
qed

text \<open>
  Pressure and humidity as formulas over the reals, in the temperature \<open>t\<close> of the compensation: the raw pressure is
  corrected by a quadratic offset and divided by a quadratic slope, and the quotient corrected by a quadratic; the humidity likewise.
\<close>

definition pressure_formula :: "bme280_calib_data \<Rightarrow> real \<Rightarrow> real \<Rightarrow> real" where
  "pressure_formula c t adc =
     (let x = t / 2 - 64000;
          offset = 2 ^ 16 * signed_d (dig_P4 c) + x * signed_d (dig_P5 c) / 2 + x ^ 2 * signed_d (dig_P6 c) / 2 ^ 17;
          slope = unsigned_d (dig_P1 c) * (1 + x * signed_d (dig_P2 c) / 2 ^ 34 + x ^ 2 * signed_d (dig_P3 c) / 2 ^ 53);
          p = 6250 * (2 ^ 20 - adc - offset / 2 ^ 12) / slope
      in if slope = 0 then 30000
         else clamp 30000 110000 (p + (signed_d (dig_P7 c) + p * signed_d (dig_P8 c) / 2 ^ 15 + p ^ 2 * signed_d (dig_P9 c) / 2 ^ 31) / 16))"

definition humidity_formula :: "bme280_calib_data \<Rightarrow> real \<Rightarrow> real \<Rightarrow> real" where
  "humidity_formula c t adc =
     (let x = t - 76800;
          k = 1 + x * unsigned_d (dig_H3 c) / 2 ^ 26;
          h = (adc - (2 ^ 6 * signed_d (dig_H4 c) + x * signed_d (dig_H5 c) / 2 ^ 14)) * signed_d (dig_H2 c) / 2 ^ 16 * k *
            (1 + x * signed_d (dig_H6 c) / 2 ^ 26 * k)
      in clamp 0 100 (h - h ^ 2 * unsigned_d (dig_H1 c) / 2 ^ 19))"

lemma formulas_ignore_t_fine:
  "pressure_formula (c\<lparr>t_fine := v\<rparr>) = pressure_formula c" "humidity_formula (c\<lparr>t_fine := v\<rparr>) = humidity_formula c"
  unfolding fun_eq_iff pressure_formula_def humidity_formula_def Let_def by simp_all

lemma exact_pressure: "compensate_pressure (\<lambda>x. x) u c = pressure_formula c (signed_d (t_fine c)) (unsigned_d (raw_pressure u))"
proof -
  define x where "x = signed_d (t_fine c) / 2 - 64000"
  define slope where "slope = unsigned_d (dig_P1 c) * (1 + x * signed_d (dig_P2 c) / 2 ^ 34 + x ^ 2 * signed_d (dig_P3 c) / 2 ^ 53)"
  define offset where "offset = 2 ^ 16 * signed_d (dig_P4 c) + x * signed_d (dig_P5 c) / 2 + x ^ 2 * signed_d (dig_P6 c) / 2 ^ 17"
  define p where "p = 6250 * (2 ^ 20 - unsigned_d (raw_pressure u) - offset / 2 ^ 12) / slope"
  have s: "(1 + (signed_d (dig_P3 c) * x * x / 524288 + signed_d (dig_P2 c) * x) / 524288 / 32768) * unsigned_d (dig_P1 c) = slope"
    by (simp add: slope_def power2_eq_square field_simps)
  have o': "(x * x * signed_d (dig_P6 c) / 32768 + x * signed_d (dig_P5 c) * 2) / 4 + signed_d (dig_P4 c) * 65536 = offset"
    by (simp add: offset_def power2_eq_square field_simps)
  have p: "(1048576 - unsigned_d (raw_pressure u) - offset / 4096) * 6250 / slope = p"
    by (simp add: p_def field_simps)
  have q: "p + (signed_d (dig_P9 c) * p * p / 2147483648 + p * signed_d (dig_P8 c) / 32768 + signed_d (dig_P7 c)) / 16 =
      p + (signed_d (dig_P7 c) + p * signed_d (dig_P8 c) / 2 ^ 15 + p ^ 2 * signed_d (dig_P9 c) / 2 ^ 31) / 16"
    by (simp add: power2_eq_square field_simps)
  have "compensate_pressure (\<lambda>x. x) u c = (if slope \<noteq> 0 then clamp 30000 110000 (p + (signed_d (dig_P9 c) * p * p / 2147483648 +
      p * signed_d (dig_P8 c) / 32768 + signed_d (dig_P7 c)) / 16) else 30000)"
    unfolding compensate_pressure_def Let_def x_def [symmetric] o' s p by (rule refl)
  also have "\<dots> = pressure_formula c (signed_d (t_fine c)) (unsigned_d (raw_pressure u))"
    unfolding pressure_formula_def Let_def x_def [symmetric] offset_def [symmetric] slope_def [symmetric] p_def [symmetric] q by simp
  finally show ?thesis .
qed

lemma exact_humidity: "compensate_humidity (\<lambda>x. x) u c = humidity_formula c (signed_d (t_fine c)) (unsigned_d (raw_humidity u))"
proof -
  define x where "x = signed_d (t_fine c) - 76800"
  define k where "k = 1 + x * unsigned_d (dig_H3 c) / 2 ^ 26"
  define h where "h = (unsigned_d (raw_humidity u) - (2 ^ 6 * signed_d (dig_H4 c) + x * signed_d (dig_H5 c) / 2 ^ 14)) *
    signed_d (dig_H2 c) / 2 ^ 16 * k * (1 + x * signed_d (dig_H6 c) / 2 ^ 26 * k)"
  have k: "1 + unsigned_d (dig_H3 c) / 67108864 * x = k" by (simp add: k_def)
  have h: "(unsigned_d (raw_humidity u) - (signed_d (dig_H4 c) * 64 + signed_d (dig_H5 c) / 16384 * x)) * (signed_d (dig_H2 c) / 65536) *
      (k * (1 + signed_d (dig_H6 c) / 67108864 * x * k)) = h"
    by (simp add: h_def mult_ac)
  have q: "h * (1 - unsigned_d (dig_H1 c) * h / 524288) = h - h ^ 2 * unsigned_d (dig_H1 c) / 2 ^ 19"
    by (simp add: power2_eq_square field_simps)
  show ?thesis
    unfolding compensate_humidity_def humidity_formula_def Let_def x_def [symmetric] k k_def [symmetric] h h_def [symmetric] q
    by (auto simp: clamp_def)
qed

text \<open>
  C7: compensation is safe and bounded. For a raw temperature of twenty bits and any
  calibration data, rounding errors included: the temperature is within a millionth of a
  thousandth of a degree of the data sheet's formula cut to -40 to 85; the conversion to
  \<open>t_fine\<close> never overflows and nothing undefined happens; pressure and humidity, however
  odd the calibration, stay between 30000 and 110000 Pa and between 0 and 100 %, and in exact arithmetic they are
  the formulas above at \<open>t_fine\<close>. How far rounding moves the last two inside their ranges is not bounded.
\<close>

theorem bme280_compensated_values:
  assumes "close_rounding (rnd (env s))" and "uint (raw_temperature u) < 2 ^ 20"
    and "run_state (bme280_compensate_data BME280_ALL u c) s = ((d, c'), t)"
  shows "t = s \<and> \<bar>temperature d - clamp (-40) 85 (fine_temperature u c / 5120)\<bar> \<le> 1 / 10 ^ 9 \<and>
    \<bar>real_of_int (sint (t_fine c')) - fine_temperature u c\<bar> \<le> 1 + 1 / 10 ^ 6 \<and>
    30000 \<le> pressure d \<and> pressure d \<le> 110000 \<and> 0 \<le> humidity d \<and> humidity d \<le> 100 \<and>
    (rnd (env s) = (\<lambda>x. x) \<longrightarrow> pressure d = pressure_formula c (signed_d (t_fine c')) (unsigned_d (raw_pressure u)) \<and>
      humidity d = humidity_formula c (signed_d (t_fine c')) (unsigned_d (raw_humidity u)))"
proof -
  obtain x c1 s1 where x: "run_state (compensate_temperature u c) s = ((x, c1), s1)"
    by (metis prod.exhaust)
  have p: "30000 \<le> compensate_pressure r u c \<and> compensate_pressure r u c \<le> 110000" for r c
    unfolding compensate_pressure_def Let_def by (simp add: clamp_range)
  have h: "0 \<le> compensate_humidity r u c \<and> compensate_humidity r u c \<le> 100" for r c
    unfolding compensate_humidity_def Let_def by simp
  note y = compensate_temperature_run [OF assms(1,2) x]
  have "temperature d = x \<and> c' = c1 \<and> t = s1 \<and> pressure d = compensate_pressure (rnd (env s)) u c1 \<and>
      humidity d = compensate_humidity (rnd (env s)) u c1"
    using assms(3) x by (auto simp: bme280_compensate_data_def Let_def)
  moreover have "pressure_formula c1 = pressure_formula c" "humidity_formula c1 = humidity_formula c"
    using y(4) formulas_ignore_t_fine by metis+
  ultimately show ?thesis using y(1-3) p h by (auto simp: exact_pressure exact_humidity)
qed

text \<open>The data sheet's example: raw value 519888 with T1 = 27504, T2 = 26435, T3 = -1000.\<close>

definition example_uncomp :: bme280_uncomp_data where
  "example_uncomp = \<lparr>raw_pressure = 415148, raw_temperature = 519888, raw_humidity = 0\<rparr>"

definition example_calib :: bme280_calib_data where
  "example_calib = zero_calib\<lparr>dig_T1 := 27504, dig_T2 := 26435, dig_T3 := - 1000\<rparr>"

lemma bme280_compensated_values_witness:
  "let ((d, c'), t) = run_state (bme280_compensate_data BME280_ALL example_uncomp example_calib)
     (\<lparr>hist = [], env = env0, heap = Map.empty\<rparr> :: board) in
   \<bar>temperature d - 25.08\<bar> < 0.01"
proof -
  let ?s = "\<lparr>hist = [], env = env0, heap = Map.empty\<rparr> :: board"
  obtain d c' t where r: "run_state (bme280_compensate_data BME280_ALL example_uncomp example_calib) ?s = ((d, c'), t)"
    by (metis prod.exhaust)
  have 1: "close_rounding (rnd (env ?s))" by (simp add: env0_def close_rounding_id)
  let ?F = "fine_temperature example_uncomp example_calib / 5120"
  have F: "25.08 - 1 / 200 < ?F" "?F < 25.08 + 1 / 200"
    by (simp_all add: fine_temperature_def example_uncomp_def example_calib_def zero_calib_def unsigned_d_def
        signed_d_def Let_def power2_eq_square)
  then have c: "clamp (-40) 85 ?F = ?F" by (simp add: clamp_def)
  have "uint (raw_temperature example_uncomp) < 2 ^ 20" by (simp add: example_uncomp_def)
  from bme280_compensated_values [OF 1 this r, unfolded c]
  have "\<bar>temperature d - ?F\<bar> \<le> 1 / 10 ^ 9" by (elim conjE)
  then have "\<bar>temperature d - ?F\<bar> \<le> 1 / 200" by (rule order_trans) simp
  with F have "\<bar>temperature d - 25.08\<bar> < 1 / 200 + 1 / 200" by linarith
  then have "\<bar>temperature d - 25.08\<bar> < 0.01" by simp
  with r show ?thesis by simp
qed

end
