(* ===== verification/Bme280_Driver.thy ===== *)
theory Bme280_Driver
  imports Adc_Sensors Bme280_Data I2c
begin

text \<open>
  The BME280 driver, \<open>src/applications/Bosch_BME280.c\<close>, on top of the port functions of
  \<open>src/applications/i2c_BME280.c\<close> that its function pointers are set to. A pointer to the
  driver's device structure that may be null is an option; the functions that change the
  structure return its new contents.
\<close>

section \<open>The port\<close>

record bme_st = dust_st +
  i2c_bus_toBeUsed :: string

definition my_delay_ms :: "u32 \<Rightarrow> ('z board_scheme, unit) state" where
  "my_delay_ms milliseconds = rt_thread_mdelay (sint milliseconds)"

definition bme_read_regs :: "u8 \<Rightarrow> u8 \<Rightarrow> u8 list \<Rightarrow> ('z bme_st_scheme, int \<times> u8 list) state" where
  "bme_read_regs addr reg data = do {
     bus \<leftarrow> gets i2c_bus_toBeUsed;
     i2c_read_regs bus addr reg data
   }"

definition bme_write_regs :: "u8 \<Rightarrow> u8 \<Rightarrow> u8 list \<Rightarrow> ('z bme_st_scheme, int) state" where
  "bme_write_regs addr reg data = do {
     bus \<leftarrow> gets i2c_bus_toBeUsed;
     i2c_write_regs bus addr reg data
   }"

text \<open>Calls through the function pointers. Both kinds of transfer have the same C type.\<close>

fun call_com :: "com_fptr \<Rightarrow> u8 \<Rightarrow> u8 \<Rightarrow> u8 list \<Rightarrow> ('z bme_st_scheme, int \<times> u8 list) state" where
  "call_com Fp_read_regs addr reg data = bme_read_regs addr reg data"
| "call_com Fp_write_regs addr reg data = do { r \<leftarrow> bme_write_regs addr reg data; ret (r, data) }"

fun call_delay :: "delay_fptr \<Rightarrow> u32 \<Rightarrow> ('z board_scheme, unit) state" where
  "call_delay Fp_my_delay_ms ms = my_delay_ms ms"

section \<open>Registers\<close>

abbreviation (input) BME280_OK :: int where "BME280_OK \<equiv> 0"
abbreviation (input) BME280_E_NULL_PTR :: int where "BME280_E_NULL_PTR \<equiv> - 1"
abbreviation (input) BME280_E_DEV_NOT_FOUND :: int where "BME280_E_DEV_NOT_FOUND \<equiv> - 2"
abbreviation (input) BME280_E_INVALID_LEN :: int where "BME280_E_INVALID_LEN \<equiv> - 3"
abbreviation (input) BME280_E_COMM_FAIL :: int where "BME280_E_COMM_FAIL \<equiv> - 4"
abbreviation (input) BME280_W_INVALID_OSR_MACRO :: int where "BME280_W_INVALID_OSR_MACRO \<equiv> 1"

abbreviation (input) BME280_CHIP_ID :: u8 where "BME280_CHIP_ID \<equiv> 0x60"
abbreviation (input) BME280_CHIP_ID_ADDR :: u8 where "BME280_CHIP_ID_ADDR \<equiv> 0xD0"
abbreviation (input) BME280_RESET_ADDR :: u8 where "BME280_RESET_ADDR \<equiv> 0xE0"
abbreviation (input) BME280_TEMP_PRESS_CALIB_DATA_ADDR :: u8 where "BME280_TEMP_PRESS_CALIB_DATA_ADDR \<equiv> 0x88"
abbreviation (input) BME280_HUMIDITY_CALIB_DATA_ADDR :: u8 where "BME280_HUMIDITY_CALIB_DATA_ADDR \<equiv> 0xE1"
abbreviation (input) BME280_PWR_CTRL_ADDR :: u8 where "BME280_PWR_CTRL_ADDR \<equiv> 0xF4"
abbreviation (input) BME280_CTRL_HUM_ADDR :: u8 where "BME280_CTRL_HUM_ADDR \<equiv> 0xF2"
abbreviation (input) BME280_CTRL_MEAS_ADDR :: u8 where "BME280_CTRL_MEAS_ADDR \<equiv> 0xF4"
abbreviation (input) BME280_CONFIG_ADDR :: u8 where "BME280_CONFIG_ADDR \<equiv> 0xF5"
abbreviation (input) BME280_DATA_ADDR :: u8 where "BME280_DATA_ADDR \<equiv> 0xF7"

definition null_ptr_check :: "bme280_dev option \<Rightarrow> int" where
  "null_ptr_check dev =
     (if dev = None \<or> read_fp (the dev) = None \<or> write_fp (the dev) = None \<or> delay_fp (the dev) = None
      then BME280_E_NULL_PTR else BME280_OK)"

definition bme280_get_regs :: "u8 \<Rightarrow> u8 list \<Rightarrow> bme280_dev option \<Rightarrow> ('z bme_st_scheme, int \<times> u8 list) state" where
  "bme280_get_regs reg_addr reg_data dev =
     (if null_ptr_check dev \<noteq> BME280_OK then ret (null_ptr_check dev, reg_data)
      else do {
        let reg_addr = (if intf (the dev) \<noteq> BME280_I2C_INTF then reg_addr OR 0x80 else reg_addr);
        (rslt, reg_data) \<leftarrow> call_com (the (read_fp (the dev))) (dev_id (the dev)) reg_addr reg_data;
        ret (if rslt \<noteq> BME280_OK then BME280_E_COMM_FAIL else rslt, reg_data)
      })"

definition interleave_reg_addr :: "u8 list \<Rightarrow> u8 list \<Rightarrow> u8 list \<Rightarrow> nat \<Rightarrow> u8 list" where
  "interleave_reg_addr reg_addr temp_buff reg_data len =
     foldl (\<lambda>t index. t[index * 2 - 1 := reg_addr ! index, index * 2 := reg_data ! index]) temp_buff [1..<len]"

text \<open>
  Null pointers for the address and data arrays are \<open>None\<close>. On the SPI interface the address
  array is changed in place, which no caller looks at afterwards.
\<close>

definition bme280_set_regs :: "u8 list option \<Rightarrow> u8 list option \<Rightarrow> nat \<Rightarrow> bme280_dev option \<Rightarrow> ('z bme_st_scheme, int) state" where
  "bme280_set_regs reg_addr reg_data len dev =
     (let len = (if len > 10 then 10 else len) in
      if null_ptr_check dev = BME280_OK \<and> reg_addr \<noteq> None \<and> reg_data \<noteq> None then
        if len \<noteq> 0 then do {
          j \<leftarrow> ask junk8;
          let temp_buff = (replicate 20 j)[0 := the reg_data ! 0];
          let addrs = (if intf (the dev) \<noteq> BME280_I2C_INTF
            then map (\<lambda>a. a AND 0x7F) (take len (the reg_addr)) @ drop len (the reg_addr) else the reg_addr);
          let (temp_buff, temp_len) = (if len > 1
            then (interleave_reg_addr addrs temp_buff (the reg_data) len, len * 2 - 1) else (temp_buff, len));
          (rslt, _) \<leftarrow> call_com (the (write_fp (the dev))) (dev_id (the dev)) (addrs ! 0) (take temp_len temp_buff);
          ret (if rslt \<noteq> BME280_OK then BME280_E_COMM_FAIL else rslt)
        }
        else ret BME280_E_INVALID_LEN
      else ret BME280_E_NULL_PTR)"

section \<open>Power modes and settings\<close>

abbreviation (input) BME280_SLEEP_MODE :: u8 where "BME280_SLEEP_MODE \<equiv> 0"
abbreviation (input) BME280_FORCED_MODE :: u8 where "BME280_FORCED_MODE \<equiv> 1"

definition BME280_SET_BITS :: "u8 \<Rightarrow> u8 \<Rightarrow> nat \<Rightarrow> u8 \<Rightarrow> u8" where
  "BME280_SET_BITS reg_data msk pos data = (reg_data AND NOT msk) OR (push_bit pos data AND msk)"

definition BME280_SET_BITS_POS_0 :: "u8 \<Rightarrow> u8 \<Rightarrow> u8 \<Rightarrow> u8" where
  "BME280_SET_BITS_POS_0 reg_data msk data = (reg_data AND NOT msk) OR (data AND msk)"

definition BME280_GET_BITS :: "u8 \<Rightarrow> u8 \<Rightarrow> nat \<Rightarrow> u8" where
  "BME280_GET_BITS reg_data msk pos = drop_bit pos (reg_data AND msk)"

definition BME280_GET_BITS_POS_0 :: "u8 \<Rightarrow> u8 \<Rightarrow> u8" where
  "BME280_GET_BITS_POS_0 reg_data msk = reg_data AND msk"

definition bme280_get_sensor_mode :: "u8 \<Rightarrow> bme280_dev option \<Rightarrow> ('z bme_st_scheme, int \<times> u8) state" where
  "bme280_get_sensor_mode sensor_mode dev =
     (if null_ptr_check dev \<noteq> BME280_OK then ret (null_ptr_check dev, sensor_mode)
      else do {
        (rslt, buf) \<leftarrow> bme280_get_regs BME280_PWR_CTRL_ADDR [sensor_mode] dev;
        ret (rslt, BME280_GET_BITS_POS_0 (hd buf) 0x03)
      })"

definition bme280_soft_reset :: "bme280_dev option \<Rightarrow> ('z bme_st_scheme, int) state" where
  "bme280_soft_reset dev =
     (if null_ptr_check dev \<noteq> BME280_OK then ret (null_ptr_check dev)
      else do {
        rslt \<leftarrow> bme280_set_regs (Some [BME280_RESET_ADDR]) (Some [0xB6]) 1 dev;
        call_delay (the (delay_fp (the dev))) 2;
        ret rslt
      })"

definition write_power_mode :: "u8 \<Rightarrow> bme280_dev option \<Rightarrow> ('z bme_st_scheme, int) state" where
  "write_power_mode sensor_mode dev = do {
     j \<leftarrow> ask junk8;
     (rslt, buf) \<leftarrow> bme280_get_regs BME280_PWR_CTRL_ADDR [j] dev;
     if rslt = BME280_OK
     then bme280_set_regs (Some [BME280_PWR_CTRL_ADDR]) (Some [BME280_SET_BITS_POS_0 (hd buf) 0x03 sensor_mode]) 1 dev
     else ret rslt
   }"

definition fill_filter_settings :: "u8 \<Rightarrow> bme280_settings \<Rightarrow> u8" where
  "fill_filter_settings reg_data s = BME280_SET_BITS reg_data 0x1C 2 (bme_filter s)"

definition fill_standby_settings :: "u8 \<Rightarrow> bme280_settings \<Rightarrow> u8" where
  "fill_standby_settings reg_data s = BME280_SET_BITS reg_data 0xE0 5 (standby_time s)"

definition fill_osr_press_settings :: "u8 \<Rightarrow> bme280_settings \<Rightarrow> u8" where
  "fill_osr_press_settings reg_data s = BME280_SET_BITS reg_data 0x1C 2 (osr_p s)"

definition fill_osr_temp_settings :: "u8 \<Rightarrow> bme280_settings \<Rightarrow> u8" where
  "fill_osr_temp_settings reg_data s = BME280_SET_BITS reg_data 0xE0 5 (osr_t s)"

definition parse_device_settings :: "u8 list \<Rightarrow> bme280_settings" where
  "parse_device_settings reg_data = \<lparr>
     osr_p = BME280_GET_BITS (reg_data ! 2) 0x1C 2,
     osr_t = BME280_GET_BITS (reg_data ! 2) 0xE0 5,
     osr_h = BME280_GET_BITS_POS_0 (reg_data ! 0) 0x07,
     bme_filter = BME280_GET_BITS (reg_data ! 3) 0x1C 2,
     standby_time = BME280_GET_BITS (reg_data ! 3) 0xE0 5\<rparr>"

abbreviation (input) BME280_OSR_PRESS_SEL :: u8 where "BME280_OSR_PRESS_SEL \<equiv> 1"
abbreviation (input) BME280_OSR_TEMP_SEL :: u8 where "BME280_OSR_TEMP_SEL \<equiv> 2"
abbreviation (input) BME280_OSR_HUM_SEL :: u8 where "BME280_OSR_HUM_SEL \<equiv> 4"
abbreviation (input) BME280_FILTER_SEL :: u8 where "BME280_FILTER_SEL \<equiv> 8"
abbreviation (input) BME280_STANDBY_SEL :: u8 where "BME280_STANDBY_SEL \<equiv> 16"
abbreviation (input) BME280_ALL_SETTINGS_SEL :: u8 where "BME280_ALL_SETTINGS_SEL \<equiv> 0x1F"

definition are_settings_changed :: "u8 \<Rightarrow> u8 \<Rightarrow> bool" where
  "are_settings_changed sub_settings desired_settings \<longleftrightarrow> sub_settings AND desired_settings \<noteq> 0"

definition set_osr_humidity_settings :: "bme280_settings \<Rightarrow> bme280_dev option \<Rightarrow> ('z bme_st_scheme, int) state" where
  "set_osr_humidity_settings s dev = do {
     let ctrl_hum = osr_h s AND 0x07;
     rslt \<leftarrow> bme280_set_regs (Some [BME280_CTRL_HUM_ADDR]) (Some [ctrl_hum]) 1 dev;
     if rslt \<noteq> BME280_OK then ret rslt
     else do {
       j \<leftarrow> ask junk8;
       (rslt, buf) \<leftarrow> bme280_get_regs BME280_CTRL_MEAS_ADDR [j] dev;
       if rslt = BME280_OK
       then bme280_set_regs (Some [BME280_CTRL_MEAS_ADDR]) (Some [hd buf]) 1 dev
       else ret rslt
     }
   }"

definition set_osr_press_temp_settings ::
  "u8 \<Rightarrow> bme280_settings \<Rightarrow> bme280_dev option \<Rightarrow> ('z bme_st_scheme, int) state" where
  "set_osr_press_temp_settings desired_settings s dev = do {
     j \<leftarrow> ask junk8;
     (rslt, buf) \<leftarrow> bme280_get_regs BME280_CTRL_MEAS_ADDR [j] dev;
     if rslt \<noteq> BME280_OK then ret rslt
     else do {
       let d = hd buf;
       let d = (if desired_settings AND BME280_OSR_PRESS_SEL \<noteq> 0 then fill_osr_press_settings d s else d);
       let d = (if desired_settings AND BME280_OSR_TEMP_SEL \<noteq> 0 then fill_osr_temp_settings d s else d);
       bme280_set_regs (Some [BME280_CTRL_MEAS_ADDR]) (Some [d]) 1 dev
     }
   }"

text \<open>The second result replaces the first, an error of the humidity setting included.\<close>

definition set_osr_settings :: "u8 \<Rightarrow> bme280_settings \<Rightarrow> bme280_dev option \<Rightarrow> ('z bme_st_scheme, int) state" where
  "set_osr_settings desired_settings s dev = do {
     rslt \<leftarrow> (if desired_settings AND BME280_OSR_HUM_SEL \<noteq> 0 then set_osr_humidity_settings s dev
       else ret BME280_W_INVALID_OSR_MACRO);
     if desired_settings AND (BME280_OSR_PRESS_SEL OR BME280_OSR_TEMP_SEL) \<noteq> 0
     then set_osr_press_temp_settings desired_settings s dev
     else ret rslt
   }"

definition set_filter_standby_settings ::
  "u8 \<Rightarrow> bme280_settings \<Rightarrow> bme280_dev option \<Rightarrow> ('z bme_st_scheme, int) state" where
  "set_filter_standby_settings desired_settings s dev = do {
     j \<leftarrow> ask junk8;
     (rslt, buf) \<leftarrow> bme280_get_regs BME280_CONFIG_ADDR [j] dev;
     if rslt \<noteq> BME280_OK then ret rslt
     else do {
       let d = hd buf;
       let d = (if desired_settings AND BME280_FILTER_SEL \<noteq> 0 then fill_filter_settings d s else d);
       let d = (if desired_settings AND BME280_STANDBY_SEL \<noteq> 0 then fill_standby_settings d s else d);
       bme280_set_regs (Some [BME280_CONFIG_ADDR]) (Some [d]) 1 dev
     }
   }"

definition reload_device_settings :: "bme280_settings \<Rightarrow> bme280_dev option \<Rightarrow> ('z bme_st_scheme, int) state" where
  "reload_device_settings s dev = do {
     rslt \<leftarrow> set_osr_settings BME280_ALL_SETTINGS_SEL s dev;
     if rslt = BME280_OK then set_filter_standby_settings BME280_ALL_SETTINGS_SEL s dev else ret rslt
   }"

definition put_device_to_sleep :: "bme280_dev option \<Rightarrow> ('z bme_st_scheme, int) state" where
  "put_device_to_sleep dev = do {
     j \<leftarrow> ask junk8;
     (rslt, reg_data) \<leftarrow> bme280_get_regs BME280_CTRL_HUM_ADDR (replicate 4 j) dev;
     if rslt \<noteq> BME280_OK then ret rslt
     else do {
       let s = parse_device_settings reg_data;
       rslt \<leftarrow> bme280_soft_reset dev;
       if rslt = BME280_OK then reload_device_settings s dev else ret rslt
     }
   }"

text \<open>Leave the present mode for sleep mode: the start of both functions below.\<close>

definition ensure_sleep :: "bme280_dev option \<Rightarrow> ('z bme_st_scheme, int) state" where
  "ensure_sleep dev = do {
     j \<leftarrow> ask junk8;
     (rslt, mode) \<leftarrow> bme280_get_sensor_mode j dev;
     if rslt = BME280_OK \<and> mode \<noteq> BME280_SLEEP_MODE then put_device_to_sleep dev else ret rslt
   }"

definition bme280_set_sensor_mode :: "u8 \<Rightarrow> bme280_dev option \<Rightarrow> ('z bme_st_scheme, int) state" where
  "bme280_set_sensor_mode sensor_mode dev =
     (if null_ptr_check dev \<noteq> BME280_OK then ret (null_ptr_check dev)
      else do {
        rslt \<leftarrow> ensure_sleep dev;
        if rslt = BME280_OK then write_power_mode sensor_mode dev else ret rslt
      })"

definition bme280_set_sensor_settings :: "u8 \<Rightarrow> bme280_dev option \<Rightarrow> ('z bme_st_scheme, int) state" where
  "bme280_set_sensor_settings desired_settings dev =
     (if null_ptr_check dev \<noteq> BME280_OK then ret (null_ptr_check dev)
      else do {
        rslt \<leftarrow> ensure_sleep dev;
        if rslt \<noteq> BME280_OK then ret rslt
        else do {
          rslt \<leftarrow> (if are_settings_changed 0x07 desired_settings
            then set_osr_settings desired_settings (settings (the dev)) dev else ret rslt);
          if rslt = BME280_OK \<and> are_settings_changed 0x18 desired_settings
          then set_filter_standby_settings desired_settings (settings (the dev)) dev
          else ret rslt
        }
      })"

definition bme280_get_sensor_settings :: "bme280_dev option \<Rightarrow> ('z bme_st_scheme, int \<times> bme280_dev option) state" where
  "bme280_get_sensor_settings dev =
     (if null_ptr_check dev \<noteq> BME280_OK then ret (null_ptr_check dev, dev)
      else do {
        j \<leftarrow> ask junk8;
        (rslt, reg_data) \<leftarrow> bme280_get_regs BME280_CTRL_HUM_ADDR (replicate 4 j) dev;
        if rslt = BME280_OK then ret (rslt, Some ((the dev)\<lparr>settings := parse_device_settings reg_data\<rparr>))
        else ret (rslt, dev)
      })"

section \<open>Start-up and measurement\<close>

definition get_calib_data :: "bme280_dev option \<Rightarrow> ('z bme_st_scheme, int \<times> bme280_dev option) state" where
  "get_calib_data dev = do {
     (rslt, calib) \<leftarrow> bme280_get_regs BME280_TEMP_PRESS_CALIB_DATA_ADDR (replicate 26 0) dev;
     if rslt \<noteq> BME280_OK then ret (rslt, dev)
     else do {
       let d = (the dev)\<lparr>calib_data := parse_temp_press_calib_data calib (calib_data (the dev))\<rparr>;
       (rslt, hum) \<leftarrow> bme280_get_regs BME280_HUMIDITY_CALIB_DATA_ADDR (take 7 calib) (Some d);
       if rslt = BME280_OK
       then ret (rslt, Some (d\<lparr>calib_data := parse_humidity_calib_data (hum @ drop 7 calib) (calib_data d)\<rparr>))
       else ret (rslt, Some d)
     }
   }"

text \<open>
  The loop of \<open>bme280_init\<close>: at most \<open>try_count\<close> attempts to read the chip identifier.
\<close>

fun init_attempts :: "nat \<Rightarrow> u8 \<Rightarrow> bme280_dev option \<Rightarrow> ('z bme_st_scheme, int \<times> bme280_dev option) state" where
  "init_attempts 0 chip dev = ret (BME280_E_DEV_NOT_FOUND, dev)"
| "init_attempts (Suc try_count) chip dev = do {
     (rslt, buf) \<leftarrow> bme280_get_regs BME280_CHIP_ID_ADDR [chip] dev;
     if rslt = BME280_OK \<and> hd buf = BME280_CHIP_ID then do {
       let dev = Some ((the dev)\<lparr>chip_id := hd buf\<rparr>);
       rslt \<leftarrow> bme280_soft_reset dev;
       if rslt = BME280_OK then get_calib_data dev else ret (rslt, dev)
     }
     else do {
       call_delay (the (delay_fp (the dev))) 1;
       init_attempts try_count (hd buf) dev
     }
   }"

definition bme280_init :: "bme280_dev option \<Rightarrow> ('z bme_st_scheme, int \<times> bme280_dev option) state" where
  "bme280_init dev =
     (if null_ptr_check dev \<noteq> BME280_OK then ret (null_ptr_check dev, dev) else init_attempts 5 0 dev)"

definition bme280_get_sensor_data ::
  "u8 \<Rightarrow> bme280_data option \<Rightarrow> bme280_dev option \<Rightarrow> ('z bme_st_scheme, int \<times> bme280_data option \<times> bme280_dev option) state" where
  "bme280_get_sensor_data sensor_comp comp_data dev =
     (if null_ptr_check dev = BME280_OK \<and> comp_data \<noteq> None then do {
        (rslt, reg_data) \<leftarrow> bme280_get_regs BME280_DATA_ADDR (replicate 8 0) dev;
        if rslt \<noteq> BME280_OK then ret (rslt, comp_data, dev)
        else do {
          (d, c) \<leftarrow> bme280_compensate_data sensor_comp (bme280_parse_sensor_data reg_data) (calib_data (the dev));
          ret (BME280_OK, Some d, Some ((the dev)\<lparr>calib_data := c\<rparr>))
        }
      }
      else ret (BME280_E_NULL_PTR, comp_data, dev))"

end
