(* ===== verification/Bme280_Device.thy ===== *)
theory Bme280_Device
  imports Bme280_Driver
begin

text \<open>
  The BME280 driver on a sensor that answers: the register file contract of the I2C layer
  carries over to \<open>bme280_get_regs\<close> and \<open>bme280_set_regs\<close>, and from it follow what the
  settings, mode and start-up functions do to the sensor's registers.
\<close>

section \<open>The register file\<close>

definition wired :: "bme280_dev \<Rightarrow> bool" where
  "wired d \<longleftrightarrow> read_fp d = Some Fp_read_regs \<and> write_fp d = Some Fp_write_regs \<and>
     delay_fp d = Some Fp_my_delay_ms \<and> intf d = BME280_I2C_INTF"

definition bme_at :: "bme280_dev \<Rightarrow> string \<Rightarrow> ((u8 \<times> u8) list \<Rightarrow> u8 \<Rightarrow> u8) \<Rightarrow> (u8 \<times> u8) list \<Rightarrow> 'z bme_st_scheme \<Rightarrow> bool" where
  "bme_at d bus rv ws s \<longleftrightarrow> wired d \<and> i2c_bus_toBeUsed s = bus \<and> i2c_dev bus (dev_id d) rv ws s"

lemma wired_updates [simp]:
  "wired (d\<lparr>chip_id := c\<rparr>) = wired d" "wired (d\<lparr>calib_data := k\<rparr>) = wired d" "wired (d\<lparr>settings := q\<rparr>) = wired d"
  by (simp_all add: wired_def)

lemma bme_at_updates [simp]:
  "bme_at (d\<lparr>chip_id := c\<rparr>) = bme_at d" "bme_at (d\<lparr>calib_data := k\<rparr>) = bme_at d"
  "bme_at (d\<lparr>settings := q\<rparr>) = bme_at d"
  by (simp_all add: fun_eq_iff bme_at_def)

lemma null_ptr_check_wired: "wired d \<Longrightarrow> null_ptr_check (Some d) = BME280_OK"
  by (simp add: null_ptr_check_def wired_def)

interpretation bme_regs: reg_file "\<lambda>r buf. bme280_get_regs r buf (Some d)"
    "\<lambda>r v. bme280_set_regs (Some [r]) (Some [v]) 1 (Some d)" "bme_at d bus rv" rv
  for d bus rv
proof
  show "yields (bme_at d bus rv) ws (bme280_get_regs r buf (Some d))
      (RT_EOK, map (\<lambda>i. rv ws (r + of_nat i)) [0..<length buf]) ws" for ws r buf
  proof (rule yieldsI)
    fix s assume s: "bme_at d bus rv ws s"
    then have w: "wired d" and "i2c_dev bus (dev_id d) rv ws s" by (simp_all add: bme_at_def)
    from i2c_read_dev [OF this(2), of r buf] s w
    show "\<exists>t. run_state (bme280_get_regs r buf (Some d)) s =
        ((RT_EOK, map (\<lambda>i. rv ws (r + of_nat i)) [0..<length buf]), t) \<and> bme_at d bus rv ws t"
      by (auto simp: bme280_get_regs_def null_ptr_check_wired bme_read_regs_def bme_at_def wired_def)
  qed
  show "yields (bme_at d bus rv) ws (bme280_set_regs (Some [r]) (Some [v]) 1 (Some d)) RT_EOK (ws @ [(r, v)])"
    for ws r v
  proof (rule yieldsI)
    fix s assume s: "bme_at d bus rv ws s"
    then have w: "wired d" and "i2c_dev bus (dev_id d) rv ws s" by (simp_all add: bme_at_def)
    from i2c_write_regs_dev [OF this(2), of r v] s w
    show "\<exists>t. run_state (bme280_set_regs (Some [r]) (Some [v]) 1 (Some d)) s = (RT_EOK, t) \<and>
        bme_at d bus rv (ws @ [(r, v)]) t"
      by (auto simp: bme280_set_regs_def null_ptr_check_wired bme_write_regs_def bme_at_def wired_def Let_def
          numeral_eq_Suc)
  qed
qed

lemma delay_bme: "wired d \<Longrightarrow> yields (bme_at d bus rv) ws (call_delay (the (delay_fp d)) ms) () ws"
  by (simp add: yields_def bme_at_def i2c_dev_def wired_def my_delay_ms_def)

lemma reg_one: "yields (bme_at d bus rv) ws (bme280_get_regs r [x] (Some d)) (BME280_OK, [rv ws r]) ws"
  using bme_regs.read_one [of d bus rv ws r x] by simp

lemma reg_four:
  "yields (bme_at d bus rv) ws (bme280_get_regs r (replicate 4 x) (Some d))
     (BME280_OK, [rv ws r, rv ws (r + 1), rv ws (r + 2), rv ws (r + 3)]) ws"
  using bme_regs.rd_law [of d bus rv ws r "replicate 4 x"] by (simp add: upt_rec)

lemmas reg_wr = bme_regs.wr_law

lemma reg_wrote:
  "ws' = ws @ [(r, v)] \<Longrightarrow>
   yields (bme_at d bus rv) ws (bme280_set_regs (Some [r]) (Some [v]) (Suc 0) (Some d)) BME280_OK ws'"
  using reg_wr [of d bus rv ws r v] by simp

section \<open>Settings\<close>

text \<open>
  The control registers after a change of the settings \<open>sel\<close>, as writes appended to those
  so far: humidity (which also rewrites \<open>ctrl_meas\<close>), pressure and temperature, filter and
  standby.
\<close>

definition hum_writes :: "u8 \<Rightarrow> bme280_settings \<Rightarrow> ((u8 \<times> u8) list \<Rightarrow> u8 \<Rightarrow> u8) \<Rightarrow> (u8 \<times> u8) list \<Rightarrow> (u8 \<times> u8) list" where
  "hum_writes sel q rv ws =
     (if sel AND BME280_OSR_HUM_SEL \<noteq> 0
      then let w = ws @ [(BME280_CTRL_HUM_ADDR, osr_h q AND 7)] in w @ [(BME280_CTRL_MEAS_ADDR, rv w BME280_CTRL_MEAS_ADDR)]
      else ws)"

definition new_meas :: "u8 \<Rightarrow> bme280_settings \<Rightarrow> u8 \<Rightarrow> u8" where
  "new_meas sel q m =
     (let m = (if sel AND BME280_OSR_PRESS_SEL \<noteq> 0 then fill_osr_press_settings m q else m)
      in if sel AND BME280_OSR_TEMP_SEL \<noteq> 0 then fill_osr_temp_settings m q else m)"

definition new_config :: "u8 \<Rightarrow> bme280_settings \<Rightarrow> u8 \<Rightarrow> u8" where
  "new_config sel q m =
     (let m = (if sel AND BME280_FILTER_SEL \<noteq> 0 then fill_filter_settings m q else m)
      in if sel AND BME280_STANDBY_SEL \<noteq> 0 then fill_standby_settings m q else m)"

definition osr_writes :: "u8 \<Rightarrow> bme280_settings \<Rightarrow> ((u8 \<times> u8) list \<Rightarrow> u8 \<Rightarrow> u8) \<Rightarrow> (u8 \<times> u8) list \<Rightarrow> (u8 \<times> u8) list" where
  "osr_writes sel q rv ws =
     (let w = hum_writes sel q rv ws in
      if sel AND (BME280_OSR_PRESS_SEL OR BME280_OSR_TEMP_SEL) \<noteq> 0
      then w @ [(BME280_CTRL_MEAS_ADDR, new_meas sel q (rv w BME280_CTRL_MEAS_ADDR))] else w)"

definition config_writes :: "u8 \<Rightarrow> bme280_settings \<Rightarrow> ((u8 \<times> u8) list \<Rightarrow> u8 \<Rightarrow> u8) \<Rightarrow> (u8 \<times> u8) list \<Rightarrow> (u8 \<times> u8) list" where
  "config_writes sel q rv ws = ws @ [(BME280_CONFIG_ADDR, new_config sel q (rv ws BME280_CONFIG_ADDR))]"

lemma set_osr_humidity_dev:
  "sel AND BME280_OSR_HUM_SEL \<noteq> 0 \<Longrightarrow>
   yields (bme_at d bus rv) ws (set_osr_humidity_settings q (Some d)) BME280_OK (hum_writes sel q rv ws)"
  unfolding set_osr_humidity_settings_def hum_writes_def Let_def
  apply (simp only: if_True simp_thms)
  apply (rule yields_bind, rule reg_wr, simp only: simp_thms if_False)
  apply (rule yields_ask, rule yields_bind, rule reg_one)
  apply (simp add: reg_wrote)
  done

lemma set_osr_press_temp_dev:
  "yields (bme_at d bus rv) ws (set_osr_press_temp_settings sel q (Some d)) BME280_OK
     (ws @ [(BME280_CTRL_MEAS_ADDR, new_meas sel q (rv ws BME280_CTRL_MEAS_ADDR))])"
  unfolding set_osr_press_temp_settings_def new_meas_def Let_def
  by (rule yields_ask, rule yields_bind, rule reg_one) (simp add: reg_wrote)

lemma set_osr_humidity_if:
  "yields (bme_at d bus rv) ws (if sel AND BME280_OSR_HUM_SEL \<noteq> 0 then set_osr_humidity_settings q (Some d) else ret c)
     (if sel AND BME280_OSR_HUM_SEL \<noteq> 0 then BME280_OK else c) (hum_writes sel q rv ws)"
proof (cases "sel AND BME280_OSR_HUM_SEL \<noteq> 0")
  case True
  from set_osr_humidity_dev [OF this] show ?thesis unfolding if_P [OF True] .
next
  case False
  then show ?thesis by (simp add: hum_writes_def yields_ret)
qed

lemma osr_sel: "sel AND 7 \<noteq> 0 \<longleftrightarrow> sel AND 4 \<noteq> 0 \<or> sel AND (1 OR 2) \<noteq> (0 :: u8)"
  unfolding u8_all by (simp add: bit_simps) blast

lemma set_osr_dev:
  assumes "sel AND 0x07 \<noteq> 0"
  shows "yields (bme_at d bus rv) ws (set_osr_settings sel q (Some d)) BME280_OK (osr_writes sel q rv ws)"
  unfolding set_osr_settings_def osr_writes_def Let_def
  apply (rule yields_bind, rule set_osr_humidity_if)
  using assms osr_sel [of sel] by (auto simp: set_osr_press_temp_dev yields_ret)

lemma set_filter_standby_dev:
  "yields (bme_at d bus rv) ws (set_filter_standby_settings sel q (Some d)) BME280_OK (config_writes sel q rv ws)"
  unfolding set_filter_standby_settings_def config_writes_def new_config_def Let_def
  by (rule yields_ask, rule yields_bind, rule reg_one) (simp add: reg_wrote)

section \<open>Modes\<close>

definition mode_of :: "((u8 \<times> u8) list \<Rightarrow> u8 \<Rightarrow> u8) \<Rightarrow> (u8 \<times> u8) list \<Rightarrow> u8" where
  "mode_of rv ws = rv ws BME280_PWR_CTRL_ADDR AND 3"

definition settings_of :: "((u8 \<times> u8) list \<Rightarrow> u8 \<Rightarrow> u8) \<Rightarrow> (u8 \<times> u8) list \<Rightarrow> bme280_settings" where
  "settings_of rv ws = parse_device_settings
     [rv ws BME280_CTRL_HUM_ADDR, rv ws 0xF3, rv ws BME280_CTRL_MEAS_ADDR, rv ws BME280_CONFIG_ADDR]"

lemma get_mode_dev:
  "wired d \<Longrightarrow> yields (bme_at d bus rv) ws (bme280_get_sensor_mode x (Some d)) (BME280_OK, mode_of rv ws) ws"
  unfolding bme280_get_sensor_mode_def null_ptr_check_wired
  by (simp add: null_ptr_check_wired, rule yields_bind, rule reg_one)
    (simp add: yields_ret mode_of_def BME280_GET_BITS_POS_0_def)

lemma soft_reset_dev:
  assumes "wired d"
  shows "yields (bme_at d bus rv) ws (bme280_soft_reset (Some d)) BME280_OK (ws @ [(BME280_RESET_ADDR, 0xB6)])"
  unfolding bme280_soft_reset_def null_ptr_check_wired [OF assms] simp_thms if_False option.sel
  by (rule yields_bind, rule reg_wr, rule yields_bind, rule delay_bme [OF assms], rule yields_ret)

text \<open>What putting the sensor to sleep writes: a reset and all the settings it had.\<close>

definition sleep_writes :: "((u8 \<times> u8) list \<Rightarrow> u8 \<Rightarrow> u8) \<Rightarrow> (u8 \<times> u8) list \<Rightarrow> (u8 \<times> u8) list" where
  "sleep_writes rv ws = config_writes BME280_ALL_SETTINGS_SEL (settings_of rv ws) rv
     (osr_writes BME280_ALL_SETTINGS_SEL (settings_of rv ws) rv (ws @ [(BME280_RESET_ADDR, 0xB6)]))"

lemma reload_dev:
  "yields (bme_at d bus rv) ws (reload_device_settings q (Some d)) BME280_OK
     (config_writes BME280_ALL_SETTINGS_SEL q rv (osr_writes BME280_ALL_SETTINGS_SEL q rv ws))"
  unfolding reload_device_settings_def
  by (rule yields_bind, rule set_osr_dev, simp, simp only: simp_thms if_True, rule set_filter_standby_dev)

lemma put_to_sleep_dev:
  assumes "wired d"
  shows "yields (bme_at d bus rv) ws (put_device_to_sleep (Some d)) BME280_OK (sleep_writes rv ws)"
  unfolding put_device_to_sleep_def sleep_writes_def Let_def
  apply (rule yields_ask, rule yields_bind, rule reg_four)
  apply (simp only: prod.case simp_thms if_False)
  apply (rule yields_bind, rule soft_reset_dev [OF assms])
  apply (simp only: simp_thms if_True)
  apply (simp add: settings_of_def reload_dev)
  done

definition awake_writes :: "((u8 \<times> u8) list \<Rightarrow> u8 \<Rightarrow> u8) \<Rightarrow> (u8 \<times> u8) list \<Rightarrow> (u8 \<times> u8) list" where
  "awake_writes rv ws = (if mode_of rv ws = BME280_SLEEP_MODE then ws else sleep_writes rv ws)"

lemma ensure_sleep_dev:
  assumes "wired d"
  shows "yields (bme_at d bus rv) ws (ensure_sleep (Some d)) BME280_OK (awake_writes rv ws)"
  unfolding ensure_sleep_def awake_writes_def
  by (rule yields_ask, rule yields_bind, rule get_mode_dev [OF assms])
    (simp add: put_to_sleep_dev [OF assms] yields_ret)

lemma write_power_mode_dev:
  "yields (bme_at d bus rv) ws (write_power_mode m (Some d)) BME280_OK
     (ws @ [(BME280_PWR_CTRL_ADDR, BME280_SET_BITS_POS_0 (rv ws BME280_PWR_CTRL_ADDR) 0x03 m)])"
  unfolding write_power_mode_def
  by (rule yields_ask, rule yields_bind, rule reg_one) (simp add: reg_wrote)

definition mode_writes :: "u8 \<Rightarrow> ((u8 \<times> u8) list \<Rightarrow> u8 \<Rightarrow> u8) \<Rightarrow> (u8 \<times> u8) list \<Rightarrow> (u8 \<times> u8) list" where
  "mode_writes m rv ws = (let w = awake_writes rv ws in
     w @ [(BME280_PWR_CTRL_ADDR, BME280_SET_BITS_POS_0 (rv w BME280_PWR_CTRL_ADDR) 0x03 m)])"

lemma set_mode_dev:
  assumes "wired d"
  shows "yields (bme_at d bus rv) ws (bme280_set_sensor_mode m (Some d)) BME280_OK (mode_writes m rv ws)"
  unfolding bme280_set_sensor_mode_def null_ptr_check_wired [OF assms] simp_thms if_False mode_writes_def Let_def
  by (rule yields_bind, rule ensure_sleep_dev [OF assms], simp only: if_True simp_thms, rule write_power_mode_dev)

definition settings_writes :: "u8 \<Rightarrow> bme280_settings \<Rightarrow> ((u8 \<times> u8) list \<Rightarrow> u8 \<Rightarrow> u8) \<Rightarrow> (u8 \<times> u8) list \<Rightarrow> (u8 \<times> u8) list" where
  "settings_writes sel q rv ws =
     (let w = awake_writes rv ws;
          w = (if sel AND 0x07 \<noteq> 0 then osr_writes sel q rv w else w)
      in if sel AND 0x18 \<noteq> 0 then config_writes sel q rv w else w)"

lemma set_osr_if_dev:
  "yields (bme_at d bus rv) ws (if 7 AND sel \<noteq> 0 then set_osr_settings sel q (Some d) else ret BME280_OK) BME280_OK
     (if sel AND 7 \<noteq> 0 then osr_writes sel q rv ws else ws)"
  using set_osr_dev [of sel d bus rv ws q]
  by (cases "sel AND 7 = 0") (simp_all add: and.commute yields_ret)

lemma set_settings_dev:
  assumes "wired d"
  shows "yields (bme_at d bus rv) ws (bme280_set_sensor_settings sel (Some d)) BME280_OK
    (settings_writes sel (settings d) rv ws)"
  unfolding bme280_set_sensor_settings_def null_ptr_check_wired [OF assms] simp_thms if_False settings_writes_def Let_def
    are_settings_changed_def option.sel
  apply (rule yields_bind, rule ensure_sleep_dev [OF assms], simp only: if_False simp_thms)
  apply (rule yields_bind, rule set_osr_if_dev)
  apply (simp add: set_filter_standby_dev yields_ret and.commute)
  done

lemma get_settings_dev:
  assumes "wired d"
  shows "yields (bme_at d bus rv) ws (bme280_get_sensor_settings (Some d))
    (BME280_OK, Some (d\<lparr>settings := settings_of rv ws\<rparr>)) ws"
  unfolding bme280_get_sensor_settings_def null_ptr_check_wired [OF assms] simp_thms if_False
  by (rule yields_ask, rule yields_bind, rule reg_four) (simp add: settings_of_def yields_ret)

section \<open>A sensor that can be reset\<close>

text \<open>
  The registers of the sensor: what was written since the last reset (0xB6 to register
  0xE0), and otherwise the power-on contents \<open>rom\<close>, which include the chip identifier and the
  calibration data.
\<close>

definition is_reset :: "u8 \<times> u8 \<Rightarrow> bool" where
  "is_reset w \<longleftrightarrow> w = (BME280_RESET_ADDR, 0xB6)"

definition bme_chip :: "(u8 \<Rightarrow> u8) \<Rightarrow> (u8 \<times> u8) list \<Rightarrow> u8 \<Rightarrow> u8" where
  "bme_chip rom ws = last_written rom (rev (takeWhile (\<lambda>w. \<not> is_reset w) (rev ws)))"

lemma bme_chip_Nil [simp]: "bme_chip rom [] = rom"
  by (simp add: bme_chip_def last_written_def fun_eq_iff)

lemma bme_chip_snoc:
  "bme_chip rom (ws @ [w]) q = (if is_reset w then rom q else if q = fst w then snd w else bme_chip rom ws q)"
  by (cases w) (simp add: bme_chip_def last_written_def)

lemma bme_chip_reset [simp]: "bme_chip rom (ws @ [(BME280_RESET_ADDR, 0xB6)]) = rom"
  by (simp add: fun_eq_iff bme_chip_snoc is_reset_def)

lemma bme_chip_write [simp]:
  "r \<noteq> BME280_RESET_ADDR \<Longrightarrow> bme_chip rom (ws @ [(r, v)]) q = (if q = r then v else bme_chip rom ws q)"
  by (simp add: bme_chip_snoc is_reset_def)

lemma bme_chip_write2 [simp]:
  "r \<noteq> BME280_RESET_ADDR \<Longrightarrow> a \<noteq> BME280_RESET_ADDR \<Longrightarrow>
   bme_chip rom (ws @ [(a, b), (r, v)]) q = (if q = r then v else if q = a then b else bme_chip rom ws q)"
  using bme_chip_write [of r rom "ws @ [(a, b)]" v q] by simp

text \<open>Field by field: what the bit-field macros do.\<close>

lemmas bit_fields = BME280_SET_BITS_def BME280_GET_BITS_def BME280_SET_BITS_POS_0_def BME280_GET_BITS_POS_0_def

lemma field_high [simp]:
  "BME280_GET_BITS (BME280_SET_BITS m 0xE0 5 v) 0xE0 5 = v AND 7"
  "BME280_GET_BITS (BME280_SET_BITS m 0x1C 2 v) 0xE0 5 = BME280_GET_BITS m 0xE0 5"
  "BME280_GET_BITS (BME280_SET_BITS_POS_0 m 3 v) 0xE0 5 = BME280_GET_BITS m 0xE0 5"
  unfolding bit_fields u8_all by (simp_all add: bit_simps)

lemma field_mid [simp]:
  "BME280_GET_BITS (BME280_SET_BITS m 0x1C 2 v) 0x1C 2 = v AND 7"
  "BME280_GET_BITS (BME280_SET_BITS m 0xE0 5 v) 0x1C 2 = BME280_GET_BITS m 0x1C 2"
  "BME280_GET_BITS (BME280_SET_BITS_POS_0 m 3 v) 0x1C 2 = BME280_GET_BITS m 0x1C 2"
  unfolding bit_fields u8_all by (simp_all add: bit_simps)

lemma field_low [simp]:
  "BME280_SET_BITS m 0x1C 2 v AND 3 = m AND 3" "BME280_SET_BITS m 0xE0 5 v AND 3 = m AND 3"
  "BME280_SET_BITS_POS_0 m 3 v AND 3 = v AND 3"
  unfolding bit_fields u8_all by (simp_all add: bit_simps)

lemma field_and_7 [simp]:
  "BME280_GET_BITS m 0x1C 2 AND 7 = BME280_GET_BITS m 0x1C 2" "BME280_GET_BITS m 0xE0 5 AND 7 = BME280_GET_BITS m 0xE0 5"
  unfolding bit_fields u8_all by (simp_all add: bit_simps)

text \<open>The settings after a change of those that \<open>sel\<close> names.\<close>

definition merged :: "u8 \<Rightarrow> bme280_settings \<Rightarrow> bme280_settings \<Rightarrow> bme280_settings" where
  "merged sel q old = \<lparr>
     osr_p = (if sel AND BME280_OSR_PRESS_SEL \<noteq> 0 then osr_p q AND 7 else osr_p old),
     osr_t = (if sel AND BME280_OSR_TEMP_SEL \<noteq> 0 then osr_t q AND 7 else osr_t old),
     osr_h = (if sel AND BME280_OSR_HUM_SEL \<noteq> 0 then osr_h q AND 7 else osr_h old),
     bme_filter = (if sel AND BME280_FILTER_SEL \<noteq> 0 then bme_filter q AND 7 else bme_filter old),
     standby_time = (if sel AND BME280_STANDBY_SEL \<noteq> 0 then standby_time q AND 7 else standby_time old)\<rparr>"

lemmas settings_simps = settings_of_def parse_device_settings_def mode_of_def

lemma hum_effect:
  "settings_of (bme_chip rom) (hum_writes sel q (bme_chip rom) ws) =
     (settings_of (bme_chip rom) ws)\<lparr>osr_h := if sel AND BME280_OSR_HUM_SEL \<noteq> 0 then osr_h q AND 7
       else osr_h (settings_of (bme_chip rom) ws)\<rparr>"
  "bme_chip rom (hum_writes sel q (bme_chip rom) ws) BME280_CTRL_MEAS_ADDR = bme_chip rom ws BME280_CTRL_MEAS_ADDR"
  "bme_chip rom (hum_writes sel q (bme_chip rom) ws) BME280_CONFIG_ADDR = bme_chip rom ws BME280_CONFIG_ADDR"
  by (simp_all add: hum_writes_def settings_simps Let_def BME280_GET_BITS_POS_0_def and.assoc)

lemma and_3_zero: "(sel AND (1 OR 2) \<noteq> (0 :: u8)) = (sel AND 1 \<noteq> 0 \<or> sel AND 2 \<noteq> 0)"
  unfolding u8_all by (simp add: bit_simps)

lemma osr_effect:
  fixes sel q rom ws
  defines "w \<equiv> osr_writes sel q (bme_chip rom) ws" and "old \<equiv> settings_of (bme_chip rom) ws"
  shows "settings_of (bme_chip rom) w = (merged sel q old)\<lparr>bme_filter := bme_filter old, standby_time := standby_time old\<rparr>"
    and "mode_of (bme_chip rom) w = mode_of (bme_chip rom) ws"
proof -
  let ?h = "hum_writes sel q (bme_chip rom) ws"
  note h = hum_effect [of rom sel q ws]
  have 1: "mode_of (bme_chip rom) ?h = mode_of (bme_chip rom) ws" by (simp add: mode_of_def h)
  have p: "osr_p (settings_of (bme_chip rom) ws) = BME280_GET_BITS (bme_chip rom ws 0xF4) 0x1C 2"
    "osr_t (settings_of (bme_chip rom) ws) = BME280_GET_BITS (bme_chip rom ws 0xF4) 0xE0 5"
    by (simp_all add: settings_simps)
  show "settings_of (bme_chip rom) w = (merged sel q old)\<lparr>bme_filter := bme_filter old, standby_time := standby_time old\<rparr>"
  proof (cases "sel AND (1 OR 2) \<noteq> 0")
    case True
    have "settings_of (bme_chip rom) (?h @ [(0xF4, m)]) = (settings_of (bme_chip rom) ?h)
        \<lparr>osr_p := BME280_GET_BITS m 0x1C 2, osr_t := BME280_GET_BITS m 0xE0 5\<rparr>" for m
      by (simp add: settings_simps)
    with True show ?thesis
      unfolding w_def osr_writes_def Let_def if_P [OF True]
      by (simp add: h new_meas_def fill_osr_press_settings_def fill_osr_temp_settings_def merged_def old_def Let_def p)
  next
    case False
    then have "sel AND 1 = 0" "sel AND 2 = 0" using and_3_zero by auto
    with False show ?thesis
      unfolding w_def osr_writes_def Let_def if_not_P [OF False] by (simp add: h merged_def old_def)
  qed
  show "mode_of (bme_chip rom) w = mode_of (bme_chip rom) ws"
    unfolding w_def osr_writes_def Let_def
    using 1 by (simp add: mode_of_def h new_meas_def fill_osr_press_settings_def fill_osr_temp_settings_def Let_def)
qed

lemma config_effect:
  fixes sel q rom ws
  defines "w \<equiv> config_writes sel q (bme_chip rom) ws" and "old \<equiv> settings_of (bme_chip rom) ws"
  shows "settings_of (bme_chip rom) w = old\<lparr>bme_filter := bme_filter (merged sel q old),
      standby_time := standby_time (merged sel q old)\<rparr>"
    and "mode_of (bme_chip rom) w = mode_of (bme_chip rom) ws"
  by (simp_all add: w_def old_def config_writes_def settings_simps new_config_def fill_filter_settings_def
      fill_standby_settings_def merged_def Let_def)

lemma merged_all: "merged BME280_ALL_SETTINGS_SEL q old = \<lparr>osr_p = osr_p q AND 7, osr_t = osr_t q AND 7,
    osr_h = osr_h q AND 7, bme_filter = bme_filter q AND 7, standby_time = standby_time q AND 7\<rparr>"
  by (simp add: merged_def)

lemma sleep_effect:
  "settings_of (bme_chip rom) (sleep_writes (bme_chip rom) ws) = settings_of (bme_chip rom) ws"
  "mode_of (bme_chip rom) (sleep_writes (bme_chip rom) ws) = mode_of (bme_chip rom) [(BME280_RESET_ADDR, 0xB6)]"
proof -
  have h: "osr_h (settings_of rv ws) AND 7 = osr_h (settings_of rv ws)" for rv
    by (simp add: settings_simps BME280_GET_BITS_POS_0_def and.assoc)
  have f: "osr_p (settings_of rv ws) AND 7 = osr_p (settings_of rv ws)" "osr_t (settings_of rv ws) AND 7 = osr_t (settings_of rv ws)"
    "bme_filter (settings_of rv ws) AND 7 = bme_filter (settings_of rv ws)"
    "standby_time (settings_of rv ws) AND 7 = standby_time (settings_of rv ws)" for rv
    by (simp_all add: settings_simps)
  show "settings_of (bme_chip rom) (sleep_writes (bme_chip rom) ws) = settings_of (bme_chip rom) ws"
    unfolding sleep_writes_def config_effect osr_effect merged_all by (simp add: h f)
  show "mode_of (bme_chip rom) (sleep_writes (bme_chip rom) ws) = mode_of (bme_chip rom) [(BME280_RESET_ADDR, 0xB6)]"
    unfolding sleep_writes_def config_effect osr_effect
    using bme_chip_reset [of rom "[]"] by (simp add: mode_of_def)
qed

text \<open>The sensor powers up asleep.\<close>

definition powers_up_asleep :: "(u8 \<Rightarrow> u8) \<Rightarrow> bool" where
  "powers_up_asleep rom \<longleftrightarrow> rom BME280_PWR_CTRL_ADDR AND 3 = BME280_SLEEP_MODE"

lemma awake_effect:
  assumes "powers_up_asleep rom"
  shows "settings_of (bme_chip rom) (awake_writes (bme_chip rom) ws) = settings_of (bme_chip rom) ws"
    and "mode_of (bme_chip rom) (awake_writes (bme_chip rom) ws) = BME280_SLEEP_MODE"
proof -
  have "mode_of (bme_chip rom) [(BME280_RESET_ADDR, 0xB6)] = BME280_SLEEP_MODE"
    using assms bme_chip_reset [of rom "[]"] by (simp add: mode_of_def powers_up_asleep_def)
  then show "settings_of (bme_chip rom) (awake_writes (bme_chip rom) ws) = settings_of (bme_chip rom) ws"
    and "mode_of (bme_chip rom) (awake_writes (bme_chip rom) ws) = BME280_SLEEP_MODE"
    by (simp_all add: awake_writes_def sleep_effect)
qed

lemma settings_effect:
  assumes "powers_up_asleep rom"
  shows "settings_of (bme_chip rom) (settings_writes sel q (bme_chip rom) ws) =
      merged sel q (settings_of (bme_chip rom) ws)"
    and "mode_of (bme_chip rom) (settings_writes sel q (bme_chip rom) ws) = BME280_SLEEP_MODE"
proof -
  have 18: "sel AND 0x18 = 0 \<longleftrightarrow> sel AND 8 = 0 \<and> sel AND 16 = (0 :: u8)"
    and 7: "sel AND 7 = 0 \<longleftrightarrow> sel AND 1 = 0 \<and> sel AND 2 = 0 \<and> sel AND 4 = (0 :: u8)"
    unfolding u8_all by (simp_all add: bit_simps)
  show "settings_of (bme_chip rom) (settings_writes sel q (bme_chip rom) ws) = merged sel q (settings_of (bme_chip rom) ws)"
    unfolding settings_writes_def Let_def
    by (cases "sel AND 7 = 0"; cases "sel AND 0x18 = 0")
      (simp_all add: config_effect osr_effect awake_effect [OF assms] merged_def 7 18)
  show "mode_of (bme_chip rom) (settings_writes sel q (bme_chip rom) ws) = BME280_SLEEP_MODE"
    unfolding settings_writes_def Let_def
    by (simp add: config_effect osr_effect awake_effect [OF assms])
qed

lemma mode_effect:
  assumes "powers_up_asleep rom"
  shows "settings_of (bme_chip rom) (mode_writes m (bme_chip rom) ws) = settings_of (bme_chip rom) ws"
    and "mode_of (bme_chip rom) (mode_writes m (bme_chip rom) ws) = m AND 3"
proof -
  let ?w = "awake_writes (bme_chip rom) ws"
  have "settings_of (bme_chip rom) (mode_writes m (bme_chip rom) ws) = settings_of (bme_chip rom) ?w"
    by (simp add: mode_writes_def Let_def settings_simps)
  then show "settings_of (bme_chip rom) (mode_writes m (bme_chip rom) ws) = settings_of (bme_chip rom) ws"
    by (simp add: awake_effect [OF assms])
  show "mode_of (bme_chip rom) (mode_writes m (bme_chip rom) ws) = m AND 3"
    by (simp add: mode_writes_def Let_def mode_of_def)
qed

text \<open>
  C8: settings can be written and read back. On a sensor that powers up asleep, in
  whatever mode it is, \<open>bme280_set_sensor_settings\<close> succeeds and leaves it asleep;
  \<open>bme280_get_sensor_settings\<close> then returns, for every setting selected, the low three bits of
  the value given, and for every other the value the sensor had: also when the sensor was
  awake and was reset on the way.
\<close>

theorem bme280_settings_roundtrip:
  assumes "bme_at d bus (bme_chip rom) ws s" and "powers_up_asleep rom"
    and "run_state (bme280_set_sensor_settings sel (Some d)) s = (r, t)"
    and "run_state (bme280_get_sensor_settings (Some d)) t = ((r', d'), u)"
  shows "r = BME280_OK \<and> r' = BME280_OK \<and>
    settings (the d') = merged sel (settings d) (settings_of (bme_chip rom) ws) \<and>
    fst (run_state (bme280_get_sensor_mode x (Some d)) u) = (BME280_OK, BME280_SLEEP_MODE)"
proof -
  let ?rv = "bme_chip rom" let ?w = "settings_writes sel (settings d) (bme_chip rom) ws"
  have w: "wired d" using assms(1) by (simp add: bme_at_def)
  have t: "r = BME280_OK" "bme_at d bus ?rv ?w t"
    using yieldsD [OF set_settings_dev [OF w] assms(1), of sel] assms(3) by auto
  have u: "r' = BME280_OK" "d' = Some (d\<lparr>settings := settings_of ?rv ?w\<rparr>)" "bme_at d bus ?rv ?w u"
    using yieldsD [OF get_settings_dev [OF w] t(2)] assms(4) by auto
  have "fst (run_state (bme280_get_sensor_mode x (Some d)) u) = (BME280_OK, mode_of ?rv ?w)"
    using yieldsD [OF get_mode_dev [OF w] u(3), of x] by auto
  with t u show ?thesis by (simp add: settings_effect [OF assms(2)])
qed

text \<open>A sensor with fixed contents, and a board it is wired to.\<close>

definition demo_dev :: bme280_dev where
  "demo_dev = zero_bme280_dev\<lparr>dev_id := 0x77, intf := BME280_I2C_INTF, read_fp := Some Fp_read_regs,
     write_fp := Some Fp_write_regs, delay_fp := Some Fp_my_delay_ms\<rparr>"

definition bme_board :: "string \<Rightarrow> u8 \<Rightarrow> ((u8 \<times> u8) list \<Rightarrow> u8 \<Rightarrow> u8) \<Rightarrow> bme_st" where
  "bme_board bus addr rv = \<lparr>hist = [],
     env = env0\<lparr>i2c_reply := \<lambda>h b ms. dev_answer rv (xfer_writes bus addr h) ms\<rparr>, heap = Map.empty,
     pin_irq_hdr_tab = init_irq_hdr_tab, pin_irq_enable_mask = 0, key1_isChanged = False, key2_isChanged = False,
     Ov7725_vsync = 0, flag_first = 0, filter_buffer = replicate 10 0, filter_sum = 0, i2c_bus_toBeUsed = bus\<rparr>"

lemma bme_board_i2c: "i2c_dev bus addr rv [] (bme_board bus addr rv)"
  by (simp add: i2c_dev_def bme_board_def)

lemma bme_board_at: "wired d \<Longrightarrow> bme_at d bus rv [] (bme_board bus (dev_id d) rv)"
  using bme_board_i2c [of bus "dev_id d" rv] by (simp add: bme_at_def bme_board_def)

lemma demo_dev_wired: "wired demo_dev" "dev_id demo_dev = 0x77"
  by (simp_all add: wired_def demo_dev_def)

lemma bme280_settings_roundtrip_witness:
  "settings (the (snd (fst (run_state (bme280_get_sensor_settings (Some (demo_dev\<lparr>settings := zero_settings\<lparr>osr_h := 0x0B, osr_t := 5\<rparr>\<rparr>)))
     (snd (run_state (bme280_set_sensor_settings BME280_OSR_HUM_SEL (Some (demo_dev\<lparr>settings := zero_settings\<lparr>osr_h := 0x0B, osr_t := 5\<rparr>\<rparr>)))
       (bme_board ''i2c1'' 0x77 (bme_chip (\<lambda>r. if r = 0xF4 then 0x20 else 0)))))))))
   = zero_settings\<lparr>osr_h := 3, osr_t := 1\<rparr>"
proof -
  let ?d = "demo_dev\<lparr>settings := zero_settings\<lparr>osr_h := 0x0B, osr_t := 5\<rparr>\<rparr>"
  let ?rom = "\<lambda>r. if r = (0xF4 :: u8) then 0x20 else (0 :: u8)"
  let ?s = "bme_board ''i2c1'' 0x77 (bme_chip ?rom)"
  have d: "wired ?d" "dev_id ?d = 0x77" by (simp_all add: demo_dev_wired)
  have s: "bme_at ?d ''i2c1'' (bme_chip ?rom) [] ?s" using bme_board_at [OF d(1)] d(2) by simp
  obtain r t r' d' u where m: "run_state (bme280_set_sensor_settings BME280_OSR_HUM_SEL (Some ?d)) ?s = (r, t)"
    "run_state (bme280_get_sensor_settings (Some ?d)) t = ((r', d'), u)" by (metis prod.exhaust)
  have "powers_up_asleep ?rom" by (simp add: powers_up_asleep_def)
  from bme280_settings_roundtrip [OF s this m]
  have "settings (the d') = merged BME280_OSR_HUM_SEL (settings ?d) (settings_of (bme_chip ?rom) [])" by simp
  also have "\<dots> = zero_settings\<lparr>osr_h := 3, osr_t := 1\<rparr>"
    by (simp add: merged_def settings_simps bit_fields zero_settings_def)
  finally show ?thesis using m by simp
qed

text \<open>
  Changing the power mode loses no setting. On a sensor that powers up asleep,
  \<open>bme280_set_sensor_mode\<close> succeeds from every mode, the sensor ends in the mode asked for, and
  its oversampling, filter and standby settings are what they were, although leaving
  another mode than sleep resets the sensor.
\<close>

theorem bme280_mode_keeps_settings:
  assumes "bme_at d bus (bme_chip rom) ws s" and "powers_up_asleep rom"
    and "run_state (bme280_set_sensor_mode m (Some d)) s = (r, t)"
  shows "r = BME280_OK \<and> fst (run_state (bme280_get_sensor_mode x (Some d)) t) = (BME280_OK, m AND 3) \<and>
    fst (run_state (bme280_get_sensor_settings (Some d)) t) = fst (run_state (bme280_get_sensor_settings (Some d)) s)"
proof -
  let ?rv = "bme_chip rom" let ?w = "mode_writes m (bme_chip rom) ws"
  have w: "wired d" using assms(1) by (simp add: bme_at_def)
  have t: "r = BME280_OK" "bme_at d bus ?rv ?w t"
    using yieldsD [OF set_mode_dev [OF w] assms(1), of m] assms(3) by auto
  have "fst (run_state (bme280_get_sensor_mode x (Some d)) t) = (BME280_OK, mode_of ?rv ?w)"
    using yieldsD [OF get_mode_dev [OF w] t(2), of x] by auto
  moreover have "fst (run_state (bme280_get_sensor_settings (Some d)) t) =
      (BME280_OK, Some (d\<lparr>settings := settings_of ?rv ?w\<rparr>))"
    using yieldsD [OF get_settings_dev [OF w] t(2)] by auto
  moreover have "fst (run_state (bme280_get_sensor_settings (Some d)) s) =
      (BME280_OK, Some (d\<lparr>settings := settings_of ?rv ws\<rparr>))"
    using yieldsD [OF get_settings_dev [OF w] assms(1)] by auto
  ultimately show ?thesis using t by (simp add: mode_effect [OF assms(2)])
qed

lemma bme280_mode_keeps_settings_witness:
  "fst (run_state (bme280_get_sensor_mode 0 (Some demo_dev))
     (snd (run_state (bme280_set_sensor_mode BME280_FORCED_MODE (Some demo_dev))
       (bme_board ''i2c1'' 0x77 (bme_chip (\<lambda>_. 0)))))) = (BME280_OK, BME280_FORCED_MODE)"
proof -
  have s: "bme_at demo_dev ''i2c1'' (bme_chip (\<lambda>_. 0)) [] (bme_board ''i2c1'' 0x77 (bme_chip (\<lambda>_. 0)))"
    using bme_board_at [OF demo_dev_wired(1)] by (simp add: demo_dev_wired(2))
  have "powers_up_asleep (\<lambda>_. 0)" by (simp add: powers_up_asleep_def)
  from bme280_mode_keeps_settings [OF s this surjective_pairing, of BME280_FORCED_MODE 0] show ?thesis by simp
qed

end
