(* ===== verification/Bme280_Selftest.thy ===== *)
theory Bme280_Selftest
  imports Bme280_Device
begin

text \<open>
  \<open>src/applications/Bosch_BME280_selftest.c\<close>: the sensor's calibration memory carries a
  checksum, which the driver recomputes.
\<close>

section \<open>The code\<close>

text \<open>One turn of the inner loop: the checksum register and the byte being shifted out.\<close>

definition crc_bit :: "u32 \<times> u8 \<Rightarrow> u32 \<times> u8" where
  "crc_bit = (\<lambda>(crc_reg, m).
     let din = (if (crc_reg AND 0x80 > 0) \<noteq> (m AND 0x80 > 0) then 1 else 0);
         crc_reg = push_bit 1 (crc_reg AND 0x7F);
         m = push_bit 1 (m AND 0x7F)
     in (crc_reg XOR 0x1D * din, m))"

definition crc_byte :: "u32 \<Rightarrow> u8 \<Rightarrow> u32" where
  "crc_byte crc_reg m = fst ((crc_bit ^^ 8) (crc_reg, m))"

text \<open>The buffer is shifted out; nothing looks at it afterwards.\<close>

definition crc_calculate :: "u8 list \<Rightarrow> u8" where
  "crc_calculate mem_values = ucast (foldl crc_byte 0xFF mem_values XOR 0xFF)"

abbreviation (input) BME280_CRC_DATA_ADDR :: u8 where "BME280_CRC_DATA_ADDR \<equiv> 0xE8"
abbreviation (input) BME280_CRC_CALIB1_ADDR :: u8 where "BME280_CRC_CALIB1_ADDR \<equiv> 0x88"
abbreviation (input) BME280_CRC_CALIB2_ADDR :: u8 where "BME280_CRC_CALIB2_ADDR \<equiv> 0xE1"
abbreviation (input) BME280_W_SELF_TEST_FAIL :: int where "BME280_W_SELF_TEST_FAIL \<equiv> 2"

definition bme280_crc_selftest :: "bme280_dev option \<Rightarrow> ('z bme_st_scheme, int) state" where
  "bme280_crc_selftest dev = do {
     j \<leftarrow> ask junk8;
     (rslt, stored) \<leftarrow> bme280_get_regs BME280_CRC_DATA_ADDR [j] dev;
     if rslt \<noteq> BME280_OK then ret rslt
     else do {
       (rslt, calib1) \<leftarrow> bme280_get_regs BME280_CRC_CALIB1_ADDR (replicate 26 j) dev;
       if rslt \<noteq> BME280_OK then ret rslt
       else do {
         (rslt, calib2) \<leftarrow> bme280_get_regs BME280_CRC_CALIB2_ADDR (replicate 7 j) dev;
         if rslt \<noteq> BME280_OK then ret rslt
         else ret (if hd stored = crc_calculate (calib1 @ calib2) then BME280_OK else BME280_W_SELF_TEST_FAIL)
       }
     }
   }"

section \<open>The checksum detects every change of one byte\<close>

text \<open>
  Shifting register and byte together is a shift register over their sum: the reference
  form of the checksum.
\<close>

definition lfsr :: "u8 \<Rightarrow> u8" where
  "lfsr d = push_bit 1 d XOR (if bit d 7 then 0x1D else 0)"

definition crc8 :: "u8 \<Rightarrow> u8 \<Rightarrow> u8" where
  "crc8 c m = (lfsr ^^ 8) (c XOR m)"

lemma and_7F: "a AND 0x7F = take_bit 7 a" for a :: "'w::len word"
  by (simp add: take_bit_eq_mask mask_eq_exp_minus_1)

lemma u8_bit_bound: "bit (c :: u8) n \<Longrightarrow> n < 8"
  using bit_imp_le_length [of c n] by simp

lemma shift_u32: "push_bit 1 (ucast c AND 0x7F :: u32) = ucast (push_bit 1 (c :: u8))"
  unfolding and_7F
  by (rule bit_word_eqI) (auto simp: bit_simps simp del: push_bit_Suc dest: u8_bit_bound)

lemma shift_u8: "push_bit 1 (m AND 0x7F) = push_bit 1 (m :: u8)"
  unfolding and_7F by (rule bit_word_eqI) (auto simp: bit_simps simp del: push_bit_Suc)

lemma crc_bit_eq: "crc_bit (ucast c, m) = (ucast (lfsr (c XOR m) XOR push_bit 1 m), push_bit 1 m)"
proof -
  have "(ucast c AND 0x80 > (0 :: u32)) = bit c 7"
    using and_exp_eq_0_iff_not_bit [of "ucast c :: u32" 7] by (simp add: word_gt_0 bit_simps)
  moreover have "(m AND 0x80 > 0) = bit m 7"
    using and_exp_eq_0_iff_not_bit [of m 7] by (simp add: word_gt_0)
  moreover have "ucast (push_bit 1 c) XOR 0x1D = (ucast (push_bit 1 c XOR 0x1D) :: u32)"
    by (simp add: unsigned_xor_eq)
  moreover have "lfsr (c XOR m) XOR push_bit 1 m = push_bit 1 c XOR (if bit c 7 \<noteq> bit m 7 then 0x1D else 0)"
    unfolding lfsr_def u8_all by (auto simp: bit_simps simp del: push_bit_Suc)
  ultimately show ?thesis
    unfolding crc_bit_def prod.case Let_def shift_u32 shift_u8 by (simp del: push_bit_Suc)
qed

lemma crc_bits_eq:
  "(crc_bit ^^ n) (ucast c, m) = (ucast ((lfsr ^^ n) (c XOR m) XOR push_bit n m), push_bit n m)"
proof (induction n)
  case 0
  show ?case by (simp add: xor.assoc)
next
  case (Suc n)
  have "((lfsr ^^ n) (c XOR m) XOR push_bit n m) XOR push_bit n m = (lfsr ^^ n) (c XOR m)"
    by (simp add: xor.assoc)
  with Suc show ?case by (simp add: crc_bit_eq del: push_bit_Suc)
qed

text \<open>The code's checksum is the reference form.\<close>

lemma crc_byte_eq: "crc_byte (ucast c) m = ucast (crc8 c m)"
proof -
  have "push_bit 8 m = 0" by (rule bit_word_eqI) (auto simp: bit_simps)
  then show ?thesis unfolding crc_byte_def crc8_def crc_bits_eq by simp
qed

lemma crc_fold_eq: "foldl crc_byte (ucast c) ms = ucast (foldl crc8 c ms)"
  by (induction ms arbitrary: c) (simp_all add: crc_byte_eq)

lemma ucast_u8_u32: "(ucast (ucast (b :: u8) :: u32) :: u8) = b"
  by (rule u8_eqI) (simp add: bit_simps)

lemma crc_calculate_eq: "crc_calculate ms = foldl crc8 0xFF ms XOR 0xFF"
  unfolding crc_calculate_def using crc_fold_eq [of "0xFF" ms] by (simp add: unsigned_xor_eq ucast_u8_u32)

lemma lfsr_inject: "lfsr a = lfsr b \<longleftrightarrow> a = b"
  unfolding lfsr_def u8_all by (auto simp: bit_simps simp del: push_bit_Suc split: if_splits)

lemma lfsr_pow_inject: "(lfsr ^^ n) a = (lfsr ^^ n) b \<longleftrightarrow> a = b"
  by (induction n) (simp_all add: lfsr_inject)

lemma xor_cancel: "a XOR x = b XOR x \<longleftrightarrow> a = (b :: u8)"
proof
  assume e: "a XOR x = b XOR x"
  have "(a XOR x) XOR x = (b XOR x) XOR x" by (simp only: e)
  then show "a = b" by (simp only: xor.assoc xor_self_eq xor.right_neutral)
qed simp

lemma crc8_inject: "crc8 c m = crc8 c' m \<longleftrightarrow> c = c'" "crc8 c m = crc8 c m' \<longleftrightarrow> m = m'"
  unfolding crc8_def lfsr_pow_inject using xor_cancel [of m c m'] by (simp_all add: xor_cancel xor.commute)

lemma crc_fold_inject: "foldl crc8 c ms = foldl crc8 c' ms \<longleftrightarrow> c = c'"
  by (induction ms arbitrary: c c') (simp_all add: crc8_inject)

text \<open>
  C39: the self-test notices a single corrupted byte. If two memory images of any length
  differ in exactly one byte, their checksums differ: \<open>crc_calculate\<close> is the CRC-8 with
  polynomial 0x1D, whose step is injective in the register and in the byte.
\<close>

theorem crc_detects_one_byte:
  "crc_calculate (xs @ [a] @ ys) = crc_calculate (xs @ [b] @ ys) \<longleftrightarrow> a = b"
proof -
  have "crc_calculate (xs @ [c] @ ys) = foldl crc8 (crc8 (foldl crc8 0xFF xs) c) ys XOR 0xFF" for c
    by (simp add: crc_calculate_eq)
  then show ?thesis by (simp add: xor_cancel crc_fold_inject crc8_inject)
qed

text \<open>The self-test of a sensor that answers.\<close>

definition image :: "((u8 \<times> u8) list \<Rightarrow> u8 \<Rightarrow> u8) \<Rightarrow> (u8 \<times> u8) list \<Rightarrow> u8 list" where
  "image rv ws = map (\<lambda>i. rv ws (0x88 + of_nat i)) [0..<26] @ map (\<lambda>i. rv ws (0xE1 + of_nat i)) [0..<7]"

lemma selftest_dev:
  "yields (bme_at d bus rv) ws (bme280_crc_selftest (Some d))
     (if rv ws BME280_CRC_DATA_ADDR = crc_calculate (image rv ws) then BME280_OK else BME280_W_SELF_TEST_FAIL) ws"
  unfolding bme280_crc_selftest_def image_def
  apply (rule yields_ask, rule yields_bind, rule reg_one)
  apply (simp only: prod.case simp_thms if_False)
  apply (rule yields_bind, rule bme_regs.rd_law, simp only: prod.case simp_thms if_False length_replicate)
  apply (rule yields_bind, rule bme_regs.rd_law, simp only: prod.case simp_thms if_False length_replicate list.sel)
  apply (rule yields_ret)
  done

end
