(* ===== verification/Bme280.thy ===== *)
theory Bme280
  imports Bme280_Selftest
begin

text \<open>
  \<open>src/applications/i2c_BME280.c\<close>: creating the weather sensor and taking a measurement. The
  device structure is on the heap; the driver's functions get the sensor structure inside
  it, and what they change of it is stored back.
\<close>

section \<open>The code\<close>

definition dev_of :: "nat \<Rightarrow> ('z board_scheme, bme280_dev option) state" where
  "dev_of a = do { d \<leftarrow> load_bme a; ret (Some (bme_dev d)) }"

definition update_dev :: "nat \<Rightarrow> bme280_dev option \<Rightarrow> ('z board_scheme, unit) state" where
  "update_dev a dev = do { d \<leftarrow> load_bme a; store_bme a (d\<lparr>bme_dev := the dev\<rparr>) }"

text \<open>The pointers stored in the sensor structure.\<close>

definition wire_dev :: "u8 \<Rightarrow> bme280_dev \<Rightarrow> bme280_dev" where
  "wire_dev addr d = d\<lparr>dev_id := addr, intf := BME280_I2C_INTF, read_fp := Some Fp_read_regs,
     write_fp := Some Fp_write_regs, delay_fp := Some Fp_my_delay_ms\<rparr>"

definition weather_settings :: "bme280_settings \<Rightarrow> bme280_settings" where
  "weather_settings q = q\<lparr>osr_t := 0x03, osr_h := 0x03, osr_p := 0x03, bme_filter := 0x00\<rparr>"

text \<open>From the wired structure to the running sensor; \<open>False\<close> is a failure.\<close>

definition start_sensor :: "nat \<Rightarrow> ('z bme_st_scheme, bool) state" where
  "start_sensor a = do {
     dev \<leftarrow> dev_of a;
     (r, dev) \<leftarrow> bme280_init dev;
     update_dev a dev;
     if r \<noteq> BME280_OK then ret False
     else do {
       dev \<leftarrow> dev_of a;
       r \<leftarrow> bme280_crc_selftest dev;
       if r \<noteq> BME280_OK then ret False
       else do {
         dev \<leftarrow> dev_of a;
         let dev = Some ((the dev)\<lparr>settings := weather_settings (settings (the dev))\<rparr>);
         update_dev a dev;
         r \<leftarrow> bme280_set_sensor_settings
           (BME280_OSR_TEMP_SEL OR BME280_OSR_PRESS_SEL OR BME280_OSR_HUM_SEL OR BME280_FILTER_SEL) dev;
         if r \<noteq> BME280_OK then ret False
         else do {
           dev \<leftarrow> dev_of a;
           r \<leftarrow> bme280_set_sensor_mode BME280_FORCED_MODE dev;
           ret (r = BME280_OK)
         }
       }
     }
   }"

definition my_bme280_init :: "string \<Rightarrow> u8 \<Rightarrow> ('z bme_st_scheme, nat option) state" where
  "my_bme280_init i2c_bus_name addr = do {
     p \<leftarrow> calloc_struct (Bme_struct zero_bme280_device);
     case p of
       None \<Rightarrow> ret None
     | Some a \<Rightarrow> do {
         t \<leftarrow> ask (\<lambda>e h. device_type e i2c_bus_name);
         d \<leftarrow> load_bme a;
         store_bme a (d\<lparr>bme_bus := i2c_bus_name\<rparr>);
         if t \<noteq> Some Device_Class_I2CBUS then do { rt_free a; ret None }
         else do {
           d \<leftarrow> load_bme a;
           store_bme a (d\<lparr>bme_i2c_addr := addr\<rparr>);
           d \<leftarrow> load_bme a;
           modify (\<lambda>s. s\<lparr>i2c_bus_toBeUsed := bme_bus d\<rparr>);
           store_bme a (d\<lparr>bme_dev := wire_dev addr (bme_dev d)\<rparr>);
           ok \<leftarrow> start_sensor a;
           if \<not> ok then do { rt_free a; ret None } else ret (Some a)
         }
       }
   }"

definition my_bme280_destroy :: "nat option \<Rightarrow> ('z board_scheme, unit) state" where
  "my_bme280_destroy bme280 = (case bme280 of None \<Rightarrow> fault AssertFailed | Some a \<Rightarrow> rt_free a)"

definition my_bme280_get_data :: "nat option \<Rightarrow> bme280_data \<Rightarrow> ('z bme_st_scheme, int \<times> bme280_data) state" where
  "my_bme280_get_data bme280 data =
     (case bme280 of
        None \<Rightarrow> ret (- RT_ERROR, data)
      | Some a \<Rightarrow> do {
          d \<leftarrow> load_bme a;
          modify (\<lambda>s. s\<lparr>i2c_bus_toBeUsed := bme_bus d\<rparr>);
          dev \<leftarrow> dev_of a;
          r \<leftarrow> bme280_set_sensor_mode BME280_FORCED_MODE dev;
          if r \<noteq> BME280_OK then ret (- RT_ERROR, data)
          else do {
            dev \<leftarrow> dev_of a;
            (r, data', dev) \<leftarrow> bme280_get_sensor_data BME280_ALL (Some data) dev;
            update_dev a dev;
            if r \<noteq> BME280_OK then ret (- RT_ERROR, the data') else ret (RT_EOK, the data')
          }
        })"

section \<open>What the driver leaves alone\<close>

text \<open>The driver only makes transfers and waits: it adds such events and changes no variable.\<close>

fun xfer_ev :: "ev \<Rightarrow> bool" where
  "xfer_ev (I2cXfer _ _ _) = True"
| "xfer_ev (Fault _) = True"
| "xfer_ev _ = False"

fun bme_ev :: "ev \<Rightarrow> bool" where
  "bme_ev (DelayMs _) = True"
| "bme_ev e = xfer_ev e"

lemma bme_ev_xfer: "xfer_ev e \<Longrightarrow> bme_ev e"
  by (cases e) auto

lemma xfer_appends: "appends xfer_ev m \<Longrightarrow> appends bme_ev m"
  by (erule appends_mono) (rule bme_ev_xfer)

lemma bme_ev_no_alloc: "bme_ev e \<Longrightarrow> no_alloc e"
  by (cases e) (auto simp: no_alloc_def)

lemma bme_appends: "appends bme_ev m \<Longrightarrow> extends no_alloc m"
  by (rule extends_appends, erule appends_mono) (rule bme_ev_no_alloc)

lemma appends_case_prod [frame_intros]: "(\<And>x y. appends P (f x y)) \<Longrightarrow> appends P (case_prod f v)"
  by (cases v) auto

lemma appends_com: "appends xfer_ev (call_com fp a r buf)"
  by (cases fp) (auto simp: bme_read_regs_def bme_write_regs_def i2c_read_regs_def i2c_write_regs_def
      rt_i2c_transfer_def Let_def intro!: frame_intros)

lemma appends_get_regs: "appends xfer_ev (bme280_get_regs r buf dev)"
  unfolding bme280_get_regs_def Let_def by (intro frame_intros appends_com)

lemma appends_set_regs: "appends xfer_ev (bme280_set_regs r buf n dev)"
  unfolding bme280_set_regs_def Let_def by (intro frame_intros appends_com)

lemma appends_get_mode: "appends xfer_ev (bme280_get_sensor_mode m dev)"
  unfolding bme280_get_sensor_mode_def by (intro frame_intros appends_get_regs)

lemma appends_power_mode: "appends xfer_ev (write_power_mode m dev)"
  unfolding write_power_mode_def by (intro frame_intros appends_get_regs appends_set_regs)

lemmas xfer_frames = appends_get_regs appends_set_regs appends_get_mode appends_power_mode

lemmas bme_frames = xfer_frames [THEN xfer_appends]

lemma appends_delay: "appends bme_ev (call_delay fp ms)"
  by (cases fp) (simp add: my_delay_ms_def rt_thread_mdelay_def appends_emit)

lemma appends_reset: "appends bme_ev (bme280_soft_reset dev)"
  unfolding bme280_soft_reset_def by (intro frame_intros bme_frames appends_delay)

lemma appends_osr: "appends bme_ev (set_osr_settings sel q dev)"
  unfolding set_osr_settings_def set_osr_humidity_settings_def set_osr_press_temp_settings_def Let_def
  by (intro frame_intros bme_frames)

lemma appends_filter: "appends bme_ev (set_filter_standby_settings sel q dev)"
  unfolding set_filter_standby_settings_def Let_def by (intro frame_intros bme_frames)

lemma appends_sleep: "appends bme_ev (ensure_sleep dev)"
  unfolding ensure_sleep_def put_device_to_sleep_def reload_device_settings_def Let_def
  by (intro frame_intros bme_frames appends_reset appends_osr appends_filter)

lemma appends_set_mode: "appends bme_ev (bme280_set_sensor_mode m dev)"
  unfolding bme280_set_sensor_mode_def by (intro frame_intros bme_frames appends_sleep)

lemma appends_set_settings: "appends bme_ev (bme280_set_sensor_settings sel dev)"
  unfolding bme280_set_sensor_settings_def by (intro frame_intros appends_sleep appends_osr appends_filter)

lemma appends_selftest: "appends bme_ev (bme280_crc_selftest dev)"
  unfolding bme280_crc_selftest_def by (intro frame_intros bme_frames)

lemma appends_attempts: "appends bme_ev (init_attempts n c dev)"
  by (induction n arbitrary: c)
    (auto simp: Let_def get_calib_data_def intro!: frame_intros bme_frames appends_reset appends_delay)

lemma appends_init: "appends bme_ev (bme280_init dev)"
  unfolding bme280_init_def by (intro frame_intros appends_attempts)

lemma compensate_faults: "appends is_fault (bme280_compensate_data sel u c)"
  unfolding bme280_compensate_data_def compensate_temperature_def double_to_i32_def fault_def Let_def
  by (intro frame_intros) simp

lemma is_fault_xfer: "is_fault e \<Longrightarrow> xfer_ev e"
  by (cases e) auto

lemma appends_compensate: "appends xfer_ev (bme280_compensate_data sel u c)"
  by (rule appends_mono, rule compensate_faults, rule is_fault_xfer)

lemma appends_sensor_data: "appends xfer_ev (bme280_get_sensor_data sel data dev)"
  unfolding bme280_get_sensor_data_def by (intro frame_intros appends_get_regs appends_compensate)

lemmas driver_frames = appends_set_mode appends_set_settings appends_selftest appends_init
  appends_sensor_data [THEN xfer_appends]

section \<open>Allocation\<close>

lemmas bme_extends [extend_intros] = driver_frames [THEN bme_appends]

lemma bme_mem_extends [extend_intros]:
  "extends no_alloc (load_bme a)" "extends no_alloc (store_bme a d)"
  "extends no_alloc (dev_of a)" "extends no_alloc (update_dev a dev)"
  unfolding dev_of_def update_dev_def load_bme_def store_bme_def by (intro extend_intros; simp)+

lemma start_extends [extend_intros]: "extends no_alloc (start_sensor a)"
  unfolding start_sensor_def Let_def by (intro extend_intros)

lemma bus_extends [extend_intros]: "extends P (modify (\<lambda>s. s\<lparr>i2c_bus_toBeUsed := b\<rparr>))"
  by (intro extend_intros) simp

lemma bme280_init_hands_out: "hands_out (my_bme280_init name addr)"
  unfolding my_bme280_init_def
  by (rule alloc_no_leak) (intro handover_rules extend_intros)

section \<open>Start-up on a sensor that answers\<close>

text \<open>The calibration data the registers hold.\<close>

definition calib_of :: "((u8 \<times> u8) list \<Rightarrow> u8 \<Rightarrow> u8) \<Rightarrow> (u8 \<times> u8) list \<Rightarrow> bme280_calib_data \<Rightarrow> bme280_calib_data" where
  "calib_of rv ws c =
     (let p = map (\<lambda>i. rv ws (BME280_TEMP_PRESS_CALIB_DATA_ADDR + of_nat i)) [0..<26];
          h = map (\<lambda>i. rv ws (BME280_HUMIDITY_CALIB_DATA_ADDR + of_nat i)) [0..<7]
      in parse_humidity_calib_data (h @ drop 7 p) (parse_temp_press_calib_data p c))"

lemma get_calib_dev:
  "yields (bme_at d bus rv) ws (get_calib_data (Some d))
     (BME280_OK, Some (d\<lparr>calib_data := calib_of rv ws (calib_data d)\<rparr>)) ws"
proof -
  have "yields (bme_at (d\<lparr>calib_data := c\<rparr>) bus rv) ws
      (bme280_get_regs r (take 7 (map f [0..<26])) (Some (d\<lparr>calib_data := c\<rparr>)))
      (BME280_OK, map (\<lambda>i. rv ws (r + of_nat i)) [0..<7]) ws" for c r f
    using bme_regs.rd_law [of "d\<lparr>calib_data := c\<rparr>" bus rv ws r "take 7 (map f [0..<26])"] by simp
  note rd7 = this [unfolded bme_at_updates]
  show ?thesis
    unfolding get_calib_data_def Let_def calib_of_def
    apply (rule yields_bind, rule bme_regs.rd_law)
    apply (simp only: prod.case simp_thms if_False length_replicate option.sel)
    apply (rule yields_bind, rule rd7)
    apply (simp only: prod.case simp_thms if_True)
    apply (simp add: yields_ret del: upt.simps)
    done
qed

definition started :: "((u8 \<times> u8) list \<Rightarrow> u8 \<Rightarrow> u8) \<Rightarrow> (u8 \<times> u8) list \<Rightarrow> bme280_dev \<Rightarrow> bme280_dev" where
  "started rv ws d = d\<lparr>chip_id := BME280_CHIP_ID, calib_data := calib_of rv ws (calib_data d)\<rparr>"

lemma init_good_dev:
  assumes "wired d" and "rv ws BME280_CHIP_ID_ADDR = BME280_CHIP_ID"
  shows "yields (bme_at d bus rv) ws (bme280_init (Some d))
    (BME280_OK, Some (started rv (ws @ [(BME280_RESET_ADDR, 0xB6)]) d)) (ws @ [(BME280_RESET_ADDR, 0xB6)])"
proof -
  let ?d = "d\<lparr>chip_id := BME280_CHIP_ID\<rparr>"
  have n5: "(5 :: nat) = Suc 4" by simp
  have w: "wired ?d" using assms(1) by simp
  have r: "yields (bme_at d bus rv) ws (bme280_soft_reset (Some ?d)) BME280_OK (ws @ [(BME280_RESET_ADDR, 0xB6)])"
    using soft_reset_dev [OF w, of bus rv ws] by simp
  have c: "yields (bme_at d bus rv) v (get_calib_data (Some ?d)) (BME280_OK, Some (started rv v d)) v" for v
    using get_calib_dev [of ?d bus rv v] by (simp add: started_def)
  show ?thesis
    unfolding bme280_init_def null_ptr_check_wired [OF assms(1)] simp_thms if_False n5 init_attempts.simps Let_def
    apply (rule yields_bind, rule reg_one)
    apply (simp only: prod.case list.sel assms(2) simp_thms if_True option.sel)
    apply (rule yields_bind, rule r)
    apply (simp only: simp_thms if_True, rule c)
    done
qed

lemma attempts_bad_dev:
  assumes "wired d" and "rv ws BME280_CHIP_ID_ADDR \<noteq> BME280_CHIP_ID"
  shows "yields (bme_at d bus rv) ws (init_attempts n c (Some d)) (BME280_E_DEV_NOT_FOUND, Some d) ws"
proof (induction n arbitrary: c)
  case 0
  show ?case by (simp add: yields_ret)
next
  case (Suc n)
  show ?case
    unfolding init_attempts.simps
    apply (rule yields_bind, rule reg_one)
    apply (simp only: prod.case list.sel assms(2) simp_thms if_False option.sel)
    apply (rule yields_bind, rule delay_bme [OF assms(1)], rule Suc.IH)
    done
qed

lemma init_bad_dev:
  assumes "wired d" and "rv ws BME280_CHIP_ID_ADDR \<noteq> BME280_CHIP_ID"
  shows "yields (bme_at d bus rv) ws (bme280_init (Some d)) (BME280_E_DEV_NOT_FOUND, Some d) ws"
  unfolding bme280_init_def null_ptr_check_wired [OF assms(1)] simp_thms if_False
  by (rule attempts_bad_dev; fact assms)

text \<open>One attempt on a sensor with another identifier: the register is read into a byte that holds \<open>c\<close>, then a millisecond passes.\<close>

definition id_poll :: "string \<Rightarrow> u8 \<Rightarrow> u8 \<Rightarrow> ev list" where
  "id_poll bus addr c =
     [I2cXfer bus [\<lparr>m_addr = ucast addr, m_flags = RT_I2C_WR, m_len = 1, m_buf = [BME280_CHIP_ID_ADDR]\<rparr>,
        \<lparr>m_addr = ucast addr, m_flags = RT_I2C_RD, m_len = 1, m_buf = [c]\<rparr>] 2, DelayMs 1]"

lemma run_id_poll:
  assumes "bme_at d bus rv ws s"
  shows "run_state (do { x \<leftarrow> bme280_get_regs BME280_CHIP_ID_ADDR [c] (Some d); call_delay (the (delay_fp d)) 1; ret x }) s =
    ((BME280_OK, [rv ws BME280_CHIP_ID_ADDR]), s\<lparr>hist := hist s @ id_poll bus (dev_id d) c\<rparr>)"
proof -
  have w: "wired d" and b: "i2c_bus_toBeUsed s = bus" and i: "i2c_dev bus (dev_id d) rv ws s" using assms by (simp_all add: bme_at_def)
  obtain t where t: "run_state (bme280_get_regs BME280_CHIP_ID_ADDR [c] (Some d)) s = ((BME280_OK, [rv ws BME280_CHIP_ID_ADDR]), t)"
    using yieldsD [OF reg_one assms] by blast
  let ?ms = "[\<lparr>m_addr = ucast (dev_id d), m_flags = RT_I2C_WR, m_len = 1, m_buf = [BME280_CHIP_ID_ADDR]\<rparr>,
    \<lparr>m_addr = ucast (dev_id d), m_flags = RT_I2C_RD, m_len = 1, m_buf = [c]\<rparr>]"
  have "fst (i2c_reply (env s) (hist s) bus ?ms) = 2" using i by (simp add: i2c_dev_def dev_answer_def)
  then have "t = s\<lparr>hist := hist s @ [I2cXfer bus ?ms 2]\<rparr>"
    using t w b by (simp add: bme280_get_regs_def null_ptr_check_wired wired_def bme_read_regs_def i2c_read_regs_def rt_i2c_transfer_def Let_def split_beta)
  then show ?thesis using t w by (simp add: wired_def my_delay_ms_def id_poll_def)
qed

lemma attempts_polls:
  assumes "rv ws BME280_CHIP_ID_ADDR \<noteq> BME280_CHIP_ID"
  shows "bme_at d bus rv ws s \<Longrightarrow> run_state (init_attempts n c (Some d)) s =
    ((BME280_E_DEV_NOT_FOUND, Some d),
     s\<lparr>hist := hist s @ concat (map (id_poll bus (dev_id d)) (take n (c # replicate n (rv ws BME280_CHIP_ID_ADDR))))\<rparr>)"
proof (induction n arbitrary: c s)
  case (Suc n)
  let ?id = "rv ws BME280_CHIP_ID_ADDR" and ?s = "s\<lparr>hist := hist s @ id_poll bus (dev_id d) c\<rparr>"
  have w: "wired d" using Suc.prems by (simp add: bme_at_def)
  have "bme_at d bus rv ws ?s" using Suc.prems by (simp add: bme_at_def i2c_dev_def id_poll_def is_read_def)
  note ih = Suc.IH [OF this, of ?id]
  have "run_state (init_attempts (Suc n) c (Some d)) s = run_state (init_attempts n ?id (Some d)) ?s"
    using run_id_poll [OF Suc.prems, of c] assms by (auto simp: split_beta Let_def)
  then show ?case unfolding ih by (simp add: take_Cons' replicate_append_same [symmetric] split: nat.split)
qed simp

text \<open>
  C17: \<open>bme280_init\<close> decides by the chip identifier. On a sensor that answers it always
  returns. If register 0xD0 reads 0x60 it succeeds, having written the reset command and
  nothing else, and the structure holds the calibration data the registers have after the
  reset; if not, it gives up with \<open>BME280_E_DEV_NOT_FOUND\<close> after exactly five
  attempts, each a read of the register and a millisecond of delay, having written nothing and changed nothing.
\<close>

theorem bme280_init_outcome:
  assumes "bme_at d bus rv ws s" and "run_state (bme280_init (Some d)) s = ((r, d'), t)"
  shows "let ws' = xfer_writes bus (dev_id d) (hist t); w = ws @ [(BME280_RESET_ADDR, 0xB6)] in
    if rv ws BME280_CHIP_ID_ADDR = BME280_CHIP_ID
    then r = BME280_OK \<and> ws' = w \<and>
      d' = Some (d\<lparr>chip_id := BME280_CHIP_ID, calib_data := calib_of rv w (calib_data d)\<rparr>)
    else r = BME280_E_DEV_NOT_FOUND \<and> ws' = ws \<and> d' = Some d \<and>
      hist t = hist s @ concat (map (id_poll bus (dev_id d)) [0, rv ws BME280_CHIP_ID_ADDR, rv ws BME280_CHIP_ID_ADDR,
        rv ws BME280_CHIP_ID_ADDR, rv ws BME280_CHIP_ID_ADDR])"
proof -
  have w: "wired d" using assms(1) by (simp add: bme_at_def)
  have polls: "hist t = hist s @ concat (map (id_poll bus (dev_id d)) [0, rv ws BME280_CHIP_ID_ADDR, rv ws BME280_CHIP_ID_ADDR,
      rv ws BME280_CHIP_ID_ADDR, rv ws BME280_CHIP_ID_ADDR])" if "rv ws BME280_CHIP_ID_ADDR \<noteq> BME280_CHIP_ID"
    using assms(2) attempts_polls [OF that assms(1), of 5 0] null_ptr_check_wired [OF w]
    by (simp add: bme280_init_def eval_nat_numeral del: init_attempts.simps)
  show ?thesis
    using yieldsD [OF init_good_dev [OF w] assms(1)] yieldsD [OF init_bad_dev [OF w] assms(1)] assms(2) polls
    by (auto simp: Let_def bme_at_def i2c_dev_def started_def)
qed

lemma bme280_init_outcome_witness:
  "fst (fst (run_state (bme280_init (Some demo_dev)) (bme_board ''i2c1'' 0x77 (\<lambda>_ r. if r = 0xD0 then 0x60 else 0)))) = BME280_OK \<and>
   fst (fst (run_state (bme280_init (Some demo_dev)) (bme_board ''i2c1'' 0x77 (\<lambda>_ r. 0x58)))) = BME280_E_DEV_NOT_FOUND"
proof -
  have s: "bme_at demo_dev ''i2c1'' rv [] (bme_board ''i2c1'' 0x77 rv)" for rv
    using bme_board_at [OF demo_dev_wired(1)] by (simp add: demo_dev_wired(2))
  obtain r d t r' d' t' where
    m: "run_state (bme280_init (Some demo_dev)) (bme_board ''i2c1'' 0x77 (\<lambda>_ r. if r = 0xD0 then 0x60 else 0)) = ((r, d), t)"
    "run_state (bme280_init (Some demo_dev)) (bme_board ''i2c1'' 0x77 (\<lambda>_ r. 0x58)) = ((r', d'), t')"
    by (metis prod.exhaust)
  from bme280_init_outcome [OF s m(1)] bme280_init_outcome [OF s m(2)] m show ?thesis
    by (simp add: Let_def)
qed

section \<open>A structure on the heap and its sensor\<close>

text \<open>
  The structure at \<open>a\<close> holds \<open>ds\<close>, its sensor has taken the writes \<open>ws\<close>, and since \<open>h0\<close> only
  events of kind \<open>P\<close> happened.
\<close>

definition held :: "(ev \<Rightarrow> bool) \<Rightarrow> ev list \<Rightarrow> nat \<Rightarrow> ((u8 \<times> u8) list \<Rightarrow> u8 \<Rightarrow> u8) \<Rightarrow>
    bme280_device_struct \<times> (u8 \<times> u8) list \<Rightarrow> 'z bme_st_scheme \<Rightarrow> bool" where
  "held P h0 a rv k s \<longleftrightarrow> a \<in> live (hist s) \<and> heap s a = Some (Bme_struct (fst k)) \<and>
     bme_at (bme_dev (fst k)) (bme_bus (fst k)) rv (snd k) s \<and>
     (\<exists>es. hist s = h0 @ es \<and> list_all P es)"

lemma held_lift:
  fixes m :: "('z bme_st_scheme, 'a) state"
  assumes "yields (bme_at (bme_dev ds) (bme_bus ds) rv) ws m x ws'" and "appends P m"
    and "\<And>e. P e \<Longrightarrow> no_alloc e"
  shows "yields (held P h0 a rv) (ds, ws) m x (ds, ws')"
proof (rule yieldsI)
  fix s :: "'z bme_st_scheme" assume h: "held P h0 a rv (ds, ws) s"
  then have "bme_at (bme_dev ds) (bme_bus ds) rv ws s" by (simp add: held_def)
  from yieldsD [OF assms(1) this] obtain t
    where t: "run_state m s = (x, t)" "bme_at (bme_dev ds) (bme_bus ds) rv ws' t" by blast
  obtain es where es: "t = s\<lparr>hist := hist s @ es\<rparr>" "list_all P es"
    using appendsD [OF assms(2) t(1)] .
  from es(2) assms(3) have "list_all no_alloc es" by (auto simp: list_all_iff)
  then have "live (hist t) = live (hist s)" by (simp add: es(1) live_no_alloc)
  with h t es show "\<exists>t. run_state m s = (x, t) \<and> held P h0 a rv (ds, ws') t"
    by (auto simp: held_def list_all_iff)
qed

lemmas held_bme = held_lift [where P = bme_ev, OF _ _ bme_ev_no_alloc]

lemma xfer_no_alloc: "xfer_ev e \<Longrightarrow> no_alloc e"
  by (rule bme_ev_no_alloc, rule bme_ev_xfer)

lemmas held_xfer = held_lift [where P = xfer_ev, OF _ _ xfer_no_alloc]

lemma held_dev_of: "yields (held P h0 a rv) (ds, ws) (dev_of a) (Some (bme_dev ds)) (ds, ws)"
  by (simp add: yields_def held_def dev_of_def load_bme_def run_deref)

lemma held_update:
  assumes "wired d = wired (bme_dev ds)" and "dev_id d = dev_id (bme_dev ds)"
  shows "yields (held P h0 a rv) (ds, ws) (update_dev a (Some d)) () (ds\<lparr>bme_dev := d\<rparr>, ws)"
  using assms by (simp add: yields_def held_def update_dev_def load_bme_def store_bme_def run_deref bme_at_def i2c_dev_def)

text \<open>The structure after the start-up, and the writes.\<close>

definition ready :: "((u8 \<times> u8) list \<Rightarrow> u8 \<Rightarrow> u8) \<Rightarrow> (u8 \<times> u8) list \<Rightarrow> bme280_dev \<Rightarrow> bme280_dev" where
  "ready rv ws d = (started rv ws d)\<lparr>settings := weather_settings (settings d)\<rparr>"

definition start_writes :: "bme280_settings \<Rightarrow> ((u8 \<times> u8) list \<Rightarrow> u8 \<Rightarrow> u8) \<Rightarrow> (u8 \<times> u8) list \<Rightarrow> (u8 \<times> u8) list" where
  "start_writes q rv ws = mode_writes BME280_FORCED_MODE rv
     (settings_writes (BME280_OSR_TEMP_SEL OR BME280_OSR_PRESS_SEL OR BME280_OSR_HUM_SEL OR BME280_FILTER_SEL)
       (weather_settings q) rv ws)"

lemma started_simps [simp]:
  "wired (started rv ws d) = wired d" "dev_id (started rv ws d) = dev_id d" "settings (started rv ws d) = settings d"
  by (simp_all add: started_def)

lemma ready_simps [simp]: "wired (ready rv ws d) = wired d" "dev_id (ready rv ws d) = dev_id d"
  "settings (ready rv ws d) = weather_settings (settings d)"
  by (simp_all add: ready_def)

lemma init_held:
  assumes "wired (bme_dev ds)" and "rv ws BME280_CHIP_ID_ADDR = BME280_CHIP_ID"
  shows "yields (held bme_ev h0 a rv) (ds, ws) (bme280_init (Some (bme_dev ds)))
    (BME280_OK, Some (started rv (ws @ [(BME280_RESET_ADDR, 0xB6)]) (bme_dev ds))) (ds, ws @ [(BME280_RESET_ADDR, 0xB6)])"
  by (rule held_bme, rule init_good_dev; (fact assms)?) (rule appends_init)

lemma selftest_held:
  assumes "rv ws BME280_CRC_DATA_ADDR = crc_calculate (image rv ws)"
  shows "yields (held bme_ev h0 a rv) (ds, ws) (bme280_crc_selftest (Some (bme_dev ds))) BME280_OK (ds, ws)"
proof (rule held_bme [OF _ appends_selftest])
  show "yields (bme_at (bme_dev ds) (bme_bus ds) rv) ws (bme280_crc_selftest (Some (bme_dev ds))) BME280_OK ws"
    using selftest_dev [of "bme_dev ds" "bme_bus ds" rv ws] by (simp add: assms)
qed

lemma set_settings_held:
  assumes "wired (bme_dev ds)"
  shows "yields (held bme_ev h0 a rv) (ds, ws) (bme280_set_sensor_settings sel (Some (bme_dev ds))) BME280_OK
    (ds, settings_writes sel (settings (bme_dev ds)) rv ws)"
  by (rule held_bme, rule set_settings_dev, rule assms, rule appends_set_settings)

lemma set_mode_held:
  assumes "wired (bme_dev ds)"
  shows "yields (held bme_ev h0 a rv) (ds, ws) (bme280_set_sensor_mode m (Some (bme_dev ds))) BME280_OK
    (ds, mode_writes m rv ws)"
  by (rule held_bme, rule set_mode_dev, rule assms, rule appends_set_mode)

lemma start_dev:
  fixes ds rv ws
  defines "w \<equiv> ws @ [(BME280_RESET_ADDR, 0xB6)]"
  assumes "wired (bme_dev ds)" and "rv ws BME280_CHIP_ID_ADDR = BME280_CHIP_ID"
    and "rv w BME280_CRC_DATA_ADDR = crc_calculate (image rv w)"
  shows "yields (held bme_ev h0 a rv) (ds, ws) (start_sensor a) True
    (ds\<lparr>bme_dev := ready rv w (bme_dev ds)\<rparr>, start_writes (settings (bme_dev ds)) rv w)"
proof -
  let ?d1 = "ds\<lparr>bme_dev := started rv w (bme_dev ds)\<rparr>"
  let ?d2 = "ds\<lparr>bme_dev := ready rv w (bme_dev ds)\<rparr>"
  have w: "wired (bme_dev ?d1)" "wired (bme_dev ?d2)" using assms(2) by simp_all
  have u1: "yields (held bme_ev h0 a rv) (ds, w) (update_dev a (Some (started rv w (bme_dev ds)))) () (?d1, w)"
    by (rule held_update) simp_all
  have u2: "yields (held bme_ev h0 a rv) (?d1, w) (update_dev a (Some (ready rv w (bme_dev ds)))) () (?d2, w)"
    using held_update [of "ready rv w (bme_dev ds)" ?d1 bme_ev h0 a rv w] by simp
  let ?w = "settings_writes (BME280_OSR_TEMP_SEL OR BME280_OSR_PRESS_SEL OR BME280_OSR_HUM_SEL OR BME280_FILTER_SEL)
    (weather_settings (settings (bme_dev ds))) rv w"
  have c: "yields (held bme_ev h0 a rv) (?d2, w) (bme280_set_sensor_settings (BME280_OSR_TEMP_SEL OR BME280_OSR_PRESS_SEL
      OR BME280_OSR_HUM_SEL OR BME280_FILTER_SEL) (Some (ready rv w (bme_dev ds)))) BME280_OK (?d2, ?w)"
    using set_settings_held [OF w(2)] by simp
  have m: "yields (held bme_ev h0 a rv) (?d2, ?w) (bme280_set_sensor_mode BME280_FORCED_MODE (Some (bme_dev ?d2)))
      BME280_OK (?d2, start_writes (settings (bme_dev ds)) rv w)"
    unfolding start_writes_def by (rule set_mode_held [OF w(2)])
  have r: "(the (Some (bme_dev ?d1)))\<lparr>settings := weather_settings (settings (the (Some (bme_dev ?d1))))\<rparr> =
      ready rv w (bme_dev ds)" by (simp add: ready_def)
  have i: "yields (held bme_ev h0 a rv) (ds, ws) (bme280_init (Some (bme_dev ds)))
      (BME280_OK, Some (started rv w (bme_dev ds))) (ds, w)"
    unfolding w_def by (rule init_held; fact assms)
  show ?thesis
    unfolding start_sensor_def Let_def
    apply (rule yields_bind, rule held_dev_of, rule yields_bind, rule i)
    apply (simp only: prod.case simp_thms if_False)
    apply (rule yields_bind, rule u1, rule yields_bind, rule held_dev_of)
    apply (rule yields_bind, rule selftest_held, rule assms(4))
    apply (simp only: simp_thms if_False)
    apply (rule yields_bind, rule held_dev_of)
    apply (simp only: r)
    apply (rule yields_bind, rule u2, rule yields_bind, rule c)
    apply (simp only: simp_thms if_False)
    apply (rule yields_bind, rule held_dev_of, rule yields_bind, rule m)
    apply (simp only: simp_thms, rule yields_ret)
    done
qed

text \<open>Creating the sensor on such a device, up to the contents of the structure and the registers written.\<close>

lemma my_bme280_init_held:
  assumes "i2c_dev name addr (bme_chip rom) ws s" and "bme_chip rom ws BME280_CHIP_ID_ADDR = BME280_CHIP_ID"
    and "rom BME280_CRC_DATA_ADDR = crc_calculate (image (\<lambda>_. rom) [])"
    and "device_type (env s) name = Some Device_Class_I2CBUS" and "alloc_ok (env s) (hist s)"
  obtains a d h t where "run_state (my_bme280_init name addr) s = (Some a, t)" and "d = wire_dev addr zero_bme280_dev"
    and "held bme_ev h a (bme_chip rom) (\<lparr>bme_bus = name, bme_i2c_addr = addr,
        bme_dev = ready (bme_chip rom) (ws @ [(BME280_RESET_ADDR, 0xB6)]) d\<rparr>,
      start_writes (settings d) (bme_chip rom) (ws @ [(BME280_RESET_ADDR, 0xB6)])) t"
proof -
  let ?rv = "bme_chip rom" let ?a = "fresh_addr (hist s)"
  let ?d = "wire_dev addr zero_bme280_dev"
  let ?ds = "\<lparr>bme_bus = name, bme_i2c_addr = addr, bme_dev = ?d\<rparr>"
  define s1 where "s1 = s\<lparr>hist := hist s @ [Alloc ?a], i2c_bus_toBeUsed := name,
    heap := (heap s)(?a \<mapsto> Bme_struct ?ds)\<rparr>"
  have d: "wired (bme_dev ?ds)" "dev_id ?d = addr"
    by (simp_all add: wire_dev_def wired_def zero_bme280_dev_def)
  have run: "run_state (my_bme280_init name addr) s =
      run_state (do { ok \<leftarrow> start_sensor ?a; if \<not> ok then do { rt_free ?a; ret None } else ret (Some ?a) }) s1"
    using assms(4,5)
    by (simp add: my_bme280_init_def calloc_struct_def run_rt_calloc load_bme_def store_bme_def run_deref s1_def
        zero_bme280_device_def)
  have "held bme_ev (hist s1) ?a ?rv (?ds, ws) s1"
    using assms(1) d by (simp add: held_def s1_def bme_at_def i2c_dev_def)
  moreover have "yields (held bme_ev (hist s1) ?a ?rv) (?ds, ws) (start_sensor ?a) True
    (?ds\<lparr>bme_dev := ready ?rv (ws @ [(BME280_RESET_ADDR, 0xB6)]) ?d\<rparr>, start_writes (settings ?d) ?rv (ws @ [(BME280_RESET_ADDR, 0xB6)]))"
    using start_dev [OF d(1), of ?rv ws "hist s1" ?a] assms(2,3) by (simp add: image_def)
  ultimately obtain t' where t': "run_state (start_sensor ?a) s1 = (True, t')"
    "held bme_ev (hist s1) ?a ?rv (?ds\<lparr>bme_dev := ready ?rv (ws @ [(BME280_RESET_ADDR, 0xB6)]) ?d\<rparr>,
      start_writes (settings ?d) ?rv (ws @ [(BME280_RESET_ADDR, 0xB6)])) t'"
    by (blast dest: yieldsD)
  then show ?thesis using that [of ?a t' ?d "hist s1"] run by simp
qed

text \<open>
  C16: creating the sensor configures it. On a bus where a BME280 answers at \<open>addr\<close> (chip
  identifier 0x60, a checksum that fits its calibration data, asleep after power-up) and
  when memory is left, \<open>my_bme280_init\<close> returns a live structure that holds the calibration data
  of the sensor, and the sensor is in forced mode with fourfold oversampling of all three
  quantities and no filter; its standby time is as after power-up.
\<close>

theorem my_bme280_init_configures:
  assumes "i2c_dev name addr (bme_chip rom) ws s" and "powers_up_asleep rom"
    and "bme_chip rom ws BME280_CHIP_ID_ADDR = BME280_CHIP_ID"
    and "rom BME280_CRC_DATA_ADDR = crc_calculate (image (\<lambda>_. rom) [])"
    and "device_type (env s) name = Some Device_Class_I2CBUS" and "alloc_ok (env s) (hist s)"
    and "run_state (my_bme280_init name addr) s = (p, t)"
  shows "\<exists>a ds. p = Some a \<and> a \<in> live (hist t) \<and> heap t a = Some (Bme_struct ds) \<and>
    bme_bus ds = name \<and> dev_id (bme_dev ds) = addr \<and> wired (bme_dev ds) \<and>
    calib_data (bme_dev ds) = calib_of (\<lambda>_. rom) [] zero_calib \<and>
    (let w = xfer_writes name addr (hist t) in mode_of (bme_chip rom) w = BME280_FORCED_MODE \<and>
      settings_of (bme_chip rom) w = \<lparr>osr_p = 3, osr_t = 3, osr_h = 3, bme_filter = 0,
        standby_time = BME280_GET_BITS (rom BME280_CONFIG_ADDR) 0xE0 5\<rparr>)"
proof -
  obtain a d h t' where c: "run_state (my_bme280_init name addr) s = (Some a, t')" "d = wire_dev addr zero_bme280_dev"
    "held bme_ev h a (bme_chip rom) (\<lparr>bme_bus = name, bme_i2c_addr = addr,
        bme_dev = ready (bme_chip rom) (ws @ [(BME280_RESET_ADDR, 0xB6)]) d\<rparr>,
      start_writes (settings d) (bme_chip rom) (ws @ [(BME280_RESET_ADDR, 0xB6)])) t'"
    using assms(1,3-6) by (rule my_bme280_init_held)
  let ?rv = "bme_chip rom"
  have d: "wired d" "dev_id d = addr" "calib_data d = zero_calib" "settings d = zero_settings"
    by (simp_all add: c(2) wire_dev_def wired_def zero_bme280_dev_def)
  have "p = Some a" "t = t'" using assms(7) c(1) by simp_all
  moreover have "xfer_writes name addr (hist t') = start_writes (settings d) ?rv (ws @ [(BME280_RESET_ADDR, 0xB6)])"
    using c(3) d by (simp add: held_def bme_at_def i2c_dev_def)
  moreover have "a \<in> live (hist t')" "heap t' a = Some (Bme_struct
      \<lparr>bme_bus = name, bme_i2c_addr = addr, bme_dev = ready ?rv (ws @ [(BME280_RESET_ADDR, 0xB6)]) d\<rparr>)"
    using c(3) by (simp_all add: held_def)
  moreover have "mode_of ?rv (start_writes q ?rv v) = BME280_FORCED_MODE" for q v
    by (simp add: start_writes_def mode_effect [OF assms(2)])
  moreover have "settings_of ?rv (start_writes q ?rv v) = merged 0x0F (weather_settings q) (settings_of ?rv v)" for q v
    by (simp add: start_writes_def mode_effect [OF assms(2)] settings_effect [OF assms(2)])
  then have "settings_of ?rv (start_writes q ?rv (ws @ [(BME280_RESET_ADDR, 0xB6)])) = \<lparr>osr_p = 3, osr_t = 3,
      osr_h = 3, bme_filter = 0, standby_time = BME280_GET_BITS (rom BME280_CONFIG_ADDR) 0xE0 5\<rparr>" for q
    by (simp add: merged_def weather_settings_def settings_simps)
  moreover have "calib_data (ready ?rv (ws @ [(BME280_RESET_ADDR, 0xB6)]) d) = calib_of (\<lambda>_. rom) [] zero_calib"
    using d(3) by (simp add: ready_def started_def calib_of_def)
  ultimately show ?thesis using d by (auto simp: Let_def)
qed

text \<open>A sensor with only zeros in its calibration registers.\<close>

definition demo_rom :: "u8 \<Rightarrow> u8" where
  "demo_rom r = (if r = BME280_CHIP_ID_ADDR then BME280_CHIP_ID
     else if r = BME280_CRC_DATA_ADDR then crc_calculate (replicate 26 0 @ replicate 7 0) else 0)"

lemma demo_rom: "powers_up_asleep demo_rom" "demo_rom BME280_CHIP_ID_ADDR = BME280_CHIP_ID"
  "demo_rom BME280_CRC_DATA_ADDR = crc_calculate (image (\<lambda>_. demo_rom) [])"
proof -
  have "map (\<lambda>i. demo_rom (0x88 + of_nat i)) [0..<26] = map (\<lambda>_. 0) [0..<26]"
    by (simp add: demo_rom_def upt_rec)
  moreover have "map (\<lambda>i. demo_rom (0xE1 + of_nat i)) [0..<7] = map (\<lambda>_. 0) [0..<7]"
    by (simp add: demo_rom_def upt_rec)
  ultimately show "demo_rom BME280_CRC_DATA_ADDR = crc_calculate (image (\<lambda>_. demo_rom) [])"
    unfolding image_def map_replicate_const by (simp add: demo_rom_def)
qed (simp_all add: powers_up_asleep_def demo_rom_def)

lemma my_bme280_init_configures_witness:
  "\<exists>a. fst (run_state (my_bme280_init ''i2c1'' 0x77) (bme_board ''i2c1'' 0x77 (bme_chip demo_rom))) = Some a"
proof -
  let ?s = "bme_board ''i2c1'' 0x77 (bme_chip demo_rom)"
  have e: "device_type (env ?s) ''i2c1'' = Some Device_Class_I2CBUS" "alloc_ok (env ?s) (hist ?s)"
    by (simp_all add: bme_board_def env0_def)
  have d: "bme_chip demo_rom [] 0xD0 = 0x60" by (simp add: demo_rom(2))
  from my_bme280_init_configures [OF bme_board_i2c demo_rom(1) d demo_rom(3) e surjective_pairing]
  show ?thesis by blast
qed

section \<open>Taking a measurement\<close>

text \<open>The contents of the eight data registers.\<close>

definition data_regs :: "((u8 \<times> u8) list \<Rightarrow> u8 \<Rightarrow> u8) \<Rightarrow> (u8 \<times> u8) list \<Rightarrow> u8 list" where
  "data_regs rv ws = map (\<lambda>i. rv ws (BME280_DATA_ADDR + of_nat i)) [0..<8]"

lemma set_mode_asleep:
  fixes ds rv ws m
  defines "d \<equiv> bme_dev ds" and "w \<equiv> ws @ [(BME280_PWR_CTRL_ADDR, BME280_SET_BITS_POS_0 (rv ws BME280_PWR_CTRL_ADDR) 0x03 m)]"
  assumes "wired d" and "mode_of rv ws = BME280_SLEEP_MODE"
  shows "yields (held xfer_ev h0 a rv) (ds, ws) (bme280_set_sensor_mode m (Some d)) BME280_OK (ds, w)"
proof -
  have g: "yields (held xfer_ev h0 a rv) (ds, ws) (bme280_get_sensor_mode x (Some d)) (BME280_OK, mode_of rv ws) (ds, ws)" for x
    unfolding d_def by (rule held_xfer [OF get_mode_dev appends_get_mode]) (use assms(3) in \<open>simp add: d_def\<close>)
  have p: "yields (held xfer_ev h0 a rv) (ds, ws) (write_power_mode m (Some d)) BME280_OK (ds, w)"
    unfolding d_def w_def by (rule held_xfer [OF write_power_mode_dev appends_power_mode])
  have e: "yields (held xfer_ev h0 a rv) (ds, ws) (ensure_sleep (Some d)) BME280_OK (ds, ws)"
    unfolding ensure_sleep_def by (rule yields_ask, rule yields_bind, rule g) (simp add: assms(4) yields_ret)
  show ?thesis
    unfolding bme280_set_sensor_mode_def null_ptr_check_wired [OF assms(3)] simp_thms if_False
    by (rule yields_bind, rule e) (simp add: p)
qed

lemma faults_no_writes: "list_all is_fault es \<Longrightarrow> xfer_writes bus addr es = []"
proof (induction es)
  case (Cons e es)
  then show ?case by (cases e) (auto)
qed simp

text \<open>
  a measurement is started and the data registers are read at once. On a sleeping
  sensor \<open>my_bme280_get_data\<close> makes I2C transfers only, no delay among them: it writes forced
  mode to register 0xF4, reads the eight data registers as they are then, and stores the
  compensated values.
\<close>

theorem my_bme280_get_data_reads_at_once:
  fixes s :: "'z bme_st_scheme"
  assumes "a \<in> live (hist s)" and "heap s a = Some (Bme_struct ds)" and "wired (bme_dev ds)"
    and "i2c_dev (bme_bus ds) (dev_id (bme_dev ds)) rv ws s" and "mode_of rv ws = BME280_SLEEP_MODE"
    and "run_state (my_bme280_get_data (Some a) data) s = ((r, data'), t)"
  shows "let w = ws @ [(0xF4, BME280_SET_BITS_POS_0 (rv ws 0xF4) 0x03 BME280_FORCED_MODE)] in
    r = RT_EOK \<and> xfer_writes (bme_bus ds) (dev_id (bme_dev ds)) (hist t) = w \<and>
    (\<exists>es. hist t = hist s @ es \<and> list_all xfer_ev es) \<and>
    (\<exists>u :: 'z bme_st_scheme. env u = env s \<and> data' = fst (fst (run_state
      (bme280_compensate_data BME280_ALL (bme280_parse_sensor_data (data_regs rv w)) (calib_data (bme_dev ds))) u)))"
proof -
  let ?w = "ws @ [(BME280_PWR_CTRL_ADDR, BME280_SET_BITS_POS_0 (rv ws BME280_PWR_CTRL_ADDR) 0x03 BME280_FORCED_MODE)]"
  let ?H = "held xfer_ev (hist s) a rv" and ?d = "bme_dev ds"
  let ?u = "bme280_parse_sensor_data (data_regs rv ?w)"
  define s1 where "s1 = s\<lparr>i2c_bus_toBeUsed := bme_bus ds\<rparr>"
  have s1: "?H (ds, ws) s1"
    using assms(1-4) by (simp add: held_def s1_def bme_at_def i2c_dev_def)
  obtain t1 where t1: "run_state (bme280_set_sensor_mode BME280_FORCED_MODE (Some ?d)) s1 = (BME280_OK, t1)" "?H (ds, ?w) t1"
    using yieldsD [OF set_mode_asleep [OF assms(3,5)] s1] by blast
  have g: "yields ?H (ds, ?w) (bme280_get_regs BME280_DATA_ADDR (replicate 8 0) (Some ?d)) (BME280_OK, data_regs rv ?w) (ds, ?w)"
    by (rule held_xfer [OF _ appends_get_regs])
      (use bme_regs.rd_law [of ?d "bme_bus ds" rv ?w BME280_DATA_ADDR "replicate 8 0"] in \<open>simp add: data_regs_def\<close>)
  obtain t2 where t2: "run_state (bme280_get_regs BME280_DATA_ADDR (replicate 8 0) (Some ?d)) t1 = ((BME280_OK, data_regs rv ?w), t2)"
    "?H (ds, ?w) t2" using yieldsD [OF g t1(2)] by blast
  obtain x c t3 where t3: "run_state (bme280_compensate_data BME280_ALL ?u (calib_data ?d)) t2 = ((x, c), t3)"
    by (metis prod.exhaust)
  obtain es where es: "t3 = t2\<lparr>hist := hist t2 @ es\<rparr>" "list_all is_fault es"
    using appendsD [OF compensate_faults t3] .
  have "env t1 = env s1" "env t2 = env t1"
    using appends_env [OF appends_set_mode, of BME280_FORCED_MODE "Some ?d" s1] t1(1)
      appends_env [OF appends_get_regs, of BME280_DATA_ADDR "replicate 8 0" "Some ?d" t1] t2(1) by simp_all
  then have "env t2 = env s" by (simp add: s1_def)
  have h: "heap s1 a = Some (Bme_struct ds)" "a \<in> live (hist s1)" "heap t1 a = Some (Bme_struct ds)"
      "a \<in> live (hist t1)" "heap t2 a = Some (Bme_struct ds)" "a \<in> live (hist t2)"
    using s1 t1(2) t2(2) by (simp_all add: held_def)
  have g': "run_state (bme280_get_sensor_data BME280_ALL (Some data) (Some ?d)) t1 =
      ((BME280_OK, Some x, Some (?d\<lparr>calib_data := c\<rparr>)), t3)"
    using assms(3) t2(1) t3 by (simp add: bme280_get_sensor_data_def null_ptr_check_wired)
  note \<open>env t2 = env s\<close>
  moreover from es(2) have f: "list_all xfer_ev es" "live (hist t2 @ es) = live (hist t2)"
      "xfer_writes bus addr es = []" for bus addr
    using live_no_alloc [of es "hist t2"] by (auto simp: list_all_iff is_fault_xfer xfer_no_alloc faults_no_writes)
  moreover have "r = RT_EOK \<and> data' = x \<and> hist t = hist t2 @ es"
    using assms(6,1,2) h t1(1) g' es(1) f(2)
    by (auto simp: my_bme280_get_data_def load_bme_def store_bme_def run_deref s1_def [symmetric] dev_of_def update_dev_def)
  moreover have "\<exists>u :: 'z bme_st_scheme. env u = env s \<and> x = fst (fst (run_state (bme280_compensate_data BME280_ALL ?u (calib_data ?d)) u))"
    using \<open>env t2 = env s\<close> t3 by (intro exI [of _ t2]) simp
  ultimately show ?thesis
    using t2(2) by (auto simp: Let_def held_def bme_at_def i2c_dev_def)
qed

text \<open>A board on which a sensor has been set up, and its structure is at address 1.\<close>

definition bme_ready_board :: "((u8 \<times> u8) list \<Rightarrow> u8 \<Rightarrow> u8) \<Rightarrow> bme_st" where
  "bme_ready_board rv = (bme_board ''i2c1'' 0x77 rv)\<lparr>hist := [Alloc 1],
     heap := [1 \<mapsto> Bme_struct \<lparr>bme_bus = ''i2c1'', bme_i2c_addr = 0x77, bme_dev = demo_dev\<rparr>]\<rparr>"

lemma my_bme280_get_data_reads_at_once_witness:
  "fst (fst (run_state (my_bme280_get_data (Some 1) \<lparr>temperature = 0, humidity = 0, pressure = 0\<rparr>) (bme_ready_board (\<lambda>_ _. 0)))) = RT_EOK"
proof -
  let ?ds = "\<lparr>bme_bus = ''i2c1'', bme_i2c_addr = 0x77, bme_dev = demo_dev\<rparr>"
  let ?s = "bme_ready_board (\<lambda>_ _. 0)" and ?d = "\<lparr>temperature = 0, humidity = 0, pressure = 0\<rparr> :: bme280_data"
  obtain r d' t where m: "run_state (my_bme280_get_data (Some 1) ?d) ?s = ((r, d'), t)" by (metis prod.exhaust)
  have "i2c_dev (bme_bus ?ds) (dev_id (bme_dev ?ds)) (\<lambda>_ _. 0) [] ?s"
    by (simp add: i2c_dev_def bme_ready_board_def bme_board_def demo_dev_wired)
  from my_bme280_get_data_reads_at_once [OF _ _ _ this _ m]
  have "r = RT_EOK" by (simp add: bme_ready_board_def demo_dev_wired mode_of_def Let_def live_def)
  with m show ?thesis by simp
qed

end
