(* ===== verification/Format.thy ===== *)
theory Format
  imports Board
begin

text \<open>
  The conversions of \<open>sprintf\<close> that the program uses, \<open>%d\<close> and \<open>%f\<close> with a precision and a minimal
  width, and the buffers of fixed size it prints into. \<open>%f\<close> rounds to the nearest decimal,
  ties to even, as the C library does; the sign of a negative zero is not modelled.
\<close>

section \<open>Decimal digits\<close>

definition digit :: "nat \<Rightarrow> char" where
  "digit d = char_of (48 + d)"

fun show_nat :: "nat \<Rightarrow> string" where
  "show_nat n = (if n < 10 then [digit n] else show_nat (n div 10) @ [digit (n mod 10)])"

declare show_nat.simps [simp del]

definition show_int :: "int \<Rightarrow> string" where
  "show_int i = (if i < 0 then CHR ''-'' # show_nat (nat (- i)) else show_nat (nat i))"

definition round_even :: "real \<Rightarrow> int" where
  "round_even x =
     (let f = \<lfloor>x\<rfloor> in
      if x - of_int f < 1 / 2 then f else if x - of_int f > 1 / 2 then f + 1
      else if even f then f else f + 1)"

text \<open>The digits of \<open>n\<close>, at least \<open>p\<close> of them.\<close>

definition zero_pad :: "nat \<Rightarrow> string \<Rightarrow> string" where
  "zero_pad p ds = replicate (p - length ds) (digit 0) @ ds"

definition fmt_f :: "nat \<Rightarrow> real \<Rightarrow> string" where
  "fmt_f p x =
     (let n = nat (round_even (\<bar>x\<bar> * 10 ^ p)) in
      (if x < 0 then ''-'' else []) @ show_nat (n div 10 ^ p) @ ''.'' @ zero_pad p (show_nat (n mod 10 ^ p)))"

text \<open>Left-justified in a field of width \<open>w\<close>.\<close>

definition left :: "nat \<Rightarrow> string \<Rightarrow> string" where
  "left w cs = cs @ replicate (w - length cs) (CHR '' '')"

text \<open>Printing into an array of \<open>cap\<close> characters: the text and its final null.\<close>

definition sprintf :: "nat \<Rightarrow> string \<Rightarrow> ('z board_scheme, string) state" where
  "sprintf cap text = do { when_true (length text \<ge> cap) (fault BufferOverrun); ret text }"

section \<open>Lengths and values\<close>

lemma length_show_nat: "0 < k \<Longrightarrow> length (show_nat n) \<le> k \<longleftrightarrow> n < 10 ^ k"
proof (induction n arbitrary: k rule: show_nat.induct)
  case (1 n)
  show ?case
  proof (cases "n < 10")
    case True
    then have "n < 10 ^ k" using 1(2) power_increasing [of 1 k "10 :: nat"] by auto
    with True 1(2) show ?thesis by (simp add: show_nat.simps [of n])
  next
    case False
    obtain j where k: "k = Suc j" using 1(2) by (cases k) auto
    show ?thesis
    proof (cases "j = 0")
      case True
      have "length (show_nat (n div 10)) \<noteq> 0" by (subst show_nat.simps) simp
      with True False k show ?thesis by (simp add: show_nat.simps [of n])
    next
      case j: False
      then have "length (show_nat (n div 10)) \<le> j \<longleftrightarrow> n div 10 < 10 ^ j"
        using 1(1) [OF False] by blast
      also have "\<dots> \<longleftrightarrow> n < 10 ^ k" by (simp add: k less_mult_imp_div_less div_less_iff_less_mult mult.commute)
      finally show ?thesis using False k by (simp add: show_nat.simps [of n])
    qed
  qed
qed

definition value_of :: "string \<Rightarrow> nat" where
  "value_of ds = foldl (\<lambda>v c. 10 * v + (of_char c - 48)) 0 ds"

lemma digit_value: "d < 10 \<Longrightarrow> (of_char (digit d) :: nat) = 48 + d"
  by (simp add: digit_def)

lemma value_show_nat [simp]: "value_of (show_nat n) = n"
proof (induction n rule: show_nat.induct)
  case (1 n)
  then show ?case
    by (subst show_nat.simps) (simp add: value_of_def digit_value)
qed

lemma length_zero_pad: "length ds \<le> p \<Longrightarrow> length (zero_pad p ds) = p"
  by (simp add: zero_pad_def)

lemma length_fmt_f:
  assumes "0 < p" and "0 < k"
  shows "length (fmt_f p x) \<le> (if x < 0 then 1 else 0) + k + 1 + p \<longleftrightarrow> nat (round_even (\<bar>x\<bar> * 10 ^ p)) < 10 ^ (k + p)"
proof -
  let ?n = "nat (round_even (\<bar>x\<bar> * 10 ^ p))"
  have "length (show_nat (?n mod 10 ^ p)) \<le> p" by (simp add: length_show_nat [OF assms(1)])
  then have "length (fmt_f p x) = (if x < 0 then 1 else 0) + length (show_nat (?n div 10 ^ p)) + 1 + p"
    by (simp add: fmt_f_def Let_def length_zero_pad)
  moreover have "length (show_nat (?n div 10 ^ p)) \<le> k \<longleftrightarrow> ?n div 10 ^ p < 10 ^ k"
    by (rule length_show_nat [OF assms(2)])
  moreover have "?n div 10 ^ p < 10 ^ k \<longleftrightarrow> ?n < 10 ^ (k + p)"
    by (simp add: div_less_iff_less_mult power_add)
  ultimately show ?thesis by simp
qed

lemma round_even_le: "x \<le> of_int k \<Longrightarrow> round_even x \<le> k"
proof -
  assume x: "x \<le> of_int k"
  show ?thesis
  proof (cases "\<lfloor>x\<rfloor> < k")
    case True
    then show ?thesis by (auto simp: round_even_def Let_def)
  next
    case False
    with x have "x = of_int k" by linarith
    then show ?thesis by (simp add: round_even_def)
  qed
qed

lemma round_even_ge: "of_int k - 1 / 2 < x \<Longrightarrow> k \<le> round_even x"
proof -
  assume x: "of_int k - 1 / 2 < x"
  then have "k - 1 \<le> \<lfloor>x\<rfloor>" by linarith
  then consider "k \<le> \<lfloor>x\<rfloor>" | "\<lfloor>x\<rfloor> = k - 1" by linarith
  then show ?thesis
  proof cases
    case 1
    then show ?thesis by (auto simp: round_even_def Let_def)
  next
    case 2
    then have "x - of_int \<lfloor>x\<rfloor> > 1 / 2" using x by simp
    with 2 show ?thesis by (simp add: round_even_def)
  qed
qed

lemma run_sprintf [run_simps]:
  "run_state (sprintf cap text) s =
     (text, if length text \<ge> cap then s\<lparr>hist := hist s @ [Fault BufferOverrun]\<rparr> else s)"
  by (simp add: sprintf_def fault_def)

end
