(* ===== verification/Sd_Card.thy ===== *)
theory Sd_Card
  imports Format I2c
begin

text \<open>
  \<open>src/applications/SD_card.c\<close>: mounting the card, appending to the data file, and two console
  commands that exercise the card. Log output is not modelled, except that printing a
  character array with \<open>%s\<close> reads it up to its null character.
\<close>

section \<open>The code\<close>

abbreviation (input) SD_CARD_DEV_NAME :: string where "SD_CARD_DEV_NAME \<equiv> ''sd0''"
abbreviation (input) SD_CARD_MOUNT_PATH :: string where "SD_CARD_MOUNT_PATH \<equiv> ''/''"
abbreviation (input) SD_CARD_FS :: string where "SD_CARD_FS \<equiv> ''elm''"
abbreviation (input) NUL :: char where "NUL \<equiv> CHR 0x00"
abbreviation (input) LF :: char where "LF \<equiv> CHR 0x0A"

definition dfs_mount :: "string \<Rightarrow> string \<Rightarrow> string \<Rightarrow> ('z board_scheme, int) state" where
  "dfs_mount dev path fs = do { r \<leftarrow> ask dfs_result; emit (DfsMount dev path fs); ret r }"

definition dfs_unmount :: "string \<Rightarrow> ('z board_scheme, int) state" where
  "dfs_unmount path = do { r \<leftarrow> ask dfs_result; emit (DfsUnmount path); ret r }"

definition sdcard_init :: "('z board_scheme, int) state" where
  "sdcard_init = do {
     rt_thread_mdelay 50;
     r \<leftarrow> dfs_mount SD_CARD_DEV_NAME SD_CARD_MOUNT_PATH SD_CARD_FS;
     if r = 0 then ret RT_EOK else ret (- RT_ERROR)
   }"

definition sdcard_init_format :: "('z board_scheme, int) state" where
  "sdcard_init_format = do {
     rt_thread_mdelay 50;
     emit (Mkfs ''elm'' ''sd0'');
     r \<leftarrow> dfs_mount SD_CARD_DEV_NAME SD_CARD_MOUNT_PATH SD_CARD_FS;
     if r = 0 then ret RT_EOK else ret (- RT_ERROR)
   }"

definition sdcard_unmount :: "('z board_scheme, int) state" where
  "sdcard_unmount = do {
     r \<leftarrow> dfs_unmount SD_CARD_MOUNT_PATH;
     if r = 0 then ret RT_EOK else ret (- RT_ERROR)
   }"

primrec fill_buffer :: "nat \<Rightarrow> ('z board_scheme, u8 list) state" where
  "fill_buffer 0 = ret []"
| "fill_buffer (Suc n) = do {
     v \<leftarrow> ask rand_value;
     emit (Rand v);
     rest \<leftarrow> fill_buffer n;
     ret ((word_of_int v AND 0xff) # rest)
   }"

text \<open>The file descriptor, or a negative number.\<close>

definition open_file :: "string \<Rightarrow> open_flag list \<Rightarrow> ('z board_scheme, int) state" where
  "open_file path flags = do {
     fd \<leftarrow> ask (\<lambda>e h. open_result e h path);
     emit (FileOpen path flags fd);
     ret fd
   }"

text \<open>
  Printing the array \<open>buffer\<close> with \<open>%s\<close>. The list holds the part of the array the program has
  given a value; without a null in it the output reads past that part.
\<close>

definition log_string :: "string \<Rightarrow> ('z board_scheme, unit) state" where
  "log_string buffer = when_true (NUL \<notin> set buffer) (fault BufferOverrun)"

definition sdcard_appendNewData :: "string \<Rightarrow> nat \<Rightarrow> ('z board_scheme, unit) state" where
  "sdcard_appendNewData buffer n = do {
     fd \<leftarrow> open_file ''/data.csv'' [O_WRONLY, O_CREAT, O_APPEND];
     when_true (fd \<ge> 0) (do {
       log_string buffer;
       emit (FileWrite fd (take n buffer));
       emit (FileClose fd)
     })
   }"

text \<open>
  The console command \<open>sd_sample\<close>: write one block of random bytes to block 0 of the device
  and read it back. The result is that of the function; \<open>blk\<close> is the size of a block.
\<close>

definition RT_NAME_MAX :: nat where "RT_NAME_MAX = 8"

definition sd_sample :: "string list \<Rightarrow> ('z board_scheme, int) state" where
  "sd_sample argv = do {
     let sd_name = (if length argv = 2 then take RT_NAME_MAX (argv ! 1) else SD_CARD_DEV_NAME);
     sd_device \<leftarrow> ask (\<lambda>e h. device_type e sd_name);
     if sd_device = None then ret RT_ERROR
     else do {
       (r, blk) \<leftarrow> ask (\<lambda>e h. blk_geometry e h sd_name);
       emit (DevControl sd_name);
       if r \<noteq> RT_EOK then ret r
       else do {
         read_buff \<leftarrow> rt_calloc;
         case read_buff of
           None \<Rightarrow> ret RT_ERROR
         | Some rb \<Rightarrow> do {
             write_buff \<leftarrow> rt_calloc;
             case write_buff of
               None \<Rightarrow> do { rt_free rb; ret RT_ERROR }
             | Some wb \<Rightarrow> do {
                 block \<leftarrow> fill_buffer (unat blk);
                 emit (DevWrite sd_name 0 block);
                 emit (DevRead sd_name 0);
                 rt_free rb;
                 rt_free wb;
                 ret RT_EOK
               }
           }
       }
     }
   }"

text \<open>
  The console command \<open>readwrite_sample\<close>: append a string with its null to a file and read up
  to 80 characters of the file.
\<close>

definition readwrite_sample :: "('z board_scheme, unit) state" where
  "readwrite_sample = do {
     fd \<leftarrow> open_file ''/text.txt'' [O_WRONLY, O_CREAT, O_APPEND];
     when_true (fd \<ge> 0) (do {
       emit (FileWrite fd (''RT-Thread Programmer!'' @ [NUL]));
       emit (FileClose fd)
     });
     fd \<leftarrow> open_file ''/text.txt'' [O_RDONLY];
     when_true (fd \<ge> 0) (do {
       buffer \<leftarrow> ask (\<lambda>e h. read_result e h fd);
       emit (FileRead fd 80);
       emit (FileClose fd);
       log_string (take 80 buffer)
     })
   }"

section \<open>Files\<close>

text \<open>
  What a history has put into the files: every descriptor stands for the path it was opened
  with, all writes go to the end of the file, as \<open>O_APPEND\<close> asks.
\<close>

record files =
  opened :: "int \<Rightarrow> string option"
  contents :: "string \<Rightarrow> string"

definition no_files :: files where
  "no_files = \<lparr>opened = (\<lambda>_. None), contents = (\<lambda>_. [])\<rparr>"

fun file_step :: "files \<Rightarrow> ev \<Rightarrow> files" where
  "file_step f (FileOpen path flags fd) = (if fd \<ge> 0 then f\<lparr>opened := (opened f)(fd := Some path)\<rparr> else f)"
| "file_step f (FileClose fd) = f\<lparr>opened := (opened f)(fd := None)\<rparr>"
| "file_step f (FileWrite fd text) =
     (case opened f fd of None \<Rightarrow> f
      | Some path \<Rightarrow> f\<lparr>contents := (contents f)(path := contents f path @ text)\<rparr>)"
| "file_step f _ = f"

definition files_of :: "ev list \<Rightarrow> files" where
  "files_of h = foldl file_step no_files h"

definition file_text :: "string \<Rightarrow> ev list \<Rightarrow> string" where
  "file_text path h = contents (files_of h) path"

lemma files_of_Nil [simp]: "files_of [] = no_files"
  by (simp add: files_of_def)

lemma files_of_snoc [simp]: "files_of (h @ [e]) = file_step (files_of h) e"
  by (simp add: files_of_def)

lemma files_of_append: "files_of (h @ es) = foldl file_step (files_of h) es"
  by (simp add: files_of_def)

text \<open>The events of one call of \<open>sdcard_appendNewData\<close>.\<close>

definition append_events :: "int \<Rightarrow> string \<Rightarrow> nat \<Rightarrow> ev list" where
  "append_events fd buffer n = FileOpen ''/data.csv'' [O_WRONLY, O_CREAT, O_APPEND] fd #
     (if fd \<ge> 0 then (if NUL \<in> set buffer then [] else [Fault BufferOverrun]) @
        [FileWrite fd (take n buffer), FileClose fd] else [])"

lemma run_append [run_simps]:
  "run_state (sdcard_appendNewData buffer n) s =
     ((), s\<lparr>hist := hist s @ append_events (open_result (env s) (hist s) ''/data.csv'') buffer n\<rparr>)"
  by (cases "open_result (env s) (hist s) ''/data.csv'' \<ge> 0"; cases "NUL \<in> set buffer")
    (simp_all add: sdcard_appendNewData_def open_file_def log_string_def fault_def append_events_def)

lemma append_text:
  "file_text ''/data.csv'' (h @ append_events fd buffer n) =
     file_text ''/data.csv'' h @ (if fd \<ge> 0 then take n buffer else [])"
  by (simp add: file_text_def files_of_append append_events_def)

section \<open>The sample command\<close>

lemma fill_buffer_extends: "extends no_alloc (fill_buffer n)"
  by (induction n) (auto simp: no_alloc_def intro!: extend_intros)

lemma length_fill_buffer: "run_state (fill_buffer n) s = (xs, t) \<Longrightarrow> length xs = n"
  by (induction n arbitrary: s xs t) (auto split: prod.splits)

lemma no_alloc_sd [simp]: "no_alloc (DevControl d)" "no_alloc (DevWrite d n b)" "no_alloc (DevRead d n)" "no_alloc (Rand r)"
  by (simp_all add: no_alloc_def)

lemma calloc_fresh:
  assumes "run_state rt_calloc s = (p, t)"
  shows "case p of None \<Rightarrow> t = s
    | Some a \<Rightarrow> a \<notin> live (hist s) \<and> t = s\<lparr>hist := hist s @ [Alloc a]\<rparr>"
  using assms fresh_not_live by (auto simp: run_rt_calloc split: if_splits)

fun is_rand :: "ev \<Rightarrow> bool" where
  "is_rand (Rand _) = True"
| "is_rand _ = False"

lemma fill_buffer_appends: "appends is_rand (fill_buffer n)"
  by (induction n) (auto intro!: frame_intros)

text \<open>The events of a run of the command that gets both buffers.\<close>

definition sample_events :: "string \<Rightarrow> nat \<Rightarrow> nat \<Rightarrow> ev list \<Rightarrow> u8 list \<Rightarrow> ev list" where
  "sample_events dev a b rs block = DevControl dev # Alloc a # Alloc b # rs @
     [DevWrite dev 0 block, DevRead dev 0, Free a, Free b]"

lemma sample_live:
  assumes "list_all is_rand rs" and "a \<notin> live h" and "b \<notin> insert a (live h)"
  shows "live (h @ sample_events dev a b rs block) = live h"
proof -
  have "is_rand e \<Longrightarrow> live_step L e = L" for e L by (cases e) simp_all
  with assms(1) have "foldl live_step L rs = L" for L by (induction rs) simp_all
  then have "foldl live_step (live h) (sample_events dev a b rs block) = insert a (insert b (live h)) - {a} - {b}"
    by (simp add: sample_events_def insert_commute)
  then show ?thesis using assms(2,3) unfolding live_append by auto
qed

lemma sd_sample_cases:
  fixes s :: "'z board_scheme"
  defines "dev argv \<equiv> (if length argv = 2 then take 8 (argv ! 1) else ''sd0'')"
  assumes "run_state (sd_sample argv) s = (r, t)"
  shows "r \<noteq> RT_EOK \<and> (\<exists>es. hist t = hist s @ es \<and> live (hist t) = live (hist s) \<and> (\<forall>d n b. DevWrite d n b \<notin> set es)) \<or>
    r = RT_EOK \<and> (\<exists>a b rs block. hist t = hist s @ sample_events (dev argv) a b rs block \<and> list_all is_rand rs \<and>
      a \<notin> live (hist s) \<and> b \<notin> insert a (live (hist s)) \<and>
      length block = unat (snd (blk_geometry (env s) (hist s) (dev argv))))"
proof -
  let ?dev = "dev argv" and ?s1 = "s\<lparr>hist := hist s @ [DevControl (dev argv)]\<rparr>"
  obtain g blk where g: "blk_geometry (env s) (hist s) ?dev = (g, blk)" by (metis prod.exhaust)
  have D: "(if length argv = 2 then take RT_NAME_MAX (argv ! 1) else ''sd0'') = ?dev"
    by (simp add: dev_def RT_NAME_MAX_def)
  note run = assms(2) [unfolded sd_sample_def Let_def D]
  obtain p u where p: "run_state rt_calloc ?s1 = (p, u)" by (metis prod.exhaust)
  have l1: "live (hist ?s1) = live (hist s)" by simp
  show ?thesis
  proof (cases "device_type (env s) ?dev = None \<or> g \<noteq> RT_EOK \<or> p = None")
    case True
    with run p calloc_fresh [OF p] g show ?thesis
      by (auto split: if_splits)
  next
    case False
    then obtain a where a: "p = Some a" by auto
    obtain q v where q: "run_state rt_calloc u = (q, v)" by (metis prod.exhaust)
    have u: "u = ?s1\<lparr>hist := hist ?s1 @ [Alloc a]\<rparr>" "a \<notin> live (hist s)"
      using calloc_fresh [OF p] a by simp_all
    show ?thesis
    proof (cases q)
      case None
      with run p q a u calloc_fresh [OF q] g False show ?thesis by (auto simp: live_append)
    next
      case (Some b)
      obtain block w where f: "run_state (fill_buffer (unat blk)) v = (block, w)" by (metis prod.exhaust)
      obtain rs where rs: "w = v\<lparr>hist := hist v @ rs\<rparr>" "list_all is_rand rs"
        using appendsD [OF fill_buffer_appends f] .
      have v: "v = u\<lparr>hist := hist u @ [Alloc b]\<rparr>" "b \<notin> insert a (live (hist s))"
        using calloc_fresh [OF q] Some u by (simp_all add: live_append)
      have "r = RT_EOK" "hist t = hist s @ sample_events ?dev a b rs block"
        using run p q a g False Some f u(1) v(1) rs(1) by (auto simp: sample_events_def)
      then show ?thesis
        using u(2) v(2) rs(2) length_fill_buffer [OF f] g by auto
    qed
  qed
qed

text \<open>
  \<open>sd_sample\<close> leaves no buffer behind. Whatever the device and the allocator do, on every
  path the heap is afterwards as it was before; the function succeeds exactly if it wrote,
  and then it wrote one whole block, to block 0 of the named device.
\<close>

theorem sd_sample_balanced:
  "let (r, t) = run_state (sd_sample argv) s; dev = (if length argv = 2 then take 8 (argv ! 1) else ''sd0'') in
   live (hist t) = live (hist s) \<and> (\<exists>es. hist t = hist s @ es \<and>
     {(d, n, length b) |d n b. DevWrite d n b \<in> set es} =
     {(dev, 0, unat (snd (blk_geometry (env s) (hist s) dev))) |_ :: unit. r = RT_EOK})"
proof -
  obtain r t where m: "run_state (sd_sample argv) s = (r, t)" by (metis prod.exhaust)
  have rand: "list_all is_rand rs \<Longrightarrow> DevWrite d n b \<notin> set rs" for rs d n b
    by (auto simp: list_all_iff)
  from sd_sample_cases [OF m] show ?thesis
  proof (elim disjE conjE exE)
    fix a b rs block
    let ?dev = "if length argv = 2 then take 8 (argv ! 1) else ''sd0''"
    assume *: "r = RT_EOK" "hist t = hist s @ sample_events ?dev a b rs block" "list_all is_rand rs"
      "a \<notin> live (hist s)" "b \<notin> insert a (live (hist s))"
      "length block = unat (snd (blk_geometry (env s) (hist s) ?dev))"
    have "{(d, n, length x) |d n x. DevWrite d n x \<in> set (sample_events ?dev a b rs block)} = {(?dev, 0, length block)}"
      using rand [OF *(3)] by (auto simp: sample_events_def)
    with * m sample_live [OF *(3-5)] show ?thesis by auto
  next
    fix es
    assume "r \<noteq> RT_EOK" "hist t = hist s @ es" "live (hist t) = live (hist s)" "\<forall>d n b. DevWrite d n b \<notin> set es"
    with m show ?thesis by auto
  qed
qed

end
