(* ===== verification/App_State.thy ===== *)
theory App_State
  imports Sd_Card Ov7725_Frames Hmc5883l Ltr390 Bme280
begin

text \<open>
  The state of \<open>src/applications/main.c\<close>: its global variables, the periodic tasks that read the
  sensors, and the task that appends the readings to the file on the card. Debug output is
  not modelled. The text module of the display is used through the calls of \<open>lcd_call\<close>; the
  height of a line and the size of the screen follow from the calls made so far.
\<close>

section \<open>The display\<close>

fun font_step :: "lcd_font \<Rightarrow> ev \<Rightarrow> lcd_font" where
  "font_step f (Lcd (LCD_SetFont g)) = g"
| "font_step f _ = f"

definition current_font :: "ev list \<Rightarrow> lcd_font" where
  "current_font h = foldl font_step Font8x16 h"

fun font_height :: "lcd_font \<Rightarrow> nat" where
  "font_height Font8x16 = 16"
| "font_height Font16x24 = 24"
| "font_height Font24x32 = 32"

definition LINE :: "nat \<Rightarrow> ('z board_scheme, nat) state" where
  "LINE x = gets (\<lambda>s. x * font_height (current_font (hist s)))"

fun scan_step :: "nat \<Rightarrow> ev \<Rightarrow> nat" where
  "scan_step m (Lcd (ILI9341_GramScan k)) = (if k > 7 then m else k)"
| "scan_step m _ = m"

definition LCD_SCAN_MODE :: "ev list \<Rightarrow> nat" where
  "LCD_SCAN_MODE h = foldl scan_step 6 h"

definition LCD_X_LENGTH :: "ev list \<Rightarrow> nat" where
  "LCD_X_LENGTH h = (if even (LCD_SCAN_MODE h) then 240 else 320)"

definition LCD_Y_LENGTH :: "ev list \<Rightarrow> nat" where
  "LCD_Y_LENGTH h = (if even (LCD_SCAN_MODE h) then 320 else 240)"

definition clear_screen :: "('z board_scheme, unit) state" where
  "clear_screen = do {
     x \<leftarrow> gets (\<lambda>s. LCD_X_LENGTH (hist s));
     y \<leftarrow> gets (\<lambda>s. LCD_Y_LENGTH (hist s));
     lcd (ILI9341_Clear 0 0 x y)
   }"

definition line_EN :: "nat \<Rightarrow> string \<Rightarrow> ('z board_scheme, unit) state" where
  "line_EN x text = do { y \<leftarrow> LINE x; lcd (ILI9341_DispStringLine_EN y text) }"

definition string_EN :: "nat \<Rightarrow> nat \<Rightarrow> string \<Rightarrow> ('z board_scheme, unit) state" where
  "string_EN ux x text = do { y \<leftarrow> LINE x; lcd (ILI9341_DispString_EN ux y text) }"

definition style :: "lcd_font \<Rightarrow> string \<Rightarrow> ('z board_scheme, unit) state" where
  "style f c = do { lcd (LCD_SetFont f); lcd (LCD_SetTextColor c) }"

section \<open>The global variables\<close>

text \<open>
  The enumerations are the integers the compiler makes of them: the code computes with
  them and switches on them with a default case.
\<close>

abbreviation (input) SCENE_MENU :: nat where "SCENE_MENU \<equiv> 0"
abbreviation (input) SCENE_DISP_DATA :: nat where "SCENE_DISP_DATA \<equiv> 1"
abbreviation (input) SCENE_TAKE_PHOTO :: nat where "SCENE_TAKE_PHOTO \<equiv> 2"
abbreviation (input) SCENE_SD_CARD :: nat where "SCENE_SD_CARD \<equiv> 3"
abbreviation (input) SCENE_SETTINGS :: nat where "SCENE_SETTINGS \<equiv> 4"
abbreviation (input) SETTING_NO :: nat where "SETTING_NO \<equiv> 0"
abbreviation (input) SETTING_HMC5883L :: nat where "SETTING_HMC5883L \<equiv> 1"
abbreviation (input) SETTING_BACK :: nat where "SETTING_BACK \<equiv> 7"
abbreviation (input) DELAY_NO :: nat where "DELAY_NO \<equiv> 0"
abbreviation (input) DELAY_0_5 :: nat where "DELAY_0_5 \<equiv> 1"
abbreviation (input) DELAY_BACK :: nat where "DELAY_BACK \<equiv> 7"

record app_st = bme_st +
  debug_isEnabled :: bool
  mainOuput_prev_milli :: u32
  mainOutput_curr_milli :: u32
  mainOuput_DELAY :: u32
  initCount :: u32
  led_isOn :: bool
  hmc5883l_prev_milli :: u32
  hmc5883l_curr_milli :: u32
  HMC5883L_DELAY :: u32
  hmc5883l :: "nat option"
  hmc5883l_rawData :: hmc5883l_data
  hmc5883l_heading :: real
  bme280_prev_milli :: u32
  bme280_curr_milli :: u32
  BME280_DELAY :: u32
  bme280 :: "nat option"
  bme280_rawData :: bme280_data
  ltr390_prev_milli :: u32
  ltr390_curr_milli :: u32
  LTR390_DELAY :: u32
  ltr390 :: "nat option"
  ltr390_rawData :: ltr390_data
  gp2y1014au0f_prev_milli :: u32
  gp2y1014au0f_curr_milli :: u32
  GP2Y1014AU0F_DELAY :: u32
  gp2y1014au0f_rawData :: real
  lm386_prev_milli :: u32
  lm386_curr_milli :: u32
  LM386_DELAY :: u32
  lm386_rawData :: real
  data_prev_milli :: u32
  data_curr_milli :: u32
  DATA_DELAY :: u32
  isFirstSave :: bool
  isSavingData :: bool
  currScene :: nat
  prevScene :: nat
  scene_isChanged :: bool
  selectScene :: nat
  sceneSelect_isChanged :: bool
  DISP_DATA_prev_milli :: u32
  DISP_DATA_curr_milli :: u32
  DISP_DATA_DELAY :: u32
  isEjecting :: bool
  currSetting :: nat
  prevSetting :: nat
  setting_isChanged :: bool
  selectSetting :: nat
  settingSelect_isChanged :: bool
  currDelay :: nat
  prevDelay :: nat
  delay_isChanged :: bool
  selectDelay :: nat
  delaySelect_isChanged :: bool

text \<open>The state at reset: the initial values of all global variables.\<close>

definition app_reset :: "env \<Rightarrow> app_st" where
  "app_reset e = \<lparr>hist = [], env = e, heap = Map.empty,
     pin_irq_hdr_tab = init_irq_hdr_tab, pin_irq_enable_mask = 0, key1_isChanged = False, key2_isChanged = False,
     Ov7725_vsync = 0, flag_first = 0, filter_buffer = replicate 10 0, filter_sum = 0, i2c_bus_toBeUsed = [],
     debug_isEnabled = False, mainOuput_prev_milli = 0, mainOutput_curr_milli = 0, mainOuput_DELAY = 10000,
     initCount = 0, led_isOn = False,
     hmc5883l_prev_milli = 0, hmc5883l_curr_milli = 0, HMC5883L_DELAY = 1000, hmc5883l = None,
     hmc5883l_rawData = \<lparr>mag_x = 0, mag_y = 0, mag_z = 0\<rparr>, hmc5883l_heading = 0,
     bme280_prev_milli = 0, bme280_curr_milli = 0, BME280_DELAY = 1000, bme280 = None,
     bme280_rawData = \<lparr>temperature = 0, humidity = 0, pressure = 0\<rparr>,
     ltr390_prev_milli = 0, ltr390_curr_milli = 0, LTR390_DELAY = 1000, ltr390 = None,
     ltr390_rawData = \<lparr>lux = 0, uvi = 0\<rparr>,
     gp2y1014au0f_prev_milli = 0, gp2y1014au0f_curr_milli = 0, GP2Y1014AU0F_DELAY = 1000, gp2y1014au0f_rawData = 0,
     lm386_prev_milli = 0, lm386_curr_milli = 0, LM386_DELAY = 10, lm386_rawData = 0,
     data_prev_milli = 0, data_curr_milli = 0, DATA_DELAY = 5000, isFirstSave = True, isSavingData = False,
     currScene = SCENE_MENU, prevScene = SCENE_MENU, scene_isChanged = True, selectScene = SCENE_DISP_DATA,
     sceneSelect_isChanged = False, DISP_DATA_prev_milli = 0, DISP_DATA_curr_milli = 0, DISP_DATA_DELAY = 1000,
     isEjecting = False,
     currSetting = SETTING_BACK, prevSetting = SETTING_BACK, setting_isChanged = True,
     selectSetting = SETTING_HMC5883L, settingSelect_isChanged = False,
     currDelay = DELAY_BACK, prevDelay = DELAY_BACK, delay_isChanged = True, selectDelay = DELAY_0_5,
     delaySelect_isChanged = False\<rparr>"

definition en_dbg :: "('z app_st_scheme, unit) state" where
  "en_dbg = modify (\<lambda>s. s\<lparr>debug_isEnabled := True\<rparr>)"

definition dis_dbg :: "('z app_st_scheme, unit) state" where
  "dis_dbg = modify (\<lambda>s. s\<lparr>debug_isEnabled := False\<rparr>)"

section \<open>Saving the readings\<close>

abbreviation (input) csv_title :: string where
  "csv_title \<equiv> ''Time in Millisecond,Heading,Temperature,Humidity,Baro Pressure,UV Index,Luminance,PM2.5,Sound''"

text \<open>The tick is unsigned and printed with \<open>%d\<close>.\<close>

definition data_line :: "(real \<Rightarrow> real) \<Rightarrow> u32 \<Rightarrow> 'z app_st_scheme \<Rightarrow> string" where
  "data_line r t s = show_int (sint t) @ '','' @ fmt_f 6 (hmc5883l_heading s) @ '','' @
     fmt_f 6 (temperature (bme280_rawData s)) @ '','' @ fmt_f 6 (humidity (bme280_rawData s)) @ '','' @
     fmt_f 6 (r (pressure (bme280_rawData s) / 100)) @ '','' @ show_int (uint (uvi (ltr390_rawData s))) @ '','' @
     fmt_f 6 (lux (ltr390_rawData s)) @ '','' @ fmt_f 6 (gp2y1014au0f_rawData s) @ '','' @ fmt_f 6 (lm386_rawData s)"

text \<open>
  The character arrays are handed over with the final null overwritten by a line feed: the
  text, the line feed, and nothing after it that the program has set.
\<close>

definition sdcard_saveCurrData :: "('z app_st_scheme, unit) state" where
  "sdcard_saveCurrData = do {
     led_embedded_color LED_BLUE;
     style Font8x16 ''CL_YELLOW'';
     line_EN 13 ''         Saving current data...         '';
     first \<leftarrow> gets isFirstSave;
     when_true first (do {
       modify (\<lambda>s. s\<lparr>isFirstSave := False\<rparr>);
       sdcard_appendNewData (csv_title @ [LF]) (length csv_title + 1)
     });
     t \<leftarrow> rt_tick_get_millisecond;
     r \<leftarrow> ask (\<lambda>e h. rnd e);
     text \<leftarrow> gets (data_line r t);
     dataBlock \<leftarrow> sprintf (9 * 32) text;
     sdcard_appendNewData (dataBlock @ [LF]) (length dataBlock + 1);
     led_embedded_color LED_GREEN;
     lcd (LCD_SetTextColor ''CL_GREEN'');
     line_EN 13 ''     Saving current data succeeded!     ''
   }"

section \<open>The periodic tasks\<close>

definition heading_of :: "env \<Rightarrow> hmc5883l_data \<Rightarrow> real" where
  "heading_of e d =
     (let r = rnd e; p = r 3.14159265;
          a = atan2_of e (real_of_int (sint (mag_y d))) (real_of_int (sint (mag_x d)))
      in r (r (a * r (180 / p)) + 180))"

definition my_key_and_led_test :: "('z app_st_scheme, unit) state" where
  "my_key_and_led_test = do {
     k1 \<leftarrow> key1_isPressed;
     (if k1 then modify (\<lambda>s. s\<lparr>led_isOn := True\<rparr>)
      else do {
        k2 \<leftarrow> key2_isPressed;
        when_true k2 (modify (\<lambda>s. s\<lparr>led_isOn := False\<rparr>))
      });
     on \<leftarrow> gets led_isOn;
     if on then led_embedded_blink 50 else led_embedded_off
   }"

definition hmc5883l_body :: "('z app_st_scheme, unit) state" where
  "hmc5883l_body = do {
     p \<leftarrow> gets hmc5883l;
     d \<leftarrow> gets hmc5883l_rawData;
     (r, d) \<leftarrow> my_hmc5883l_get_data p d;
     modify (\<lambda>s. s\<lparr>hmc5883l_rawData := d\<rparr>);
     if r = RT_EOK then do {
       h \<leftarrow> ask (\<lambda>e h. heading_of e d);
       modify (\<lambda>s. s\<lparr>hmc5883l_heading := h\<rparr>)
     }
     else my_hmc5883l_destroy p
   }"

definition my_hmc5883l_test :: "('z app_st_scheme, unit) state" where
  "my_hmc5883l_test = do {
     t \<leftarrow> rt_tick_get_millisecond;
     modify (\<lambda>s. s\<lparr>hmc5883l_curr_milli := t\<rparr>);
     due \<leftarrow> gets (\<lambda>s. t - hmc5883l_prev_milli s \<ge> HMC5883L_DELAY s \<and> hmc5883l s \<noteq> None);
     when_true due (do { modify (\<lambda>s. s\<lparr>hmc5883l_prev_milli := t\<rparr>); hmc5883l_body })
   }"

definition bme280_body :: "('z app_st_scheme, unit) state" where
  "bme280_body = do {
     p \<leftarrow> gets bme280;
     d \<leftarrow> gets bme280_rawData;
     (r, d) \<leftarrow> my_bme280_get_data p d;
     modify (\<lambda>s. s\<lparr>bme280_rawData := d\<rparr>);
     when_true (r \<noteq> RT_EOK) (my_bme280_destroy p)
   }"

definition my_bme280_test :: "('z app_st_scheme, unit) state" where
  "my_bme280_test = do {
     t \<leftarrow> rt_tick_get_millisecond;
     modify (\<lambda>s. s\<lparr>bme280_curr_milli := t\<rparr>);
     due \<leftarrow> gets (\<lambda>s. t - bme280_prev_milli s \<ge> BME280_DELAY s \<and> bme280 s \<noteq> None);
     when_true due (do { modify (\<lambda>s. s\<lparr>bme280_prev_milli := t\<rparr>); bme280_body })
   }"

definition ltr390_body :: "('z app_st_scheme, unit) state" where
  "ltr390_body = do {
     p \<leftarrow> gets ltr390;
     d \<leftarrow> gets ltr390_rawData;
     (r, d) \<leftarrow> my_ltr390_get_data p d;
     modify (\<lambda>s. s\<lparr>ltr390_rawData := d\<rparr>);
     when_true (r \<noteq> RT_EOK) (my_ltr390_destroy p)
   }"

definition my_ltr390_test :: "('z app_st_scheme, unit) state" where
  "my_ltr390_test = do {
     t \<leftarrow> rt_tick_get_millisecond;
     modify (\<lambda>s. s\<lparr>ltr390_curr_milli := t\<rparr>);
     due \<leftarrow> gets (\<lambda>s. t - ltr390_prev_milli s \<ge> LTR390_DELAY s \<and> ltr390 s \<noteq> None);
     when_true due (do { modify (\<lambda>s. s\<lparr>ltr390_prev_milli := t\<rparr>); ltr390_body })
   }"

definition dust_body :: "('z app_st_scheme, unit) state" where
  "dust_body = do { v \<leftarrow> my_gp2y1014au0f_get_data; modify (\<lambda>s. s\<lparr>gp2y1014au0f_rawData := v\<rparr>) }"

definition my_gp2y1014au0f_test :: "('z app_st_scheme, unit) state" where
  "my_gp2y1014au0f_test = do {
     t \<leftarrow> rt_tick_get_millisecond;
     modify (\<lambda>s. s\<lparr>gp2y1014au0f_curr_milli := t\<rparr>);
     due \<leftarrow> gets (\<lambda>s. t - gp2y1014au0f_prev_milli s \<ge> GP2Y1014AU0F_DELAY s);
     when_true due (do { modify (\<lambda>s. s\<lparr>gp2y1014au0f_prev_milli := t\<rparr>); dust_body })
   }"

definition sound_body :: "('z app_st_scheme, unit) state" where
  "sound_body = do { v \<leftarrow> my_lm386_get_data; modify (\<lambda>s. s\<lparr>lm386_rawData := v\<rparr>) }"

definition my_lm386_test :: "('z app_st_scheme, unit) state" where
  "my_lm386_test = do {
     t \<leftarrow> rt_tick_get_millisecond;
     modify (\<lambda>s. s\<lparr>lm386_curr_milli := t\<rparr>);
     due \<leftarrow> gets (\<lambda>s. t - lm386_prev_milli s \<ge> LM386_DELAY s);
     when_true due (do { modify (\<lambda>s. s\<lparr>lm386_prev_milli := t\<rparr>); sound_body })
   }"

definition my_sd_card_test :: "('z app_st_scheme, unit) state" where
  "my_sd_card_test = do {
     t \<leftarrow> rt_tick_get_millisecond;
     modify (\<lambda>s. s\<lparr>data_curr_milli := t\<rparr>);
     due \<leftarrow> gets (\<lambda>s. t - data_prev_milli s \<ge> DATA_DELAY s);
     when_true due (do { modify (\<lambda>s. s\<lparr>data_prev_milli := t\<rparr>); sdcard_saveCurrData })
   }"

end
