(* ===== verification/App_Scenes.thy ===== *)
theory App_Scenes
  imports App_State
begin

text \<open>
  The screens of \<open>src/applications/main.c\<close>: what each shows, the key handlers of each, and the
  functions \<open>mainFunc\<close>, \<open>enter_SETTING\<close> and \<open>enter_SETTING_DELAY\<close> that the main loop calls to act on
  what the keys have changed.
\<close>

section \<open>The key handlers\<close>

definition key1_irq_MENU :: "('z app_st_scheme, unit) state" where
  "key1_irq_MENU = do {
     modify (\<lambda>s. s\<lparr>sceneSelect_isChanged := True\<rparr>);
     modify (\<lambda>s. s\<lparr>selectScene := (selectScene s + 1) mod 5\<rparr>);
     sel \<leftarrow> gets selectScene;
     when_true (sel = SCENE_MENU) (modify (\<lambda>s. s\<lparr>selectScene := SCENE_DISP_DATA\<rparr>))
   }"

definition key2_irq_MENU :: "('z app_st_scheme, unit) state" where
  "key2_irq_MENU = modify (\<lambda>s. s\<lparr>scene_isChanged := True, prevScene := currScene s, currScene := selectScene s\<rparr>)"

definition key1_irq_DISP_DATA :: "('z app_st_scheme, unit) state" where
  "key1_irq_DISP_DATA = modify (\<lambda>s. s\<lparr>isSavingData := True\<rparr>)"

definition key2_irq_DISP_DATA :: "('z app_st_scheme, unit) state" where
  "key2_irq_DISP_DATA = modify (\<lambda>s. s\<lparr>scene_isChanged := True, prevScene := currScene s, currScene := SCENE_MENU\<rparr>)"

definition key1_irq_TAKE_PHOTO :: "('z app_st_scheme, unit) state" where
  "key1_irq_TAKE_PHOTO = ret ()"

definition key2_irq_TAKE_PHOTO :: "('z app_st_scheme, unit) state" where
  "key2_irq_TAKE_PHOTO = modify (\<lambda>s. s\<lparr>scene_isChanged := True, prevScene := currScene s, currScene := SCENE_MENU\<rparr>)"

definition key1_irq_SD_CARD :: "('z app_st_scheme, unit) state" where
  "key1_irq_SD_CARD = modify (\<lambda>s. s\<lparr>isEjecting := True\<rparr>)"

definition key2_irq_SD_CARD :: "('z app_st_scheme, unit) state" where
  "key2_irq_SD_CARD = modify (\<lambda>s. s\<lparr>scene_isChanged := True, prevScene := currScene s, currScene := SCENE_MENU\<rparr>)"

definition key1_irq_SETTING_SELECT :: "('z app_st_scheme, unit) state" where
  "key1_irq_SETTING_SELECT = do {
     modify (\<lambda>s. s\<lparr>settingSelect_isChanged := True\<rparr>);
     modify (\<lambda>s. s\<lparr>selectSetting := (selectSetting s + 1) mod 8\<rparr>);
     sel \<leftarrow> gets selectSetting;
     when_true (sel = SETTING_NO) (modify (\<lambda>s. s\<lparr>selectSetting := SETTING_HMC5883L\<rparr>))
   }"

definition key2_irq_SETTING_SELECT :: "('z app_st_scheme, unit) state" where
  "key2_irq_SETTING_SELECT =
     modify (\<lambda>s. s\<lparr>setting_isChanged := True, prevSetting := currSetting s, currSetting := selectSetting s\<rparr>)"

definition key1_irq_SETTING_DELAY_SELECT :: "('z app_st_scheme, unit) state" where
  "key1_irq_SETTING_DELAY_SELECT = do {
     modify (\<lambda>s. s\<lparr>delaySelect_isChanged := True\<rparr>);
     modify (\<lambda>s. s\<lparr>selectDelay := (selectDelay s + 1) mod 8\<rparr>);
     sel \<leftarrow> gets selectDelay;
     when_true (sel = DELAY_NO) (modify (\<lambda>s. s\<lparr>selectDelay := DELAY_0_5\<rparr>))
   }"

definition key2_irq_SETTING_DELAY_SELECT :: "('z app_st_scheme, unit) state" where
  "key2_irq_SETTING_DELAY_SELECT =
     modify (\<lambda>s. s\<lparr>delay_isChanged := True, prevDelay := currDelay s, currDelay := selectDelay s\<rparr>)"

fun run_handler :: "irq_handler \<Rightarrow> ('z app_st_scheme, unit) state" where
  "run_handler H_key1_change = key1_change"
| "run_handler H_key2_change = key2_change"
| "run_handler H_key1_irq_MENU = key1_irq_MENU"
| "run_handler H_key2_irq_MENU = key2_irq_MENU"
| "run_handler H_key1_irq_DISP_DATA = key1_irq_DISP_DATA"
| "run_handler H_key2_irq_DISP_DATA = key2_irq_DISP_DATA"
| "run_handler H_key1_irq_TAKE_PHOTO = key1_irq_TAKE_PHOTO"
| "run_handler H_key2_irq_TAKE_PHOTO = key2_irq_TAKE_PHOTO"
| "run_handler H_key1_irq_SD_CARD = key1_irq_SD_CARD"
| "run_handler H_key2_irq_SD_CARD = key2_irq_SD_CARD"
| "run_handler H_key1_irq_SETTING_SELECT = key1_irq_SETTING_SELECT"
| "run_handler H_key2_irq_SETTING_SELECT = key2_irq_SETTING_SELECT"
| "run_handler H_key1_irq_SETTING_DELAY_SELECT = key1_irq_SETTING_DELAY_SELECT"
| "run_handler H_key2_irq_SETTING_DELAY_SELECT = key2_irq_SETTING_DELAY_SELECT"
| "run_handler H_my_ov7725_interrupt = my_ov7725_interrupt"

section \<open>The screens\<close>

definition MENU_updateSelect :: "('z app_st_scheme, unit) state" where
  "MENU_updateSelect = do {
     style Font16x24 ''CL_GREEN'';
     y \<leftarrow> LINE 3;
     lcd (ILI9341_Clear 0 y (3 * 16) (4 * 24));
     sel \<leftarrow> gets selectScene;
     line_EN (sel + 2) '' >>''
   }"

definition MENU_task :: "('z app_st_scheme, unit) state" where
  "MENU_task = do {
     clear_screen;
     style Font24x32 ''CL_CYAN'';
     string_EN (3 * 24 - 4) 0 ''WELCOME!'';
     style Font8x16 ''CL_GREY1'';
     string_EN (9 * 8) 2 ''K1: Select | K2: Enter'';
     style Font16x24 ''CL_GREY3'';
     line_EN 3 ''    Display Data'';
     line_EN 4 ''    Take Photo'';
     line_EN 5 ''    Eject SD Card'';
     line_EN 6 ''    Settings'';
     MENU_updateSelect
   }"

definition DISP_DATA_updateData :: "('z app_st_scheme, unit) state" where
  "DISP_DATA_updateData = do {
     r \<leftarrow> ask (\<lambda>e h. rnd e);
     headingStr \<leftarrow> gets (\<lambda>s. left 4 (fmt_f 2 (hmc5883l_heading s))) \<bind> sprintf 8;
     temperatureStr \<leftarrow> gets (\<lambda>s. left 4 (fmt_f 2 (temperature (bme280_rawData s)))) \<bind> sprintf 8;
     humidityStr \<leftarrow> gets (\<lambda>s. left 4 (fmt_f 2 (humidity (bme280_rawData s)))) \<bind> sprintf 8;
     baroStr \<leftarrow> gets (\<lambda>s. left 4 (fmt_f 2 (r (pressure (bme280_rawData s) / 100)))) \<bind> sprintf 8;
     uviStr \<leftarrow> gets (\<lambda>s. show_int (uint (uvi (ltr390_rawData s)))) \<bind> sprintf 8;
     luxStr \<leftarrow> gets (\<lambda>s. left 5 (fmt_f 1 (lux (ltr390_rawData s)))) \<bind> sprintf 8;
     pmStr \<leftarrow> gets (\<lambda>s. left 4 (fmt_f 2 (gp2y1014au0f_rawData s))) \<bind> sprintf 8;
     soundStr \<leftarrow> gets (\<lambda>s. left 4 (fmt_f 2 (lm386_rawData s))) \<bind> sprintf 8;
     style Font8x16 ''CL_WHITE'';
     y \<leftarrow> LINE 4;
     lcd (ILI9341_Clear (21 * 8) y (8 * 8) (8 * 16));
     string_EN (21 * 8) 4 headingStr;
     string_EN (21 * 8) 5 temperatureStr;
     string_EN (21 * 8) 6 humidityStr;
     string_EN (21 * 8) 7 baroStr;
     string_EN (21 * 8) 8 uviStr;
     string_EN (21 * 8) 9 luxStr;
     string_EN (21 * 8) 10 pmStr;
     string_EN (21 * 8) 11 soundStr
   }"

text \<open>
  The statement \<open>DISP_DATA_prev_milli == DISP_DATA_curr_milli;\<close> compares and has no effect.
\<close>

definition DISP_DATA_task :: "('z app_st_scheme, unit) state" where
  "DISP_DATA_task = do {
     clear_screen;
     style Font24x32 ''CL_CYAN'';
     string_EN (3 * 24 - 8) 0 ''ENV DATA'';
     style Font8x16 ''CL_GREY1'';
     string_EN (9 * 8 - 8) 2 ''K1: Save to SD | K2: Back'';
     lcd (LCD_SetTextColor ''CL_GREY3'');
     line_EN 4 ''      Heading:       '';
     line_EN 5 ''      Temperature:   '';
     line_EN 6 ''      Humidity:      '';
     line_EN 7 ''      Baro Pressure: '';
     line_EN 8 ''      UV Index:      '';
     line_EN 9 ''      Luminance:     '';
     line_EN 10 ''      PM2.5 Level:   '';
     line_EN 11 ''      Sound Level:   '';
     string_EN (28 * 8) 4 '' *'';
     string_EN (28 * 8) 5 '' *C'';
     string_EN (28 * 8) 6 '' %'';
     string_EN (28 * 8) 7 '' hPa'';
     string_EN (28 * 8) 8 '' uvi'';
     string_EN (28 * 8) 9 '' lux'';
     string_EN (28 * 8) 10 '' ug/m3'';
     string_EN (28 * 8) 11 '' level'';
     t \<leftarrow> rt_tick_get_millisecond;
     modify (\<lambda>s. s\<lparr>DISP_DATA_curr_milli := t\<rparr>);
     DISP_DATA_updateData
   }"

definition TAKE_PHOTO_task :: "('z app_st_scheme, unit) state" where
  "TAKE_PHOTO_task = my_ov7725_test"

definition SD_CARD_task :: "('z app_st_scheme, unit) state" where
  "SD_CARD_task = do {
     clear_screen;
     style Font24x32 ''CL_YELLOW'';
     string_EN (3 * 24) 2 ''CONFIRM?'';
     style Font16x24 ''CL_MAGENTA'';
     line_EN 4 ''     K1: EJECT'';
     lcd (LCD_SetTextColor ''CL_WHITE'');
     line_EN 5 ''     K2: BACK''
   }"

definition SD_CARD_eject :: "('z app_st_scheme, unit) state" where
  "SD_CARD_eject = do {
     style Font8x16 ''CL_YELLOW'';
     line_EN 11 ''          Ejecting SD card...'';
     modify (\<lambda>s. s\<lparr>DATA_DELAY := 0xFFFFFFFF\<rparr>);
     _ \<leftarrow> sdcard_unmount;
     lcd (LCD_SetTextColor ''CL_GREEN'');
     line_EN 11 ''       Ejecting SD card succeeded!''
   }"

definition SETTINGS_updateSelect :: "('z app_st_scheme, unit) state" where
  "SETTINGS_updateSelect = do {
     style Font8x16 ''CL_GREEN'';
     y \<leftarrow> LINE 4;
     lcd (ILI9341_Clear 0 y (10 * 8) (7 * 16));
     sel \<leftarrow> gets selectSetting;
     line_EN (sel + 3) ''      >>''
   }"

definition SETTINGS_task :: "('z app_st_scheme, unit) state" where
  "SETTINGS_task = do {
     clear_screen;
     style Font24x32 ''CL_CYAN'';
     string_EN (3 * 24 - 8) 0 ''SETTINGS'';
     style Font8x16 ''CL_GREY1'';
     string_EN (9 * 8) 2 ''K1: Select | K2: Back'';
     lcd (LCD_SetTextColor ''CL_GREY3'');
     line_EN 4 ''          HMC5883L'';
     line_EN 5 ''          BME280'';
     line_EN 6 ''          LTR390'';
     line_EN 7 ''          GP2Y1014AU0F'';
     line_EN 8 ''          LM386'';
     line_EN 9 ''          AUTO SAVE DATA'';
     lcd (LCD_SetTextColor ''CL_WHITE'');
     line_EN 10 ''          BACK TO MENU'';
     SETTINGS_updateSelect
   }"

definition SETTINGS_DELAY_updateSelect :: "('z app_st_scheme, unit) state" where
  "SETTINGS_DELAY_updateSelect = do {
     style Font8x16 ''CL_GREEN'';
     y \<leftarrow> LINE 4;
     lcd (ILI9341_Clear 0 y (10 * 8) (7 * 16));
     sel \<leftarrow> gets selectDelay;
     line_EN (sel + 3) ''      >>''
   }"

definition SETTINGS_DELAY_task :: "('z app_st_scheme, unit) state" where
  "SETTINGS_DELAY_task = do {
     clear_screen;
     style Font24x32 ''CL_CYAN'';
     string_EN 12 0 ''SELECT DELAY'';
     style Font8x16 ''CL_GREY1'';
     string_EN (9 * 8) 2 ''K1: Select | K2: Enter'';
     lcd (LCD_SetTextColor ''CL_GREY3'');
     line_EN 4 ''          0.5 seconds'';
     line_EN 5 ''          1 second'';
     line_EN 6 ''          2 seconds'';
     line_EN 7 ''          5 seconds'';
     line_EN 8 ''          10 seconds'';
     line_EN 9 ''          60 seconds'';
     lcd (LCD_SetTextColor ''CL_WHITE'');
     line_EN 10 ''          BACK TO SETTINGS'';
     SETTINGS_DELAY_updateSelect
   }"

section \<open>Acting on the keys\<close>

text \<open>The six statements that give both keys new handlers.\<close>

definition rebind_key :: "int \<Rightarrow> irq_handler \<Rightarrow> ('z gpio_st_scheme, int) state" where
  "rebind_key pin h = do {
     stm32_pin_dettach_irq pin;
     stm32_pin_attach_irq pin PIN_IRQ_MODE_RISING (Some h) 0;
     stm32_pin_irq_enable pin PIN_IRQ_ENABLE
   }"

definition rebind_keys :: "irq_handler \<Rightarrow> irq_handler \<Rightarrow> ('z gpio_st_scheme, unit) state" where
  "rebind_keys h1 h2 = do { rebind_key KEY1_EMBEDDED h1; rebind_key KEY2_EMBEDDED h2; ret () }"

definition reset_delay_menu :: "('z app_st_scheme, unit) state" where
  "reset_delay_menu = modify (\<lambda>s. s\<lparr>currDelay := DELAY_BACK, prevDelay := DELAY_BACK, delay_isChanged := True,
     selectDelay := DELAY_0_5, delaySelect_isChanged := False\<rparr>)"

definition config_delay :: "('z app_st_scheme, unit) state" where
  "config_delay = do {
     lcd (LCD_SetTextColor ''CL_GREEN'');
     line_EN 12 '' Delay for this peripheral is changed!'';
     rt_thread_mdelay 50;
     modify (\<lambda>s. s\<lparr>prevSetting := currSetting s, currSetting := SETTING_NO, setting_isChanged := True\<rparr>);
     reset_delay_menu
   }"

text \<open>\<open>None\<close>: the function ends without a return statement; its caller ignores the result.\<close>

definition enter_SETTING_DELAY :: "('z app_st_scheme, int option) state" where
  "enter_SETTING_DELAY = do {
     curr \<leftarrow> gets currDelay;
     if curr = DELAY_NO then do {
       changed \<leftarrow> gets delay_isChanged;
       sel \<leftarrow> gets delaySelect_isChanged;
       if changed then do {
         modify (\<lambda>s. s\<lparr>delay_isChanged := False\<rparr>);
         rebind_keys H_key1_irq_SETTING_DELAY_SELECT H_key2_irq_SETTING_DELAY_SELECT;
         SETTINGS_DELAY_task;
         ret (Some RT_EOK)
       }
       else if sel then do {
         modify (\<lambda>s. s\<lparr>delaySelect_isChanged := False\<rparr>);
         SETTINGS_DELAY_updateSelect;
         ret (Some RT_EOK)
       }
       else ret (Some RT_EOK)
     }
     else if curr \<in> {1, 2, 3, 4, 5, 6} then do { config_delay; ret None }
     else if curr = DELAY_BACK then do {
       modify (\<lambda>s. s\<lparr>prevSetting := currSetting s, currSetting := SETTING_NO, setting_isChanged := True\<rparr>);
       reset_delay_menu;
       ret (Some RT_EOK)
     }
     else ret (Some (- RT_ERROR))
   }"

definition enter_SETTING :: "('z app_st_scheme, int) state" where
  "enter_SETTING = do {
     curr \<leftarrow> gets currSetting;
     changed \<leftarrow> gets setting_isChanged;
     sel \<leftarrow> gets settingSelect_isChanged;
     if curr = SETTING_NO then
       if changed then do {
         modify (\<lambda>s. s\<lparr>setting_isChanged := False\<rparr>);
         rebind_keys H_key1_irq_SETTING_SELECT H_key2_irq_SETTING_SELECT;
         SETTINGS_task;
         ret RT_EOK
       }
       else if sel then do {
         modify (\<lambda>s. s\<lparr>settingSelect_isChanged := False\<rparr>);
         SETTINGS_updateSelect;
         ret RT_EOK
       }
       else ret RT_EOK
     else if curr \<in> {1, 2, 3, 4, 5, 6} then
       if changed then do {
         modify (\<lambda>s. s\<lparr>setting_isChanged := False, prevDelay := currDelay s, currDelay := DELAY_NO,
           delaySelect_isChanged := True\<rparr>);
         ret RT_EOK
       }
       else do { _ \<leftarrow> enter_SETTING_DELAY; ret RT_EOK }
     else if curr = SETTING_BACK then do {
       modify (\<lambda>s. s\<lparr>prevScene := currScene s, currScene := SCENE_MENU, scene_isChanged := True,
         currSetting := SETTING_BACK, prevSetting := SETTING_BACK, setting_isChanged := True,
         selectSetting := SETTING_HMC5883L, settingSelect_isChanged := False\<rparr>);
       reset_delay_menu;
       ret RT_EOK
     }
     else ret (- RT_ERROR)
   }"

definition mainFunc :: "('z app_st_scheme, int) state" where
  "mainFunc = do {
     scene \<leftarrow> gets currScene;
     changed \<leftarrow> gets scene_isChanged;
     if scene = SCENE_MENU then
       if changed then do {
         modify (\<lambda>s. s\<lparr>scene_isChanged := False\<rparr>);
         rebind_keys H_key1_irq_MENU H_key2_irq_MENU;
         MENU_task;
         ret RT_EOK
       }
       else do {
         sel \<leftarrow> gets sceneSelect_isChanged;
         when_true sel (do {
           modify (\<lambda>s. s\<lparr>sceneSelect_isChanged := False\<rparr>);
           MENU_updateSelect
         });
         ret RT_EOK
       }
     else if scene = SCENE_DISP_DATA then
       if changed then do {
         modify (\<lambda>s. s\<lparr>scene_isChanged := False\<rparr>);
         rebind_keys H_key1_irq_DISP_DATA H_key2_irq_DISP_DATA;
         DISP_DATA_task;
         ret RT_EOK
       }
       else do {
         t \<leftarrow> rt_tick_get_millisecond;
         modify (\<lambda>s. s\<lparr>DISP_DATA_curr_milli := t\<rparr>);
         due \<leftarrow> gets (\<lambda>s. t - DISP_DATA_prev_milli s \<ge> DISP_DATA_DELAY s);
         when_true due (do { modify (\<lambda>s. s\<lparr>DISP_DATA_prev_milli := t\<rparr>); DISP_DATA_updateData });
         saving \<leftarrow> gets isSavingData;
         when_true saving (do { modify (\<lambda>s. s\<lparr>isSavingData := False\<rparr>); sdcard_saveCurrData });
         ret RT_EOK
       }
     else if scene = SCENE_TAKE_PHOTO then
       if changed then do {
         modify (\<lambda>s. s\<lparr>scene_isChanged := False\<rparr>);
         rebind_keys H_key1_irq_TAKE_PHOTO H_key2_irq_TAKE_PHOTO;
         ret RT_EOK
       }
       else do { TAKE_PHOTO_task; ret RT_EOK }
     else if scene = SCENE_SD_CARD then
       if changed then do {
         modify (\<lambda>s. s\<lparr>scene_isChanged := False\<rparr>);
         rebind_keys H_key1_irq_SD_CARD H_key2_irq_SD_CARD;
         SD_CARD_task;
         ret RT_EOK
       }
       else do {
         ejecting \<leftarrow> gets isEjecting;
         when_true ejecting (do { modify (\<lambda>s. s\<lparr>isEjecting := False\<rparr>); SD_CARD_eject });
         ret RT_EOK
       }
     else if scene = SCENE_SETTINGS then
       if changed then do {
         modify (\<lambda>s. s\<lparr>scene_isChanged := False, prevSetting := currSetting s, currSetting := SETTING_NO,
           settingSelect_isChanged := True\<rparr>);
         ret RT_EOK
       }
       else do { _ \<leftarrow> enter_SETTING; ret RT_EOK }
     else ret (- RT_ERROR)
   }"

end
