(* ===== verification/App_Frames.thy ===== *)
theory App_Frames
  imports App_Scenes
begin

text \<open>
  What the drivers, the display calls and the file functions leave alone: they do not touch
  the application's variables, and apart from the functions that create and destroy device
  structures none of them allocates or frees.
\<close>

fun nonheap :: "ev \<Rightarrow> bool" where
  "nonheap (Alloc a) = False"
| "nonheap (Free a) = False"
| "nonheap _ = True"

lemma nonheap_no_alloc: "nonheap e \<Longrightarrow> no_alloc e"
  by (cases e) (auto simp: no_alloc_def)

lemma nonheap_extends: "appends nonheap m \<Longrightarrow> extends no_alloc m"
  by (rule extends_appends, erule appends_mono) (rule nonheap_no_alloc)

section \<open>Display, LED, delays and files\<close>

lemma lcd_calm [frame_intros]: "appends nonheap (lcd c)"
  unfolding lcd_def by (intro frame_intros) simp

lemma LINE_calm [frame_intros]: "appends nonheap (LINE x)"
  unfolding LINE_def by (intro frame_intros)

lemma text_calm [frame_intros]:
  "appends nonheap clear_screen" "appends nonheap (line_EN x text)" "appends nonheap (string_EN ux x text)"
  "appends nonheap (style f c)"
  unfolding clear_screen_def line_EN_def string_EN_def style_def by (intro frame_intros)+

lemma led_calm [frame_intros]: "appends nonheap (led_embedded_color c)"
  by (rule appends_mono [OF appends_led_embedded_color]) auto

lemma time_calm [frame_intros]: "appends nonheap (rt_thread_mdelay ms)" "appends nonheap (rt_hw_us_delay us)"
  "appends nonheap rt_tick_get_millisecond"
  unfolding rt_thread_mdelay_def rt_hw_us_delay_def rt_tick_get_millisecond_def by (intro frame_intros; simp)+

lemma pin_write_calm [frame_intros]: "appends nonheap (stm32_pin_write p v)"
  unfolding stm32_pin_write_def by (intro frame_intros) (auto split: option.splits prod.splits intro!: frame_intros)

lemma led_more_calm [frame_intros]: "appends nonheap led_embedded_off" "appends nonheap (led_embedded_blink ms)"
  unfolding led_embedded_off_def rgb_write_def led_embedded_blink_def by (intro frame_intros)+

lemma sprintf_calm [frame_intros]: "appends nonheap (sprintf n text)"
  unfolding sprintf_def fault_def by (intro frame_intros) simp

lemma files_calm [frame_intros]: "appends nonheap (sdcard_appendNewData buffer n)"
  "appends nonheap sdcard_unmount" "appends nonheap sdcard_init"
  unfolding sdcard_appendNewData_def open_file_def log_string_def fault_def sdcard_unmount_def dfs_unmount_def
    sdcard_init_def dfs_mount_def by (intro frame_intros; simp)+

lemma pin_mode_calm [frame_intros]: "appends nonheap (stm32_pin_mode p m)"
  unfolding stm32_pin_mode_def by (auto split: option.splits prod.splits intro!: frame_intros)

lemma pin_read_calm [frame_intros]: "appends nonheap (stm32_pin_read p)"
  unfolding stm32_pin_read_def by (auto split: option.splits prod.splits intro!: frame_intros)

lemma keys_calm [frame_intros]: "appends nonheap key1_isPressed" "appends nonheap key2_isPressed"
  unfolding key1_isPressed_def key2_isPressed_def by (intro frame_intros)+

section \<open>The camera\<close>

lemmas line_defs = SCL_H_def SCL_L_def SDA_H_def SDA_L_def digitalHi_def digitalLo_def SDA_read_def SCCB_delay_def

lemma wire_calm [frame_intros]: "appends nonheap SCL_H" "appends nonheap SCL_L" "appends nonheap SDA_H"
  "appends nonheap SDA_L" "appends nonheap SDA_read" "appends nonheap SCCB_delay"
  unfolding line_defs by (intro frame_intros; simp)+

lemma conditions_calm [frame_intros]: "appends nonheap SCCB_Start" "appends nonheap SCCB_Stop"
  "appends nonheap SCCB_Ack" "appends nonheap SCCB_NoAck" "appends nonheap SCCB_WaitAck"
  unfolding SCCB_Start_def SCCB_Stop_def SCCB_Ack_def SCCB_NoAck_def SCCB_WaitAck_def by (intro frame_intros)+

lemma send_calm [frame_intros]: "appends nonheap (SCCB_SendByte b)"
proof -
  have "appends nonheap (send_bits n b)" for n
    by (induction n arbitrary: b) (auto simp: Let_def intro!: frame_intros)
  then show ?thesis unfolding SCCB_SendByte_def by (intro frame_intros)
qed

lemma receive_calm [frame_intros]: "appends nonheap SCCB_ReceiveByte"
proof -
  have "appends nonheap (receive_bits n b)" for n b
    by (induction n arbitrary: b) (auto simp: Let_def intro!: frame_intros)
  then show ?thesis unfolding SCCB_ReceiveByte_def by (intro frame_intros)
qed

lemma transfer_calm [frame_intros]: "appends nonheap (SCCB_WriteByte a d)" "appends nonheap (SCCB_ReadByte n b)"
proof -
  show "appends nonheap (SCCB_WriteByte a d)" unfolding SCCB_WriteByte_def by (intro frame_intros)
  have "appends nonheap (read_bytes n)" for n by (induction n) (auto intro!: frame_intros)
  then show "appends nonheap (SCCB_ReadByte n b)" unfolding SCCB_ReadByte_def by (intro frame_intros)
qed

lemma regs_calm [frame_intros]: "appends nonheap (reg_write a d)" "appends nonheap (reg_read x b)"
  "appends nonheap (reg_writes rs)"
  unfolding reg_write_def reg_read_def reg_writes_def by (intro frame_intros)+

lemma camera_init_calm [frame_intros]: "appends nonheap (init_retry n)"
proof -
  have "appends nonheap (write_config rs)" for rs by (induction rs) (auto intro!: frame_intros)
  then have i: "appends nonheap OV7725_Init" unfolding OV7725_Init_def Let_def by (intro frame_intros)
  show ?thesis
  proof (induction n rule: init_retry.induct)
    case (1 n)
    show ?case by (subst init_retry.simps) (intro frame_intros i; use 1 in blast)
  qed
qed

lemma camera_calm [frame_intros]: "appends nonheap (OV7725_Special_Effect x)" "appends nonheap (OV7725_Light_Mode x)"
  "appends nonheap (OV7725_Color_Saturation x)" "appends nonheap (OV7725_Brightness x)" "appends nonheap (OV7725_Contrast x)"
  "appends nonheap (OV7725_Window_Set a b c d q)"
  unfolding OV7725_Special_Effect_def OV7725_Light_Mode_def OV7725_Color_Saturation_def OV7725_Brightness_def
    OV7725_Contrast_def OV7725_Window_Set_def fault_def Let_def by (intro frame_intros; simp)+

lemmas fifo_defs = FIFO_OE_L_def FIFO_WRST_H_def FIFO_WRST_L_def FIFO_RRST_H_def FIFO_RRST_L_def FIFO_RCLK_H_def
  FIFO_RCLK_L_def FIFO_WE_H_def FIFO_WE_L_def data_IDR_def

lemma image_calm [frame_intros]: "appends nonheap FIFO_PREPARE" "appends nonheap (ImagDisp a b c d)"
  unfolding FIFO_PREPARE_def ImagDisp_def image_loop_def READ_FIFO_PIXEL_def fifo_defs Let_def
  by (intro frame_intros; simp)+

lemma camera_pins_calm [frame_intros]: "appends nonheap SCCB_GPIO_Config" "appends nonheap FIFO_GPIO_Config"
  unfolding SCCB_GPIO_Config_def FIFO_GPIO_Config_def fifo_defs by (intro frame_intros; simp)+

section \<open>The analogue inputs\<close>

lemma convert_calm [frame_intros]: "appends nonheap convert" "appends nonheap my_lm386_get_data"
  unfolding convert_def my_lm386_get_data_def by (intro frame_intros; simp)+

lemma adc_init_calm [frame_intros]: "appends nonheap (my_MX_ADC1_Init c)" "appends nonheap my_lm386_init"
  "appends nonheap my_gp2y1014au0f_init"
  unfolding my_lm386_init_def my_gp2y1014au0f_init_def my_MX_ADC1_Init_def by (intro frame_intros; simp)+

lemma double_to_u8_calm [frame_intros]: "appends nonheap (double_to_u8 x)"
  unfolding double_to_u8_def fault_def by (intro frame_intros) simp

section \<open>Bus and sensors\<close>

lemma i2c_calm [frame_intros]: "appends nonheap (i2c_read_regs b a r buf)" "appends nonheap (i2c_write_reg b a r v)"
  "appends nonheap (deref p)" "appends nonheap (load_i2c p)" "appends nonheap (load_bme p)"
  unfolding i2c_read_regs_def i2c_write_reg_def rt_i2c_transfer_def deref_def load_i2c_def load_bme_def fault_def Let_def
  by (intro frame_intros; simp)+

lemma sensor_calm [frame_intros]: "appends nonheap (hmc_read_regs p r buf)" "appends nonheap (hmc_write_reg p r v)"
  "appends nonheap (ltr_read_regs p r buf)" "appends nonheap (ltr_write_reg p r v)"
  unfolding hmc_read_regs_def hmc_write_reg_def ltr_read_regs_def ltr_write_reg_def dev_read_regs_def
    dev_write_reg_def on_i2c_bus_def by (intro frame_intros)+

lemma sensor_data_calm [frame_intros]: "appends nonheap (self_test p)" "appends nonheap (my_hmc5883l_get_data q d)"
  "appends nonheap (my_ltr390_get_data q v)"
  unfolding self_test_def my_hmc5883l_get_data_def my_ltr390_get_data_def measure_channel_def select_channel_def Let_def
  by (intro frame_intros)+

end
