(* ===== verification/App_Init.thy ===== *)
theory App_Init
  imports App_Frames
begin

text \<open>
  Start-up of \<open>src/applications/main.c\<close>: \<open>mainFuncInit\<close> brings up all devices and \<open>main\<close> repeats it
  until it succeeds. \<open>None\<close> is an initialisation that does not come back, because
  \<open>Error_Handler\<close> stops the program.
\<close>

section \<open>The code\<close>

text \<open>What the three sensor initialisations report on the screen and by the LED.\<close>

definition report_device :: "nat \<Rightarrow> string \<Rightarrow> string \<Rightarrow> bool \<Rightarrow> ('z board_scheme, unit) state" where
  "report_device x good bad ok =
     (if ok then do { led_embedded_color LED_GREEN; line_EN x good }
      else do {
        lcd (LCD_SetTextColor ''CL_RED'');
        led_embedded_color LED_RED;
        line_EN x bad;
        lcd (LCD_SetTextColor ''CL_GREEN'')
      })"

definition init_hmc5883l :: "('z app_st_scheme, bool) state" where
  "init_hmc5883l = do {
     led_embedded_color LED_BLUE;
     p \<leftarrow> my_hmc5883l_init ''i2c1'' 0x1E;
     modify (\<lambda>s. s\<lparr>hmc5883l := p\<rparr>);
     report_device 5 ''(3/9) HMC5883L init succeeded!'' ''(3/9) HMC5883L init failed!'' (p \<noteq> None);
     ret (p \<noteq> None)
   }"

definition init_bme280 :: "('z app_st_scheme, bool) state" where
  "init_bme280 = do {
     led_embedded_color LED_BLUE;
     p \<leftarrow> my_bme280_init ''i2c1'' 0x77;
     modify (\<lambda>s. s\<lparr>bme280 := p\<rparr>);
     report_device 6 ''(4/9) BME280 init succeeded!'' ''(4/9) BME280 init failed!'' (p \<noteq> None);
     ret (p \<noteq> None)
   }"

definition init_ltr390 :: "('z app_st_scheme, bool) state" where
  "init_ltr390 = do {
     led_embedded_color LED_BLUE;
     p \<leftarrow> my_ltr390_init ''i2c1'' 0x53;
     modify (\<lambda>s. s\<lparr>ltr390 := p\<rparr>);
     report_device 7 ''(5/9) LTR390 init succeeded!'' ''(5/9) LTR390 init failed!'' (p \<noteq> None);
     ret (p \<noteq> None)
   }"

definition init_camera :: "('z app_st_scheme, bool) state" where
  "init_camera = do {
     led_embedded_color LED_BLUE;
     r \<leftarrow> my_ov7725_test_init;
     report_device 10 ''(8/9) OV7725 init succeeded!'' ''(8/9) OV7725 init failed!'' (r = RT_EOK);
     ret (r = RT_EOK)
   }"

definition init_card :: "bool \<Rightarrow> ('z app_st_scheme, int) state" where
  "init_card all_ok =
     (if all_ok then do {
        led_embedded_color LED_BLUE;
        r \<leftarrow> sdcard_init;
        report_device 11 ''(9/9) SD card init succeeded!'' ''(9/9) SD card init failed!'' (r = RT_EOK);
        ret (if r = RT_EOK then RT_EOK else - RT_ERROR)
      }
      else do {
        lcd (LCD_SetTextColor ''CL_YELLOW'');
        line_EN 11 ''(9/9) Skip SD card.'';
        lcd (LCD_SetTextColor ''CL_GREEN'');
        ret (- RT_ERROR)
      })"

definition init_screen :: "('z app_st_scheme, unit) state" where
  "init_screen = do {
     lcd (LCD_SetBackColor ''CL_BLACK'');
     clear_screen;
     style Font16x24 ''CL_BLUE4'';
     line_EN 0 ''Smart Env Tracker'';
     lcd (LCD_SetTextColor ''CL_CYAN'');
     line_EN 1 ''Initializing...'';
     style Font8x16 ''CL_GREEN''
   }"

definition init_led_key :: "('z app_st_scheme, unit) state" where
  "init_led_key = do {
     led_embedded_init;
     led_embedded_color LED_GREEN;
     line_EN 3 ''(1/9) LED init succeeded!'';
     led_embedded_color LED_BLUE;
     key_embedded_init;
     led_embedded_color LED_GREEN;
     line_EN 4 ''(2/9) KEY init succeeded!''
   }"

text \<open>The two analogue inputs; \<open>False\<close> means stopped.\<close>

definition init_analogue :: "('z app_st_scheme, bool) state" where
  "init_analogue = do {
     led_embedded_color LED_BLUE;
     alive \<leftarrow> my_gp2y1014au0f_init;
     if \<not> alive then ret False
     else do {
       led_embedded_color LED_GREEN;
       line_EN 8 ''(6/9) GP2Y1014AU0F init succeeded!'';
       led_embedded_color LED_BLUE;
       alive \<leftarrow> my_lm386_init;
       if \<not> alive then ret False
       else do {
         led_embedded_color LED_GREEN;
         line_EN 9 ''(7/9) LM386 init succeeded!'';
         ret True
       }
     }
   }"

definition mainFuncInit :: "('z app_st_scheme, int option) state" where
  "mainFuncInit = do {
     modify (\<lambda>s. s\<lparr>initCount := initCount s + 1\<rparr>);
     init_screen;
     init_led_key;
     ok1 \<leftarrow> init_hmc5883l;
     ok2 \<leftarrow> init_bme280;
     ok3 \<leftarrow> init_ltr390;
     alive \<leftarrow> init_analogue;
     if \<not> alive then ret None
     else do {
       ok4 \<leftarrow> init_camera;
       status \<leftarrow> init_card (ok1 \<and> ok2 \<and> ok3 \<and> ok4);
       when_true (status \<noteq> RT_EOK) (led_embedded_color LED_RED);
       ret (Some status)
     }
   }"

text \<open>
  The loop \<open>while (mainFuncInit() != RT_EOK) rt_thread_mdelay(1000)\<close> with a bound on the number of
  attempts; \<open>Out_of_attempts\<close> is not an outcome of the program but of the bound.
\<close>

datatype boot_outcome = Boot_ok | Boot_stopped | Out_of_attempts

primrec init_loop :: "nat \<Rightarrow> ('z app_st_scheme, boot_outcome) state" where
  "init_loop 0 = ret Out_of_attempts"
| "init_loop (Suc n) = do {
     r \<leftarrow> mainFuncInit;
     case r of
       None \<Rightarrow> ret Boot_stopped
     | Some status \<Rightarrow>
         if status \<noteq> RT_EOK then do { rt_thread_mdelay 1000; init_loop n }
         else ret Boot_ok
   }"

definition init_scene :: "('z app_st_scheme, unit) state" where
  "init_scene = modify (\<lambda>s. s\<lparr>currScene := SCENE_MENU, prevScene := SCENE_MENU, selectScene := SCENE_DISP_DATA,
     scene_isChanged := True\<rparr>)"

definition boot :: "nat \<Rightarrow> ('z app_st_scheme, boot_outcome) state" where
  "boot n = do {
     lcd ILI9341_Init;
     lcd XPT2046_Init;
     lcd (ILI9341_GramScan 3);
     r \<leftarrow> init_loop n;
     when_true (r = Boot_ok) init_scene;
     ret r
   }"

text \<open>The body of the main loop, call by call.\<close>

definition log_main :: "('z app_st_scheme, unit) state" where
  "log_main = do {
     t \<leftarrow> rt_tick_get_millisecond;
     modify (\<lambda>s. s\<lparr>mainOutput_curr_milli := t\<rparr>);
     due \<leftarrow> gets (\<lambda>s. t - mainOuput_prev_milli s \<ge> mainOuput_DELAY s);
     when_true due (modify (\<lambda>s. s\<lparr>mainOuput_prev_milli := t\<rparr>))
   }"

definition main_loop :: "('z app_st_scheme, unit) state list" where
  "main_loop = [my_hmc5883l_test, my_bme280_test, my_ltr390_test, my_gp2y1014au0f_test, my_lm386_test,
     my_sd_card_test, log_main, do { _ \<leftarrow> mainFunc; ret () }]"

section \<open>Allocation during the start-up\<close>

lemma pin_setup_no_alloc: "extends pin_setup m \<Longrightarrow> extends no_alloc m"
proof (erule extends_mono)
  show "pin_setup e \<Longrightarrow> no_alloc e" for e by (cases e) (auto simp: no_alloc_def)
qed

lemma key_init_extends [extend_intros]: "extends no_alloc key_embedded_init" "extends no_alloc VSYNC_GPIO_Config"
  unfolding key_embedded_init_def VSYNC_GPIO_Config_def
  by (intro pin_setup_no_alloc extend_intros)+

lemma report_calm [frame_intros]: "appends nonheap (report_device x good bad ok)"
  unfolding report_device_def by (intro frame_intros)

lemma screen_calm [frame_intros]: "appends nonheap init_screen" "appends nonheap led_embedded_init"
  unfolding init_screen_def led_embedded_init_def by (intro frame_intros)+


lemma boot_extends [extend_intros]: "extends no_alloc init_screen" "extends no_alloc init_led_key"
  "extends no_alloc init_analogue" "extends no_alloc init_camera" "extends no_alloc (init_card ok)"
proof -
  show "extends no_alloc init_screen" by (rule nonheap_extends, rule screen_calm)
  show "extends no_alloc init_led_key" unfolding init_led_key_def by (intro extend_intros; intro nonheap_extends frame_intros)
  show "extends no_alloc init_analogue" unfolding init_analogue_def by (intro extend_intros; intro nonheap_extends frame_intros)
  have "extends no_alloc my_ov7725_test_init"
    unfolding my_ov7725_test_init_def OV7725_GPIO_Config_def
    by (intro extend_intros; (intro nonheap_extends frame_intros)?) simp
  then show "extends no_alloc init_camera"
    unfolding init_camera_def by (intro extend_intros; (assumption | intro nonheap_extends frame_intros))
  show "extends no_alloc (init_card ok)" unfolding init_card_def by (intro extend_intros; intro nonheap_extends frame_intros)
qed

text \<open>A start-up step that puts a new structure into the variable \<open>get\<close>, or null.\<close>

definition creates :: "('z app_st_scheme \<Rightarrow> nat option) \<Rightarrow> ('z app_st_scheme, bool) state \<Rightarrow> bool" where
  "creates get m \<longleftrightarrow> (\<forall>s. let (ok, t) = run_state m s in ok = (get t \<noteq> None) \<and>
     set_option (get t) \<inter> live (hist s) = {} \<and> live (hist t) = live (hist s) \<union> set_option (get t))"

lemma creates_device:
  fixes upd :: "nat option \<Rightarrow> 'z app_st_scheme \<Rightarrow> 'z app_st_scheme"
  assumes "hands_out i" and "\<And>p s. get (upd p s) = p \<and> hist (upd p s) = hist s"
    and "\<And>s h. get (s\<lparr>hist := h\<rparr>) = get s"
  shows "creates get (do { led_embedded_color c; p \<leftarrow> i; modify (upd p); report_device x g b (p \<noteq> None); ret (p \<noteq> None) })"
  unfolding creates_def
proof
  fix s :: "'z app_st_scheme"
  obtain s1 where 1: "run_state (led_embedded_color c) s = ((), s1)" by (metis (full_types) old.unit.exhaust prod.exhaust)
  obtain p s2 where 2: "run_state i s1 = (p, s2)" by (metis prod.exhaust)
  obtain s4 where 4: "run_state (report_device x g b (p \<noteq> None)) (upd p s2) = ((), s4)"
    by (metis (full_types) old.unit.exhaust prod.exhaust)
  have "live (hist s1) = live (hist s)" by (rule live_extends [OF nonheap_extends [OF led_calm] 1])
  moreover have "live (hist s4) = live (hist (upd p s2))" by (rule live_extends [OF nonheap_extends [OF report_calm] 4])
  moreover have "get s4 = p"
    using keepsD [OF appends_keeps [OF report_calm assms(3)] 4] assms(2) by simp
  moreover have "case p of None \<Rightarrow> live (hist s2) = live (hist s1)
      | Some a \<Rightarrow> a \<notin> live (hist s1) \<and> live (hist s2) = insert a (live (hist s1))"
    using assms(1) 2 unfolding hands_out_def by (metis (mono_tags, lifting) case_prod_conv)
  ultimately show "let (ok, t) = run_state (do { led_embedded_color c; p \<leftarrow> i; modify (upd p);
      report_device x g b (p \<noteq> None); ret (p \<noteq> None) }) s in ok = (get t \<noteq> None) \<and>
     set_option (get t) \<inter> live (hist s) = {} \<and> live (hist t) = live (hist s) \<union> set_option (get t)"
    using 1 2 4 assms(2) by (cases p) (simp_all add: insert_commute)
qed

lemma init_creates: "creates hmc5883l init_hmc5883l" "creates bme280 init_bme280" "creates ltr390 init_ltr390"
  unfolding init_hmc5883l_def init_bme280_def init_ltr390_def
  by (rule creates_device, rule hmc5883l_init_hands_out bme280_init_hands_out ltr390_init_hands_out; simp)+

section \<open>Variables the start-up keeps\<close>

text \<open>Parts of the memory that do not depend on the history, the heap or the driver's bus.\<close>

definition blind :: "('z bme_st_scheme \<Rightarrow> 'v) \<Rightarrow> bool" where
  "blind f \<longleftrightarrow> (\<forall>s h. f (s\<lparr>hist := h\<rparr>) = f s) \<and> (\<forall>s h. f (s\<lparr>heap := h\<rparr>) = f s) \<and>
     (\<forall>s b. f (s\<lparr>i2c_bus_toBeUsed := b\<rparr>) = f s)"

lemma blind_calm: "blind f \<Longrightarrow> appends P m \<Longrightarrow> keeps f m"
  by (erule appends_keeps) (simp add: blind_def)

lemma blind_memory:
  assumes "blind f"
  shows "keeps f (calloc_struct c)" "keeps f (rt_free a)" "keeps f (store_i2c a d)" "keeps f (store_bme a b)"
    "keeps f (load_i2c a)" "keeps f (load_bme a)" "keeps f (modify (\<lambda>s. s\<lparr>i2c_bus_toBeUsed := x\<rparr>))"
    "keeps f (dev_of a)" "keeps f (update_dev a y)"
proof -
  note calm = blind_calm [OF assms]
  have b: "f (s\<lparr>hist := h\<rparr>) = f s" "f (s\<lparr>heap := g\<rparr>) = f s" "f (s\<lparr>i2c_bus_toBeUsed := z\<rparr>) = f s" for s h g z
    using assms by (simp_all add: blind_def)
  note i = keep_intros b calm [OF i2c_calm(3)]
  show "keeps f (calloc_struct c)" "keeps f (rt_free a)"
    unfolding calloc_struct_def rt_calloc_def rt_free_def by (intro i)+
  show si: "keeps f (store_i2c a d)" and sb: "keeps f (store_bme a b)" for b
    unfolding store_i2c_def store_bme_def by (intro i)+
  show "keeps f (load_i2c a)" and lb: "keeps f (load_bme a)" by (intro calm [OF i2c_calm(4)] calm [OF i2c_calm(5)])+
  show "keeps f (modify (\<lambda>s. s\<lparr>i2c_bus_toBeUsed := x\<rparr>))" by (intro i)
  show "keeps f (dev_of a)" "keeps f (update_dev a y)"
    unfolding dev_of_def update_dev_def by (intro i lb sb)+
qed

lemma blind_sensors:
  assumes "blind f"
  shows "keeps f (my_hmc5883l_init n a)" "keeps f (my_ltr390_init n a)" "keeps f (my_bme280_init n a)"
    "keeps f (my_hmc5883l_get_data p d)" "keeps f (my_ltr390_get_data p l)" "keeps f (my_bme280_get_data p w)"
    "keeps f (my_hmc5883l_destroy p)" "keeps f (my_ltr390_destroy p)" "keeps f (my_bme280_destroy p)"
proof -
  note calm = blind_calm [OF assms] and mem = blind_memory [OF assms]
  have b: "f (s\<lparr>hist := h\<rparr>) = f s" for s h using assms by (simp add: blind_def)
  note i = keep_intros mem b and bme = driver_frames [THEN calm]
  show "keeps f (my_hmc5883l_init n a)" "keeps f (my_ltr390_init n a)"
    unfolding my_hmc5883l_init_def my_ltr390_init_def by (intro i calm [OF sensor_calm(2)] calm [OF sensor_calm(4)] calm [OF sensor_data_calm(1)])+
  have "keeps f (start_sensor a)" for a unfolding start_sensor_def Let_def by (intro i bme)
  then show "keeps f (my_bme280_init n a)" unfolding my_bme280_init_def by (intro i)
  show "keeps f (my_hmc5883l_get_data p d)" "keeps f (my_ltr390_get_data p l)"
    by (rule calm [OF sensor_data_calm(2)], rule calm [OF sensor_data_calm(3)])
  show "keeps f (my_bme280_get_data p w)" unfolding my_bme280_get_data_def by (intro i bme)
  show "keeps f (my_hmc5883l_destroy p)" "keeps f (my_ltr390_destroy p)" "keeps f (my_bme280_destroy p)"
    unfolding my_hmc5883l_destroy_def my_ltr390_destroy_def my_bme280_destroy_def fault_def by (intro i)+
qed

section \<open>One attempt\<close>

lemma keeps_init_hmc5883l:
  fixes f :: "'z app_st_scheme \<Rightarrow> 'v"
  assumes "blind f" and "\<And>s p. f (s\<lparr>hmc5883l := p\<rparr>) = f s"
  shows "keeps f init_hmc5883l"
  unfolding init_hmc5883l_def
  by (intro keep_intros blind_sensors [OF assms(1)] blind_calm [OF assms(1) led_calm]
    blind_calm [OF assms(1) report_calm] assms(2))

lemma keeps_init_bme280:
  fixes f :: "'z app_st_scheme \<Rightarrow> 'v"
  assumes "blind f" and "\<And>s p. f (s\<lparr>bme280 := p\<rparr>) = f s"
  shows "keeps f init_bme280"
  unfolding init_bme280_def
  by (intro keep_intros blind_sensors [OF assms(1)] blind_calm [OF assms(1) led_calm]
    blind_calm [OF assms(1) report_calm] assms(2))

lemma keeps_init_ltr390:
  fixes f :: "'z app_st_scheme \<Rightarrow> 'v"
  assumes "blind f" and "\<And>s p. f (s\<lparr>ltr390 := p\<rparr>) = f s"
  shows "keeps f init_ltr390"
  unfolding init_ltr390_def
  by (intro keep_intros blind_sensors [OF assms(1)] blind_calm [OF assms(1) led_calm]
    blind_calm [OF assms(1) report_calm] assms(2))

lemma blind_pointers: "blind hmc5883l" "blind bme280" "blind ltr390"
  by (simp_all add: blind_def)

text \<open>The remaining steps change none of the three pointers.\<close>

lemma pins_keep:
  assumes "\<And>s h. f (s\<lparr>hist := h\<rparr>) = f s" and "\<And>s p. f (s\<lparr>pin_irq_hdr_tab := p\<rparr>) = f s"
    and "\<And>s p. f (s\<lparr>pin_irq_enable_mask := p\<rparr>) = f s"
  shows "keeps f (stm32_pin_attach_irq p m hdr a)" "keeps f (stm32_pin_irq_enable p en)" "keeps f (stm32_pin_dettach_irq p)"
    "keeps f (stm32_pin_mode p md)"
proof -
  show "keeps f (stm32_pin_attach_irq p m hdr a)" "keeps f (stm32_pin_dettach_irq p)"
    unfolding stm32_pin_attach_irq_def stm32_pin_dettach_irq_def Let_def by (intro keep_intros assms)+
  show "keeps f (stm32_pin_mode p md)" by (rule appends_keeps [OF pin_mode_calm assms(1)])
  have "keeps f (irq_enable_line p port b)" for port b
    unfolding irq_enable_line_def Let_def fault_def by (intro keep_intros assms)
  moreover have "keeps f (irq_disable_line port b)" for port b
    unfolding irq_disable_line_def by (intro keep_intros assms)
  ultimately show "keeps f (stm32_pin_irq_enable p en)"
    unfolding stm32_pin_irq_enable_def by (intro keep_intros)
qed

text \<open>What all steps but the three above leave alone.\<close>

definition boot_blind :: "('z app_st_scheme \<Rightarrow> 'v) \<Rightarrow> bool" where
  "boot_blind f \<longleftrightarrow> blind f \<and> (\<forall>s p. f (s\<lparr>pin_irq_hdr_tab := p\<rparr>) = f s) \<and>
     (\<forall>s p. f (s\<lparr>pin_irq_enable_mask := p\<rparr>) = f s) \<and> (\<forall>s v. f (s\<lparr>Ov7725_vsync := v\<rparr>) = f s) \<and>
     (\<forall>s v. f (s\<lparr>initCount := v\<rparr>) = f s)"

lemma boot_keeps:
  assumes "boot_blind f"
  shows "keeps f init_screen" "keeps f init_led_key" "keeps f init_analogue" "keeps f init_camera" "keeps f (init_card ok)"
proof -
  have b: "f (s\<lparr>hist := h\<rparr>) = f s" "f (s\<lparr>pin_irq_hdr_tab := p\<rparr>) = f s" "f (s\<lparr>pin_irq_enable_mask := q\<rparr>) = f s"
    "f (s\<lparr>Ov7725_vsync := v\<rparr>) = f s" for s h p q v using assms by (simp_all add: boot_blind_def blind_def)
  note calm = appends_keeps [where P = nonheap, OF _ b(1)] and pins = pins_keep [OF b(1-3)]
  show "keeps f init_screen" by (rule calm [OF screen_calm(1)])
  show "keeps f init_led_key" unfolding init_led_key_def key_embedded_init_def
    by (intro keep_intros pins; intro calm frame_intros)
  show "keeps f init_analogue" unfolding init_analogue_def
    by (intro keep_intros; intro calm frame_intros)
  have "keeps f my_ov7725_test_init"
    unfolding my_ov7725_test_init_def OV7725_GPIO_Config_def VSYNC_GPIO_Config_def
    by (intro keep_intros pins b; intro calm frame_intros)
  then show "keeps f init_camera"
    unfolding init_camera_def by (intro keep_intros; (assumption | intro calm frame_intros))
  show "keeps f (init_card ok)" unfolding init_card_def by (intro keep_intros; intro calm frame_intros)
qed

lemma boot_blind_pointers: "boot_blind hmc5883l" "boot_blind bme280" "boot_blind ltr390"
  by (simp_all add: boot_blind_def blind_def)

lemma hands_outD: "hands_out m \<Longrightarrow> let (p, t) = run_state m s in
     case p of None \<Rightarrow> live (hist t) = live (hist s)
     | Some a \<Rightarrow> a \<notin> live (hist s) \<and> live (hist t) = insert a (live (hist s))"
  unfolding hands_out_def by (rule spec)

text \<open>
  C23: creating a sensor's structure leaks nothing. Whatever the allocator, the bus and the
  sensor do, each of the three functions either returns a fresh structure that is
  allocated, or returns null and leaves the heap as it found it: every failing path frees
  the structure exactly once.
\<close>

theorem sensor_inits_no_leak:
  "list_all (\<lambda>m. let (p, t) = run_state m s in
     case p of None \<Rightarrow> live (hist t) = live (hist s)
     | Some a \<Rightarrow> a \<notin> live (hist s) \<and> live (hist t) = insert a (live (hist s)))
   [my_hmc5883l_init name addr, my_bme280_init name addr, my_ltr390_init name addr]"
  unfolding list.pred_inject
  by (intro conjI TrueI hands_outD hmc5883l_init_hands_out bme280_init_hands_out ltr390_init_hands_out) simp

lemma createsD:
  assumes "creates get m" and "run_state m s = (ok, t)"
  shows "ok = (get t \<noteq> None)" and "set_option (get t) \<inter> live (hist s) = {}"
    and "live (hist t) = live (hist s) \<union> set_option (get t)"
proof -
  from assms(1) have "let (ok, t) = run_state m s in ok = (get t \<noteq> None) \<and>
     set_option (get t) \<inter> live (hist s) = {} \<and> live (hist t) = live (hist s) \<union> set_option (get t)"
    unfolding creates_def by (rule spec)
  then show "ok = (get t \<noteq> None)" "set_option (get t) \<inter> live (hist s) = {}"
    "live (hist t) = live (hist s) \<union> set_option (get t)" by (simp_all add: assms(2))
qed

text \<open>The three sensors together.\<close>

definition init_sensors :: "('z app_st_scheme, bool) state" where
  "init_sensors = do { ok1 \<leftarrow> init_hmc5883l; ok2 \<leftarrow> init_bme280; ok3 \<leftarrow> init_ltr390; ret (ok1 \<and> ok2 \<and> ok3) }"

definition pointers :: "'z app_st_scheme \<Rightarrow> nat option list" where
  "pointers s = [hmc5883l s, bme280 s, ltr390 s]"

definition targets :: "nat option list \<Rightarrow> nat set" where
  "targets ps = \<Union> (set_option ` set ps)"

lemma init_sensors_run:
  assumes "run_state init_sensors s = (ok, t)"
  shows "ok = (None \<notin> set (pointers t)) \<and> targets (pointers t) \<inter> live (hist s) = {} \<and>
    live (hist t) = live (hist s) \<union> targets (pointers t) \<and>
    distinct (filter (\<lambda>p. p \<noteq> None) (pointers t))"
proof -
  obtain o1 s1 o2 s2 o3 where m: "run_state init_hmc5883l s = (o1, s1)" "run_state init_bme280 s1 = (o2, s2)"
    "run_state init_ltr390 s2 = (o3, t)" "ok = (o1 \<and> o2 \<and> o3)"
    using assms by (auto simp: init_sensors_def split: prod.splits)
  note h = createsD [OF init_creates(1) m(1)] and b = createsD [OF init_creates(2) m(2)]
    and l = createsD [OF init_creates(3) m(3)]
  have "hmc5883l t = hmc5883l s1"
    using keepsD [OF keeps_init_bme280 m(2), of hmc5883l] keepsD [OF keeps_init_ltr390 m(3), of hmc5883l]
    by (simp add: blind_pointers)
  moreover have "bme280 t = bme280 s2"
    using keepsD [OF keeps_init_ltr390 m(3), of bme280] by (simp add: blind_pointers)
  ultimately show ?thesis
    using h b l m(4) by (auto simp: pointers_def targets_def)
qed

definition init_rest :: "bool \<Rightarrow> ('z app_st_scheme, int option) state" where
  "init_rest ok = do {
     alive \<leftarrow> init_analogue;
     if \<not> alive then ret None
     else do {
       ok4 \<leftarrow> init_camera;
       status \<leftarrow> init_card (ok \<and> ok4);
       when_true (status \<noteq> RT_EOK) (led_embedded_color LED_RED);
       ret (Some status)
     }
   }"

definition init_first :: "('z app_st_scheme, unit) state" where
  "init_first = do { modify (\<lambda>s. s\<lparr>initCount := initCount s + 1\<rparr>); init_screen; init_led_key }"

lemma mainFuncInit_parts: "mainFuncInit = do { init_first; ok \<leftarrow> init_sensors; init_rest ok }"
  unfolding mainFuncInit_def init_first_def init_sensors_def init_rest_def
  by (simp only: State_Monad.bind_assoc State_Monad.bind_left_identity conj_assoc)

lemma init_rest_outcome: "fst (run_state (init_rest ok) s) \<in> (if ok then {None, Some RT_EOK, Some (- RT_ERROR)} else {None, Some (- RT_ERROR)})"
  unfolding init_rest_def init_card_def by (auto split: prod.splits simp: fst_run_bind)

lemma init_rest_extends: "extends no_alloc (init_rest ok)"
  unfolding init_rest_def by (intro extend_intros; intro nonheap_extends frame_intros)

lemma init_rest_pointers: "keeps pointers (init_rest ok)"
proof -
  have "boot_blind (pointers :: 'a app_st_scheme \<Rightarrow> _)" by (simp add: boot_blind_def blind_def pointers_def)
  moreover have "pointers (s\<lparr>hist := h\<rparr>) = pointers s" for s :: "'a app_st_scheme" and h by (simp add: pointers_def)
  ultimately show "keeps pointers (init_rest ok :: ('a app_st_scheme, _) state)"
    unfolding init_rest_def by (intro keep_intros boot_keeps appends_keeps [OF led_calm])
qed

text \<open>
  C24: every attempt to start up keeps what it allocates. Whatever its outcome, \<open>mainFuncInit\<close>
  frees nothing and adds to the heap a new structure for each sensor that answered; the
  three pointers afterwards hold exactly these, so structures of earlier attempts, which
  the pointers held before, stay allocated and are lost. It reports success only if all
  three pointers are set.
\<close>

theorem mainFuncInit_loses_structures:
  "let (r, t) = run_state mainFuncInit s; ps = [hmc5883l t, bme280 t, ltr390 t]; new = \<Union> (set_option ` set ps) in
   live (hist t) = live (hist s) \<union> new \<and> new \<inter> live (hist s) = {} \<and>
   card new = length (filter (\<lambda>p. p \<noteq> None) ps) \<and>
   r \<in> (if None \<in> set ps then {None, Some (- RT_ERROR)} else {None, Some RT_EOK, Some (- RT_ERROR)})"
proof -
  obtain s1 where 1: "run_state init_first s = ((), s1)" by (metis (full_types) old.unit.exhaust prod.exhaust)
  obtain ok s2 where 2: "run_state init_sensors s1 = (ok, s2)" by (metis prod.exhaust)
  obtain r t where 3: "run_state (init_rest ok) s2 = (r, t)" by (metis prod.exhaust)
  have run: "run_state mainFuncInit s = (r, t)" unfolding mainFuncInit_parts using 1 2 3 by simp
  have "extends no_alloc init_first" unfolding init_first_def by (intro extend_intros) simp
  then have "live (hist s1) = live (hist s)" using 1 by (rule live_extends)
  moreover have "live (hist t) = live (hist s2)" by (rule live_extends [OF init_rest_extends 3])
  moreover have p: "pointers t = pointers s2" by (rule keepsD [OF init_rest_pointers 3])
  moreover note q = init_sensors_run [OF 2]
  moreover have "card (targets ps) = length (filter (\<lambda>p. p \<noteq> None) ps)" if "distinct (filter (\<lambda>p. p \<noteq> None) ps)" for ps
  proof -
    have "targets ps = the ` set (filter (\<lambda>p. p \<noteq> None) ps)" by (force simp: targets_def)
    moreover have "inj_on the (set (filter (\<lambda>p. p \<noteq> None) ps))" by (auto simp: inj_on_def)
    ultimately have "card (targets ps) = card (set (filter (\<lambda>p. p \<noteq> None) ps))" by (simp only: card_image)
    then show ?thesis by (simp only: distinct_card [OF that])
  qed
  ultimately have "live (hist t) = live (hist s) \<union> targets (pointers t)" "targets (pointers t) \<inter> live (hist s) = {}"
    "card (targets (pointers t)) = length (filter (\<lambda>p. p \<noteq> None) (pointers t))" "ok = (None \<notin> set (pointers t))"
    by auto
  with run init_rest_outcome [of ok s2] 3 show ?thesis
    unfolding pointers_def targets_def by (auto simp add: Let_def split: if_splits simp del: filter.simps)
qed

end
