(* ===== verification/App_Main.thy ===== *)
theory App_Main
  imports App_Init
begin

text \<open>
  The running program of \<open>src/applications/main.c\<close>: the calls of the main loop in turn, and between
  any two of them interrupts on the pin lines, which run the handlers that are installed.
  The invariant relates the screen shown, the handlers the keys have, and the flags by which
  handlers and main loop communicate.
\<close>

section \<open>Steps\<close>

text \<open>An interrupt on one line; lines pending together are served one after the other.\<close>

definition isr :: "nat \<Rightarrow> ('z app_st_scheme, unit) state" where
  "isr l = do { hs \<leftarrow> EXTI_IRQHandler (snd (pin_irq_map ! l)) {l}; for_each hs run_handler }"

definition exec :: "('s, 'a) state \<Rightarrow> 's \<Rightarrow> 's" where
  "exec m s = snd (run_state m s)"

lemma exec_keeps: "keeps f m \<Longrightarrow> f (exec m s) = f s"
  by (simp add: keeps_def exec_def)

text \<open>
  A stage is an attempt to start up, a position in the main loop (one of its eight calls), or
  the end in \<open>Error_Handler\<close>. The steps are those of \<open>main\<close>; between them there may be an
  interrupt on a line, or one of the two console commands of \<open>main.c\<close>.
\<close>

datatype stage = Booting | Running nat | Stopped

inductive app_step :: "stage \<times> 'z app_st_scheme \<Rightarrow> stage \<times> 'z app_st_scheme \<Rightarrow> bool" where
  started: "run_state mainFuncInit s = (Some RT_EOK, t) \<Longrightarrow> app_step (Booting, s) (Running 0, exec init_scene t)"
| failed: "run_state mainFuncInit s = (Some r, t) \<Longrightarrow> r \<noteq> RT_EOK \<Longrightarrow>
     app_step (Booting, s) (Booting, exec (rt_thread_mdelay 1000) t)"
| stopped: "run_state mainFuncInit s = (None, t) \<Longrightarrow> app_step (Booting, s) (Stopped, t)"
| call: "pc < 8 \<Longrightarrow> app_step (Running pc, s) (Running (Suc pc mod 8), exec (main_loop ! pc) s)"
| irq: "l < 16 \<Longrightarrow> app_step (ph, s) (ph, exec (isr l) s)"
| console: "m \<in> {en_dbg, dis_dbg} \<Longrightarrow> app_step (ph, s) (ph, exec m s)"

inductive_cases app_stepE: "app_step p q"

definition display_init :: "('z board_scheme, unit) state" where
  "display_init = do { lcd ILI9341_Init; lcd XPT2046_Init; lcd (ILI9341_GramScan 3) }"

text \<open>The states of the program in the environment \<open>e\<close>.\<close>

inductive reached :: "env \<Rightarrow> stage \<times> app_st \<Rightarrow> bool" for e where
  reset: "reached e (Booting, exec display_init (app_reset e))"
| more: "reached e p \<Longrightarrow> app_step p q \<Longrightarrow> reached e q"

lemma reached_boot: "run_state (boot n) (app_reset e) = (Boot_ok, t) \<Longrightarrow> reached e (Running 0, t)"
proof -
  have loop: "run_state (init_loop n) s = (Boot_ok, t) \<Longrightarrow> reached e (Booting, s) \<Longrightarrow> reached e (Running 0, exec init_scene t)" for s t
  proof (induction n arbitrary: s)
    case (Suc n)
    obtain r s' where m: "run_state mainFuncInit s = (r, s')" by (metis prod.exhaust)
    with Suc.prems(1) have r: "r \<noteq> None" by (auto split: option.splits)
    show ?case
    proof (cases "r = Some RT_EOK")
      case True
      with Suc.prems m app_step.started [of s s'] show ?thesis by (auto intro: reached.more)
    next
      case False
      with m r have "app_step (Booting, s) (Booting, exec (rt_thread_mdelay 1000) s')" by (auto intro: app_step.failed)
      with Suc.prems(2) have "reached e (Booting, exec (rt_thread_mdelay 1000) s')" by (rule reached.more)
      moreover have "run_state (init_loop n) (exec (rt_thread_mdelay 1000) s') = (Boot_ok, t)"
        using Suc.prems(1) m r False by (auto simp: exec_def split: prod.splits if_splits)
      ultimately show ?thesis by (rule Suc.IH [rotated])
    qed
  qed simp
  assume b: "run_state (boot n) (app_reset e) = (Boot_ok, t)"
  obtain r s where s: "run_state (init_loop n) (exec display_init (app_reset e)) = (r, s)" by (metis prod.exhaust)
  have "run_state (boot n) (app_reset e) = (r, if r = Boot_ok then exec init_scene s else s)"
    using s by (simp add: boot_def display_init_def exec_def split_beta)
  with b s have "run_state (init_loop n) (exec display_init (app_reset e)) = (Boot_ok, s)" "t = exec init_scene s"
    by (auto split: if_splits)
  then show ?thesis using loop reached.reset by blast
qed

section \<open>The invariant\<close>

text \<open>Whose handlers the keys have.\<close>

datatype owner = Boot | Menu | Data | Photo | Card | Select | Delay

fun key_handlers :: "owner \<Rightarrow> irq_handler \<times> irq_handler" where
  "key_handlers Boot = (H_key1_change, H_key2_change)"
| "key_handlers Menu = (H_key1_irq_MENU, H_key2_irq_MENU)"
| "key_handlers Data = (H_key1_irq_DISP_DATA, H_key2_irq_DISP_DATA)"
| "key_handlers Photo = (H_key1_irq_TAKE_PHOTO, H_key2_irq_TAKE_PHOTO)"
| "key_handlers Card = (H_key1_irq_SD_CARD, H_key2_irq_SD_CARD)"
| "key_handlers Select = (H_key1_irq_SETTING_SELECT, H_key2_irq_SETTING_SELECT)"
| "key_handlers Delay = (H_key1_irq_SETTING_DELAY_SELECT, H_key2_irq_SETTING_DELAY_SELECT)"

abbreviation (input) KEY1_LINE :: nat where "KEY1_LINE \<equiv> 0"
abbreviation (input) KEY2_LINE :: nat where "KEY2_LINE \<equiv> 13"

definition has_keys :: "owner \<Rightarrow> 'z gpio_st_scheme \<Rightarrow> bool" where
  "has_keys k s \<longleftrightarrow> gpio_inv s \<and>
     (if k = Boot then handler_on s KEY1_LINE \<in> {None, Some H_key1_change} \<and> handler_on s KEY2_LINE \<in> {None, Some H_key2_change}
      else handler_on s KEY1_LINE = Some (fst (key_handlers k)) \<and> handler_on s KEY2_LINE = Some (snd (key_handlers k))) \<and>
     (\<forall>l. l \<noteq> KEY1_LINE \<and> l \<noteq> KEY2_LINE \<longrightarrow> handler_on s l \<in> {None, Some H_my_ov7725_interrupt})"

text \<open>The variables by which key handlers and main loop communicate.\<close>

record ui =
  u_scene :: nat
  u_scene_changed :: bool
  u_select_scene :: nat
  u_setting :: nat
  u_setting_changed :: bool
  u_select_setting :: nat
  u_delay :: nat
  u_delay_changed :: bool
  u_select_delay :: nat

definition ui :: "'z app_st_scheme \<Rightarrow> ui" where
  "ui s = \<lparr>u_scene = currScene s, u_scene_changed = scene_isChanged s, u_select_scene = selectScene s,
     u_setting = currSetting s, u_setting_changed = setting_isChanged s, u_select_setting = selectSetting s,
     u_delay = currDelay s, u_delay_changed = delay_isChanged s, u_select_delay = selectDelay s\<rparr>"

definition scene_owner :: "nat \<Rightarrow> owner" where
  "scene_owner n = [Menu, Data, Photo, Card] ! n"

definition in_range :: "ui \<Rightarrow> bool" where
  "in_range u \<longleftrightarrow> u_scene u \<le> 4 \<and> u_select_scene u \<in> {1..4} \<and> u_setting u \<le> 7 \<and> u_select_setting u \<in> {1..7} \<and>
     u_delay u \<le> 7 \<and> u_select_delay u \<in> {1..7}"

definition in_settings :: "ui \<Rightarrow> bool" where
  "in_settings u \<longleftrightarrow> u_scene u = SCENE_SETTINGS \<and> \<not> u_scene_changed u"

definition fits :: "owner \<Rightarrow> ui \<Rightarrow> bool" where
  "fits k u \<longleftrightarrow> in_range u \<and>
     (\<not> u_scene_changed u \<and> u_scene u \<noteq> SCENE_SETTINGS \<longrightarrow> k = scene_owner (u_scene u)) \<and>
     (\<not> in_settings u \<longrightarrow> u_setting_changed u) \<and>
     (in_settings u \<and> (\<not> u_setting_changed u \<or> u_setting u \<noteq> SETTING_NO) \<longrightarrow> k \<in> {Select, Delay}) \<and>
     (\<not> u_setting_changed u \<and> u_setting u = SETTING_NO \<longrightarrow> k = Select) \<and>
     (\<not> u_delay_changed u \<longrightarrow> in_settings u \<and> \<not> u_setting_changed u \<and> u_setting u \<in> {1..6} \<and>
        u_delay u = DELAY_NO \<and> k = Delay)"

definition app_inv :: "'z app_st_scheme \<Rightarrow> bool" where
  "app_inv s \<longleftrightarrow> (\<exists>k. has_keys k s \<and> fits k (ui s))"

lemma has_keys_cong: "pin_irq_hdr_tab s = pin_irq_hdr_tab t \<Longrightarrow> has_keys k s = has_keys k t"
proof -
  assume "pin_irq_hdr_tab s = pin_irq_hdr_tab t"
  then have "handler_on s = handler_on t" "gpio_inv s = gpio_inv t"
    by (simp_all add: handler_on_def gpio_inv_def fun_eq_iff)
  then show ?thesis by (simp add: has_keys_def)
qed

lemma app_inv_cong: "ui s = ui t \<Longrightarrow> pin_irq_hdr_tab s = pin_irq_hdr_tab t \<Longrightarrow> app_inv s = app_inv t"
  unfolding app_inv_def by (metis has_keys_cong)

section \<open>Interrupts\<close>

lemmas handler_defs = key1_change_def key2_change_def key1_irq_MENU_def key2_irq_MENU_def key1_irq_DISP_DATA_def
  key2_irq_DISP_DATA_def key1_irq_TAKE_PHOTO_def key2_irq_TAKE_PHOTO_def key1_irq_SD_CARD_def key2_irq_SD_CARD_def
  key1_irq_SETTING_SELECT_def key2_irq_SETTING_SELECT_def key1_irq_SETTING_DELAY_SELECT_def
  key2_irq_SETTING_DELAY_SELECT_def

lemma isr_run:
  assumes "l < 16"
  shows "exec (isr l) s = (case handler_on s l of None \<Rightarrow> s | Some h \<Rightarrow> exec (run_handler h) s)"
proof (cases "handler_on s l")
  case None
  have "List.map_filter (\<lambda>k. if k \<in> {l} then handler_on s k else None) zs = []" for zs
    using None by (auto simp: List.map_filter_def filter_empty_conv)
  then show ?thesis using None by (simp add: exec_def isr_def run_EXTI_IRQHandler)
next
  case (Some h)
  with single_line_dispatch [OF assms Some] show ?thesis by (simp add: exec_def isr_def split_beta)
qed

lemma handlers_keep_pins: "keeps pin_irq_hdr_tab (run_handler h)"
  by (cases h) (auto simp: handler_defs my_ov7725_interrupt_def fifo_defs intro!: keep_intros)

text \<open>What each handler does to the variables.\<close>

definition next_of :: "nat \<Rightarrow> nat \<Rightarrow> nat" where
  "next_of n i = (let j = (i + 1) mod (n + 1) in if j = 0 then 1 else j)"

lemma next_of_range: "0 < n \<Longrightarrow> 0 < next_of n i \<and> next_of n i \<le> n"
proof -
  assume "0 < n"
  moreover have "(i + 1) mod (n + 1) < n + 1" by simp
  ultimately show ?thesis by (auto simp: next_of_def Let_def)
qed

fun ui_after :: "irq_handler \<Rightarrow> ui \<Rightarrow> ui" where
  "ui_after H_key1_irq_MENU u = u\<lparr>u_select_scene := next_of 4 (u_select_scene u)\<rparr>"
| "ui_after H_key2_irq_MENU u = u\<lparr>u_scene_changed := True, u_scene := u_select_scene u\<rparr>"
| "ui_after H_key2_irq_DISP_DATA u = u\<lparr>u_scene_changed := True, u_scene := SCENE_MENU\<rparr>"
| "ui_after H_key2_irq_TAKE_PHOTO u = u\<lparr>u_scene_changed := True, u_scene := SCENE_MENU\<rparr>"
| "ui_after H_key2_irq_SD_CARD u = u\<lparr>u_scene_changed := True, u_scene := SCENE_MENU\<rparr>"
| "ui_after H_key1_irq_SETTING_SELECT u = u\<lparr>u_select_setting := next_of 7 (u_select_setting u)\<rparr>"
| "ui_after H_key2_irq_SETTING_SELECT u = u\<lparr>u_setting_changed := True, u_setting := u_select_setting u\<rparr>"
| "ui_after H_key1_irq_SETTING_DELAY_SELECT u = u\<lparr>u_select_delay := next_of 7 (u_select_delay u)\<rparr>"
| "ui_after H_key2_irq_SETTING_DELAY_SELECT u = u\<lparr>u_delay_changed := True, u_delay := u_select_delay u\<rparr>"
| "ui_after _ u = u"

lemma ui_handler: "ui (exec (run_handler h) s) = ui_after h (ui s)"
  by (cases h) (auto simp: exec_def ui_def handler_defs my_ov7725_interrupt_def fifo_defs next_of_def Let_def)

lemmas fits_defs = fits_def in_range_def in_settings_def

lemma key1_fits: "fits k u \<Longrightarrow> fits k (ui_after (fst (key_handlers k)) u)"
  by (cases k) (simp_all add: fits_defs next_of_range Suc_le_eq)

lemma key2_fits: "fits k u \<Longrightarrow> fits k (ui_after (snd (key_handlers k)) u)"
  by (cases k) (auto simp: fits_defs)

lemma key_handler_fits:
  "fits k u \<Longrightarrow> h \<in> {fst (key_handlers k), snd (key_handlers k), H_my_ov7725_interrupt} \<Longrightarrow> fits k (ui_after h u)"
  using key1_fits key2_fits by auto

lemma app_inv_isr:
  assumes "app_inv s" and "l < 16"
  shows "app_inv (exec (isr l) s)"
proof -
  obtain k where k: "has_keys k s" "fits k (ui s)" using assms(1) by (auto simp: app_inv_def)
  show ?thesis
  proof (cases "handler_on s l")
    case None
    then show ?thesis using assms by (simp add: isr_run)
  next
    case (Some h)
    then have h: "h \<in> {fst (key_handlers k), snd (key_handlers k), H_my_ov7725_interrupt}"
      using k(1) by (cases "l = KEY1_LINE"; cases "l = KEY2_LINE") (auto simp: has_keys_def split: if_splits)
    have "pin_irq_hdr_tab (exec (run_handler h) s) = pin_irq_hdr_tab s"
      by (rule exec_keeps, rule handlers_keep_pins)
    then have "has_keys k (exec (run_handler h) s)"
      using k(1) by (rule has_keys_cong [THEN iffD2])
    with key_handler_fits [OF k(2) h] show ?thesis
      using assms(2) Some by (auto simp: isr_run app_inv_def ui_handler)
  qed
qed

end
