(* ===== verification/App_Pages.thy ===== *)
theory App_Pages
  imports App_Main
begin

text \<open>
  The main loop's function \<open>mainFunc\<close> as a machine on the variables by which key handlers and main loop
  communicate, and the proof that the code of the screens does what this machine does.
\<close>

section \<open>The main loop on the screens\<close>

text \<open>
  What one call of \<open>mainFunc\<close> does to the keys' owner and to the variables, as a function of
  these alone.
\<close>

definition leave_delay :: "ui \<Rightarrow> ui" where
  "leave_delay u = u\<lparr>u_setting := SETTING_NO, u_setting_changed := True, u_delay := DELAY_BACK,
     u_delay_changed := True, u_select_delay := DELAY_0_5\<rparr>"

definition delay_ui :: "owner \<Rightarrow> ui \<Rightarrow> owner \<times> ui" where
  "delay_ui k u =
     (if u_delay u = DELAY_NO then
        if u_delay_changed u then (Delay, u\<lparr>u_delay_changed := False\<rparr>) else (k, u)
      else (k, leave_delay u))"

definition setting_ui :: "owner \<Rightarrow> ui \<Rightarrow> owner \<times> ui" where
  "setting_ui k u =
     (if u_setting u = SETTING_NO then
        if u_setting_changed u then (Select, u\<lparr>u_setting_changed := False\<rparr>) else (k, u)
      else if u_setting u = SETTING_BACK then
        (k, u\<lparr>u_scene := SCENE_MENU, u_scene_changed := True, u_setting := SETTING_BACK, u_setting_changed := True,
           u_select_setting := SETTING_HMC5883L, u_delay := DELAY_BACK, u_delay_changed := True,
           u_select_delay := DELAY_0_5\<rparr>)
      else if u_setting_changed u then (k, u\<lparr>u_setting_changed := False, u_delay := DELAY_NO\<rparr>)
      else delay_ui k u)"

definition main_ui :: "owner \<Rightarrow> ui \<Rightarrow> owner \<times> ui" where
  "main_ui k u =
     (if u_scene u = SCENE_SETTINGS then
        if u_scene_changed u then (k, u\<lparr>u_scene_changed := False, u_setting := SETTING_NO\<rparr>)
        else setting_ui k u
      else if u_scene_changed u then (scene_owner (u_scene u), u\<lparr>u_scene_changed := False\<rparr>)
      else (k, u))"

lemma main_ui_fits:
  assumes "fits k u" and "main_ui k u = (k', u')"
  shows "fits k' u'"
  using assms unfolding main_ui_def setting_ui_def delay_ui_def leave_delay_def
  by (auto simp: fits_defs split: if_splits)

section \<open>The code does it\<close>

text \<open>The memory is in situation \<open>(k, u)\<close>; \<open>m\<close> leads from one situation to another.\<close>

definition sit :: "owner \<times> ui \<Rightarrow> 'z app_st_scheme \<Rightarrow> bool" where
  "sit P s \<longleftrightarrow> has_keys (fst P) s \<and> ui s = snd P"

definition leads_to :: "owner \<times> ui \<Rightarrow> ('z app_st_scheme, 'a) state \<Rightarrow> owner \<times> ui \<Rightarrow> bool" where
  "leads_to P m Q \<longleftrightarrow> (\<forall>s. sit P s \<longrightarrow> sit Q (snd (run_state m s)))"

definition tables :: "'z app_st_scheme \<Rightarrow> ui \<times> rt_pin_irq_hdr list" where
  "tables s = (ui s, pin_irq_hdr_tab s)"

lemma tables_blind: "blind tables"
  by (simp add: blind_def tables_def ui_def)

lemma sit_cong: "tables s = tables t \<Longrightarrow> sit P s = sit P t"
  unfolding sit_def tables_def by (metis Pair_inject has_keys_cong)

lemma leads_to_keeps: "keeps tables m \<Longrightarrow> leads_to P m P"
  unfolding keeps_def leads_to_def by (metis sit_cong)

lemma leads_to_bind: "leads_to P m Q \<Longrightarrow> (\<And>x. leads_to Q (g x) R) \<Longrightarrow> leads_to P (m \<bind> g) R"
  unfolding leads_to_def snd_run_bind by simp

lemma leads_to_get: "(\<And>s. sit P s \<Longrightarrow> f s = v) \<Longrightarrow> leads_to P (g v) R \<Longrightarrow> leads_to P (gets f \<bind> g) R"
  unfolding leads_to_def by simp

lemma calm_tables: "appends nonheap m \<Longrightarrow> keeps tables m"
  by (rule blind_calm [OF tables_blind])

text \<open>Giving the keys new handlers.\<close>

lemma rebind_key_run:
  assumes "line_of pin = Some l" and "gpio_inv s" and "run_state (rebind_key pin h) s = (r, t)"
  shows "handler_on t = (handler_on s)(l := Some h) \<and> gpio_inv t \<and> ui t = ui s"
proof -
  have "keeps ui (rebind_key pin h)"
    unfolding rebind_key_def by (intro keep_intros pins_keep) (simp_all add: ui_def)
  from keepsD [OF this assms(3)] stm32_pins.rebind [OF assms(1,2) assms(3) [unfolded rebind_key_def]]
  show ?thesis by simp
qed

lemma rebind_leads:
  assumes "ow \<noteq> Boot" and "key_handlers ow = (h1, h2)"
  shows "leads_to (k, u) (rebind_keys h1 h2) (ow, u)"
  unfolding leads_to_def
proof (intro allI impI)
  fix s :: "'z app_st_scheme"
  assume s: "sit (k, u) s"
  obtain r1 s1 where 1: "run_state (rebind_key KEY1_EMBEDDED h1) s = (r1, s1)" by (metis prod.exhaust)
  obtain r2 s2 where 2: "run_state (rebind_key KEY2_EMBEDDED h2) s1 = (r2, s2)" by (metis prod.exhaust)
  have g: "gpio_inv s" and u: "ui s = u" using s by (simp_all add: sit_def has_keys_def)
  note k1 = rebind_key_run [OF line_of_keys(1) g 1]
  note k2 = rebind_key_run [OF line_of_keys(2) k1 [THEN conjunct2, THEN conjunct1] 2]
  have run: "snd (run_state (rebind_keys h1 h2) s) = s2"
    unfolding rebind_keys_def using 1 2 by simp
  show "sit (ow, u) (snd (run_state (rebind_keys h1 h2) s))"
    using k1 k2 u s assms unfolding run by (auto simp: sit_def has_keys_def)
qed

text \<open>The screens draw and print.\<close>

lemma drawing_calm [frame_intros]: "appends nonheap MENU_task" "appends nonheap MENU_updateSelect"
  "appends nonheap DISP_DATA_updateData" "appends nonheap SD_CARD_task" "appends nonheap SETTINGS_task"
  "appends nonheap SETTINGS_updateSelect" "appends nonheap SETTINGS_DELAY_task" "appends nonheap SETTINGS_DELAY_updateSelect"
  unfolding MENU_task_def MENU_updateSelect_def DISP_DATA_updateData_def SD_CARD_task_def SETTINGS_task_def
    SETTINGS_updateSelect_def SETTINGS_DELAY_task_def SETTINGS_DELAY_updateSelect_def
  by (intro frame_intros)+

lemma tables_updates [simp]: "tables (s\<lparr>hist := h\<rparr>) = tables s" "tables (s\<lparr>isFirstSave := b\<rparr>) = tables s"
  "tables (s\<lparr>DISP_DATA_curr_milli := t\<rparr>) = tables s" "tables (s\<lparr>DISP_DATA_prev_milli := t\<rparr>) = tables s"
  "tables (s\<lparr>isSavingData := b\<rparr>) = tables s" "tables (s\<lparr>isEjecting := b\<rparr>) = tables s"
  "tables (s\<lparr>DATA_DELAY := t\<rparr>) = tables s" "tables (s\<lparr>Ov7725_vsync := v\<rparr>) = tables s"
  "tables (s\<lparr>sceneSelect_isChanged := b\<rparr>) = tables s" "tables (s\<lparr>settingSelect_isChanged := b\<rparr>) = tables s"
  "tables (s\<lparr>delaySelect_isChanged := b\<rparr>) = tables s"
  by (simp_all add: tables_def ui_def)

lemma screens_tables [keep_intros]: "keeps tables MENU_task" "keeps tables MENU_updateSelect"
  "keeps tables DISP_DATA_task" "keeps tables DISP_DATA_updateData" "keeps tables TAKE_PHOTO_task"
  "keeps tables SD_CARD_task" "keeps tables SD_CARD_eject" "keeps tables SETTINGS_task" "keeps tables SETTINGS_updateSelect"
  "keeps tables SETTINGS_DELAY_task" "keeps tables SETTINGS_DELAY_updateSelect" "keeps tables sdcard_saveCurrData"
proof -
  note calm = calm_tables
  show "keeps tables MENU_task" "keeps tables MENU_updateSelect" "keeps tables DISP_DATA_updateData" "keeps tables SD_CARD_task"
    "keeps tables SETTINGS_task" "keeps tables SETTINGS_updateSelect" "keeps tables SETTINGS_DELAY_task"
    "keeps tables SETTINGS_DELAY_updateSelect"
    by (intro calm drawing_calm)+
  then show "keeps tables DISP_DATA_task"
    unfolding DISP_DATA_task_def by (intro keep_intros calm_tables [OF text_calm(1)] calm_tables [OF text_calm(4)]
      calm_tables [OF text_calm(3)] calm_tables [OF text_calm(2)] calm_tables [OF lcd_calm] calm_tables [OF time_calm(3)]; simp)
  show "keeps tables TAKE_PHOTO_task" unfolding TAKE_PHOTO_task_def my_ov7725_test_def
    by (intro keep_intros calm_tables [OF led_calm] calm_tables [OF image_calm(1)] calm_tables [OF image_calm(2)]; simp)
  show "keeps tables SD_CARD_eject" unfolding SD_CARD_eject_def
    by (intro keep_intros calm_tables [OF text_calm(4)] calm_tables [OF text_calm(2)] calm_tables [OF lcd_calm]
      calm_tables [OF files_calm(2)]; simp)
  show "keeps tables sdcard_saveCurrData" unfolding sdcard_saveCurrData_def
    by (intro keep_intros calm_tables [OF text_calm(4)] calm_tables [OF text_calm(2)] calm_tables [OF lcd_calm]
      calm_tables [OF led_calm] calm_tables [OF files_calm(1)] calm_tables [OF time_calm(3)] calm_tables [OF sprintf_calm]; simp)
qed

text \<open>The variables a situation determines.\<close>

lemma sit_vars: "sit (k, u) s \<Longrightarrow> currScene s = u_scene u" "sit (k, u) s \<Longrightarrow> scene_isChanged s = u_scene_changed u"
  "sit (k, u) s \<Longrightarrow> currSetting s = u_setting u" "sit (k, u) s \<Longrightarrow> setting_isChanged s = u_setting_changed u"
  "sit (k, u) s \<Longrightarrow> currDelay s = u_delay u" "sit (k, u) s \<Longrightarrow> delay_isChanged s = u_delay_changed u"
  by (auto simp: sit_def ui_def)

lemma leads_to_if: "(c \<Longrightarrow> leads_to P m Q) \<Longrightarrow> (\<not> c \<Longrightarrow> leads_to P n Q) \<Longrightarrow> leads_to P (if c then m else n) Q"
  by simp

lemma leads_ret: "P = Q \<Longrightarrow> leads_to P (ret x) Q"
  by (simp add: leads_to_keeps keeps_prims)

text \<open>One rule for every kind of statement: the situation after it.\<close>

lemma leads_vars:
  "leads_to (k, u) (g (u_scene u)) R \<Longrightarrow> leads_to (k, u) (gets currScene \<bind> g) R"
  "leads_to (k, u) (f (u_scene_changed u)) R \<Longrightarrow> leads_to (k, u) (gets scene_isChanged \<bind> f) R"
  "leads_to (k, u) (g (u_setting u)) R \<Longrightarrow> leads_to (k, u) (gets currSetting \<bind> g) R"
  "leads_to (k, u) (f (u_setting_changed u)) R \<Longrightarrow> leads_to (k, u) (gets setting_isChanged \<bind> f) R"
  "leads_to (k, u) (g (u_delay u)) R \<Longrightarrow> leads_to (k, u) (gets currDelay \<bind> g) R"
  "leads_to (k, u) (f (u_delay_changed u)) R \<Longrightarrow> leads_to (k, u) (gets delay_isChanged \<bind> f) R"
  by (intro leads_to_get, erule sit_vars, assumption)+

lemma leads_past: "keeps tables m \<Longrightarrow> (\<And>x. leads_to P (g x) R) \<Longrightarrow> leads_to P (m \<bind> g) R"
  by (rule leads_to_bind, rule leads_to_keeps)

lemma leads_modify:
  "leads_to (k, v) m R \<Longrightarrow> (\<And>s. ui s = u \<Longrightarrow> tables (f s) = (v, pin_irq_hdr_tab s)) \<Longrightarrow>
     leads_to (k, u) (do { modify f; m }) R"
proof -
  assume m: "leads_to (k, v) m R" and f: "\<And>s. ui s = u \<Longrightarrow> tables (f s) = (v, pin_irq_hdr_tab s)"
  have "sit (k, v) (f s)" if "sit (k, u) s" for s
  proof -
    have "tables (f s) = (v, pin_irq_hdr_tab s)" using that f by (simp add: sit_def)
    then have "pin_irq_hdr_tab (f s) = pin_irq_hdr_tab s" "ui (f s) = v" by (simp_all add: tables_def)
    then have "has_keys k (f s) = has_keys k s" "ui (f s) = v" using has_keys_cong by blast+
    with that show ?thesis by (simp add: sit_def)
  qed
  with m show ?thesis by (simp add: leads_to_def)
qed

lemma leads_flags:
  "leads_to (k, u\<lparr>u_scene_changed := False\<rparr>) m R \<Longrightarrow> leads_to (k, u) (do { modify (\<lambda>s. s\<lparr>scene_isChanged := False\<rparr>); m }) R"
  "leads_to (k, u\<lparr>u_setting_changed := False\<rparr>) m R \<Longrightarrow> leads_to (k, u) (do { modify (\<lambda>s. s\<lparr>setting_isChanged := False\<rparr>); m }) R"
  "leads_to (k, u\<lparr>u_delay_changed := False\<rparr>) m R \<Longrightarrow> leads_to (k, u) (do { modify (\<lambda>s. s\<lparr>delay_isChanged := False\<rparr>); m }) R"
  by (-, (erule leads_modify, drule sym, simp add: tables_def ui_def)+)

lemma leads_set:
  "leads_to (k, u\<lparr>u_setting := SETTING_NO, u_setting_changed := True\<rparr>) m R \<Longrightarrow> leads_to (k, u)
     (do { modify (\<lambda>s. s\<lparr>prevSetting := currSetting s, currSetting := SETTING_NO, setting_isChanged := True\<rparr>); m }) R"
  "leads_to (k, u\<lparr>u_setting_changed := False, u_delay := DELAY_NO\<rparr>) m R \<Longrightarrow> leads_to (k, u)
     (do { modify (\<lambda>s. s\<lparr>setting_isChanged := False, prevDelay := currDelay s, currDelay := DELAY_NO,
           delaySelect_isChanged := True\<rparr>); m }) R"
  "leads_to (k, u\<lparr>u_scene := SCENE_MENU, u_scene_changed := True, u_setting := SETTING_BACK, u_setting_changed := True,
           u_select_setting := SETTING_HMC5883L\<rparr>) m R \<Longrightarrow> leads_to (k, u)
     (do { modify (\<lambda>s. s\<lparr>prevScene := currScene s, currScene := SCENE_MENU, scene_isChanged := True,
         currSetting := SETTING_BACK, prevSetting := SETTING_BACK, setting_isChanged := True,
         selectSetting := SETTING_HMC5883L, settingSelect_isChanged := False\<rparr>); m }) R"
  "leads_to (k, u\<lparr>u_scene_changed := False, u_setting := SETTING_NO\<rparr>) m R \<Longrightarrow> leads_to (k, u)
     (do { modify (\<lambda>s. s\<lparr>scene_isChanged := False, prevSetting := currSetting s, currSetting := SETTING_NO,
           settingSelect_isChanged := True\<rparr>); m }) R"
  "leads_to (k, u\<lparr>u_delay := DELAY_BACK, u_delay_changed := True, u_select_delay := DELAY_0_5\<rparr>) m R \<Longrightarrow>
     leads_to (k, u) (do { reset_delay_menu; m }) R"
  unfolding reset_delay_menu_def
  by (-, (erule leads_modify, drule sym, simp add: tables_def ui_def)+)

lemma leads_then: "leads_to Q n R \<Longrightarrow> leads_to P m Q \<Longrightarrow> leads_to P (do { m; n }) R"
  by (rule leads_to_bind)

lemma leads_rebind:
  "leads_to (Menu, u) m R \<Longrightarrow> leads_to (k, u) (do { rebind_keys H_key1_irq_MENU H_key2_irq_MENU; m }) R"
  "leads_to (Data, u) m R \<Longrightarrow> leads_to (k, u) (do { rebind_keys H_key1_irq_DISP_DATA H_key2_irq_DISP_DATA; m }) R"
  "leads_to (Photo, u) m R \<Longrightarrow> leads_to (k, u) (do { rebind_keys H_key1_irq_TAKE_PHOTO H_key2_irq_TAKE_PHOTO; m }) R"
  "leads_to (Card, u) m R \<Longrightarrow> leads_to (k, u) (do { rebind_keys H_key1_irq_SD_CARD H_key2_irq_SD_CARD; m }) R"
  "leads_to (Select, u) m R \<Longrightarrow>
     leads_to (k, u) (do { rebind_keys H_key1_irq_SETTING_SELECT H_key2_irq_SETTING_SELECT; m }) R"
  "leads_to (Delay, u) m R \<Longrightarrow>
     leads_to (k, u) (do { rebind_keys H_key1_irq_SETTING_DELAY_SELECT H_key2_irq_SETTING_DELAY_SELECT; m }) R"
  by (-, (erule leads_then, rule rebind_leads, simp, simp)+)

lemma leads_config_delay:
  "leads_to (k, leave_delay u) m R \<Longrightarrow> leads_to (k, u) (do { config_delay; m }) R"
proof -
  have quiet: "keeps tables (line_EN x y)" "keeps tables (lcd c)" "keeps tables (rt_thread_mdelay ms)" for x y c ms
    by (intro calm_tables frame_intros)+
  assume "leads_to (k, leave_delay u) m R"
  then show ?thesis unfolding config_delay_def State_Monad.bind_assoc leave_delay_def
    by (intro leads_past quiet leads_set) simp
qed

lemma blocks_tables:
  "keeps tables (do { modify (\<lambda>s. s\<lparr>sceneSelect_isChanged := False\<rparr>); MENU_updateSelect })"
  "keeps tables (do { modify (\<lambda>s. s\<lparr>isEjecting := False\<rparr>); SD_CARD_eject })"
  "keeps tables (do { modify (\<lambda>s. s\<lparr>isSavingData := False\<rparr>); sdcard_saveCurrData })"
  "keeps tables (do { modify (\<lambda>s. s\<lparr>DISP_DATA_prev_milli := t\<rparr>); DISP_DATA_updateData })"
  by (intro keep_intros; simp)+

lemmas leads_steps = leads_vars leads_flags leads_set leads_rebind leads_config_delay leads_to_if leads_ret
  leads_past [OF screens_tables(1)] leads_past [OF screens_tables(2)] leads_past [OF screens_tables(3)]
  leads_past [OF screens_tables(4)] leads_past [OF screens_tables(5)] leads_past [OF screens_tables(6)]
  leads_past [OF screens_tables(8)] leads_past [OF screens_tables(9)] leads_past [OF screens_tables(10)]
  leads_past [OF screens_tables(11)] leads_past [OF keeps_when_true [OF blocks_tables(1)]]
  leads_past [OF keeps_when_true [OF blocks_tables(2)]] leads_past [OF keeps_when_true [OF blocks_tables(3)]]
  leads_past [OF keeps_when_true [OF blocks_tables(4)]] leads_past [OF calm_tables [OF time_calm(3)]]
  leads_past [OF keeps_modify [where g = "\<lambda>s. s\<lparr>DISP_DATA_curr_milli := t\<rparr>" for t]]
  leads_past [OF keeps_prims(2) [where g = "\<lambda>s. t - DISP_DATA_prev_milli s \<ge> DISP_DATA_DELAY s" for t]]
  leads_past [OF keeps_prims(2) [where g = sceneSelect_isChanged]] leads_past [OF keeps_prims(2) [where g = settingSelect_isChanged]]
  leads_past [OF keeps_prims(2) [where g = delaySelect_isChanged]] leads_past [OF keeps_prims(2) [where g = isSavingData]]
  leads_past [OF keeps_prims(2) [where g = isEjecting]]
  leads_past [OF keeps_modify [where g = "\<lambda>s. s\<lparr>sceneSelect_isChanged := False\<rparr>"]]
  leads_past [OF keeps_modify [where g = "\<lambda>s. s\<lparr>settingSelect_isChanged := False\<rparr>"]]
  leads_past [OF keeps_modify [where g = "\<lambda>s. s\<lparr>delaySelect_isChanged := False\<rparr>"]]

lemma SETTING_DELAY_leads: "leads_to (k, u) enter_SETTING_DELAY (delay_ui k u)" if "u_delay u \<le> 7"
  unfolding enter_SETTING_DELAY_def
  using that by (intro leads_steps; simp add: delay_ui_def leave_delay_def)

lemma SETTING_leads: "leads_to (k, u) enter_SETTING (setting_ui k u)" if "u_setting u \<le> 7" "u_delay u \<le> 7"
  unfolding enter_SETTING_def
  using that by (intro leads_steps leads_to_bind [OF SETTING_DELAY_leads]; auto simp: setting_ui_def)

lemma mainFunc_leads: "leads_to (k, u) mainFunc (main_ui k u)" if "in_range u"
proof -
  have r: "u_scene u \<le> 4" "u_setting u \<le> 7" "u_delay u \<le> 7" using that by (simp_all add: in_range_def)
  then show ?thesis unfolding mainFunc_def
    by (intro leads_steps leads_to_bind [OF SETTING_leads]; auto simp: main_ui_def scene_owner_def)
qed

end
