(* ===== verification/App_Invariant.thy ===== *)
theory App_Invariant
  imports App_Pages
begin

text \<open>
  The invariant of the running program: start-up establishes it, and every call of the main
  loop, every interrupt and every console command preserves it.
\<close>

section \<open>The periodic tasks\<close>

lemma tables_polls [simp]: "tables (s\<lparr>hmc5883l_curr_milli := t\<rparr>) = tables s" "tables (s\<lparr>hmc5883l_prev_milli := t\<rparr>) = tables s"
  "tables (s\<lparr>hmc5883l_rawData := d\<rparr>) = tables s" "tables (s\<lparr>hmc5883l_heading := x\<rparr>) = tables s"
  "tables (s\<lparr>bme280_curr_milli := t\<rparr>) = tables s" "tables (s\<lparr>bme280_prev_milli := t\<rparr>) = tables s"
  "tables (s\<lparr>bme280_rawData := b\<rparr>) = tables s" "tables (s\<lparr>ltr390_curr_milli := t\<rparr>) = tables s"
  "tables (s\<lparr>ltr390_prev_milli := t\<rparr>) = tables s" "tables (s\<lparr>ltr390_rawData := l\<rparr>) = tables s"
  "tables (s\<lparr>gp2y1014au0f_curr_milli := t\<rparr>) = tables s" "tables (s\<lparr>gp2y1014au0f_prev_milli := t\<rparr>) = tables s"
  "tables (s\<lparr>gp2y1014au0f_rawData := x\<rparr>) = tables s" "tables (s\<lparr>lm386_curr_milli := t\<rparr>) = tables s"
  "tables (s\<lparr>lm386_prev_milli := t\<rparr>) = tables s" "tables (s\<lparr>lm386_rawData := x\<rparr>) = tables s"
  "tables (s\<lparr>data_curr_milli := t\<rparr>) = tables s" "tables (s\<lparr>data_prev_milli := t\<rparr>) = tables s"
  "tables (s\<lparr>mainOutput_curr_milli := t\<rparr>) = tables s" "tables (s\<lparr>mainOuput_prev_milli := t\<rparr>) = tables s"
  "tables (s\<lparr>debug_isEnabled := c\<rparr>) = tables s" "tables (s\<lparr>flag_first := n\<rparr>) = tables s"
  "tables (s\<lparr>filter_buffer := ns\<rparr>) = tables s" "tables (s\<lparr>filter_sum := i\<rparr>) = tables s"
  by (simp_all add: tables_def ui_def)

lemma dust_tables: "keeps tables my_gp2y1014au0f_get_data"
  unfolding my_gp2y1014au0f_get_data_def my_gp2y1014au0f_get_data_avg_def my_filter_def set_buffer_def add_sum_def
    fault_def Let_def
  by (intro keep_intros calm_tables [OF convert_calm(1)] calm_tables [OF double_to_u8_calm] calm_tables [OF time_calm(1)]
    calm_tables [OF time_calm(2)] calm_tables [OF pin_write_calm]; simp)

lemma polls_tables: "m \<in> set (butlast main_loop) \<Longrightarrow> keeps tables m"
proof -
  note tick = calm_tables [OF time_calm(3)] and s = blind_sensors [OF tables_blind]
  have "keeps tables my_hmc5883l_test" "keeps tables my_bme280_test" "keeps tables my_ltr390_test"
    unfolding my_hmc5883l_test_def my_bme280_test_def my_ltr390_test_def hmc5883l_body_def bme280_body_def ltr390_body_def
    by (intro keep_intros tick s; simp)+
  moreover have "keeps tables my_gp2y1014au0f_test" "keeps tables my_lm386_test" "keeps tables my_sd_card_test" "keeps tables log_main"
    unfolding my_gp2y1014au0f_test_def my_lm386_test_def dust_body_def sound_body_def my_sd_card_test_def log_main_def
    by (intro keep_intros tick dust_tables calm_tables [OF convert_calm(2)] screens_tables; simp)+
  moreover assume "m \<in> set (butlast main_loop)"
  ultimately show ?thesis by (auto simp: main_loop_def)
qed

section \<open>The invariant holds\<close>

lemma app_inv_sit: "app_inv s \<longleftrightarrow> (\<exists>k u. sit (k, u) s \<and> fits k u)"
  by (auto simp: app_inv_def sit_def)

lemma app_inv_tables: "keeps tables m \<Longrightarrow> app_inv s \<Longrightarrow> app_inv (exec m s)"
  unfolding app_inv_sit keeps_def exec_def by (metis sit_cong)

lemma app_inv_mainFunc: "app_inv s \<Longrightarrow> app_inv (exec mainFunc s)"
proof -
  assume "app_inv s"
  then obtain k u where k: "sit (k, u) s" "fits k u" by (auto simp: app_inv_sit)
  then have "sit (main_ui k u) (exec mainFunc s)"
    using mainFunc_leads [of u k] by (auto simp: leads_to_def exec_def fits_def)
  with main_ui_fits [OF k(2)] show ?thesis unfolding app_inv_sit by (metis prod.collapse)
qed

lemma app_inv_call: "pc < 8 \<Longrightarrow> app_inv s \<Longrightarrow> app_inv (exec (main_loop ! pc) s)"
proof (cases "pc = 7")
  case True
  moreover assume "app_inv s"
  moreover have "exec (do { _ \<leftarrow> mainFunc; ret () }) s = exec mainFunc s" by (simp add: exec_def split_beta)
  ultimately show ?thesis using app_inv_mainFunc by (simp add: main_loop_def)
next
  case False
  moreover assume "pc < 8" and s: "app_inv s"
  moreover have "length (main_loop :: ('a app_st_scheme, unit) state list) = 8" by (simp add: main_loop_def)
  ultimately have "main_loop ! pc = (butlast main_loop ! pc :: ('a app_st_scheme, unit) state)"
    "pc < length (butlast main_loop :: ('a app_st_scheme, unit) state list)"
    by (simp_all add: nth_butlast)
  then have "keeps tables (main_loop ! pc :: ('a app_st_scheme, unit) state)" using polls_tables by (metis nth_mem)
  then show ?thesis using s by (rule app_inv_tables)
qed

lemma console_tables: "m \<in> {en_dbg, dis_dbg} \<Longrightarrow> keeps tables m"
  by (auto simp: en_dbg_def dis_dbg_def intro!: keep_intros)

section \<open>Start-up\<close>

lemma attach_boot:
  assumes l: "line_of pin = Some l" and s: "has_keys Boot s"
    and h: "(l, h) \<in> {(KEY1_LINE, H_key1_change), (KEY2_LINE, H_key2_change), (3, H_my_ov7725_interrupt)}"
    and run: "run_state (stm32_pin_attach_irq pin mode (Some h) a) s = (r, t)"
  shows "has_keys Boot t"
proof -
  let ?e = "\<lparr>ih_pin = pin, ih_mode = mode, ih_hdr = Some h, ih_args = a\<rparr>"
  have "l < 16" by (rule line_of_less [OF l])
  then have "t = s \<or> t = s\<lparr>pin_irq_hdr_tab := (pin_irq_hdr_tab s)[l := ?e]\<rparr>"
    using run by (auto simp: stm32_pin_attach_irq_def get_pin_line [OF l] Let_def split: if_splits)
  moreover have "has_keys Boot (s\<lparr>pin_irq_hdr_tab := (pin_irq_hdr_tab s)[l := ?e]\<rparr>)"
  proof -
    have g: "gpio_inv s" using s by (simp add: has_keys_def)
    have "gpio_inv (s\<lparr>pin_irq_hdr_tab := (pin_irq_hdr_tab s)[l := ?e]\<rparr>)"
      by (rule gpio_inv_update [OF g hdr_ok_new [OF l line_of_neq_minus1 [OF l]]])
    with s h show ?thesis by (auto simp: has_keys_def handler_on_update [OF g \<open>l < 16\<close>])
  qed
  ultimately show ?thesis using s by auto
qed

lemma enable_tables: "keeps tables (stm32_pin_irq_enable p en)"
proof -
  have "tables (s\<lparr>pin_irq_enable_mask := m\<rparr>) = tables s" for s :: "'a app_st_scheme" and m by (simp add: tables_def ui_def)
  then have i: "keeps tables (irq_enable_line p port b :: ('a app_st_scheme, _) state)"
    "keeps tables (irq_disable_line port b :: ('a app_st_scheme, _) state)" for port b
    unfolding irq_enable_line_def irq_disable_line_def Let_def fault_def by (intro keep_intros; simp)+
  then show "keeps tables (stm32_pin_irq_enable p en :: ('a app_st_scheme, _) state)"
    unfolding stm32_pin_irq_enable_def by (intro keep_intros)
qed

lemma attach_leads:
  assumes "line_of pin = Some l"
    and "(l, h) \<in> {(KEY1_LINE, H_key1_change), (KEY2_LINE, H_key2_change), (3, H_my_ov7725_interrupt)}"
  shows "leads_to (Boot, u) (stm32_pin_attach_irq pin mode (Some h) a) (Boot, u)"
  unfolding leads_to_def
proof (intro allI impI)
  fix s :: "'z app_st_scheme"
  assume s: "sit (Boot, u) s"
  obtain r t where m: "run_state (stm32_pin_attach_irq pin mode (Some h) a) s = (r, t)" by (metis prod.exhaust)
  have "keeps ui (stm32_pin_attach_irq pin mode (Some h) a :: ('z app_st_scheme, int) state)"
    by (intro pins_keep) (simp_all add: ui_def)
  with s m attach_boot [OF assms(1) _ assms(2) m] keepsD [OF _ m]
  show "sit (Boot, u) (snd (run_state (stm32_pin_attach_irq pin mode (Some h) a) s))" by (auto simp: sit_def)
qed

lemma pin_config_leads: "leads_to (Boot, u) key_embedded_init (Boot, u)" "leads_to (Boot, u) VSYNC_GPIO_Config (Boot, u)"
proof -
  have v: "line_of OV7725_VSYNC_PIN = Some 3" by (simp add: line_of_def OV7725_VSYNC_PIN_def GET_PIN_def)
  note quiet = leads_past [OF calm_tables [OF pin_mode_calm]] leads_past [OF enable_tables]
  show "leads_to (Boot, u) key_embedded_init (Boot, u)"
    unfolding key_embedded_init_def
    by (intro quiet leads_to_bind [OF attach_leads [OF line_of_keys(1)]] leads_to_bind [OF attach_leads [OF line_of_keys(2)]] leads_ret)
      simp_all
  show "leads_to (Boot, u) VSYNC_GPIO_Config (Boot, u)"
    unfolding VSYNC_GPIO_Config_def
    by (intro quiet leads_to_bind [OF attach_leads [OF v]] leads_ret) simp_all
qed

lemma camera_init_leads: "leads_to (Boot, u) my_ov7725_test_init (Boot, u)"
  unfolding my_ov7725_test_init_def OV7725_GPIO_Config_def State_Monad.bind_assoc
    by (intro leads_to_bind [OF pin_config_leads(2)] leads_to_if leads_ret leads_past [OF calm_tables]
       leads_past [OF keeps_modify [where g = "\<lambda>s. s\<lparr>Ov7725_vsync := 0\<rparr>"]] frame_intros; simp)

lemma tables_boot [simp]: "tables (s\<lparr>initCount := n\<rparr>) = tables s" "tables (s\<lparr>hmc5883l := p\<rparr>) = tables s"
  "tables (s\<lparr>bme280 := p\<rparr>) = tables s" "tables (s\<lparr>ltr390 := p\<rparr>) = tables s"
  by (simp_all add: tables_def ui_def)

lemma init_led_key_leads: "leads_to (Boot, u) init_led_key (Boot, u)"
  unfolding init_led_key_def
  by (intro leads_to_bind [OF pin_config_leads(1)] leads_past [OF calm_tables] screen_calm led_calm text_calm
    leads_to_keeps [OF calm_tables])

lemma init_first_leads: "leads_to (Boot, u) init_first (Boot, u)"
  unfolding init_first_def
  by (intro init_led_key_leads leads_past [OF calm_tables [OF screen_calm(1)]]
    leads_past [OF keeps_modify [where g = "\<lambda>s. s\<lparr>initCount := initCount s + 1\<rparr>"]]) simp

lemma init_camera_leads: "leads_to (Boot, u) init_camera (Boot, u)"
  unfolding init_camera_def
  by (intro leads_to_bind [OF camera_init_leads] leads_past [OF calm_tables] led_calm report_calm leads_ret refl)

lemma init_tables: "keeps tables init_sensors" "keeps tables init_analogue" "keeps tables (init_card b)"
  "keeps tables (when_true c (led_embedded_color col))"
proof -
  show "keeps tables init_sensors"
    unfolding init_sensors_def
    by (intro keep_intros keeps_init_hmc5883l keeps_init_bme280 keeps_init_ltr390 tables_blind) simp_all
  show "keeps tables init_analogue" "keeps tables (init_card b)" "keeps tables (when_true c (led_embedded_color col))"
    unfolding init_analogue_def init_card_def by (intro keep_intros calm_tables frame_intros)+
qed

lemma mainFuncInit_leads: "leads_to (Boot, u) mainFuncInit (Boot, u)"
  unfolding mainFuncInit_parts init_rest_def
  by (intro leads_to_bind [OF init_first_leads] leads_to_bind [OF init_camera_leads] init_tables [THEN leads_past]
    leads_to_if leads_ret refl)

lemma leads_toD: "leads_to P m Q \<Longrightarrow> sit P s \<Longrightarrow> run_state m s = (r, t) \<Longrightarrow> sit Q t"
  unfolding leads_to_def by (metis snd_conv)

section \<open>The invariant of the program\<close>

definition start_ui :: ui where
  "start_ui = \<lparr>u_scene = 0, u_scene_changed = True, u_select_scene = 1, u_setting = 7, u_setting_changed = True,
     u_select_setting = 1, u_delay = 7, u_delay_changed = True, u_select_delay = 1\<rparr>"

definition stage_inv :: "stage \<Rightarrow> 'z app_st_scheme \<Rightarrow> bool" where
  "stage_inv ph s \<longleftrightarrow> (case ph of Booting \<Rightarrow> sit (Boot, start_ui) s | Running pc \<Rightarrow> pc < 8 \<and> app_inv s
     | Stopped \<Rightarrow> sit (Boot, start_ui) s)"

lemma fits_start: "fits Boot start_ui"
  by (simp add: fits_defs start_ui_def)

lemma sit_keeps: "keeps tables m \<Longrightarrow> sit P s \<Longrightarrow> sit P (exec m s)"
  unfolding keeps_def exec_def by (metis sit_cong)

lemma sit_isr: "l < 16 \<Longrightarrow> sit (Boot, u) s \<Longrightarrow> sit (Boot, u) (exec (isr l) s)"
proof -
  assume l: "l < 16" and s: "sit (Boot, u) s"
  have "tables (exec (isr l) s) = tables s"
  proof (cases "handler_on s l")
    case (Some h)
    then have "h \<in> {H_key1_change, H_key2_change, H_my_ov7725_interrupt}"
      using s by (cases "l = KEY1_LINE"; cases "l = KEY2_LINE") (auto simp: sit_def has_keys_def split: if_splits)
    then have "ui (exec (run_handler h) s) = ui s" unfolding ui_handler by auto
    then show ?thesis using l Some exec_keeps [OF handlers_keep_pins] by (simp add: isr_run tables_def)
  qed (use l in \<open>simp add: isr_run\<close>)
  with s show ?thesis using sit_cong by blast
qed

lemma stage_inv_step:
  fixes s t :: "'z app_st_scheme"
  assumes "app_step (ph, s) (ph', t)" and "stage_inv ph s"
  shows "stage_inv ph' t"
  using assms
proof (elim app_stepE; clarsimp)
  fix t :: "'z app_st_scheme"
  assume "run_state mainFuncInit s = (Some RT_EOK, t)" "stage_inv Booting s"
  then have "sit (Boot, start_ui) t" using leads_toD [OF mainFuncInit_leads] by (simp add: stage_inv_def)
  moreover have "tables (exec init_scene t) = (start_ui, pin_irq_hdr_tab t)" if "ui t = start_ui"
    using that by (simp add: init_scene_def exec_def tables_def ui_def start_ui_def)
  ultimately have "sit (Boot, start_ui) (exec init_scene t)"
    by (metis sit_cong sit_def snd_conv tables_def)
  then show "stage_inv (Running 0) (exec init_scene t)"
    using fits_start by (auto simp: stage_inv_def app_inv_sit)
next
  fix r and t :: "'z app_st_scheme"
  assume "run_state mainFuncInit s = (Some r, t)" "stage_inv Booting s"
  then show "stage_inv Booting (exec (rt_thread_mdelay 1000) t)"
    using leads_toD [OF mainFuncInit_leads] by (auto simp: stage_inv_def intro!: sit_keeps calm_tables time_calm)
next
  assume "run_state mainFuncInit s = (None, t)" "stage_inv Booting s"
  then show "stage_inv Stopped t" using leads_toD [OF mainFuncInit_leads] by (auto simp: stage_inv_def)
next
  fix pc assume "pc < 8" "stage_inv (Running pc) s"
  then show "stage_inv (Running (Suc pc mod 8)) (exec (main_loop ! pc) s)" by (simp add: stage_inv_def app_inv_call)
next
  fix l assume "l < (16 :: nat)" "stage_inv ph s"
  then show "stage_inv ph (exec (isr l) s)" by (auto simp: stage_inv_def sit_isr app_inv_isr split: stage.splits)
next
  fix m :: "('z app_st_scheme, unit) state" assume "m = en_dbg \<or> m = dis_dbg" "stage_inv ph s"
  then show "stage_inv ph (exec m s)"
    by (auto simp: stage_inv_def intro!: sit_keeps app_inv_tables console_tables split: stage.splits)
qed

lemma reached_inv: "reached e (ph, s) \<Longrightarrow> stage_inv ph s"
proof (induction "(ph, s)" arbitrary: ph s rule: reached.induct)
  case reset
  have "keeps tables (display_init :: (app_st, unit) state)"
    unfolding display_init_def by (intro keep_intros calm_tables lcd_calm)
  moreover have "gpio_inv (app_reset e)" "handler_on (app_reset e) l = None" for l
    by (auto simp: app_reset_def gpio_inv_init handler_on_def init_irq_hdr_tab_def empty_hdr_def)
  then have "sit (Boot, start_ui) (app_reset e)"
    by (simp add: sit_def has_keys_def ui_def start_ui_def app_reset_def)
  ultimately show ?case by (simp add: stage_inv_def sit_keeps)
next
  case (more p)
  then show ?case by (cases p) (auto intro: stage_inv_step)
qed

end
