(* ===== verification/App_Boot.thy ===== *)
theory App_Boot
  imports App_Invariant
begin

text \<open>
  Start-up on a board whose parts all work: the first attempt succeeds and the main loop is
  entered. Also a concrete board of this kind.
\<close>

section \<open>Parts that work\<close>

definition answers_at :: "env \<Rightarrow> u8 \<Rightarrow> ((u8 \<times> u8) list \<Rightarrow> u8 \<Rightarrow> u8) \<Rightarrow> bool" where
  "answers_at e addr rv \<longleftrightarrow> (\<forall>h ms. ms \<noteq> [] \<and> m_addr (hd ms) = ucast addr \<longrightarrow>
     i2c_reply e h ''i2c1'' ms = dev_answer rv (xfer_writes ''i2c1'' addr h) ms)"

text \<open>
  Memory and services are there, the camera \<open>cam\<close> answers on its two lines and the three sensors on the
  bus: the magnetometer with its identification, the weather sensor with registers \<open>rom\<close>
  after power-up.
\<close>

definition parts_work :: "env \<Rightarrow> (frame list \<Rightarrow> u8 \<Rightarrow> u8) \<Rightarrow> ((u8 \<times> u8) list \<Rightarrow> u8 \<Rightarrow> u8) \<Rightarrow>
    ((u8 \<times> u8) list \<Rightarrow> u8 \<Rightarrow> u8) \<Rightarrow> (u8 \<Rightarrow> u8) \<Rightarrow> bool" where
  "parts_work e cam hmc ltr rom \<longleftrightarrow>
     (\<forall>h. alloc_ok e h \<and> adc_ok e h \<and> dfs_result e h = 0) \<and> device_type e ''i2c1'' = Some Device_Class_I2CBUS \<and>
     (\<forall>h. pin_level e h 2 7 = line_level cam (wire_of h)) \<and> answers cam OV7725_ID \<and>
     answers_at e 0x1E hmc \<and> (\<forall>ws. map (hmc ws) [0x0A, 0x0B, 0x0C] = [0x48, 0x34, 0x33]) \<and>
     answers_at e 0x53 ltr \<and> answers_at e 0x77 (bme_chip rom) \<and>
     rom BME280_CHIP_ID_ADDR = BME280_CHIP_ID \<and> rom BME280_CRC_DATA_ADDR = crc_calculate (image (\<lambda>_. rom) [])"

text \<open>Events that neither touch the camera's lines nor write to the weather sensor.\<close>

fun apart :: "ev \<Rightarrow> bool" where
  "apart (Bsrr p v) = (p \<noteq> 2)"
| "apart (HalReadPin p n v) = (p \<noteq> 2)"
| "apart (I2cXfer b ms n) = (ms \<noteq> [] \<longrightarrow> m_addr (hd ms) \<noteq> 0x77)"
| "apart _ = True"

lemma apart_quiet: "apart e \<Longrightarrow> wire_quiet e"
  by (cases e) (simp_all add: wire_quiet_def)

lemma apart_writes: "list_all apart es \<Longrightarrow> xfer_writes ''i2c1'' 0x77 es = []"
proof -
  have "apart e \<Longrightarrow> xfer_write ''i2c1'' 0x77 e = []" for e
    by (cases "(''i2c1'', 0x77 :: u8, e)" rule: xfer_write.cases) auto
  then show "list_all apart es \<Longrightarrow> xfer_writes ''i2c1'' 0x77 es = []" by (induction es) simp_all
qed

text \<open>\<open>m\<close> returns \<open>x\<close> and adds only events of \<open>P\<close>; the environment is \<open>e\<close>.\<close>

definition succeeds :: "env \<Rightarrow> (ev \<Rightarrow> bool) \<Rightarrow> ('z board_scheme, 'a) state \<Rightarrow> ('a \<Rightarrow> bool) \<Rightarrow> bool" where
  "succeeds e P m good \<longleftrightarrow> (\<forall>s. env s = e \<longrightarrow> good (fst (run_state m s)) \<and> env (snd (run_state m s)) = e \<and>
     (\<exists>es. hist (snd (run_state m s)) = hist s @ es \<and> list_all P es))"

lemma succeeds_extends: "extends P m \<Longrightarrow> (\<And>s. good (fst (run_state m s))) \<Longrightarrow> succeeds e P m good"
  unfolding extends_def succeeds_def by metis

lemma succeeds_bind:
  assumes "succeeds e P m good" and "\<And>x. good x \<Longrightarrow> succeeds e P (f x) ok"
  shows "succeeds e P (m \<bind> f) ok"
  unfolding succeeds_def snd_run_bind fst_run_bind
proof (intro allI impI conjI)
  fix s :: "'a board_scheme" assume s: "env s = e"
  let ?x = "fst (run_state m s)" and ?t = "snd (run_state m s)"
  obtain es where m: "good ?x" "env ?t = e" "hist ?t = hist s @ es" "list_all P es"
    using assms(1) s unfolding succeeds_def by blast
  with assms(2) [OF m(1)] obtain es' where f: "ok (fst (run_state (f ?x) ?t))" "env (snd (run_state (f ?x) ?t)) = e"
    "hist (snd (run_state (f ?x) ?t)) = hist ?t @ es'" "list_all P es'" unfolding succeeds_def by blast
  then show "ok (fst (run_state (f ?x) ?t))" "env (snd (run_state (f ?x) ?t)) = e" by blast+
  show "\<exists>es. hist (snd (run_state (f ?x) ?t)) = hist s @ es \<and> list_all P es"
    using m f by (intro exI [of _ "es @ es'"]) simp
qed

lemma succeeds_mono: "succeeds e P m good \<Longrightarrow> (\<And>ev. P ev \<Longrightarrow> Q ev) \<Longrightarrow> succeeds e Q m good"
  unfolding succeeds_def list_all_iff by blast

section \<open>Events apart from camera and weather sensor\<close>

lemma pin_setup_apart: "pin_setup e \<Longrightarrow> apart e"
  by (cases e) simp_all

lemma apart_prims [frame_intros]: "appends apart (lcd c)" "appends apart (LINE x)"
  "appends apart (stm32_pin_mode p m)" "appends apart (stm32_pin_write p v)"
  unfolding lcd_def LINE_def stm32_pin_mode_def stm32_pin_write_def
  by (auto split: option.splits prod.splits intro!: frame_intros)

lemma apart_calm [frame_intros]: "appends apart clear_screen" "appends apart (line_EN x text)"
  "appends apart (style f g)" "appends apart (led_embedded_color col)" "appends apart led_embedded_off"
  unfolding clear_screen_def line_EN_def style_def led_embedded_color_def led_embedded_off_def rgb_write_def
  by (intro frame_intros)+

lemma report_apart [frame_intros]: "appends apart (report_device x good bad ok)"
  unfolding report_device_def by (intro frame_intros)

lemma init_first_apart: "extends apart init_first"
proof -
  have "extends apart key_embedded_init"
    unfolding key_embedded_init_def by (rule extends_mono [of pin_setup]) (intro extend_intros, erule pin_setup_apart)
  moreover have "appends apart init_screen" "appends apart led_embedded_init"
    unfolding init_screen_def led_embedded_init_def by (intro frame_intros)+
  ultimately show ?thesis
    unfolding init_first_def init_led_key_def
    by (auto intro!: extend_intros intro: extends_appends frame_intros)
qed

section \<open>Sensors on the bus\<close>

lemma answers_dev:
  "answers_at e addr rv \<Longrightarrow> env s = e \<Longrightarrow> i2c_dev ''i2c1'' addr rv (xfer_writes ''i2c1'' addr (hist s)) s"
  by (simp add: answers_at_def i2c_dev_def)

text \<open>A structure for the device at \<open>addr\<close>, with only events of \<open>apart\<close> after the history \<open>h\<close>.\<close>

definition in_use :: "env \<Rightarrow> ev list \<Rightarrow> nat \<Rightarrow> u8 \<Rightarrow> ((u8 \<times> u8) list \<Rightarrow> u8 \<Rightarrow> u8) \<Rightarrow> (u8 \<times> u8) list \<Rightarrow> 'z board_scheme \<Rightarrow> bool" where
  "in_use e h a addr rv ws s \<longleftrightarrow> attached a ''i2c1'' addr rv ws s \<and> env s = e \<and>
     (\<exists>es. hist s = h @ es \<and> list_all apart es)"

lemma in_use_step:
  fixes m :: "('z board_scheme, 'a) state"
  assumes "yields (attached a ''i2c1'' addr rv) ws m x ws'"
    and "\<And>s :: 'z board_scheme. attached a ''i2c1'' addr rv ws s \<Longrightarrow> \<exists>es. hist (snd (run_state m s)) = hist s @ es \<and>
      env (snd (run_state m s)) = env s \<and> list_all apart es"
  shows "yields (in_use e h a addr rv) ws m x ws'"
  unfolding yields_def
proof (intro allI impI)
  fix s :: "'z board_scheme" assume s: "in_use e h a addr rv ws s"
  then have at: "attached a ''i2c1'' addr rv ws s" by (simp add: in_use_def)
  then have "fst (run_state m s) = x \<and> attached a ''i2c1'' addr rv ws' (snd (run_state m s))"
    using assms(1) by (simp add: yields_def)
  moreover obtain es es' where "hist s = h @ es" "list_all apart es" "hist (snd (run_state m s)) = hist s @ es'"
    "env (snd (run_state m s)) = env s" "list_all apart es'"
    using s assms(2) [OF at] by (auto simp: in_use_def)
  ultimately show "fst (run_state m s) = x \<and> in_use e h a addr rv ws' (snd (run_state m s))"
    using s by (auto simp: in_use_def intro!: exI [of _ "es @ es'"])
qed

lemma in_use_read: "addr \<noteq> 0x77 \<Longrightarrow> yields (in_use e h a addr rv) ws (dev_read_regs a r buf)
    (RT_EOK, map (\<lambda>i. rv ws (r + of_nat i)) [0..<length buf]) ws"
  and in_use_write: "addr \<noteq> 0x77 \<Longrightarrow> yields (in_use e h a addr rv) ws (dev_write_reg a r v) RT_EOK (ws @ [(r, v)])"
proof -
  assume a: "addr \<noteq> 0x77"
  have "(ucast addr :: u16) \<noteq> 0x77"
  proof
    assume "(ucast addr :: u16) = 0x77"
    then have "(ucast (ucast addr :: u16) :: u8) = ucast (0x77 :: u16)" by simp
    then show False using a by simp
  qed
  note x = this a
  show "yields (in_use e h a addr rv) ws (dev_read_regs a r buf)
    (RT_EOK, map (\<lambda>i. rv ws (r + of_nat i)) [0..<length buf]) ws"
    by (rule in_use_step [OF dev_regs.rd_law])
      (use x in \<open>auto simp: dev_read_regs_def on_i2c_bus_attached i2c_read_regs_def rt_i2c_transfer_def Let_def\<close>)
  show "yields (in_use e h a addr rv) ws (dev_write_reg a r v) RT_EOK (ws @ [(r, v)])"
    by (rule in_use_step [OF dev_regs.wr_law])
      (use x in \<open>auto simp: dev_write_reg_def on_i2c_bus_attached i2c_write_reg_def rt_i2c_transfer_def\<close>)
qed

text \<open>A structure just created for the device at \<open>addr\<close>.\<close>

lemma device_created:
  assumes "answers_at e addr rv" and "env s = e" and "alloc_ok e (hist s)"
    and "device_type e ''i2c1'' = Some Device_Class_I2CBUS"
  obtains a s' where "in_use e (hist s) a addr rv (xfer_writes ''i2c1'' addr (hist s)) s'"
    and "\<And>body. run_state (do {
       p \<leftarrow> calloc_struct (I2c_struct zero_i2c_device);
       case p of
         None \<Rightarrow> ret None
       | Some a \<Rightarrow> do {
           t \<leftarrow> ask (\<lambda>e h. device_type e ''i2c1'');
           d \<leftarrow> load_i2c a;
           store_i2c a (d\<lparr>dev_bus := ''i2c1''\<rparr>);
           if t \<noteq> Some Device_Class_I2CBUS then do { rt_free a; ret None }
           else do { d \<leftarrow> load_i2c a; store_i2c a (d\<lparr>dev_i2c_addr := addr\<rparr>); body a }
         } }) s = run_state (body a) s'"
proof -
  let ?a = "fresh_addr (hist s)"
  let ?s = "s\<lparr>hist := hist s @ [Alloc ?a],
    heap := (heap s)(?a \<mapsto> I2c_struct (zero_i2c_device\<lparr>dev_bus := ''i2c1'', dev_i2c_addr := addr\<rparr>))\<rparr>"
  have "in_use e (hist s) ?a addr rv (xfer_writes ''i2c1'' addr (hist s)) ?s"
    using assms answers_dev [OF assms(1,2)] by (simp add: in_use_def attached_def i2c_dev_def zero_i2c_device_def)
  then show ?thesis
    by (rule that [of ?a ?s])
      (use assms in \<open>simp add: calloc_struct_def run_rt_calloc load_i2c_def store_i2c_def run_deref\<close>)
qed

lemma hmc_works:
  assumes "answers_at e 0x1E rv" and "env s = e" and "alloc_ok e (hist s)"
    and "device_type e ''i2c1'' = Some Device_Class_I2CBUS" and "\<And>ws. map (rv ws) [0x0A, 0x0B, 0x0C] = [0x48, 0x34, 0x33]"
  shows "\<exists>a t es. run_state (my_hmc5883l_init ''i2c1'' 0x1E) s = (Some a, t) \<and> env t = e \<and>
    hist t = hist s @ es \<and> list_all apart es"
proof -
  obtain a s' where s': "in_use e (hist s) a 0x1E rv (xfer_writes ''i2c1'' 0x1E (hist s)) s'"
    and run: "run_state (my_hmc5883l_init ''i2c1'' 0x1E) s = run_state (do { 
         ok \<leftarrow> self_test a;
         if ok \<noteq> RT_EOK then do { rt_free a; ret None }
         else do {
           r1 \<leftarrow> hmc_write_reg a 0x00 0x70;
           r2 \<leftarrow> (if r1 \<noteq> RT_EOK then ret r1 else hmc_write_reg a 0x01 0xA0);
           if r2 \<noteq> RT_EOK then do { rt_free a; ret None } else ret (Some a)
         } }) s'"
    using device_created [OF assms(1-4)] unfolding my_hmc5883l_init_def by metis
  have "yields (in_use e h a 0x1E rv) ws (self_test a) RT_EOK ws" for h ws
    unfolding self_test_def hmc_read_regs_def
    by (rule yields_bind, rule in_use_read, simp, use assms(5) in \<open>simp add: yields_ret upt_rec\<close>)
  then have "yields (in_use e h a 0x1E rv) ws (do { 
         ok \<leftarrow> self_test a;
         if ok \<noteq> RT_EOK then do { rt_free a; ret None }
         else do {
           r1 \<leftarrow> hmc_write_reg a 0x00 0x70;
           r2 \<leftarrow> (if r1 \<noteq> RT_EOK then ret r1 else hmc_write_reg a 0x01 0xA0);
           if r2 \<noteq> RT_EOK then do { rt_free a; ret None } else ret (Some a)
         } }) (Some a) (ws @ [(0x00, 0x70), (0x01, 0xA0)])" for h ws
    unfolding hmc_write_reg_def
    using in_use_write [of "0x1E" e h a rv ws 0 "0x70"] in_use_write [of "0x1E" e h a rv "ws @ [(0, 0x70)]" 1 "0xA0"]
    by (auto intro!: yields_bind yields_ret)
  then have "\<exists>t. run_state (my_hmc5883l_init ''i2c1'' 0x1E) s = (Some a, t) \<and>
      in_use e (hist s) a 0x1E rv (xfer_writes ''i2c1'' 0x1E (hist s) @ [(0x00, 0x70), (0x01, 0xA0)]) t"
    unfolding run by (rule yieldsD) (rule s')
  then show ?thesis unfolding in_use_def by blast
qed

lemma ltr_works:
  assumes "answers_at e 0x53 rv" and "env s = e" and "alloc_ok e (hist s)"
    and "device_type e ''i2c1'' = Some Device_Class_I2CBUS"
  shows "\<exists>a t es. run_state (my_ltr390_init ''i2c1'' 0x53) s = (Some a, t) \<and> env t = e \<and>
    hist t = hist s @ es \<and> list_all apart es"
proof -
  let ?v = "LTR390_RESOLUTION_16BIT_TIME25MS OR LTR390_RATE_25MS"
  obtain a s' where s': "in_use e (hist s) a 0x53 rv (xfer_writes ''i2c1'' 0x53 (hist s)) s'"
    and run: "run_state (my_ltr390_init ''i2c1'' 0x53) s = run_state (do {
         r1 \<leftarrow> ltr_write_reg a LTR390_REGISTER_MEAS_RATE ?v;
         r2 \<leftarrow> (if r1 \<noteq> RT_EOK then ret r1 else ltr_write_reg a LTR390_REGISTER_GAIN LTR390_GAIN_3);
         if r2 \<noteq> RT_EOK then do { rt_free a; ret None } else ret (Some a) }) s'"
    using device_created [OF assms] unfolding my_ltr390_init_def by metis
  have "yields (in_use e h a 0x53 rv) ws (do {
         r1 \<leftarrow> ltr_write_reg a LTR390_REGISTER_MEAS_RATE ?v;
         r2 \<leftarrow> (if r1 \<noteq> RT_EOK then ret r1 else ltr_write_reg a LTR390_REGISTER_GAIN LTR390_GAIN_3);
         if r2 \<noteq> RT_EOK then do { rt_free a; ret None } else ret (Some a) })
       (Some a) (ws @ [(LTR390_REGISTER_MEAS_RATE, ?v), (LTR390_REGISTER_GAIN, LTR390_GAIN_3)])" for h ws
    unfolding ltr_write_reg_def
    using in_use_write [of "0x53" e h a rv ws LTR390_REGISTER_MEAS_RATE ?v]
      in_use_write [of "0x53" e h a rv "ws @ [(LTR390_REGISTER_MEAS_RATE, ?v)]" LTR390_REGISTER_GAIN LTR390_GAIN_3]
    by (auto intro!: yields_bind yields_ret)
  then have "\<exists>t. run_state (my_ltr390_init ''i2c1'' 0x53) s = (Some a, t) \<and>
      in_use e (hist s) a 0x53 rv (xfer_writes ''i2c1'' 0x53 (hist s) @
        [(LTR390_REGISTER_MEAS_RATE, ?v), (LTR390_REGISTER_GAIN, LTR390_GAIN_3)]) t"
    unfolding run by (rule yieldsD) (rule s')
  then show ?thesis unfolding in_use_def by blast
qed

lemma bme_works:
  assumes "answers_at e 0x77 (bme_chip rom)" and "env s = e" and "alloc_ok e (hist s)"
    and "device_type e ''i2c1'' = Some Device_Class_I2CBUS" and "xfer_writes ''i2c1'' 0x77 (hist s) = []"
    and "rom BME280_CHIP_ID_ADDR = BME280_CHIP_ID" and "rom BME280_CRC_DATA_ADDR = crc_calculate (image (\<lambda>_. rom) [])"
  shows "\<exists>a t es. run_state (my_bme280_init ''i2c1'' 0x77) s = (Some a, t) \<and> env t = e \<and>
    hist t = hist s @ es \<and> list_all wire_quiet es"
proof -
  have q: "bme_ev ev \<Longrightarrow> wire_quiet ev" for ev by (cases ev) (simp_all add: wire_quiet_def)
  have mem: "extends wire_quiet (load_bme a)" "extends wire_quiet (store_bme a d)" "extends wire_quiet (dev_of a)"
    "extends wire_quiet (update_dev a v)" "extends wire_quiet (calloc_struct c)" "extends wire_quiet (rt_free a)" for a d v c
    unfolding dev_of_def update_dev_def load_bme_def store_bme_def deref_def fault_def calloc_struct_def rt_calloc_def rt_free_def
    by (intro extend_intros; simp add: wire_quiet_def)+
  have drv: "appends bme_ev m \<Longrightarrow> extends wire_quiet m" for m :: "('a bme_st_scheme, 'c) state"
    by (rule extends_appends, erule appends_mono, erule q)
  have "extends wire_quiet (my_bme280_init n a :: ('a bme_st_scheme, nat option) state)" for n a
    unfolding my_bme280_init_def start_sensor_def Let_def by (intro extend_intros mem drv driver_frames) simp
  then obtain es where "hist (snd (run_state (my_bme280_init ''i2c1'' 0x77) s)) = hist s @ es"
    "env (snd (run_state (my_bme280_init ''i2c1'' 0x77) s)) = env s" "list_all wire_quiet es"
    unfolding extends_def by blast
  moreover have "i2c_dev ''i2c1'' 0x77 (bme_chip rom) [] s" using answers_dev [OF assms(1,2)] assms(5) by simp
  then obtain a t where "run_state (my_bme280_init ''i2c1'' 0x77) s = (Some a, t)"
    by (rule my_bme280_init_held) (use assms in simp_all)
  ultimately show ?thesis using assms(2) by auto
qed

section \<open>One attempt\<close>

lemma succeeds_quiet: "appends apart m \<Longrightarrow> succeeds e apart m (\<lambda>_. True)"
  by (rule succeeds_extends, rule extends_appends) simp_all

lemma succeeds_ret: "good x \<Longrightarrow> succeeds e P (ret x) good"
  by (rule succeeds_extends) (simp_all add: extend_intros)

lemma succeeds_modify: "(\<And>s. hist (f s) = hist s \<and> env (f s) = env s) \<Longrightarrow> succeeds e P (modify f) (\<lambda>_. True)"
  by (rule succeeds_extends, rule extends_modify) simp_all

lemma succeedsD:
  assumes "succeeds e P m good" and "env s = e"
  obtains x t es where "run_state m s = (x, t)" "good x" "env t = e" "hist t = hist s @ es" "list_all P es"
  using assms unfolding succeeds_def by (metis prod.collapse)

lemma report_init:
  fixes m :: "('z app_st_scheme, nat option) state"
  assumes "succeeds e P m (\<lambda>p. p \<noteq> None)" and "\<And>p s. hist (upd p s) = hist s \<and> env (upd p s) = env s"
    and "\<And>ev. apart ev \<Longrightarrow> P ev"
  shows "succeeds e P (do { p \<leftarrow> m; modify (upd p); report_device x g b (p \<noteq> None); ret (p \<noteq> None) }) (\<lambda>ok. ok)"
  by (rule succeeds_bind [OF assms(1)], rule succeeds_bind [OF succeeds_modify], rule assms(2),
    rule succeeds_bind [OF succeeds_mono [OF succeeds_quiet [OF report_apart] assms(3)]], assumption,
    rule succeeds_ret, assumption)

lemma led_apart: "succeeds e apart (led_embedded_color c) (\<lambda>_. True)"
  by (rule succeeds_quiet) (rule apart_calm)

lemma init_hmc5883l_works:
  assumes "parts_work e cam hmc ltr rom"
  shows "succeeds e apart init_hmc5883l (\<lambda>ok. ok)"
proof -
  have "succeeds e apart (my_hmc5883l_init ''i2c1'' 0x1E :: ('a app_st_scheme, _) state) (\<lambda>p. p \<noteq> None)"
    unfolding succeeds_def
  proof (intro allI impI)
    fix s :: "'a app_st_scheme" assume "env s = e"
    with hmc_works [of e hmc s] assms
    obtain a t es where "run_state (my_hmc5883l_init ''i2c1'' 0x1E) s = (Some a, t)" "env t = e" "hist t = hist s @ es" "list_all apart es"
      unfolding parts_work_def by auto
    then show "fst (run_state (my_hmc5883l_init ''i2c1'' 0x1E) s) \<noteq> None \<and> env (snd (run_state (my_hmc5883l_init ''i2c1'' 0x1E) s)) = e \<and>
      (\<exists>es. hist (snd (run_state (my_hmc5883l_init ''i2c1'' 0x1E) s)) = hist s @ es \<and> list_all apart es)" by simp
  qed
  then show ?thesis
    unfolding init_hmc5883l_def by (intro succeeds_bind [OF led_apart] report_init) simp_all
qed

lemma init_ltr390_works:
  assumes "parts_work e cam hmc ltr rom"
  shows "succeeds e apart init_ltr390 (\<lambda>ok. ok)"
proof -
  have "succeeds e apart (my_ltr390_init ''i2c1'' 0x53 :: ('a app_st_scheme, _) state) (\<lambda>p. p \<noteq> None)"
    unfolding succeeds_def
  proof (intro allI impI)
    fix s :: "'a app_st_scheme" assume "env s = e"
    with ltr_works [of e ltr s] assms
    obtain a t es where "run_state (my_ltr390_init ''i2c1'' 0x53) s = (Some a, t)" "env t = e" "hist t = hist s @ es" "list_all apart es"
      unfolding parts_work_def by auto
    then show "fst (run_state (my_ltr390_init ''i2c1'' 0x53) s) \<noteq> None \<and> env (snd (run_state (my_ltr390_init ''i2c1'' 0x53) s)) = e \<and>
      (\<exists>es. hist (snd (run_state (my_ltr390_init ''i2c1'' 0x53) s)) = hist s @ es \<and> list_all apart es)" by simp
  qed
  then show ?thesis
    unfolding init_ltr390_def by (intro succeeds_bind [OF led_apart] report_init) simp_all
qed

lemma init_bme280_works:
  fixes s :: "'z app_st_scheme"
  assumes "parts_work e cam hmc ltr rom" and "env s = e" and "xfer_writes ''i2c1'' 0x77 (hist s) = []"
  obtains t es where "run_state init_bme280 s = (True, t)" "env t = e" "hist t = hist s @ es" "list_all wire_quiet es"
proof -
  obtain s1 es1 where 1: "run_state (led_embedded_color LED_BLUE) s = ((), s1)" "env s1 = e"
    "hist s1 = hist s @ es1" "list_all apart es1"
    using succeedsD [OF led_apart assms(2)] by (metis old.unit.exhaust)
  have "xfer_writes ''i2c1'' 0x77 (hist s1) = []" using 1 assms(3) apart_writes by simp
  with bme_works [of e rom s1] assms(1) 1(2)
  obtain a s2 es2 where 2: "run_state (my_bme280_init ''i2c1'' 0x77) s1 = (Some a, s2)" "env s2 = e"
    "hist s2 = hist s1 @ es2" "list_all wire_quiet es2"
    unfolding parts_work_def by auto
  have "env (s2\<lparr>bme280 := Some a\<rparr>) = e" using 2(2) by simp
  then obtain u s3 es3 where 3: "run_state (report_device 6 ''(4/9) BME280 init succeeded!'' ''(4/9) BME280 init failed!'' True)
      (s2\<lparr>bme280 := Some a\<rparr>) = (u, s3)" "env s3 = e" "hist s3 = hist (s2\<lparr>bme280 := Some a\<rparr>) @ es3" "list_all apart es3"
    by (rule succeedsD [OF succeeds_quiet [OF report_apart]]) blast
  have "list_all wire_quiet es1" "list_all wire_quiet es3" using 1(4) 3(4) apart_quiet by (auto simp: list_all_iff)
  then show ?thesis
    using 1 2 3 by (intro that [of s3 "es1 @ es2 @ es3"]) (simp_all add: init_bme280_def)
qed

lemma init_analogue_works:
  assumes "parts_work e cam hmc ltr rom"
  shows "succeeds e apart init_analogue (\<lambda>alive. alive)"
proof -
  have adc: "succeeds e apart (my_MX_ADC1_Init c :: ('a app_st_scheme, _) state) (\<lambda>alive. alive)" for c
    using assms by (simp add: succeeds_def my_MX_ADC1_Init_def parts_work_def)
  have "succeeds e apart (my_gp2y1014au0f_init :: ('a app_st_scheme, _) state) (\<lambda>alive. alive)"
    unfolding my_gp2y1014au0f_init_def
    by (rule succeeds_bind [OF adc]) (auto intro!: succeeds_bind [OF succeeds_quiet] apart_prims succeeds_ret)
  then show ?thesis
    unfolding init_analogue_def my_lm386_init_def
    by (auto intro!: succeeds_bind [of e apart my_gp2y1014au0f_init] succeeds_bind [OF led_apart] succeeds_bind [OF adc]
       succeeds_bind [OF succeeds_quiet [OF apart_calm(2)]] succeeds_ret)
qed

lemma init_camera_works:
  fixes s :: "'z app_st_scheme"
  assumes "bus_dev cam d s" and "answers cam OV7725_ID" and "env s = e"
  obtains t where "run_state init_camera s = (True, t)" "env t = e"
proof -
  have env: "keeps env (init_camera :: ('z app_st_scheme, bool) state)"
    by (rule boot_keeps) (simp add: boot_blind_def blind_def)
  have led: "yields (bus_dev cam) d (led_embedded_color c :: ('z app_st_scheme, unit) state) () d" for d c
    by (rule dev_quiet [OF extends_mono [OF extends_appends [OF apart_calm(4)]]]) (auto intro: apart_quiet)
  have rep: "yields (bus_dev cam) d (report_device x g b ok :: ('z app_st_scheme, unit) state) () d" for d x g b ok
    by (rule dev_quiet [OF extends_mono [OF extends_appends [OF report_apart]]]) (auto intro: apart_quiet)
  have "yields (bus_dev cam) d (init_camera :: ('z app_st_scheme, bool) state) True (boot_end cam d)"
    unfolding init_camera_def
    by (rule yields_bind [OF led], rule yields_bind [OF my_ov7725_test_init_good [OF assms(2)]],
      rule yields_bind [OF rep], simp add: yields_ret)
  from yieldsD [OF this assms(1)] obtain t where "run_state init_camera s = (True, t)" by blast
  with keepsD [OF env this] assms(3) that show ?thesis by simp
qed

lemma init_card_works:
  assumes "parts_work e cam hmc ltr rom"
  shows "succeeds e apart (init_card True) (\<lambda>r. r = RT_EOK)"
proof -
  have "succeeds e apart (sdcard_init :: ('a app_st_scheme, _) state) (\<lambda>r. r = RT_EOK)"
    using assms by (simp add: succeeds_def sdcard_init_def dfs_mount_def parts_work_def)
  then show ?thesis
    unfolding init_card_def if_True
    by (auto intro!: succeeds_bind [OF led_apart] succeeds_bind [of e apart sdcard_init] succeeds_bind [OF succeeds_quiet [OF report_apart]]
      succeeds_ret)
qed

lemma start_up_run:
  assumes "parts_work e cam hmc ltr rom"
  obtains t where "run_state (boot (Suc n)) (app_reset e) = (Boot_ok, t)" and "None \<notin> set (pointers t)"
    and "currScene t = SCENE_MENU" and "scene_isChanged t"
proof -
  let ?s0 = "exec display_init (app_reset e)"
  have s0: "env ?s0 = e" "list_all apart (hist ?s0)"
    by (simp_all add: display_init_def exec_def app_reset_def)
  obtain u s1 es1 where 1: "run_state init_first ?s0 = (u, s1)" "env s1 = e" "hist s1 = hist ?s0 @ es1" "list_all apart es1"
    by (rule succeedsD [OF succeeds_extends [OF init_first_apart] s0(1)]) (simp, blast)
  obtain s2 es2 where 2: "run_state init_hmc5883l s1 = (True, s2)" "env s2 = e" "hist s2 = hist s1 @ es2" "list_all apart es2"
    by (rule succeedsD [OF init_hmc5883l_works [OF assms] 1(2)]) auto
  have a2: "list_all apart (hist s2)" using s0 1 2 by simp
  obtain s3 es3 where 3: "run_state init_bme280 s2 = (True, s3)" "env s3 = e" "hist s3 = hist s2 @ es3" "list_all wire_quiet es3"
    by (rule init_bme280_works [OF assms 2(2) apart_writes [OF a2]])
  obtain s4 es4 where 4: "run_state init_ltr390 s3 = (True, s4)" "env s4 = e" "hist s4 = hist s3 @ es4" "list_all apart es4"
    by (rule succeedsD [OF init_ltr390_works [OF assms] 3(2)]) auto
  obtain s5 es5 where 5: "run_state init_analogue s4 = (True, s5)" "env s5 = e" "hist s5 = hist s4 @ es5" "list_all apart es5"
    by (rule succeedsD [OF init_analogue_works [OF assms] 4(2)]) auto
  have "list_all wire_quiet (hist s5)"
    using a2 3(3,4) 4(3,4) 5(3,4) apart_quiet by (auto simp: list_all_iff)
  then have "wire_in s5 = wire0" using wire_of_quiet [of "hist s5" "[]"] by (simp add: wire_in_def wire_of_def)
  then have "bus_dev cam [] s5"
    using assms 5(2) by (simp add: bus_dev_def compliant_def at_rest_def wire0_def frames_def parts_work_def)
  then obtain s6 where 6: "run_state init_camera s5 = (True, s6)" "env s6 = e"
    by (rule init_camera_works) (use assms 5(2) in \<open>auto simp: parts_work_def\<close>)
  obtain s7 where 7: "run_state (init_card True) s6 = (RT_EOK, s7)"
    by (rule succeedsD [OF init_card_works [OF assms] 6(2)]) auto
  have sens: "run_state init_sensors s1 = (True, s4)" unfolding init_sensors_def using 2(1) 3(1) 4(1) by simp
  have rest: "run_state (init_rest True) s4 = (Some RT_EOK, s7)"
    unfolding init_rest_def using 5(1) 6(1) 7 by simp
  have "pointers s7 = pointers s4" by (rule keepsD [OF init_rest_pointers rest])
  then have p: "None \<notin> set (pointers s7)" using init_sensors_run [OF sens] by simp
  have "run_state mainFuncInit ?s0 = (Some RT_EOK, s7)"
    unfolding mainFuncInit_parts using 1(1) sens rest by simp
  then have "run_state (boot (Suc n)) (app_reset e) = (Boot_ok, exec init_scene s7)"
    by (simp add: boot_def display_init_def exec_def split_beta)
  with p that [of "exec init_scene s7"] show ?thesis by (simp add: init_scene_def exec_def pointers_def)
qed

text \<open>
  C3: start-up succeeds on a working board. If memory and the services are there, the camera
  and the three sensors answer, and the weather sensor's identifier and checksum are right,
  then the first attempt of \<open>mainFuncInit\<close> succeeds: \<open>main\<close> enters its loop with the menu as the
  screen to show, and a structure for every sensor.
\<close>

theorem start_up_succeeds:
  assumes "parts_work e cam hmc ltr rom"
  shows "let (r, t) = run_state (boot (Suc n)) (app_reset e) in
    r = Boot_ok \<and> reached e (Running 0, t) \<and> None \<notin> set (pointers t) \<and>
    currScene t = SCENE_MENU \<and> scene_isChanged t"
proof -
  obtain t where "run_state (boot (Suc n)) (app_reset e) = (Boot_ok, t)" "None \<notin> set (pointers t)"
    "currScene t = SCENE_MENU" "scene_isChanged t"
    using assms by (rule start_up_run)
  with reached_boot show ?thesis by simp
qed

text \<open>A board of this kind: the three devices have registers that keep what is written to them.\<close>

definition demo_hmc :: "(u8 \<times> u8) list \<Rightarrow> u8 \<Rightarrow> u8" where
  "demo_hmc ws r = (if r = 0x0A then 0x48 else if r = 0x0B then 0x34 else if r = 0x0C then 0x33
     else last_written (\<lambda>_. 0) ws r)"

definition demo_board :: env where
  "demo_board = env0\<lparr>pin_level := \<lambda>h p n. line_level good_camera (wire_of h),
     i2c_reply := \<lambda>h b ms. let a = (if ms = [] then 0 else m_addr (hd ms)) in
       if a = 0x1E then dev_answer demo_hmc (xfer_writes b 0x1E h) ms
       else if a = 0x53 then dev_answer (last_written (\<lambda>_. 0)) (xfer_writes b 0x53 h) ms
       else dev_answer (bme_chip demo_rom) (xfer_writes b 0x77 h) ms\<rparr>"

lemma demo_board_works: "parts_work demo_board good_camera demo_hmc (last_written (\<lambda>_. 0)) demo_rom"
  using demo_rom(2,3)
  by (simp add: parts_work_def demo_board_def env0_def answers_at_def answers_def good_camera_def demo_hmc_def Let_def)

lemma start_up_succeeds_witness:
  "fst (run_state (boot 1) (app_reset demo_board)) = Boot_ok"
  using start_up_succeeds [OF demo_board_works, of 0] by (simp add: Let_def split_beta)

end
