(* ===== verification/App_Screens.thy ===== *)
theory App_Screens
  imports App_Boot
begin

text \<open>
  The screens as the user sees them: which handlers the keys run on each screen, and where
  the keys lead.
\<close>

section \<open>What \<open>mainFunc\<close> returns\<close>

text \<open>A sequence of statements that ends, on every path, by returning \<open>v\<close>.\<close>

definition returns :: "'a \<Rightarrow> ('s, 'a) state \<Rightarrow> bool" where
  "returns v m \<longleftrightarrow> (\<forall>s. fst (run_state m s) = v)"

lemma returns_ret: "returns v (ret v)"
  by (simp add: returns_def)

lemma returns_bind: "(\<And>x. returns v (g x)) \<Longrightarrow> returns v (m \<bind> g)"
  unfolding returns_def fst_run_bind by simp

lemma returns_if: "(c \<Longrightarrow> returns v m) \<Longrightarrow> (\<not> c \<Longrightarrow> returns v n) \<Longrightarrow> returns v (if c then m else n)"
  by simp

lemma mainFunc_ok:
  fixes s :: "'z app_st_scheme"
  assumes "currScene s \<le> 4"
  shows "fst (run_state mainFunc s) = RT_EOK"
proof -
  have "\<exists>g. (mainFunc :: ('z app_st_scheme, int) state) = gets currScene \<bind> g \<and> (\<forall>n \<le> 4. returns RT_EOK (g n))"
    unfolding mainFunc_def
    by (rule exI, rule conjI, rule refl) (intro allI impI returns_bind returns_if returns_ret; linarith)
  then obtain g where g: "(mainFunc :: ('z app_st_scheme, int) state) = gets currScene \<bind> g"
    "\<forall>n \<le> 4. returns RT_EOK (g n)" by blast
  show ?thesis unfolding g(1) using g(2) assms by (simp add: returns_def)
qed

lemma ui_vars: "u_scene (ui s) = currScene s" "u_scene_changed (ui s) = scene_isChanged s"
  "u_select_scene (ui s) = selectScene s" "u_setting (ui s) = currSetting s" "u_setting_changed (ui s) = setting_isChanged s"
  "u_select_setting (ui s) = selectSetting s" "u_delay (ui s) = currDelay s" "u_delay_changed (ui s) = delay_isChanged s"
  "u_select_delay (ui s) = selectDelay s"
  by (simp_all add: ui_def)

lemma reached_app_inv: "reached e (ph, s) \<Longrightarrow> app_inv s"
proof -
  assume "reached e (ph, s)"
  then have "stage_inv ph s" by (rule reached_inv)
  then show ?thesis using fits_start by (auto simp: stage_inv_def app_inv_sit split: stage.splits)
qed

definition keys_run :: "'z gpio_st_scheme \<Rightarrow> irq_handler \<Rightarrow> irq_handler \<Rightarrow> bool" where
  "keys_run s h1 h2 \<longleftrightarrow> handler_on s KEY1_LINE = Some h1 \<and> handler_on s KEY2_LINE = Some h2"

lemma has_keys_run: "has_keys k s \<Longrightarrow> k \<noteq> Boot \<Longrightarrow> keys_run s (fst (key_handlers k)) (snd (key_handlers k))"
  by (simp add: has_keys_def keys_run_def)

section \<open>Pages\<close>

text \<open>What the user sees: the pages, the entries of their menus, and where K2 leads.\<close>

datatype page = P_menu | P_data | P_photo | P_card | P_settings | P_delay nat

definition page_of :: "ui \<Rightarrow> page option" where
  "page_of u =
     (if u_scene_changed u then None
      else if u_scene u < 4 then Some ([P_menu, P_data, P_photo, P_card] ! u_scene u)
      else if u_setting_changed u then None
      else if u_setting u = SETTING_NO then Some P_settings
      else if u_delay_changed u then None
      else Some (P_delay (u_setting u)))"

fun selected :: "page \<Rightarrow> ui \<Rightarrow> nat" where
  "selected P_menu u = u_select_scene u"
| "selected P_settings u = u_select_setting u"
| "selected (P_delay n) u = u_select_delay u"
| "selected _ u = 0"

fun entries :: "page \<Rightarrow> nat" where
  "entries P_menu = 4"
| "entries P_settings = 7"
| "entries (P_delay n) = 7"
| "entries _ = 0"

text \<open>The page K2 leads to, given the entry selected.\<close>

fun follow :: "page \<Rightarrow> nat \<Rightarrow> page" where
  "follow P_menu n = [P_menu, P_data, P_photo, P_card, P_settings] ! n"
| "follow P_settings n = (if n = 7 then P_menu else P_delay n)"
| "follow (P_delay i) n = P_settings"
| "follow _ n = P_menu"

lemma next_of_mod: "1 \<le> i \<Longrightarrow> i \<le> n \<Longrightarrow> next_of n i = i mod n + 1"
  by (cases "i = n") (simp_all add: next_of_def Let_def)

lemma sit_key:
  assumes "sit (k, u) s" and "k \<noteq> Boot"
  shows "sit (k, ui_after (fst (key_handlers k)) u) (exec (isr KEY1_LINE) s)"
    and "sit (k, ui_after (snd (key_handlers k)) u) (exec (isr KEY2_LINE) s)"
proof -
  have "handler_on s KEY1_LINE = Some (fst (key_handlers k))" "handler_on s KEY2_LINE = Some (snd (key_handlers k))"
    using has_keys_run [of k s] assms by (simp_all add: sit_def keys_run_def)
  moreover have "sit (k, ui_after h u) (exec (run_handler h) s)" for h
    using assms(1) ui_handler [of h s] has_keys_cong [OF exec_keeps [OF handlers_keep_pins]] by (auto simp: sit_def)
  ultimately show "sit (k, ui_after (fst (key_handlers k)) u) (exec (isr KEY1_LINE) s)"
    "sit (k, ui_after (snd (key_handlers k)) u) (exec (isr KEY2_LINE) s)" by (simp_all add: isr_run)
qed

lemma sit_mainFunc: "sit (k, u) s \<Longrightarrow> in_range u \<Longrightarrow> sit (main_ui k u) (exec mainFunc s)"
  using mainFunc_leads by (auto simp: leads_to_def exec_def)

text \<open>A settled page determines whose handlers the keys have.\<close>

fun page_owner :: "page \<Rightarrow> owner" where
  "page_owner P_menu = Menu"
| "page_owner P_data = Data"
| "page_owner P_photo = Photo"
| "page_owner P_card = Card"
| "page_owner P_settings = Select"
| "page_owner (P_delay n) = Delay"

lemma page_cases:
  assumes "fits k u" and "page_of u = Some p"
  shows "k = page_owner p \<and> \<not> u_scene_changed u \<and>
    (case p of P_menu \<Rightarrow> u_scene u = 0 | P_data \<Rightarrow> u_scene u = 1 | P_photo \<Rightarrow> u_scene u = 2 | P_card \<Rightarrow> u_scene u = 3
     | P_settings \<Rightarrow> u_scene u = 4 \<and> \<not> u_setting_changed u \<and> u_setting u = 0 \<and> u_delay_changed u
     | P_delay n \<Rightarrow> u_scene u = 4 \<and> \<not> u_setting_changed u \<and> \<not> u_delay_changed u \<and> u_setting u = n \<and>
         1 \<le> n \<and> n \<le> 6 \<and> u_delay u = 0)"
proof -
  have "u_scene u < 4 \<Longrightarrow> u_scene u \<in> {0, 1, 2, 3}" by auto
  with assms show ?thesis
    by (auto simp: fits_defs page_of_def scene_owner_def split: if_splits)
qed

lemma key1_page:
  assumes "fits k u" and "page_of u = Some p"
  shows "main_ui k (ui_after (fst (key_handlers k)) u) = (k, ui_after (fst (key_handlers k)) u) \<and>
    page_of (ui_after (fst (key_handlers k)) u) = Some p \<and>
    selected p (ui_after (fst (key_handlers k)) u) = (if entries p = 0 then 0 else selected p u mod entries p + 1)"
  using page_cases [OF assms] assms(1)
  by (cases p) (auto simp: main_ui_def setting_ui_def delay_ui_def page_of_def fits_def in_range_def next_of_mod)

lemma key2_page:
  assumes "fits k u" and "page_of u = Some p"
  shows "page_of (snd (case_prod main_ui (main_ui k (ui_after (snd (key_handlers k)) u)))) = Some (follow p (selected p u))"
proof -
  have "1 \<le> u_select_scene u" "u_select_scene u \<le> 4" "1 \<le> u_select_setting u" "u_select_setting u \<le> 7"
    "1 \<le> u_select_delay u" "u_select_delay u \<le> 7"
    using assms(1) by (simp_all add: fits_def in_range_def)
  moreover from this have "u_select_scene u \<in> {1, 2, 3, 4}" by auto
  ultimately show ?thesis
    using page_cases [OF assms] assms(1)
    by (cases p) (auto simp: main_ui_def setting_ui_def delay_ui_def leave_delay_def page_of_def fits_def in_settings_def)
qed

section \<open>A reachable state in which the menu is shown\<close>

text \<open>After one pass of the main loop the menu is shown.\<close>

lemma demo_menu: "\<exists>s. reached demo_board (Running 0, s) \<and> page_of (ui s) = Some P_menu"
proof -
  obtain s0 where s0: "reached demo_board (Running 0, s0)" "currScene s0 = SCENE_MENU" "scene_isChanged s0"
    using start_up_run [OF demo_board_works, of 0] reached_boot by metis
  have calls: "n \<le> 7 \<Longrightarrow> \<exists>s. reached demo_board (Running n, s) \<and> ui s = ui s0" for n
  proof (induction n)
    case 0
    then show ?case using s0(1) by blast
  next
    case (Suc n)
    then obtain s where s: "reached demo_board (Running n, s)" "ui s = ui s0" by auto
    have "main_loop ! n \<in> set (butlast main_loop)" using Suc.prems by (simp add: main_loop_def nth_Cons split: nat.split)
    then have "tables (exec (main_loop ! n) s) = tables s" using exec_keeps [OF polls_tables] by blast
    moreover have "reached demo_board (Running (Suc n mod 8), exec (main_loop ! n) s)"
      using reached.more [OF s(1) app_step.call] Suc.prems by simp
    ultimately show ?case using s(2) Suc.prems by (auto simp: tables_def)
  qed
  then obtain s where s: "reached demo_board (Running 7, s)" "ui s = ui s0" by blast
  then obtain k where k: "sit (k, ui s) s" "fits k (ui s)"
    using reached_app_inv [OF s(1)] by (auto simp: app_inv_def sit_def)
  have "main_ui k (ui s) = (Menu, (ui s)\<lparr>u_scene_changed := False\<rparr>)"
    using s0(2,3) by (simp add: main_ui_def s(2) ui_vars scene_owner_def)
  with sit_mainFunc [OF k(1)] k(2) have "ui (exec mainFunc s) = (ui s)\<lparr>u_scene_changed := False\<rparr>"
    by (simp add: fits_def sit_def)
  then have "page_of (ui (exec mainFunc s)) = Some P_menu" using s0(2) by (simp add: page_of_def s(2) ui_vars)
  moreover have "exec (main_loop ! 7) s = exec mainFunc s" by (simp add: main_loop_def exec_def split_beta)
  then have "reached demo_board (Running 0, exec mainFunc s)"
    using reached.more [OF s(1) app_step.call] by simp
  ultimately show ?thesis by blast
qed

section \<open>The properties\<close>

text \<open>
  C1: the screens and the keys agree. In every state the program reaches, however interrupts
  and console commands fall between its calls, the screen, the setting and the delay shown
  and selected are among those that exist and \<open>mainFunc\<close> returns \<open>RT_EOK\<close>. Once a screen has
  been drawn, the two keys run the handlers of that screen; once the menu of settings has
  been drawn they run its handlers, and likewise for the menu of delays.
\<close>

theorem screens_and_keys_agree:
  assumes "reached e (ph, s)"
  shows "currScene s \<le> 4 \<and> selectScene s \<in> {1..4} \<and> currSetting s \<le> 7 \<and> selectSetting s \<in> {1..7} \<and>
    currDelay s \<le> 7 \<and> selectDelay s \<in> {1..7} \<and> fst (run_state mainFunc s) = RT_EOK \<and>
    (\<not> scene_isChanged s \<longrightarrow>
       (currScene s = SCENE_MENU \<longrightarrow> keys_run s H_key1_irq_MENU H_key2_irq_MENU) \<and>
       (currScene s = SCENE_DISP_DATA \<longrightarrow> keys_run s H_key1_irq_DISP_DATA H_key2_irq_DISP_DATA) \<and>
       (currScene s = SCENE_TAKE_PHOTO \<longrightarrow> keys_run s H_key1_irq_TAKE_PHOTO H_key2_irq_TAKE_PHOTO) \<and>
       (currScene s = SCENE_SD_CARD \<longrightarrow> keys_run s H_key1_irq_SD_CARD H_key2_irq_SD_CARD)) \<and>
    (\<not> setting_isChanged s \<and> currSetting s = SETTING_NO \<longrightarrow>
       currScene s = SCENE_SETTINGS \<and> keys_run s H_key1_irq_SETTING_SELECT H_key2_irq_SETTING_SELECT) \<and>
    (\<not> delay_isChanged s \<longrightarrow> currScene s = SCENE_SETTINGS \<and> currSetting s \<in> {1..6} \<and> currDelay s = DELAY_NO \<and>
       keys_run s H_key1_irq_SETTING_DELAY_SELECT H_key2_irq_SETTING_DELAY_SELECT)"
proof -
  obtain k where k: "has_keys k s" "fits k (ui s)"
    using reached_app_inv [OF assms] by (auto simp: app_inv_def)
  then have r: "in_range (ui s)" by (simp add: fits_def)
  have "k = scene_owner (currScene s)" if "\<not> scene_isChanged s" "currScene s < 4"
    using k(2) that by (auto simp: fits_def ui_vars)
  moreover have "k = Select \<and> currScene s = SCENE_SETTINGS" if "\<not> setting_isChanged s" "currSetting s = SETTING_NO"
    using k(2) that by (auto simp: fits_def in_settings_def ui_vars)
  moreover have "k = Delay \<and> currScene s = SCENE_SETTINGS \<and> currSetting s \<in> {1..6} \<and> currDelay s = DELAY_NO"
    if "\<not> delay_isChanged s" using k(2) that by (auto simp: fits_def in_settings_def ui_vars)
  ultimately show ?thesis
    using r mainFunc_ok [of s] has_keys_run [OF k(1)] by (auto simp: in_range_def ui_vars scene_owner_def)
qed

lemma screens_and_keys_agree_witness:
  "\<exists>s. reached demo_board (Running 0, s) \<and> page_of (ui s) = Some P_menu \<and> currScene s \<le> 4"
  using demo_menu screens_and_keys_agree by blast

text \<open>
  C2: where the keys lead. In every reachable state in which a page is shown and settled:
  K1 and one call of \<open>mainFunc\<close> leave the page and move the selection on, from the last entry of a menu
  back to the first; K2 and two calls of \<open>mainFunc\<close> lead to the page selected, or back to
  the menu the page was entered from, and that page is settled.
\<close>

theorem keys_navigate:
  assumes "reached e (ph, s)" and "page_of (ui s) = Some p"
  shows "let t = exec mainFunc (exec (isr KEY1_LINE) s); t' = exec mainFunc (exec mainFunc (exec (isr KEY2_LINE) s)) in
    page_of (ui t) = Some p \<and>
    selected p (ui t) = (if entries p = 0 then 0 else selected p (ui s) mod entries p + 1) \<and>
    page_of (ui t') = Some (follow p (selected p (ui s)))"
proof -
  obtain k where k: "sit (k, ui s) s" "fits k (ui s)"
    using reached_app_inv [OF assms(1)] by (auto simp: app_inv_def sit_def)
  have nb: "k \<noteq> Boot" using page_cases [OF k(2) assms(2)] by (cases p) auto
  let ?u1 = "ui_after (fst (key_handlers k)) (ui s)" and ?u2 = "ui_after (snd (key_handlers k)) (ui s)"
  have f: "fits k ?u1" "fits k ?u2" using key1_fits key2_fits k(2) by blast+
  note key1 = key1_page [OF k(2) assms(2)]
  have "sit (k, ?u1) (exec mainFunc (exec (isr KEY1_LINE) s))"
    using sit_mainFunc [OF sit_key(1) [OF k(1) nb]] f(1) key1 by (simp add: fits_def)
  moreover obtain k' u' where m: "main_ui k ?u2 = (k', u')" by (metis prod.exhaust)
  have "sit (k', u') (exec mainFunc (exec (isr KEY2_LINE) s))"
    using sit_mainFunc [OF sit_key(2) [OF k(1) nb]] f(2) m by (simp add: fits_def)
  then have "sit (main_ui k' u') (exec mainFunc (exec mainFunc (exec (isr KEY2_LINE) s)))"
    by (rule sit_mainFunc) (use main_ui_fits [OF f(2) m] in \<open>simp add: fits_def\<close>)
  ultimately show ?thesis
    using key1 key2_page [OF k(2) assms(2)] m by (simp add: Let_def sit_def)
qed

lemma keys_navigate_witness:
  "\<exists>s. reached demo_board (Running 0, s) \<and> page_of (ui s) = Some P_menu \<and>
     page_of (ui (exec mainFunc (exec (isr KEY1_LINE) s))) = Some P_menu"
proof -
  obtain s where s: "reached demo_board (Running 0, s)" "page_of (ui s) = Some P_menu" using demo_menu by blast
  from keys_navigate [OF this] s show ?thesis unfolding Let_def by blast
qed


end
