(* ===== verification/App_Tasks.thy ===== *)
theory App_Tasks
  imports App_Screens
begin

text \<open>
  The periodic tasks. A locale states what makes a task periodic and what follows from it; each of
  the six tasks of the main loop is an instance. Then two properties of the whole program: the
  spacing of the readings, and the periods themselves.
\<close>

section \<open>Periodic tasks\<close>

lemma later_tick: "T0 < T \<Longrightarrow> T - T0 < 2 ^ 32 \<Longrightarrow> (of_nat T0 :: u32) \<noteq> of_nat T"
proof
  assume T: "T0 < T" "T - T0 < 2 ^ 32" "(of_nat T0 :: u32) = of_nat T"
  then have "(of_nat (T - T0) :: u32) = 0" by simp
  then have "unat (of_nat (T - T0) :: u32) = 0" by simp
  then have "T - T0 = 0" using T(2) by (simp add: unat_of_nat take_bit_nat_eq_self del: of_nat_diff)
  with T(1) show False by simp
qed

text \<open>
  A task looks at the clock, notes the time, and if its period has passed since the time stamp
  and it is \<open>ready\<close>, stamps the time and runs its body.
\<close>

locale periodic =
  fixes task body :: "('z board_scheme, unit) state"
    and note_time stamp :: "u32 \<Rightarrow> 'z board_scheme \<Rightarrow> 'z board_scheme"
    and prev period :: "'z board_scheme \<Rightarrow> u32"
    and ready :: "'z board_scheme \<Rightarrow> bool"
  assumes shape: "task = do {
      t \<leftarrow> rt_tick_get_millisecond;
      modify (note_time t);
      due \<leftarrow> gets (\<lambda>s. t - prev s \<ge> period s \<and> ready s);
      when_true due (do { modify (stamp t); body }) }"
    and clock: "prev (s\<lparr>hist := h\<rparr>) = prev s" "period (s\<lparr>hist := h\<rparr>) = period s" "ready (s\<lparr>hist := h\<rparr>) = ready s"
    and noted: "prev (note_time t s) = prev s" "period (note_time t s) = period s" "ready (note_time t s) = ready s"
    and stamped: "prev (stamp t s) = t"
    and body_keeps: "keeps prev body"
begin

definition due :: "'z board_scheme \<Rightarrow> bool" where
  "due s \<longleftrightarrow> tick_ms (env s) (hist s) - prev s \<ge> period s \<and> ready s"

lemma run_task:
  "exec task s = (let t = tick_ms (env s) (hist s); s1 = note_time t (s\<lparr>hist := hist s @ [Tick t]\<rparr>) in
     if due s then exec body (stamp t s1) else s1)"
  by (simp add: shape exec_def due_def Let_def clock noted rt_tick_get_millisecond_def split_beta)

lemma prev_task: "prev (exec task s) = (if due s then tick_ms (env s) (hist s) else prev s)"
  using exec_keeps [OF body_keeps] by (simp add: run_task Let_def stamped noted clock)

text \<open>Two runs of the body are at least a period apart.\<close>

lemma spaced: "prev (exec task s) = prev s \<or> period s \<le> prev (exec task s) - prev s"
  by (simp add: prev_task due_def)

text \<open>
  The test is right across the wrap-around of the clock: with \<open>T0\<close> and \<open>T\<close> the full numbers
  of milliseconds since power-up, less than $2^{32}$ apart.
\<close>

lemma due_wraps:
  assumes "prev s = of_nat T0" and "tick_ms (env s) (hist s) = of_nat T" and "T0 \<le> T" and "T - T0 < 2 ^ 32"
  shows "due s \<longleftrightarrow> unat (period s) \<le> T - T0 \<and> ready s"
proof -
  have "(of_nat T :: u32) - of_nat T0 = of_nat (T - T0)" using assms(3) by (simp add: of_nat_diff)
  then have "unat ((of_nat T :: u32) - of_nat T0) = T - T0" using assms(4) by (simp add: unat_of_nat take_bit_nat_eq_self)
  then show ?thesis using assms(1,2) by (simp add: due_def word_le_nat_alt)
qed

text \<open>What a run of the task does: the body runs, on the stamped state, exactly if the period has passed; otherwise only the time is noted.\<close>

lemma runs_across:
  assumes "tick_ms (env s) (hist s) = of_nat T" and "T0 < T" and "T - T0 < 2 ^ 32" and "prev s = of_nat T0"
  shows "exec task s = (let s1 = note_time (of_nat T) (s\<lparr>hist := hist s @ [Tick (of_nat T)]\<rparr>) in
      if unat (period s) \<le> T - T0 \<and> ready s then exec body (stamp (of_nat T) s1) else s1)"
    and "prev (exec task s) = of_nat T \<longleftrightarrow> unat (period s) \<le> T - T0 \<and> ready s"
proof -
  note due = due_wraps [OF assms(4,1) less_imp_le [OF assms(2)] assms(3)]
  show "exec task s = (let s1 = note_time (of_nat T) (s\<lparr>hist := hist s @ [Tick (of_nat T)]\<rparr>) in
      if unat (period s) \<le> T - T0 \<and> ready s then exec body (stamp (of_nat T) s1) else s1)"
    unfolding run_task Let_def due assms(1) by (rule refl)
  show "prev (exec task s) = of_nat T \<longleftrightarrow> unat (period s) \<le> T - T0 \<and> ready s"
    using later_tick [OF assms(2,3)] assms(1,4) by (simp add: prev_task due)
qed

end

text \<open>The six tasks of the main loop.\<close>

lemma bodies_keep:
  "keeps hmc5883l_prev_milli hmc5883l_body" "keeps bme280_prev_milli bme280_body" "keeps ltr390_prev_milli ltr390_body"
  "keeps gp2y1014au0f_prev_milli dust_body" "keeps lm386_prev_milli sound_body" "keeps data_prev_milli sdcard_saveCurrData"
proof -
  have b: "blind hmc5883l_prev_milli" "blind bme280_prev_milli" "blind ltr390_prev_milli" by (simp_all add: blind_def)
  note s = blind_sensors [OF b(1)] blind_sensors [OF b(2)] blind_sensors [OF b(3)]
  show "keeps hmc5883l_prev_milli hmc5883l_body" "keeps bme280_prev_milli bme280_body" "keeps ltr390_prev_milli ltr390_body"
    unfolding hmc5883l_body_def bme280_body_def ltr390_body_def by (intro keep_intros s; simp)+
  show "keeps gp2y1014au0f_prev_milli dust_body" "keeps lm386_prev_milli sound_body" "keeps data_prev_milli sdcard_saveCurrData"
    unfolding dust_body_def sound_body_def sdcard_saveCurrData_def my_gp2y1014au0f_get_data_def my_gp2y1014au0f_get_data_avg_def
      my_filter_def set_buffer_def add_sum_def my_lm386_get_data_def convert_def double_to_u8_def fault_def
      rt_tick_get_millisecond_def rt_thread_mdelay_def Let_def
    by (intro keep_intros appends_keeps [OF time_calm(2)] appends_keeps [OF led_calm] appends_keeps [OF text_calm(4)]
       appends_keeps [OF text_calm(2)] appends_keeps [OF lcd_calm] appends_keeps [OF files_calm(1)] appends_keeps [OF sprintf_calm]
       appends_keeps [OF pin_write_calm]; simp)+
qed

interpretation hmc5883l_task: periodic my_hmc5883l_test hmc5883l_body "\<lambda>t s. s\<lparr>hmc5883l_curr_milli := t\<rparr>"
  "\<lambda>t s. s\<lparr>hmc5883l_prev_milli := t\<rparr>" hmc5883l_prev_milli HMC5883L_DELAY "\<lambda>s. hmc5883l s \<noteq> None"
  by unfold_locales (simp_all add: my_hmc5883l_test_def bodies_keep)

interpretation bme280_task: periodic my_bme280_test bme280_body "\<lambda>t s. s\<lparr>bme280_curr_milli := t\<rparr>"
  "\<lambda>t s. s\<lparr>bme280_prev_milli := t\<rparr>" bme280_prev_milli BME280_DELAY "\<lambda>s. bme280 s \<noteq> None"
  by unfold_locales (simp_all add: my_bme280_test_def bodies_keep)

interpretation ltr390_task: periodic my_ltr390_test ltr390_body "\<lambda>t s. s\<lparr>ltr390_curr_milli := t\<rparr>"
  "\<lambda>t s. s\<lparr>ltr390_prev_milli := t\<rparr>" ltr390_prev_milli LTR390_DELAY "\<lambda>s. ltr390 s \<noteq> None"
  by unfold_locales (simp_all add: my_ltr390_test_def bodies_keep)

interpretation dust_task: periodic my_gp2y1014au0f_test dust_body "\<lambda>t s. s\<lparr>gp2y1014au0f_curr_milli := t\<rparr>"
  "\<lambda>t s. s\<lparr>gp2y1014au0f_prev_milli := t\<rparr>" gp2y1014au0f_prev_milli GP2Y1014AU0F_DELAY "\<lambda>s. True"
  by unfold_locales (simp_all add: my_gp2y1014au0f_test_def bodies_keep)

interpretation sound_task: periodic my_lm386_test sound_body "\<lambda>t s. s\<lparr>lm386_curr_milli := t\<rparr>"
  "\<lambda>t s. s\<lparr>lm386_prev_milli := t\<rparr>" lm386_prev_milli LM386_DELAY "\<lambda>s. True"
  by unfold_locales (simp_all add: my_lm386_test_def bodies_keep)

interpretation save_task: periodic my_sd_card_test sdcard_saveCurrData "\<lambda>t s. s\<lparr>data_curr_milli := t\<rparr>"
  "\<lambda>t s. s\<lparr>data_prev_milli := t\<rparr>" data_prev_milli DATA_DELAY "\<lambda>s. True"
  by unfold_locales (simp_all add: my_sd_card_test_def bodies_keep)

section \<open>What screens and handlers leave alone\<close>

text \<open>Variables that belong neither to the user interface nor to the start-up.\<close>

definition app_blind :: "('z app_st_scheme \<Rightarrow> 'v) \<Rightarrow> bool" where
  "app_blind f \<longleftrightarrow> boot_blind f \<and>
     (\<forall>s b. f (s\<lparr>key1_isChanged := b\<rparr>) = f s \<and> f (s\<lparr>key2_isChanged := b\<rparr>) = f s \<and> f (s\<lparr>isFirstSave := b\<rparr>) = f s \<and>
       f (s\<lparr>isSavingData := b\<rparr>) = f s \<and> f (s\<lparr>isEjecting := b\<rparr>) = f s \<and> f (s\<lparr>scene_isChanged := b\<rparr>) = f s \<and>
       f (s\<lparr>sceneSelect_isChanged := b\<rparr>) = f s \<and> f (s\<lparr>setting_isChanged := b\<rparr>) = f s \<and>
       f (s\<lparr>settingSelect_isChanged := b\<rparr>) = f s \<and> f (s\<lparr>delay_isChanged := b\<rparr>) = f s \<and>
       f (s\<lparr>delaySelect_isChanged := b\<rparr>) = f s) \<and>
     (\<forall>s n. f (s\<lparr>currScene := n\<rparr>) = f s \<and> f (s\<lparr>prevScene := n\<rparr>) = f s \<and> f (s\<lparr>selectScene := n\<rparr>) = f s \<and>
       f (s\<lparr>currSetting := n\<rparr>) = f s \<and> f (s\<lparr>prevSetting := n\<rparr>) = f s \<and> f (s\<lparr>selectSetting := n\<rparr>) = f s \<and>
       f (s\<lparr>currDelay := n\<rparr>) = f s \<and> f (s\<lparr>prevDelay := n\<rparr>) = f s \<and> f (s\<lparr>selectDelay := n\<rparr>) = f s) \<and>
     (\<forall>s t. f (s\<lparr>DISP_DATA_curr_milli := t\<rparr>) = f s \<and> f (s\<lparr>DISP_DATA_prev_milli := t\<rparr>) = f s)"

lemma app_blindD:
  assumes "app_blind f"
  shows "boot_blind f" "blind f" "f (s\<lparr>pin_irq_hdr_tab := tab\<rparr>) = f s" "f (s\<lparr>pin_irq_enable_mask := m\<rparr>) = f s"
    "f (s\<lparr>hist := h\<rparr>) = f s" "f (s\<lparr>Ov7725_vsync := v\<rparr>) = f s"
    "f (s\<lparr>key1_isChanged := b\<rparr>) = f s" "f (s\<lparr>key2_isChanged := b\<rparr>) = f s" "f (s\<lparr>isFirstSave := b\<rparr>) = f s"
    "f (s\<lparr>isSavingData := b\<rparr>) = f s" "f (s\<lparr>isEjecting := b\<rparr>) = f s" "f (s\<lparr>scene_isChanged := b\<rparr>) = f s"
    "f (s\<lparr>sceneSelect_isChanged := b\<rparr>) = f s" "f (s\<lparr>setting_isChanged := b\<rparr>) = f s"
    "f (s\<lparr>settingSelect_isChanged := b\<rparr>) = f s" "f (s\<lparr>delay_isChanged := b\<rparr>) = f s"
    "f (s\<lparr>delaySelect_isChanged := b\<rparr>) = f s" "f (s\<lparr>currScene := n\<rparr>) = f s" "f (s\<lparr>prevScene := n\<rparr>) = f s"
    "f (s\<lparr>selectScene := n\<rparr>) = f s" "f (s\<lparr>currSetting := n\<rparr>) = f s" "f (s\<lparr>prevSetting := n\<rparr>) = f s"
    "f (s\<lparr>selectSetting := n\<rparr>) = f s" "f (s\<lparr>currDelay := n\<rparr>) = f s" "f (s\<lparr>prevDelay := n\<rparr>) = f s"
    "f (s\<lparr>selectDelay := n\<rparr>) = f s" "f (s\<lparr>DISP_DATA_curr_milli := t\<rparr>) = f s" "f (s\<lparr>DISP_DATA_prev_milli := t\<rparr>) = f s"
  using assms unfolding app_blind_def boot_blind_def blind_def by simp_all

lemma app_keeps:
  assumes "app_blind f"
  shows "keeps f (rebind_keys h1 h2)" "keeps f sdcard_saveCurrData" "keeps f DISP_DATA_task" "keeps f TAKE_PHOTO_task"
    "keeps f config_delay" "keeps f enter_SETTING_DELAY" "keeps f enter_SETTING" "keeps f (run_handler h)" "keeps f init_scene"
    "appends nonheap m \<Longrightarrow> keeps f m"
proof -
  note b = app_blindD [OF assms]
  note calm = appends_keeps [where P = nonheap, OF _ b(5)]
  show "appends nonheap m \<Longrightarrow> keeps f m" by (rule calm)
  show r: "keeps f (rebind_keys h1 h2)" for h1 h2
    unfolding rebind_keys_def rebind_key_def by (intro keep_intros pins_keep [OF b(5,3,4)])
  show "keeps f sdcard_saveCurrData"
    unfolding sdcard_saveCurrData_def
    by (intro keep_intros calm [OF led_calm] calm [OF text_calm(4)] calm [OF text_calm(2)]
      calm [OF lcd_calm] calm [OF files_calm(1)] calm [OF time_calm(3)] calm [OF sprintf_calm] b)
  show "keeps f DISP_DATA_task" "keeps f TAKE_PHOTO_task"
    unfolding DISP_DATA_task_def TAKE_PHOTO_task_def my_ov7725_test_def
    by (intro keep_intros calm [OF led_calm] calm [OF text_calm(1)] calm [OF text_calm(2)]
      calm [OF text_calm(3)] calm [OF text_calm(4)] calm [OF lcd_calm] calm [OF time_calm(3)] calm [OF image_calm(1)]
      calm [OF image_calm(2)] calm [OF drawing_calm(3)] b)+
  have m: "keeps f reset_delay_menu" unfolding reset_delay_menu_def by (intro keep_intros) (simp add: b)
  show c: "keeps f config_delay"
    unfolding config_delay_def
    by (intro keep_intros m calm [OF text_calm(2)] calm [OF lcd_calm] calm [OF time_calm(1)]) (simp add: b)
  show d: "keeps f enter_SETTING_DELAY"
    unfolding enter_SETTING_DELAY_def
    by (intro keep_intros c r m calm [OF drawing_calm(7)] calm [OF drawing_calm(8)]; simp add: b)
  show "keeps f enter_SETTING"
    unfolding enter_SETTING_def
    by (intro keep_intros d r m calm [OF drawing_calm(5)] calm [OF drawing_calm(6)]; simp add: b)
  show "keeps f (run_handler h)"
    by (cases h) (auto simp: handler_defs my_ov7725_interrupt_def fifo_defs b intro!: keep_intros)
  show "keeps f init_scene" unfolding init_scene_def by (intro keep_intros) (simp add: b)
qed

lemma mainFunc_keeps:
  assumes "app_blind f" and "\<And>s v. f (s\<lparr>DATA_DELAY := v\<rparr>) = f s"
  shows "keeps f mainFunc"
proof -
  note b = app_blindD [OF assms(1)] and k = app_keeps [OF assms(1)]
  have "keeps f SD_CARD_eject"
    unfolding SD_CARD_eject_def
    by (intro keep_intros k(10) [OF text_calm(4)] k(10) [OF text_calm(2)] k(10) [OF lcd_calm] k(10) [OF files_calm(2)] assms(2))
  then show ?thesis
    unfolding mainFunc_def
    by (intro keep_intros k(1-9) k(10) [OF drawing_calm(1)] k(10) [OF drawing_calm(2)] k(10) [OF drawing_calm(3)]
      k(10) [OF drawing_calm(4)] k(10) [OF time_calm(3)]; simp add: b)
qed

lemma app_blind_isr: "app_blind f \<Longrightarrow> l < 16 \<Longrightarrow> f (exec (isr l) s) = f s"
  by (cases "handler_on s l") (simp_all add: isr_run exec_keeps [OF app_keeps(8)])

lemma app_blind_init:
  assumes "app_blind f" and "\<And>s p. f (s\<lparr>hmc5883l := p\<rparr>) = f s" "\<And>s p. f (s\<lparr>bme280 := p\<rparr>) = f s" "\<And>s p. f (s\<lparr>ltr390 := p\<rparr>) = f s"
  shows "keeps f mainFuncInit"
proof -
  note b = app_blindD [OF assms(1)]
  have "f (s\<lparr>initCount := n\<rparr>) = f s" for s n using b(1) by (simp add: boot_blind_def)
  then show ?thesis
    unfolding mainFuncInit_def
    by (intro keep_intros boot_keeps [OF b(1)] app_keeps(10) [OF assms(1) led_calm] keeps_init_hmc5883l keeps_init_bme280
       keeps_init_ltr390 b(2) assms(2-4))
qed

section \<open>Time stamps and periods in the whole program\<close>

text \<open>The six time stamps, and the periods that are not the one of saving.\<close>

definition stamps :: "'z app_st_scheme \<Rightarrow> u32 list" where
  "stamps s = [hmc5883l_prev_milli s, bme280_prev_milli s, ltr390_prev_milli s, gp2y1014au0f_prev_milli s,
     lm386_prev_milli s, data_prev_milli s]"

definition periods :: "'z app_st_scheme \<Rightarrow> u32 list" where
  "periods s = [HMC5883L_DELAY s, BME280_DELAY s, LTR390_DELAY s, GP2Y1014AU0F_DELAY s, LM386_DELAY s, DISP_DATA_DELAY s,
     mainOuput_DELAY s]"

lemma blind_timing: "app_blind stamps" "app_blind periods" "app_blind DATA_DELAY"
  by (simp_all add: app_blind_def boot_blind_def blind_def stamps_def periods_def)

lemmas timing_defs = stamps_def periods_def

lemma sensor_tasks_keep:
  "keeps (\<lambda>s. (tl (stamps s), periods s, DATA_DELAY s)) my_hmc5883l_test"
  "keeps (\<lambda>s. (take 1 (stamps s), drop 2 (stamps s), periods s, DATA_DELAY s)) my_bme280_test"
  "keeps (\<lambda>s. (take 2 (stamps s), drop 3 (stamps s), periods s, DATA_DELAY s)) my_ltr390_test"
proof -
  show "keeps (\<lambda>s. (tl (stamps s), periods s, DATA_DELAY s)) my_hmc5883l_test" (is "keeps ?f _")
  proof -
    have b: "blind ?f" by (simp add: blind_def timing_defs)
    show ?thesis unfolding my_hmc5883l_test_def hmc5883l_body_def
      by (intro keep_intros blind_sensors [OF b] blind_calm [OF b time_calm(3)]; simp add: timing_defs)
  qed
  show "keeps (\<lambda>s. (take 1 (stamps s), drop 2 (stamps s), periods s, DATA_DELAY s)) my_bme280_test" (is "keeps ?f _")
  proof -
    have b: "blind ?f" by (simp add: blind_def timing_defs)
    show ?thesis unfolding my_bme280_test_def bme280_body_def
      by (intro keep_intros blind_sensors [OF b] blind_calm [OF b time_calm(3)]; simp add: timing_defs)
  qed
  show "keeps (\<lambda>s. (take 2 (stamps s), drop 3 (stamps s), periods s, DATA_DELAY s)) my_ltr390_test" (is "keeps ?f _")
  proof -
    have b: "blind ?f" by (simp add: blind_def timing_defs)
    show ?thesis unfolding my_ltr390_test_def ltr390_body_def
      by (intro keep_intros blind_sensors [OF b] blind_calm [OF b time_calm(3)]; simp add: timing_defs)
  qed
qed

lemma other_tasks_keep:
  "keeps (\<lambda>s. (take 3 (stamps s), drop 4 (stamps s), periods s, DATA_DELAY s)) my_gp2y1014au0f_test"
  "keeps (\<lambda>s. (take 4 (stamps s), drop 5 (stamps s), periods s, DATA_DELAY s)) my_lm386_test"
  "keeps (\<lambda>s. (take 5 (stamps s), periods s, DATA_DELAY s)) my_sd_card_test"
  "keeps (\<lambda>s. (stamps s, periods s, DATA_DELAY s)) log_main"
  unfolding my_gp2y1014au0f_test_def my_lm386_test_def my_sd_card_test_def log_main_def
    dust_body_def sound_body_def sdcard_saveCurrData_def my_gp2y1014au0f_get_data_def my_gp2y1014au0f_get_data_avg_def
    my_filter_def set_buffer_def add_sum_def my_lm386_get_data_def convert_def double_to_u8_def fault_def
    rt_tick_get_millisecond_def rt_thread_mdelay_def Let_def
  by (intro keep_intros appends_keeps [OF time_calm(2)] appends_keeps [OF led_calm] appends_keeps [OF text_calm(4)]
     appends_keeps [OF text_calm(2)] appends_keeps [OF lcd_calm] appends_keeps [OF files_calm(1)] appends_keeps [OF sprintf_calm]
     appends_keeps [OF pin_write_calm]; simp add: timing_defs)+

text \<open>Each task with its time stamp and its period.\<close>

definition schedule :: "(('z app_st_scheme \<Rightarrow> u32) \<times> ('z app_st_scheme \<Rightarrow> u32)) list" where
  "schedule = [(hmc5883l_prev_milli, HMC5883L_DELAY), (bme280_prev_milli, BME280_DELAY), (ltr390_prev_milli, LTR390_DELAY),
     (gp2y1014au0f_prev_milli, GP2Y1014AU0F_DELAY), (lm386_prev_milli, LM386_DELAY), (data_prev_milli, DATA_DELAY)]"

definition apart_by :: "'z app_st_scheme \<Rightarrow> 'z app_st_scheme \<Rightarrow> bool" where
  "apart_by s t \<longleftrightarrow> list_all (\<lambda>(prev, period). prev t = prev s \<or> period s \<le> prev t - prev s) schedule"

lemma apart_by_stamps: "stamps t = stamps s \<Longrightarrow> apart_by s t"
  by (simp add: apart_by_def schedule_def stamps_def)

lemma call_cases:
  assumes "pc < 8"
  shows "main_loop ! pc \<in> {my_hmc5883l_test, my_bme280_test, my_ltr390_test, my_gp2y1014au0f_test, my_lm386_test,
    my_sd_card_test, log_main, do { _ \<leftarrow> mainFunc; ret () }}"
proof -
  have "pc \<in> {0, 1, 2, 3, 4, 5, 6, 7}" using assms by auto
  then show ?thesis by (auto simp: main_loop_def)
qed

lemma tasks_spaced:
  fixes s :: "'z app_st_scheme"
  shows "apart_by s (exec my_hmc5883l_test s)" "apart_by s (exec my_bme280_test s)" "apart_by s (exec my_ltr390_test s)"
    "apart_by s (exec my_gp2y1014au0f_test s)" "apart_by s (exec my_lm386_test s)" "apart_by s (exec my_sd_card_test s)"
    "apart_by s (exec log_main s)" "apart_by s (exec (do { _ \<leftarrow> mainFunc; ret () }) s)"
proof -
  show "apart_by s (exec my_hmc5883l_test s)"
    using exec_keeps [OF sensor_tasks_keep(1), of s] hmc5883l_task.spaced [of s]
    by (simp add: apart_by_def schedule_def timing_defs)
  show "apart_by s (exec my_bme280_test s)"
    using exec_keeps [OF sensor_tasks_keep(2), of s] bme280_task.spaced [of s]
    by (simp add: apart_by_def schedule_def timing_defs)
  show "apart_by s (exec my_ltr390_test s)"
    using exec_keeps [OF sensor_tasks_keep(3), of s] ltr390_task.spaced [of s]
    by (simp add: apart_by_def schedule_def timing_defs)
  show "apart_by s (exec my_gp2y1014au0f_test s)"
    using exec_keeps [OF other_tasks_keep(1), of s] dust_task.spaced [of s]
    by (simp add: apart_by_def schedule_def timing_defs)
  show "apart_by s (exec my_lm386_test s)"
    using exec_keeps [OF other_tasks_keep(2), of s] sound_task.spaced [of s]
    by (simp add: apart_by_def schedule_def timing_defs)
  show "apart_by s (exec my_sd_card_test s)"
    using exec_keeps [OF other_tasks_keep(3), of s] save_task.spaced [of s]
    by (simp add: apart_by_def schedule_def timing_defs)
  show "apart_by s (exec log_main s)"
    using exec_keeps [OF other_tasks_keep(4), of s] by (simp add: apart_by_stamps)
  have "keeps stamps (mainFunc :: ('z app_st_scheme, _) state)"
    by (rule mainFunc_keeps [OF blind_timing(1)]) (simp add: stamps_def)
  then show "apart_by s (exec (do { _ \<leftarrow> mainFunc; ret () }) s)"
    by (intro apart_by_stamps exec_keeps keeps_bind keeps_prims)
qed

lemma call_spaced: "pc < 8 \<Longrightarrow> apart_by s (exec (main_loop ! pc) s)"
  by (drule call_cases [where 'a = 'a]) (auto intro: tasks_spaced)

lemma step_spaced:
  fixes s t :: "'z app_st_scheme"
  assumes "app_step (ph, s) (ph', t)"
  shows "apart_by s t"
proof -
  have init: "keeps stamps (mainFuncInit :: ('z app_st_scheme, _) state)"
    by (rule app_blind_init [OF blind_timing(1)]) (simp_all add: stamps_def)
  from assms show ?thesis
  proof (elim app_stepE; clarsimp)
    fix t :: "'z app_st_scheme" assume "run_state mainFuncInit s = (Some RT_EOK, t)"
    then show "apart_by s (exec init_scene t)"
      using keepsD [OF init] exec_keeps [OF app_keeps(9) [OF blind_timing(1)], of t] by (simp add: apart_by_stamps)
  next
    fix r and t :: "'z app_st_scheme" assume "run_state mainFuncInit s = (Some r, t)"
    then show "apart_by s (exec (rt_thread_mdelay 1000) t)"
      using keepsD [OF init] exec_keeps [OF app_keeps(10) [OF blind_timing(1) time_calm(1)], where s = t]
      by (simp add: apart_by_stamps)
  next
    assume "run_state mainFuncInit s = (None, t)"
    then show "apart_by s t" using keepsD [OF init] by (simp add: apart_by_stamps)
  next
    fix l assume "l < (16 :: nat)"
    then show "apart_by s (exec (isr l) s)" by (intro apart_by_stamps app_blind_isr [OF blind_timing(1)])
  next
    fix m :: "('z app_st_scheme, unit) state" assume "m = en_dbg \<or> m = dis_dbg"
    then show "apart_by s (exec m s)"
      by (auto intro!: apart_by_stamps exec_keeps keep_intros simp: en_dbg_def dis_dbg_def stamps_def)
  qed (rule call_spaced)
qed

text \<open>
  The tasks by themselves. With \<open>T0\<close> the true time of its time stamp and \<open>T\<close> that of now, a task notes the time, and if its period has
  passed and it is able to, it stamps the time and runs its body, a reading; otherwise it does nothing else.
\<close>

definition runs_when :: "('z app_st_scheme, unit) state \<Rightarrow> ('z app_st_scheme, unit) state \<Rightarrow> (u32 \<Rightarrow> 'z app_st_scheme \<Rightarrow> 'z app_st_scheme) \<Rightarrow>
    (u32 \<Rightarrow> 'z app_st_scheme \<Rightarrow> 'z app_st_scheme) \<Rightarrow> ('z app_st_scheme \<Rightarrow> u32) \<Rightarrow> ('z app_st_scheme \<Rightarrow> u32) \<Rightarrow>
    ('z app_st_scheme \<Rightarrow> bool) \<Rightarrow> nat \<Rightarrow> nat \<Rightarrow> 'z app_st_scheme \<Rightarrow> bool" where
  "runs_when task body note_time stamp prev period able T0 T s \<longleftrightarrow>
     (prev s = of_nat T0 \<longrightarrow>
      exec task s = (let s1 = note_time (of_nat T) (s\<lparr>hist := hist s @ [Tick (of_nat T)]\<rparr>) in
        if unat (period s) \<le> T - T0 \<and> able s then exec body (stamp (of_nat T) s1) else s1) \<and>
      (prev (exec task s) = of_nat T) = (unat (period s) \<le> T - T0 \<and> able s))"

text \<open>
  C4: readings keep their distance, also when the clock wraps around. With \<open>T0\<close> and \<open>T\<close> the true times in milliseconds of the time stamp of
  a task and of now, less than $2^{32}$ apart, each of the six tasks runs its body exactly if \<open>T - T0\<close> is at
  least its period (and, for the sensors on the bus, if there is a structure for the sensor), after stamping
  the time; if not, it reads nothing and changes nothing but the note of the current time. And in every step of the program
  each time stamp stays as it is, or moves forward, in the 32-bit arithmetic of the clock, by at least the period of its task.
\<close>

theorem readings_are_spaced:
  assumes "app_step (ph, s) (ph', t)" and "tick_ms (env s) (hist s) = of_nat T" and "T0 < T" and "T - T0 < 2 ^ 32"
  shows "list_all (\<lambda>(prev, period). prev t = prev s \<or> period s \<le> prev t - prev s) schedule \<and>
    runs_when my_hmc5883l_test hmc5883l_body (\<lambda>t s. s\<lparr>hmc5883l_curr_milli := t\<rparr>) (\<lambda>t s. s\<lparr>hmc5883l_prev_milli := t\<rparr>)
      hmc5883l_prev_milli HMC5883L_DELAY (\<lambda>s. hmc5883l s \<noteq> None) T0 T s \<and>
    runs_when my_bme280_test bme280_body (\<lambda>t s. s\<lparr>bme280_curr_milli := t\<rparr>) (\<lambda>t s. s\<lparr>bme280_prev_milli := t\<rparr>)
      bme280_prev_milli BME280_DELAY (\<lambda>s. bme280 s \<noteq> None) T0 T s \<and>
    runs_when my_ltr390_test ltr390_body (\<lambda>t s. s\<lparr>ltr390_curr_milli := t\<rparr>) (\<lambda>t s. s\<lparr>ltr390_prev_milli := t\<rparr>)
      ltr390_prev_milli LTR390_DELAY (\<lambda>s. ltr390 s \<noteq> None) T0 T s \<and>
    runs_when my_gp2y1014au0f_test dust_body (\<lambda>t s. s\<lparr>gp2y1014au0f_curr_milli := t\<rparr>) (\<lambda>t s. s\<lparr>gp2y1014au0f_prev_milli := t\<rparr>)
      gp2y1014au0f_prev_milli GP2Y1014AU0F_DELAY (\<lambda>s. True) T0 T s \<and>
    runs_when my_lm386_test sound_body (\<lambda>t s. s\<lparr>lm386_curr_milli := t\<rparr>) (\<lambda>t s. s\<lparr>lm386_prev_milli := t\<rparr>)
      lm386_prev_milli LM386_DELAY (\<lambda>s. True) T0 T s \<and>
    runs_when my_sd_card_test sdcard_saveCurrData (\<lambda>t s. s\<lparr>data_curr_milli := t\<rparr>) (\<lambda>t s. s\<lparr>data_prev_milli := t\<rparr>)
      data_prev_milli DATA_DELAY (\<lambda>s. True) T0 T s"
proof -
  note a = assms(2-4)
  show ?thesis
    unfolding runs_when_def
    by (intro conjI impI step_spaced [OF assms(1), unfolded apart_by_def] hmc5883l_task.runs_across [OF a] bme280_task.runs_across [OF a]
      ltr390_task.runs_across [OF a] dust_task.runs_across [OF a] sound_task.runs_across [OF a] save_task.runs_across [OF a]) assumption+
qed

text \<open>The clock wraps around between two readings of the dust sensor, 1000 ms apart.\<close>

definition wrap_state :: app_st where
  "wrap_state = (app_reset (env0\<lparr>tick_ms := \<lambda>h. 999\<rparr>))\<lparr>gp2y1014au0f_prev_milli := - 1\<rparr>"

lemma readings_are_spaced_witness:
  "\<exists>t. app_step (Running 3, wrap_state) (Running 4, t) \<and> gp2y1014au0f_prev_milli t = 999"
proof -
  let ?t = "exec (main_loop ! 3) wrap_state"
  have st: "app_step (Running 3, wrap_state) (Running 4, ?t)" using app_step.call [of 3 wrap_state] by simp
  have clock: "tick_ms (env wrap_state) (hist wrap_state) = of_nat (2 ^ 32 + 999)"
    by (simp add: wrap_state_def app_reset_def env0_def)
  have prev: "gp2y1014au0f_prev_milli wrap_state = of_nat (2 ^ 32 - 1)" "GP2Y1014AU0F_DELAY wrap_state = 1000"
    by (simp_all add: wrap_state_def app_reset_def)
  have "runs_when my_gp2y1014au0f_test dust_body (\<lambda>t s. s\<lparr>gp2y1014au0f_curr_milli := t\<rparr>) (\<lambda>t s. s\<lparr>gp2y1014au0f_prev_milli := t\<rparr>)
      gp2y1014au0f_prev_milli GP2Y1014AU0F_DELAY (\<lambda>s. True) (2 ^ 32 - 1) (2 ^ 32 + 999) wrap_state"
    using readings_are_spaced [OF st clock, of "2 ^ 32 - 1"] by simp
  then have "(gp2y1014au0f_prev_milli (exec my_gp2y1014au0f_test wrap_state) = of_nat (2 ^ 32 + 999)) =
      (unat (GP2Y1014AU0F_DELAY wrap_state) \<le> 2 ^ 32 + 999 - (2 ^ 32 - 1) \<and> True)"
    using prev(1) unfolding runs_when_def by blast
  then have "gp2y1014au0f_prev_milli ?t = 999" by (simp add: prev(2) main_loop_def)
  with st show ?thesis by blast
qed

section \<open>The periods\<close>

text \<open>Ejecting the card is the only way to change a period.\<close>

definition save_period_ok :: "'z app_st_scheme \<Rightarrow> bool" where
  "save_period_ok s \<longleftrightarrow> DATA_DELAY s = 5000 \<or> DATA_DELAY s = 0xFFFFFFFF"

lemma save_period_keeps: "keeps DATA_DELAY m \<Longrightarrow> preserves save_period_ok m"
  by (erule preserves_keeps) (simp add: save_period_ok_def)

lemma save_period_calm: "appends nonheap m \<Longrightarrow> preserves save_period_ok m"
  by (intro save_period_keeps app_keeps(10) [OF blind_timing(3)])

lemma save_period_eject: "preserves save_period_ok SD_CARD_eject"
  unfolding SD_CARD_eject_def
  by (intro preserve_intros save_period_calm [OF text_calm(4)] save_period_calm [OF text_calm(2)]
    save_period_calm [OF lcd_calm] save_period_calm [OF files_calm(2)]) (simp add: save_period_ok_def)

lemma save_period_mainFunc: "preserves save_period_ok mainFunc"
  unfolding mainFunc_def
  by (intro preserve_intros save_period_eject app_keeps(1-9) [OF blind_timing(3), THEN save_period_keeps]
    drawing_calm [THEN save_period_calm] save_period_calm [OF time_calm(3)]; simp add: save_period_ok_def)

definition periods_stay :: "'z app_st_scheme \<Rightarrow> 'z app_st_scheme \<Rightarrow> bool" where
  "periods_stay s t \<longleftrightarrow> periods t = periods s \<and> (save_period_ok s \<longrightarrow> save_period_ok t)"

lemma periods_stay_keeps: "keeps (\<lambda>s. (periods s, DATA_DELAY s)) m \<Longrightarrow> periods_stay s (exec m s)"
  using exec_keeps [of "\<lambda>s. (periods s, DATA_DELAY s)" m s] by (simp add: periods_stay_def save_period_ok_def)

lemma task_periods:
  fixes s :: "'z app_st_scheme"
  shows "periods_stay s (exec my_hmc5883l_test s)" "periods_stay s (exec my_bme280_test s)" "periods_stay s (exec my_ltr390_test s)"
    "periods_stay s (exec my_gp2y1014au0f_test s)" "periods_stay s (exec my_lm386_test s)" "periods_stay s (exec my_sd_card_test s)"
    "periods_stay s (exec log_main s)" "periods_stay s (exec (do { _ \<leftarrow> mainFunc; ret () }) s)"
proof -
  show "periods_stay s (exec my_hmc5883l_test s)" "periods_stay s (exec my_bme280_test s)" "periods_stay s (exec my_ltr390_test s)"
    using sensor_tasks_keep [THEN exec_keeps, of s] by (simp_all add: periods_stay_def save_period_ok_def)
  show "periods_stay s (exec my_gp2y1014au0f_test s)" "periods_stay s (exec my_lm386_test s)" "periods_stay s (exec my_sd_card_test s)"
    "periods_stay s (exec log_main s)"
    using other_tasks_keep [THEN exec_keeps, of s] by (simp_all add: periods_stay_def save_period_ok_def)
  have "keeps periods (mainFunc :: ('z app_st_scheme, _) state)"
    by (rule mainFunc_keeps [OF blind_timing(2)]) (simp add: periods_def)
  then show "periods_stay s (exec (do { _ \<leftarrow> mainFunc; ret () }) s)"
    using save_period_mainFunc by (auto simp: periods_stay_def exec_def keeps_def preserves_def split_beta)
qed

lemma call_periods: "pc < 8 \<Longrightarrow> periods_stay s (exec (main_loop ! pc) s)"
  by (drule call_cases [where 'a = 'a]) (auto intro: task_periods)

lemma step_periods:
  fixes s t :: "'z app_st_scheme"
  assumes "app_step (ph, s) (ph', t)"
  shows "periods_stay s t"
proof -
  let ?f = "\<lambda>s :: 'z app_st_scheme. (periods s, DATA_DELAY s)"
  have b: "app_blind ?f" by (simp add: app_blind_def boot_blind_def blind_def periods_def)
  have init: "keeps ?f mainFuncInit" by (rule app_blind_init [OF b]) (simp_all add: periods_def)
  note q = keepsD [OF init]
  from assms show ?thesis
  proof (elim app_stepE; clarsimp)
    fix t :: "'z app_st_scheme" assume "run_state mainFuncInit s = (Some RT_EOK, t)"
    then show "periods_stay s (exec init_scene t)"
      using q exec_keeps [OF app_keeps(9) [OF b], of t] by (simp add: periods_stay_def save_period_ok_def)
  next
    fix r and t :: "'z app_st_scheme" assume "run_state mainFuncInit s = (Some r, t)"
    then show "periods_stay s (exec (rt_thread_mdelay 1000) t)"
      using q exec_keeps [OF app_keeps(10) [OF b time_calm(1)], where s = t]
      by (simp add: periods_stay_def save_period_ok_def)
  next
    assume "run_state mainFuncInit s = (None, t)"
    then show "periods_stay s t" using q by (simp add: periods_stay_def save_period_ok_def)
  next
    fix l assume "l < (16 :: nat)"
    then show "periods_stay s (exec (isr l) s)"
      using app_blind_isr [OF b, of l s] by (simp add: periods_stay_def save_period_ok_def)
  next
    fix m :: "('z app_st_scheme, unit) state" assume "m = en_dbg \<or> m = dis_dbg"
    then show "periods_stay s (exec m s)"
      by (auto intro!: periods_stay_keeps keep_intros simp: en_dbg_def dis_dbg_def periods_def)
  qed (rule call_periods)
qed

lemma reached_periods:
  "reached e (ph, s) \<Longrightarrow> periods s = [1000, 1000, 1000, 1000, 10, 1000, 10000] \<and> save_period_ok s"
proof (induction "(ph, s)" arbitrary: ph s rule: reached.induct)
  case reset
  show ?case by (simp add: display_init_def exec_def app_reset_def periods_def save_period_ok_def)
next
  case (more p)
  then show ?case using step_periods by (cases p) (fastforce simp: periods_stay_def)
qed

text \<open>
  C40: the settings menu changes no setting. In every reachable state all periods have the
  values they were initialised with, except that of saving once the card has been ejected; yet for every choice
  of a delay the program tells the user that the delay has been changed.
\<close>

theorem settings_change_no_delay:
  assumes "reached e (ph, s)"
  shows "HMC5883L_DELAY s = 1000 \<and> BME280_DELAY s = 1000 \<and> LTR390_DELAY s = 1000 \<and> GP2Y1014AU0F_DELAY s = 1000 \<and>
    LM386_DELAY s = 10 \<and> (DATA_DELAY s = 5000 \<or> DATA_DELAY s = 0xFFFFFFFF) \<and>
    (currDelay s \<in> {1..6} \<longrightarrow> (\<exists>y. Lcd (ILI9341_DispStringLine_EN y '' Delay for this peripheral is changed!'') \<in>
       set (drop (length (hist s)) (hist (exec enter_SETTING_DELAY s)))))"
proof -
  have "Lcd (ILI9341_DispStringLine_EN (12 * font_height (current_font (hist s @ [Lcd (LCD_SetTextColor ''CL_GREEN'')])))
      '' Delay for this peripheral is changed!'') \<in> set (drop (length (hist s)) (hist (exec enter_SETTING_DELAY s)))"
    if "currDelay s \<in> {1..6}"
  proof -
    have "currDelay s \<in> {1, 2, 3, 4, 5, 6}" using that by auto
    then show ?thesis
      by (auto simp: exec_def enter_SETTING_DELAY_def config_delay_def line_EN_def LINE_def lcd_def rt_thread_mdelay_def
        reset_delay_menu_def)
  qed
  with reached_periods [OF assms] show ?thesis by (auto simp: periods_def save_period_ok_def)
qed

lemma settings_change_no_delay_witness: "\<exists>s. reached demo_board (Running 0, s) \<and> HMC5883L_DELAY s = 1000"
  using demo_menu settings_change_no_delay by blast

end
