(* ===== verification/App_Lifetimes.thy ===== *)
theory App_Lifetimes
  imports App_Tasks
begin

text \<open>
  The life of the sensors' structures while the main loop runs: when a sensor on the bus stops
  answering, its structure is freed and its pointer kept. A locale states what the three polls of
  such sensors have in common; each is an instance.
\<close>

section \<open>A bus that no longer answers\<close>

definition bus_dead :: "'z board_scheme \<Rightarrow> bool" where
  "bus_dead s \<longleftrightarrow> (\<forall>es b ms. fst (i2c_reply (env s) (hist s @ es) b ms) = 0)"

lemma bus_dead_mono: "bus_dead s \<Longrightarrow> env t = env s \<Longrightarrow> hist t = hist s @ es \<Longrightarrow> bus_dead t"
  by (simp add: bus_dead_def)

text \<open>What an operation returns on such a bus.\<close>

definition gives :: "('a \<Rightarrow> bool) \<Rightarrow> ('z board_scheme, 'a) state \<Rightarrow> bool" where
  "gives Q m \<longleftrightarrow> (\<forall>s. bus_dead s \<longrightarrow> Q (fst (run_state m s)) \<and> bus_dead (snd (run_state m s)))"

named_theorems dead_intros \<open>what operations return on a bus that does not answer\<close>

lemma gives_bind: "gives Q m \<Longrightarrow> (\<And>x. Q x \<Longrightarrow> gives R (f x)) \<Longrightarrow> gives R (m \<bind> f)"
  unfolding gives_def snd_run_bind fst_run_bind by blast

lemma gives_ret: "Q x \<Longrightarrow> gives Q (ret x)"
  by (simp add: gives_def)

lemma gives_any: "extends P m \<Longrightarrow> gives (\<lambda>_. True) m"
  unfolding extends_def gives_def by (metis bus_dead_mono)

lemma gives_prefix: "extends P m \<Longrightarrow> (\<And>x. gives R (f x)) \<Longrightarrow> gives R (m \<bind> f)"
  by (rule gives_bind [OF gives_any])

lemmas gives_calm = gives_prefix [OF nonheap_extends]

lemma gives_ask: "(\<And>x. gives R (f x)) \<Longrightarrow> gives R (ask g \<bind> f)"
  by (rule gives_prefix [OF extends_prims(3)])

lemma gives_gets: "(\<And>x. gives R (f x)) \<Longrightarrow> gives R (gets g \<bind> f)"
  by (rule gives_prefix [OF extends_prims(2)])

lemma transfer_dead: "gives (\<lambda>r. fst r = 0) (rt_i2c_transfer bus msgs)"
  unfolding gives_def
proof (intro allI impI conjI)
  fix s assume d: "bus_dead s"
  then show "fst (fst (run_state (rt_i2c_transfer bus msgs) s)) = 0"
    unfolding bus_dead_def rt_i2c_transfer_def by (auto dest: spec [of _ "[]"])
  show "bus_dead (snd (run_state (rt_i2c_transfer bus msgs) s))"
    by (rule bus_dead_mono [OF d]) (simp_all add: rt_i2c_transfer_def)
qed

lemma regs_dead: "gives (\<lambda>r. fst r \<noteq> RT_EOK) (i2c_read_regs bus addr reg buf)"
  "gives (\<lambda>r. r \<noteq> RT_EOK) (i2c_write_reg bus addr reg v)" "gives (\<lambda>r. r \<noteq> RT_EOK) (i2c_write_regs bus addr reg buf)"
  unfolding i2c_read_regs_def i2c_write_reg_def i2c_write_regs_def Let_def
  by (rule gives_bind [OF transfer_dead], rule gives_ret, simp)+

lemma on_bus_dead: "(\<And>b d. gives Q (m b d)) \<Longrightarrow> Q err \<Longrightarrow> gives Q (on_i2c_bus a err m)"
  unfolding on_i2c_bus_def by (intro gives_calm [OF i2c_calm(4)] gives_ask) (simp add: gives_ret)

lemma sensor_regs_dead: "gives (\<lambda>r. r \<noteq> RT_EOK) (hmc_write_reg a reg v)" "gives (\<lambda>r. r \<noteq> RT_EOK) (ltr_write_reg a reg v)"
  unfolding hmc_write_reg_def ltr_write_reg_def dev_write_reg_def by (intro on_bus_dead regs_dead; simp)+

lemma hmc_data_dead: "gives (\<lambda>r. fst r \<noteq> RT_EOK) (my_hmc5883l_get_data p d)"
  unfolding my_hmc5883l_get_data_def
  by (cases p; simp add: gives_ret) (rule gives_bind [OF sensor_regs_dead(1)], simp add: gives_ret)

lemma ltr_data_dead: "gives (\<lambda>r. fst r \<noteq> RT_EOK) (my_ltr390_get_data p d)"
proof -
  have s: "gives (\<lambda>b. b) (select_channel a m i)" for a m i
    unfolding select_channel_def
    by (rule gives_bind [OF sensor_regs_dead(2)], simp, rule gives_bind [OF sensor_regs_dead(2)], simp add: gives_ret)
  have m: "gives (\<lambda>r. r = None) (measure_channel a m i reg)" for a m i reg
    unfolding measure_channel_def by (rule gives_bind [OF s], simp add: gives_ret)
  have "gives (\<lambda>r. fst r \<noteq> RT_EOK) (my_ltr390_get_data (Some a) d)" for a
    unfolding my_ltr390_get_data_def option.case by (rule gives_ask, rule gives_bind [OF m], simp add: gives_ret)
  then show ?thesis by (cases p) (simp_all add: my_ltr390_get_data_def gives_ret)
qed

lemma bme_data_dead: "gives (\<lambda>r. fst r \<noteq> RT_EOK) (my_bme280_get_data p d)"
proof -
  have com: "gives (\<lambda>r. fst r \<noteq> RT_EOK) (call_com fp a r buf)" for fp a r buf
    by (cases fp) (simp_all add: bme_read_regs_def bme_write_regs_def gives_gets regs_dead gives_ret
      gives_bind [OF gives_gets [OF regs_dead(3)], unfolded bind_assoc])
  have get: "gives (\<lambda>r. fst r \<noteq> BME280_OK) (bme280_get_regs r buf dev)" for r buf dev
    unfolding bme280_get_regs_def Let_def
    by (cases "null_ptr_check dev = BME280_OK") (auto simp: gives_ret intro!: gives_bind [OF com])
  have sleep: "gives (\<lambda>r. r \<noteq> BME280_OK) (ensure_sleep dev)" for dev
  proof -
    have "gives (\<lambda>r. fst r \<noteq> BME280_OK) (bme280_get_sensor_mode m dev)" for m
      unfolding bme280_get_sensor_mode_def
      by (cases "null_ptr_check dev = BME280_OK") (auto simp: gives_ret intro!: gives_bind [OF get])
    then show ?thesis unfolding ensure_sleep_def by (rule gives_ask [OF gives_bind]) (auto simp: gives_ret)
  qed
  have mode: "gives (\<lambda>r. r \<noteq> BME280_OK) (bme280_set_sensor_mode m dev)" for m dev
    unfolding bme280_set_sensor_mode_def
    by (cases "null_ptr_check dev = BME280_OK") (auto simp: gives_ret intro!: gives_bind [OF sleep])
  have "gives (\<lambda>r. fst r \<noteq> RT_EOK) (my_bme280_get_data (Some a) d)" for a
    unfolding my_bme280_get_data_def option.case dev_of_def
    by (intro gives_calm [OF i2c_calm(5)] gives_prefix [OF extends_modify] gives_calm [OF appends_bind [OF i2c_calm(5) appends_ret]]
      gives_bind [OF mode]) (simp_all add: gives_ret)
  then show ?thesis by (cases p) (simp_all add: my_bme280_get_data_def gives_ret)
qed

section \<open>Pointers that dangle\<close>

text \<open>An operation that follows the pointer \<open>a\<close> first.\<close>

definition follows :: "nat \<Rightarrow> ('z board_scheme, 'a) state \<Rightarrow> bool" where
  "follows a m \<longleftrightarrow> (\<forall>s. a \<notin> live (hist s) \<longrightarrow>
     (\<exists>es. hist (snd (run_state m s)) = hist s @ Fault (UseAfterFree a) # es))"

lemma follows_load: "follows a (load_i2c a)" "follows a (load_bme a)"
  by (simp_all add: follows_def load_i2c_def load_bme_def run_deref)

lemma follows_bind:
  fixes m :: "('z board_scheme, 'a) state"
  assumes "follows a m" and "\<And>x. extends P (f x)"
  shows "follows a (m \<bind> f)"
  unfolding follows_def
proof (intro allI impI)
  fix s :: "'z board_scheme" assume "a \<notin> live (hist s)"
  then obtain es where es: "hist (snd (run_state m s)) = hist s @ Fault (UseAfterFree a) # es"
    using assms(1) unfolding follows_def by blast
  obtain fs where "hist (snd (run_state (f (fst (run_state m s))) (snd (run_state m s)))) = hist (snd (run_state m s)) @ fs"
    using assms(2) unfolding extends_def by blast
  with es show "\<exists>es. hist (snd (run_state (m \<bind> f) s)) = hist s @ Fault (UseAfterFree a) # es"
    unfolding snd_run_bind by simp
qed

lemma follows_after: "(\<And>x. follows a (f x)) \<Longrightarrow> follows a (gets g \<bind> f)" "(\<And>x. follows a (f x)) \<Longrightarrow> follows a (ask h \<bind> f)"
  by (simp_all add: follows_def)

text \<open>Events that allocate nothing. Everything the main loop does consists of such.\<close>

fun no_new :: "ev \<Rightarrow> bool" where
  "no_new (Alloc a) = False"
| "no_new _ = True"

lemma dead_stays:
  fixes s :: "'z board_scheme"
  assumes "extends no_new m" and "a \<notin> live (hist s)"
  shows "a \<notin> live (hist (exec m s))"
proof -
  obtain es where es: "hist (exec m s) = hist s @ es" "list_all no_new es"
    using assms(1) unfolding extends_def exec_def by blast
  have "list_all no_new es \<Longrightarrow> a \<notin> L \<Longrightarrow> a \<notin> foldl live_step L es" for L
  proof (induction es arbitrary: L)
    case (Cons e es)
    then show ?case by (cases e) auto
  qed simp
  then show ?thesis using es assms(2) by (simp add: live_append)
qed

lemma nonheap_no_new: "appends nonheap m \<Longrightarrow> extends no_new m"
proof (rule extends_appends, erule appends_mono)
  show "nonheap e \<Longrightarrow> no_new e" for e by (cases e) auto
qed

lemma bme_no_new: "appends bme_ev m \<Longrightarrow> extends no_new m"
proof (rule extends_appends, erule appends_mono)
  show "bme_ev e \<Longrightarrow> no_new e" for e by (cases e) auto
qed

lemma sensor_calls_no_new:
  "extends no_new (my_hmc5883l_get_data p d)" "extends no_new (my_ltr390_get_data p l)" "extends no_new (my_bme280_get_data p w)"
  "extends no_new (my_hmc5883l_destroy p)" "extends no_new (my_ltr390_destroy p)" "extends no_new (my_bme280_destroy p)"
proof -
  show "extends no_new (my_hmc5883l_get_data p d)" "extends no_new (my_ltr390_get_data p l)"
    by (rule nonheap_no_new [OF sensor_data_calm(2)], rule nonheap_no_new [OF sensor_data_calm(3)])
  show "extends no_new (my_hmc5883l_destroy p)" "extends no_new (my_ltr390_destroy p)" "extends no_new (my_bme280_destroy p)"
    unfolding my_hmc5883l_destroy_def my_ltr390_destroy_def my_bme280_destroy_def rt_free_def fault_def
    by (intro extend_intros; simp)+
  have "extends no_new (update_dev a y)" for a y
    unfolding update_dev_def store_bme_def
    by (intro extend_intros nonheap_no_new [OF i2c_calm(5)] nonheap_no_new [OF i2c_calm(3)]) simp
  then show "extends no_new (my_bme280_get_data p w)"
    unfolding my_bme280_get_data_def dev_of_def
    by (intro extend_intros nonheap_no_new [OF i2c_calm(5)] driver_frames [THEN bme_no_new]) simp_all
qed

lemma follows_sensors: "follows a (my_hmc5883l_get_data (Some a) d)" "follows a (my_ltr390_get_data (Some a) l)"
  "follows a (my_bme280_get_data (Some a) w)"
proof -
  have w: "follows a (hmc_write_reg a r v)" "follows a (ltr_write_reg a r v)" for r v
    unfolding hmc_write_reg_def ltr_write_reg_def dev_write_reg_def on_i2c_bus_def
    by (rule follows_bind [OF follows_load(1), where P = no_new], intro extend_intros nonheap_no_new [OF i2c_calm(2)])+
  show "follows a (my_hmc5883l_get_data (Some a) d)"
    unfolding my_hmc5883l_get_data_def option.case
    by (rule follows_bind [OF w(1), where P = no_new], intro extend_intros sensor_calm [THEN nonheap_no_new])
  have "follows a (measure_channel a m i reg)" for m i reg
    unfolding measure_channel_def select_channel_def bind_assoc
    by (rule follows_bind [OF w(2), where P = no_new], intro extend_intros sensor_calm [THEN nonheap_no_new] nonheap_no_new [OF time_calm(1)])
  then show "follows a (my_ltr390_get_data (Some a) l)"
    unfolding my_ltr390_get_data_def option.case
    by (rule follows_after(2) [OF follows_bind [where P = no_new]]) (auto intro!: extend_intros nonheap_no_new frame_intros simp: Let_def measure_channel_def select_channel_def)
  have "extends no_new (update_dev b y)" for b y
    unfolding update_dev_def store_bme_def
    by (intro extend_intros nonheap_no_new [OF i2c_calm(5)] nonheap_no_new [OF i2c_calm(3)]) simp
  then show "follows a (my_bme280_get_data (Some a) w)"
    unfolding my_bme280_get_data_def option.case dev_of_def
    by (intro follows_bind [OF follows_load(2), where P = no_new] extend_intros nonheap_no_new [OF i2c_calm(5)]
      driver_frames [THEN bme_no_new]) simp_all
qed

text \<open>
  A poll of a sensor on the bus: a periodic task whose body follows the pointer \<open>ptr\<close>, never
  changes it, and frees its target if the bus does not answer.
\<close>

locale bus_task = periodic +
  fixes ptr :: "'a board_scheme \<Rightarrow> nat option"
  assumes ptr_ready: "ready s \<longleftrightarrow> ptr s \<noteq> None"
    and ptr_kept: "ptr (note_time t s) = ptr s" "ptr (stamp t s) = ptr s" "ptr (s\<lparr>hist := h\<rparr>) = ptr s" "keeps ptr body"
    and quiet: "hist (note_time t s) = hist s" "env (note_time t s) = env s" "hist (stamp t s) = hist s" "env (stamp t s) = env s"
    and freed: "bus_dead s \<Longrightarrow> ptr s = Some a \<Longrightarrow> a \<notin> live (hist (exec body s))"
    and touched: "ptr s = Some a \<Longrightarrow> a \<notin> live (hist s) \<Longrightarrow>
      Fault (UseAfterFree a) \<in> set (drop (length (hist s)) (hist (exec body s)))"
    and only_adds: "extends no_new body"
begin

lemma ptr_task: "ptr (exec task s) = ptr s"
  using exec_keeps [OF ptr_kept(4)] by (simp add: run_task Let_def ptr_kept)

lemma lost:
  assumes "due s" and "bus_dead s" and "ptr s = Some a"
  shows "ptr (exec task s) = Some a" and "a \<notin> live (hist (exec task s))"
proof -
  define s1 where "s1 = stamp (tick_ms (env s) (hist s)) (note_time (tick_ms (env s) (hist s))
    (s\<lparr>hist := hist s @ [Tick (tick_ms (env s) (hist s))]\<rparr>))"
  have "bus_dead s1" by (rule bus_dead_mono [OF assms(2)]) (simp_all add: s1_def quiet)
  moreover have "ptr s1 = Some a" using assms(3) by (simp add: s1_def ptr_kept)
  ultimately have "a \<notin> live (hist (exec body s1))" by (rule freed)
  moreover have "exec task s = exec body s1" using assms(1) by (simp add: run_task s1_def Let_def)
  ultimately show "a \<notin> live (hist (exec task s))" by simp
  show "ptr (exec task s) = Some a" using assms(3) by (simp add: ptr_task)
qed

lemma used:
  assumes "due s" and "ptr s = Some a" and "a \<notin> live (hist s)"
  shows "Fault (UseAfterFree a) \<in> set (drop (length (hist s)) (hist (exec task s)))"
proof -
  define s1 where "s1 = stamp (tick_ms (env s) (hist s)) (note_time (tick_ms (env s) (hist s))
    (s\<lparr>hist := hist s @ [Tick (tick_ms (env s) (hist s))]\<rparr>))"
  have h: "hist s1 = hist s @ [Tick (tick_ms (env s) (hist s))]" by (simp add: s1_def quiet)
  have "ptr s1 = Some a" using assms(2) by (simp add: s1_def ptr_kept)
  moreover have "a \<notin> live (hist s1)" using assms(3) by (simp add: h)
  ultimately have "Fault (UseAfterFree a) \<in> set (drop (length (hist s1)) (hist (exec body s1)))" by (rule touched)
  then have "Fault (UseAfterFree a) \<in> set (drop (Suc (length (hist s))) (hist (exec body s1)))" by (simp add: h)
  moreover have "exec task s = exec body s1" using assms(1) by (simp add: run_task s1_def Let_def)
  ultimately show ?thesis using set_drop_subset_set_drop [of "length (hist s)" "Suc (length (hist s))" "hist (exec body s1)"] by auto
qed

lemma task_no_new: "extends no_new task"
  unfolding shape rt_tick_get_millisecond_def by (intro extend_intros only_adds) (simp_all add: quiet)

end

text \<open>Destroying, and what the bodies do first.\<close>

lemma destroy_frees: "a \<notin> live (hist (exec (my_hmc5883l_destroy (Some a)) s))" "a \<notin> live (hist (exec (my_ltr390_destroy (Some a)) s))"
  "a \<notin> live (hist (exec (my_bme280_destroy (Some a)) s))"
  by (simp_all add: exec_def my_hmc5883l_destroy_def my_ltr390_destroy_def my_bme280_destroy_def)

lemma follows_fault: "follows a m \<Longrightarrow> a \<notin> live (hist s) \<Longrightarrow>
    Fault (UseAfterFree a) \<in> set (drop (length (hist s)) (hist (exec m s)))"
  unfolding follows_def exec_def by (metis append_eq_conv_conj list.set_intros(1))

lemma givesD: "gives Q m \<Longrightarrow> bus_dead s \<Longrightarrow> run_state m s = (x, t) \<Longrightarrow> Q x"
  unfolding gives_def by (metis fst_conv)

lemma bodies_no_new: "extends no_new hmc5883l_body" "extends no_new bme280_body" "extends no_new ltr390_body"
  unfolding hmc5883l_body_def bme280_body_def ltr390_body_def by (intro extend_intros sensor_calls_no_new; simp)+

lemma bodies_free:
  fixes s :: "'z app_st_scheme"
  assumes "bus_dead s"
  shows "hmc5883l s = Some a \<Longrightarrow> a \<notin> live (hist (exec hmc5883l_body s))"
    "bme280 s = Some a \<Longrightarrow> a \<notin> live (hist (exec bme280_body s))"
    "ltr390 s = Some a \<Longrightarrow> a \<notin> live (hist (exec ltr390_body s))"
proof -
  show "a \<notin> live (hist (exec hmc5883l_body s))" if "hmc5883l s = Some a"
  proof -
    obtain r d t where run: "run_state (my_hmc5883l_get_data (hmc5883l s) (hmc5883l_rawData s)) s = ((r, d), t)"
      by (metis prod.exhaust)
    then have "r \<noteq> RT_EOK" using givesD [OF hmc_data_dead assms] by fastforce
    then have "exec hmc5883l_body s = exec (my_hmc5883l_destroy (Some a)) (t\<lparr>hmc5883l_rawData := d\<rparr>)"
      using run that by (simp add: exec_def hmc5883l_body_def)
    then show ?thesis using destroy_frees by simp
  qed
  show "a \<notin> live (hist (exec bme280_body s))" if "bme280 s = Some a"
  proof -
    obtain r d t where run: "run_state (my_bme280_get_data (bme280 s) (bme280_rawData s)) s = ((r, d), t)"
      by (metis prod.exhaust)
    then have "r \<noteq> RT_EOK" using givesD [OF bme_data_dead assms] by fastforce
    then have "exec bme280_body s = exec (my_bme280_destroy (Some a)) (t\<lparr>bme280_rawData := d\<rparr>)"
      using run that by (simp add: exec_def bme280_body_def)
    then show ?thesis using destroy_frees by simp
  qed
  show "a \<notin> live (hist (exec ltr390_body s))" if "ltr390 s = Some a"
  proof -
    obtain r d t where run: "run_state (my_ltr390_get_data (ltr390 s) (ltr390_rawData s)) s = ((r, d), t)"
      by (metis prod.exhaust)
    then have "r \<noteq> RT_EOK" using givesD [OF ltr_data_dead assms] by fastforce
    then have "exec ltr390_body s = exec (my_ltr390_destroy (Some a)) (t\<lparr>ltr390_rawData := d\<rparr>)"
      using run that by (simp add: exec_def ltr390_body_def)
    then show ?thesis using destroy_frees by simp
  qed
qed

lemma run_gets_bind: "run_state (gets g \<bind> f) s = run_state (f (g s)) s"
  by simp

lemma follows_gets: "follows a (f (g s)) \<Longrightarrow> a \<notin> live (hist s) \<Longrightarrow>
    \<exists>es. hist (snd (run_state (gets g \<bind> f) s)) = hist s @ Fault (UseAfterFree a) # es"
  by (simp add: follows_def)

lemma bodies_follow:
  fixes s :: "'z app_st_scheme"
  assumes "a \<notin> live (hist s)"
  shows "hmc5883l s = Some a \<Longrightarrow> Fault (UseAfterFree a) \<in> set (drop (length (hist s)) (hist (exec hmc5883l_body s)))"
    "bme280 s = Some a \<Longrightarrow> Fault (UseAfterFree a) \<in> set (drop (length (hist s)) (hist (exec bme280_body s)))"
    "ltr390 s = Some a \<Longrightarrow> Fault (UseAfterFree a) \<in> set (drop (length (hist s)) (hist (exec ltr390_body s)))"
proof -
  note touch = follows_bind [OF _, where P = no_new, THEN follows_fault [OF _ assms], unfolded exec_def]
  show "Fault (UseAfterFree a) \<in> set (drop (length (hist s)) (hist (exec hmc5883l_body s)))" if "hmc5883l s = Some a"
    unfolding exec_def hmc5883l_body_def run_gets_bind that
    by (rule touch [OF follows_sensors(1)]) (intro extend_intros sensor_calls_no_new; simp)
  show "Fault (UseAfterFree a) \<in> set (drop (length (hist s)) (hist (exec bme280_body s)))" if "bme280 s = Some a"
    unfolding exec_def bme280_body_def run_gets_bind that
    by (rule touch [OF follows_sensors(3)]) (intro extend_intros sensor_calls_no_new; simp)
  show "Fault (UseAfterFree a) \<in> set (drop (length (hist s)) (hist (exec ltr390_body s)))" if "ltr390 s = Some a"
    unfolding exec_def ltr390_body_def run_gets_bind that
    by (rule touch [OF follows_sensors(2)]) (intro extend_intros sensor_calls_no_new; simp)
qed

lemma keeps_bodies:
  fixes f :: "'z app_st_scheme \<Rightarrow> 'v"
  assumes "blind f" and "\<And>s d. f (s\<lparr>hmc5883l_rawData := d\<rparr>) = f s" and "\<And>s h. f (s\<lparr>hmc5883l_heading := h\<rparr>) = f s"
    and "\<And>s d. f (s\<lparr>bme280_rawData := d\<rparr>) = f s" and "\<And>s d. f (s\<lparr>ltr390_rawData := d\<rparr>) = f s"
  shows "keeps f hmc5883l_body" "keeps f bme280_body" "keeps f ltr390_body"
  unfolding hmc5883l_body_def bme280_body_def ltr390_body_def by (intro keep_intros blind_sensors assms)+

lemmas pointers_kept = keeps_bodies [OF blind_pointers(1)] keeps_bodies [OF blind_pointers(2)] keeps_bodies [OF blind_pointers(3)]

interpretation hmc5883l_poll: bus_task my_hmc5883l_test hmc5883l_body "\<lambda>t s. s\<lparr>hmc5883l_curr_milli := t\<rparr>"
  "\<lambda>t s. s\<lparr>hmc5883l_prev_milli := t\<rparr>" hmc5883l_prev_milli HMC5883L_DELAY "\<lambda>s. hmc5883l s \<noteq> None" hmc5883l
  by unfold_locales (simp_all add: bodies_free bodies_follow bodies_no_new pointers_kept)

interpretation bme280_poll: bus_task my_bme280_test bme280_body "\<lambda>t s. s\<lparr>bme280_curr_milli := t\<rparr>"
  "\<lambda>t s. s\<lparr>bme280_prev_milli := t\<rparr>" bme280_prev_milli BME280_DELAY "\<lambda>s. bme280 s \<noteq> None" bme280
  by unfold_locales (simp_all add: bodies_free bodies_follow bodies_no_new pointers_kept)

interpretation ltr390_poll: bus_task my_ltr390_test ltr390_body "\<lambda>t s. s\<lparr>ltr390_curr_milli := t\<rparr>"
  "\<lambda>t s. s\<lparr>ltr390_prev_milli := t\<rparr>" ltr390_prev_milli LTR390_DELAY "\<lambda>s. ltr390 s \<noteq> None" ltr390
  by unfold_locales (simp_all add: bodies_free bodies_follow bodies_no_new pointers_kept)

section \<open>The main loop allocates nothing and changes no pointer\<close>

lemma handlers_no_new: "extends no_new (run_handler h)"
  by (cases h) (auto simp: handler_defs my_ov7725_interrupt_def fifo_defs intro!: extend_intros)

lemma isr_no_new: "l < 16 \<Longrightarrow> a \<notin> live (hist s) \<Longrightarrow> a \<notin> live (hist (exec (isr l) s))"
  by (cases "handler_on s l") (simp_all add: isr_run dead_stays [OF handlers_no_new])

lemma pins_no_new: "extends no_new (stm32_pin_attach_irq p m hdr b)" "extends no_new (stm32_pin_dettach_irq p)"
  "extends no_new (stm32_pin_irq_enable p en)" "extends no_new (stm32_pin_mode p md)"
proof -
  show "extends no_new (stm32_pin_attach_irq p m hdr b)" "extends no_new (stm32_pin_dettach_irq p)"
    unfolding stm32_pin_attach_irq_def stm32_pin_dettach_irq_def Let_def by (intro extend_intros; simp)+
  show "extends no_new (stm32_pin_mode p md)" by (rule nonheap_no_new [OF pin_mode_calm])
  have "extends no_new (irq_enable_line p port c)" "extends no_new (irq_disable_line port c)" for port c
    unfolding irq_enable_line_def irq_disable_line_def Let_def fault_def by (intro extend_intros; simp)+
  then show "extends no_new (stm32_pin_irq_enable p en)"
    unfolding stm32_pin_irq_enable_def by (intro extend_intros)
qed

lemma save_no_new: "extends no_new sdcard_saveCurrData"
  unfolding sdcard_saveCurrData_def
  by (intro extend_intros led_calm [THEN nonheap_no_new] text_calm(4) [THEN nonheap_no_new] text_calm(2) [THEN nonheap_no_new]
    lcd_calm [THEN nonheap_no_new] files_calm(1) [THEN nonheap_no_new] time_calm(3) [THEN nonheap_no_new]
    sprintf_calm [THEN nonheap_no_new]; simp)

lemma other_tasks_no_new: "extends no_new my_gp2y1014au0f_test" "extends no_new my_lm386_test" "extends no_new my_sd_card_test"
  "extends no_new log_main"
  unfolding my_gp2y1014au0f_test_def my_lm386_test_def my_sd_card_test_def log_main_def dust_body_def sound_body_def
    my_gp2y1014au0f_get_data_def my_gp2y1014au0f_get_data_avg_def my_filter_def set_buffer_def add_sum_def Let_def
  by (intro extend_intros save_no_new nonheap_no_new [OF time_calm(1)] nonheap_no_new [OF time_calm(2)]
    nonheap_no_new [OF time_calm(3)] nonheap_no_new [OF convert_calm(1)] nonheap_no_new [OF convert_calm(2)]
    nonheap_no_new [OF double_to_u8_calm] nonheap_no_new [OF pin_write_calm]; simp)+

lemma mainFunc_no_new: "extends no_new mainFunc"
proof -
  note calm = nonheap_no_new
  have r: "extends no_new (rebind_keys h1 h2)" for h1 h2
    unfolding rebind_keys_def rebind_key_def by (intro extend_intros pins_no_new)
  have m: "extends no_new reset_delay_menu" unfolding reset_delay_menu_def by (intro extend_intros) simp
  have c: "extends no_new config_delay"
    unfolding config_delay_def
    by (intro extend_intros m calm [OF text_calm(2)] calm [OF lcd_calm] calm [OF time_calm(1)]) simp
  have d: "extends no_new enter_SETTING_DELAY"
    unfolding enter_SETTING_DELAY_def
    by (intro extend_intros c r m calm [OF drawing_calm(7)] calm [OF drawing_calm(8)]; simp)
  have e: "extends no_new enter_SETTING"
    unfolding enter_SETTING_def
    by (intro extend_intros d r m calm [OF drawing_calm(5)] calm [OF drawing_calm(6)]; simp)
  have j: "extends no_new SD_CARD_eject"
    unfolding SD_CARD_eject_def
    by (intro extend_intros calm [OF text_calm(4)] calm [OF text_calm(2)] calm [OF lcd_calm] calm [OF files_calm(2)]) simp
  have t: "extends no_new DISP_DATA_task" "extends no_new TAKE_PHOTO_task"
    unfolding DISP_DATA_task_def TAKE_PHOTO_task_def my_ov7725_test_def
    by (intro extend_intros calm [OF led_calm] calm [OF text_calm(1)] calm [OF text_calm(2)]
      calm [OF text_calm(3)] calm [OF text_calm(4)] calm [OF lcd_calm] calm [OF time_calm(3)] calm [OF image_calm(1)]
      calm [OF image_calm(2)] calm [OF drawing_calm(3)]; simp)+
  show ?thesis
    unfolding mainFunc_def
    by (intro extend_intros r e j t save_no_new calm [OF drawing_calm(1)] calm [OF drawing_calm(2)] calm [OF drawing_calm(3)]
      calm [OF drawing_calm(4)] calm [OF time_calm(3)]; simp)
qed

lemma calls_no_new: "pc < 8 \<Longrightarrow> extends no_new (main_loop ! pc)"
  by (drule call_cases [where 'a = 'a]) (auto intro: hmc5883l_poll.task_no_new bme280_poll.task_no_new ltr390_poll.task_no_new
    other_tasks_no_new intro!: extends_bind [OF mainFunc_no_new] extends_prims)

lemma calls_keep_pointers:
  fixes s :: "'z app_st_scheme"
  assumes "pc < 8"
  shows "keeps pointers (main_loop ! pc :: ('z app_st_scheme, unit) state)"
proof -
  have b: "app_blind (pointers :: 'z app_st_scheme \<Rightarrow> _)"
    by (simp add: app_blind_def boot_blind_def blind_def pointers_def)
  note bl = app_blindD(2) [OF b] and calm = app_keeps(10) [OF b]
  have body: "keeps pointers (hmc5883l_body :: ('z app_st_scheme, unit) state)" "keeps pointers (bme280_body :: ('z app_st_scheme, unit) state)"
    "keeps pointers (ltr390_body :: ('z app_st_scheme, unit) state)"
    by (rule keeps_bodies [OF bl]; simp add: pointers_def)+
  have "keeps pointers (my_hmc5883l_test :: ('z app_st_scheme, unit) state)" "keeps pointers (my_bme280_test :: ('z app_st_scheme, unit) state)"
    "keeps pointers (my_ltr390_test :: ('z app_st_scheme, unit) state)"
    unfolding my_hmc5883l_test_def my_bme280_test_def my_ltr390_test_def
    by (intro keep_intros body calm [OF time_calm(3)]; simp add: pointers_def)+
  moreover have "keeps pointers (my_gp2y1014au0f_test :: ('z app_st_scheme, unit) state)"
    "keeps pointers (my_lm386_test :: ('z app_st_scheme, unit) state)" "keeps pointers (my_sd_card_test :: ('z app_st_scheme, unit) state)"
    "keeps pointers (log_main :: ('z app_st_scheme, unit) state)"
    unfolding my_gp2y1014au0f_test_def my_lm386_test_def my_sd_card_test_def log_main_def dust_body_def sound_body_def
      my_gp2y1014au0f_get_data_def my_gp2y1014au0f_get_data_avg_def my_filter_def set_buffer_def add_sum_def Let_def
    by (intro keep_intros app_keeps(2) [OF b] calm [OF time_calm(1)] calm [OF time_calm(2)] calm [OF time_calm(3)]
      calm [OF convert_calm(1)] calm [OF convert_calm(2)] calm [OF double_to_u8_calm] calm [OF pin_write_calm]; simp add: pointers_def)+
  moreover have "keeps pointers (do { _ \<leftarrow> mainFunc; ret () } :: ('z app_st_scheme, unit) state)"
    by (intro keeps_bind keeps_prims mainFunc_keeps [OF b]) (simp add: pointers_def)
  ultimately show ?thesis using call_cases [OF assms, where 'a = 'z] by auto
qed

definition dangling :: "nat \<Rightarrow> nat option list \<Rightarrow> stage \<times> 'z app_st_scheme \<Rightarrow> bool" where
  "dangling a ps p \<longleftrightarrow> (\<exists>pc. fst p = Running pc) \<and> pointers (snd p) = ps \<and> a \<notin> live (hist (snd p))"

lemma dangling_step:
  fixes p q :: "stage \<times> 'z app_st_scheme"
  assumes "app_step p q" and "dangling a ps p"
  shows "dangling a ps q"
proof -
  obtain pc s where p: "p = (Running pc, s)" "pointers s = ps" "a \<notin> live (hist s)"
    using assms(2) by (cases p) (auto simp: dangling_def)
  have b: "app_blind (pointers :: 'z app_st_scheme \<Rightarrow> _)"
    by (simp add: app_blind_def boot_blind_def blind_def pointers_def)
  show ?thesis using assms(1) unfolding p(1)
  proof (elim app_stepE; clarsimp)
    assume "pc < 8"
    then show "dangling a ps (Running (Suc pc mod 8), exec (main_loop ! pc) s)"
      using p exec_keeps [OF calls_keep_pointers, of pc s] dead_stays [OF calls_no_new p(3)] by (simp add: dangling_def)
  next
    fix l assume "l < (16 :: nat)"
    then show "dangling a ps (Running pc, exec (isr l) s)"
      using p app_blind_isr [OF b, of l s] isr_no_new [of l a s] by (simp add: dangling_def)
  next
    fix m :: "('z app_st_scheme, unit) state" assume "m = en_dbg \<or> m = dis_dbg"
    then show "dangling a ps (Running pc, exec m s)"
      using p by (auto simp: dangling_def exec_def en_dbg_def dis_dbg_def pointers_def)
  qed
qed

lemma dangling_steps: "app_step\<^sup>*\<^sup>* p q \<Longrightarrow> dangling a ps p \<Longrightarrow> dangling a ps q"
  by (induction rule: rtranclp_induct) (auto intro: dangling_step)

section \<open>A sensor that is lost\<close>

text \<open>The polls of the three sensors on the bus, their pointers, time stamps and periods.\<close>

definition bus_polls :: "(('z app_st_scheme, unit) state \<times> ('z app_st_scheme \<Rightarrow> nat option) \<times>
    ('z app_st_scheme \<Rightarrow> u32) \<times> ('z app_st_scheme \<Rightarrow> u32)) list" where
  "bus_polls = [(my_hmc5883l_test, hmc5883l, hmc5883l_prev_milli, HMC5883L_DELAY),
     (my_bme280_test, bme280, bme280_prev_milli, BME280_DELAY), (my_ltr390_test, ltr390, ltr390_prev_milli, LTR390_DELAY)]"

definition poll_due :: "('z app_st_scheme \<Rightarrow> u32) \<Rightarrow> ('z app_st_scheme \<Rightarrow> u32) \<Rightarrow> 'z app_st_scheme \<Rightarrow> bool" where
  "poll_due prev period s \<longleftrightarrow> period s \<le> tick_ms (env s) (hist s) - prev s"

lemmas due_defs = hmc5883l_task.due_def [simplified] bme280_task.due_def [simplified] ltr390_task.due_def [simplified]

lemma polls_lose:
  assumes "(poll, ptr, prev, period) \<in> set bus_polls" and "bus_dead s" and "ptr s = Some a" and "poll_due prev period s"
  shows "ptr (exec poll s) = Some a" and "a \<notin> live (hist (exec poll s))"
  using assms hmc5883l_poll.lost [of s a] bme280_poll.lost [of s a] ltr390_poll.lost [of s a]
  by (auto simp: bus_polls_def poll_due_def due_defs)

lemma polls_use:
  assumes "(poll, ptr, prev, period) \<in> set bus_polls" and "ptr s = Some a" and "a \<notin> live (hist s)" and "poll_due prev period s"
  shows "Fault (UseAfterFree a) \<in> set (drop (length (hist s)) (hist (exec poll s)))"
  using assms hmc5883l_poll.used [of s a] bme280_poll.used [of s a] ltr390_poll.used [of s a]
  by (auto simp: bus_polls_def poll_due_def due_defs)

lemma polls_pointer:
  "(poll, ptr, prev, period) \<in> set bus_polls \<Longrightarrow> pointers u = pointers t \<Longrightarrow> ptr u = ptr t"
  by (auto simp: bus_polls_def pointers_def)

text \<open>
  C5: a sensor that is lost is used after its structure has been freed. If a poll of one of the
  three sensors on the bus is due and the bus has stopped answering, the poll frees the
  sensor's structure and keeps the pointer. From then on, through any number of steps of the main
  loop, interrupts and console commands, the pointer stays set and its target stays freed;
  and every later poll that is due follows it.
\<close>

theorem lost_sensor_used_after_free:
  assumes "(poll, ptr, prev, period) \<in> set bus_polls"
    and "bus_dead s" and "ptr s = Some a" and "poll_due prev period s"
    and "app_step\<^sup>*\<^sup>* (Running pc, exec poll s) (ph, u)"
  shows "ptr u = Some a \<and> a \<notin> live (hist u) \<and>
    (poll_due prev period u \<longrightarrow> Fault (UseAfterFree a) \<in> set (drop (length (hist u)) (hist (exec poll u))))"
proof -
  note l = polls_lose [OF assms(1-4)]
  have "dangling a (pointers (exec poll s)) (ph, u)"
    by (rule dangling_steps [OF assms(5)]) (simp add: dangling_def l)
  then have same: "pointers u = pointers (exec poll s)" and d: "a \<notin> live (hist u)" by (simp_all add: dangling_def)
  have p: "ptr u = Some a" using polls_pointer [OF assms(1) same] l(1) by simp
  show ?thesis by (intro conjI impI p d polls_use [OF assms(1) p d])
qed

text \<open>The magnetometer answered during the start-up and is unplugged; a second passes with every event.\<close>

definition unplugged_board :: app_st where
  "unplugged_board = (app_reset (env0\<lparr>tick_ms := \<lambda>h. 1000 * of_nat (length h), i2c_reply := \<lambda>h b ms. (0, [])\<rparr>))
     \<lparr>hist := [Alloc 1], hmc5883l := Some 1\<rparr>"

lemma lost_sensor_used_after_free_witness:
  "Fault (UseAfterFree 1) \<in> set (hist (exec my_hmc5883l_test (exec my_hmc5883l_test unplugged_board)))"
proof -
  let ?u = "exec my_hmc5883l_test unplugged_board"
  have m: "(my_hmc5883l_test, hmc5883l, hmc5883l_prev_milli, HMC5883L_DELAY) \<in> set bus_polls" by (simp add: bus_polls_def)
  have d: "bus_dead unplugged_board" by (simp add: bus_dead_def unplugged_board_def app_reset_def env0_def)
  have p: "hmc5883l unplugged_board = Some 1" by (simp add: unplugged_board_def)
  have due: "poll_due hmc5883l_prev_milli HMC5883L_DELAY unplugged_board"
    by (simp add: poll_due_def unplugged_board_def app_reset_def env0_def)
  have "length (hist ?u) = 4 \<and> hmc5883l_prev_milli ?u = 1000 \<and> env ?u = env unplugged_board \<and> HMC5883L_DELAY ?u = 1000"
    by (simp add: exec_def my_hmc5883l_test_def hmc5883l_body_def unplugged_board_def app_reset_def env0_def
      live_def i2c_write_reg_def rt_i2c_transfer_def my_hmc5883l_get_data_def hmc_write_reg_def dev_write_reg_def on_i2c_bus_def load_i2c_def run_deref zero_i2c_device_def
      my_hmc5883l_destroy_def rt_tick_get_millisecond_def)
  then have "poll_due hmc5883l_prev_milli HMC5883L_DELAY ?u"
    by (simp add: poll_due_def unplugged_board_def env0_def app_reset_def)
  then have "Fault (UseAfterFree 1) \<in> set (drop (length (hist ?u)) (hist (exec my_hmc5883l_test ?u)))"
    using lost_sensor_used_after_free [OF m d p due rtranclp.rtrancl_refl] by blast
  then show ?thesis by (rule in_set_dropD)
qed

end
