(* ===== verification/App_Log.thy ===== *)
theory App_Log
  imports App_Frames
begin

text \<open>
  The data file: what \<open>sdcard_saveCurrData\<close> of \<open>src/applications/main.c\<close> appends to \<open>/data.csv\<close>,
  and that every line of it has the columns its title names.
\<close>

section \<open>Lines of columns\<close>

text \<open>The columns of a line, and the lines of a text whose last line is ended like all others.\<close>

fun columns :: "string \<Rightarrow> string list" where
  "columns [] = [[]]"
| "columns (c # cs) = (if c = CHR '','' then [] # columns cs
     else case columns cs of [] \<Rightarrow> [[c]] | f # fs \<Rightarrow> (c # f) # fs)"

lemma columns_not_Nil [simp]: "columns cs \<noteq> []"
  by (induction cs) (auto split: list.splits)

lemma columns_plain: "CHR '','' \<notin> set cs \<Longrightarrow> columns cs = [cs]"
  by (induction cs) auto

lemma columns_comma: "CHR '','' \<notin> set cs \<Longrightarrow> columns (cs @ CHR '','' # ds) = cs # columns ds"
  by (induction cs) auto

definition unlines :: "string list \<Rightarrow> string" where
  "unlines rs = concat (map (\<lambda>r. r @ [LF]) rs)"

lemma unlines_simps [simp]: "unlines [] = []" "unlines (r # rs) = r @ LF # unlines rs" "unlines (rs @ qs) = unlines rs @ unlines qs"
  by (simp_all add: unlines_def)

text \<open>The characters of numbers, minus, point and digits, are neither comma nor line feed.\<close>

definition is_number :: "string \<Rightarrow> bool" where
  "is_number cs \<longleftrightarrow> list_all (\<lambda>c. of_char c \<in> {45 .. 57 :: nat}) cs"

lemma is_number_simps [simp]: "is_number []" "is_number (c # cs) \<longleftrightarrow> of_char c \<in> {45 .. 57 :: nat} \<and> is_number cs"
  "is_number (as @ bs) \<longleftrightarrow> is_number as \<and> is_number bs"
  by (simp_all add: is_number_def)

lemma digit_number: "d < 10 \<Longrightarrow> is_number [digit d]"
  by (simp add: digit_value)

lemma show_nat_number: "is_number (show_nat n)"
proof (induction n rule: show_nat.induct)
  case (1 n)
  then show ?case using digit_number [of "n mod 10"] digit_number [of n] by (simp add: show_nat.simps [of n])
qed

lemma numbers: "is_number (show_int i)" "is_number (fmt_f p x)"
proof -
  have "is_number (replicate n (digit 0))" for n using digit_number [of 0] by (simp add: is_number_def list_all_length)
  then have z: "is_number (zero_pad p ds)" if "is_number ds" for ds using that by (simp add: zero_pad_def)
  show "is_number (show_int i)" by (simp add: show_int_def show_nat_number)
  show "is_number (fmt_f p x)" by (simp add: fmt_f_def Let_def z show_nat_number)
qed

lemma number_plain: assumes "is_number cs" shows "CHR '','' \<notin> set cs" "LF \<notin> set cs" "NUL \<notin> set cs"
proof -
  have "c \<in> set cs \<Longrightarrow> 45 \<le> (of_char c :: nat)" for c using assms by (simp add: is_number_def list_all_iff)
  from this [of "CHR '',''"] this [of LF] this [of NUL]
  show "CHR '','' \<notin> set cs" "LF \<notin> set cs" "NUL \<notin> set cs" by auto
qed

section \<open>What a call appends\<close>

text \<open>Events that neither open nor write a file.\<close>

fun off_card :: "ev \<Rightarrow> bool" where
  "off_card (FileOpen p fs fd) = False"
| "off_card (FileWrite fd cs) = False"
| "off_card (FileClose fd) = False"
| "off_card _ = True"

text \<open>The results of the attempts to open a file.\<close>

definition opens :: "ev list \<Rightarrow> int list" where
  "opens h = List.map_filter (\<lambda>e. case e of FileOpen p fs fd \<Rightarrow> Some fd | _ \<Rightarrow> None) h"

lemma off_card_opens: "list_all off_card es \<Longrightarrow> opens es = []"
proof (induction es)
  case (Cons e es)
  then show ?case by (cases e) (simp_all add: opens_def List.map_filter_def)
qed (simp add: opens_def List.map_filter_def)

lemma off_card_files: "list_all off_card es \<Longrightarrow> files_of (h @ es) = files_of h"
proof (induction es arbitrary: h)
  case (Cons e es)
  then have "off_card e" "files_of ((h @ [e]) @ es) = files_of (h @ [e])" by (simp_all del: append_assoc files_of_snoc)
  then show ?case by (cases e) simp_all
qed simp

lemma opens_append: "opens (g @ h) = opens g @ opens h"
  by (simp add: opens_def List.map_filter_def)

text \<open>
  \<open>logs rs m\<close>: the operation tries to open the data file once for each of the lines \<open>rs\<close> and
  appends the line if that succeeds.
\<close>

definition accepted :: "int list \<Rightarrow> string list \<Rightarrow> string list" where
  "accepted fds rs = map snd (filter (\<lambda>(fd, r). 0 \<le> fd) (zip fds rs))"

definition logged :: "string list \<Rightarrow> 'z board_scheme \<Rightarrow> 'z board_scheme \<Rightarrow> bool" where
  "logged rs s t \<longleftrightarrow> (\<exists>es. hist t = hist s @ es \<and> env t = env s \<and> length (opens es) = length rs \<and>
     (\<forall>fd\<in>set (opens es). \<exists>h. fd = open_result (env s) h ''/data.csv'') \<and>
     file_text ''/data.csv'' (hist t) = file_text ''/data.csv'' (hist s) @ unlines (accepted (opens es) rs) \<and>
     ((\<exists>fd\<in>set (opens es). 0 \<le> fd) \<longrightarrow> Fault BufferOverrun \<in> set es))"

lemma logged_trans:
  assumes "logged rs s t" and "logged qs t u"
  shows "logged (rs @ qs) s u"
proof -
  obtain es where es: "hist t = hist s @ es" "env t = env s" "length (opens es) = length rs"
    "file_text ''/data.csv'' (hist t) = file_text ''/data.csv'' (hist s) @ unlines (accepted (opens es) rs)"
    and es': "\<forall>fd\<in>set (opens es). \<exists>h. fd = open_result (env s) h ''/data.csv''"
    "(\<exists>fd\<in>set (opens es). 0 \<le> fd) \<longrightarrow> Fault BufferOverrun \<in> set es"
    using assms(1) unfolding logged_def by blast
  obtain fs where fs: "hist u = hist t @ fs" "env u = env t" "length (opens fs) = length qs"
    "file_text ''/data.csv'' (hist u) = file_text ''/data.csv'' (hist t) @ unlines (accepted (opens fs) qs)"
    and fs': "\<forall>fd\<in>set (opens fs). \<exists>h. fd = open_result (env t) h ''/data.csv''"
    "(\<exists>fd\<in>set (opens fs). 0 \<le> fd) \<longrightarrow> Fault BufferOverrun \<in> set fs"
    using assms(2) unfolding logged_def by blast
  have "(\<exists>fd\<in>set (opens (es @ fs)). 0 \<le> fd) \<longrightarrow> Fault BufferOverrun \<in> set (es @ fs)"
    "\<forall>fd\<in>set (opens (es @ fs)). \<exists>h. fd = open_result (env s) h ''/data.csv''"
    using es' fs' es(2) by (auto simp: opens_append)
  with es fs show ?thesis
    unfolding logged_def by (intro exI [of _ "es @ fs"]) (simp add: opens_append accepted_def)
qed

lemma logged_events: "list_all off_card es \<Longrightarrow> logged [] s (s\<lparr>hist := hist s @ es\<rparr>)"
  by (auto simp: logged_def accepted_def off_card_opens off_card_files file_text_def)

lemma logged_quiet: "appends off_card m \<Longrightarrow> logged [] s (snd (run_state m s))"
  by (metis appendsD logged_events prod.collapse)

lemma opens_append_events: "opens (append_events fd cs n) = [fd]"
  by (simp add: opens_def append_events_def List.map_filter_def)

lemma logged_append:
  assumes "NUL \<notin> set r"
  shows "logged [r] s (snd (run_state (sdcard_appendNewData (r @ [LF]) (length r + 1)) s))"
proof -
  let ?fd = "open_result (env s) (hist s) ''/data.csv''"
  have "Fault BufferOverrun \<in> set (append_events ?fd (r @ [LF]) n)" if "0 \<le> ?fd" for n
    using assms that by (simp add: append_events_def)
  then show ?thesis
    unfolding logged_def run_append
    by (intro exI [of _ "append_events ?fd (r @ [LF]) (length r + 1)"]) (auto simp: append_text opens_append_events accepted_def)
qed

lemma logged_modify: "hist (f s) = hist s \<Longrightarrow> env (f s) = env s \<Longrightarrow> logged [] s (f s)"
  by (simp add: logged_def accepted_def opens_def List.map_filter_def)

section \<open>Saving\<close>

text \<open>The nine columns of a line of readings.\<close>

definition readings :: "(real \<Rightarrow> real) \<Rightarrow> u32 \<Rightarrow> 'z app_st_scheme \<Rightarrow> string list" where
  "readings r t s = [show_int (sint t), fmt_f 6 (hmc5883l_heading s), fmt_f 6 (temperature (bme280_rawData s)),
     fmt_f 6 (humidity (bme280_rawData s)), fmt_f 6 (r (pressure (bme280_rawData s) / 100)),
     show_int (uint (uvi (ltr390_rawData s))), fmt_f 6 (lux (ltr390_rawData s)), fmt_f 6 (gp2y1014au0f_rawData s),
     fmt_f 6 (lm386_rawData s)]"

lemma columns_number: "is_number cs \<Longrightarrow> columns (cs @ '','' @ ds) = cs # columns ds" "is_number cs \<Longrightarrow> columns cs = [cs]"
  by (simp_all add: columns_comma columns_plain number_plain(1))

lemma columns_line: "columns (data_line r t s) = readings r t s"
  unfolding data_line_def readings_def
  by ((subst columns_number(1), rule numbers)+, subst columns_number(2), rule numbers, rule refl)

definition one_line :: "string \<Rightarrow> bool" where
  "one_line cs \<longleftrightarrow> LF \<notin> set cs \<and> NUL \<notin> set cs"

lemma one_line_rules: "one_line as \<Longrightarrow> one_line bs \<Longrightarrow> one_line (as @ bs)" "one_line '',''" "is_number cs \<Longrightarrow> one_line cs"
  by (simp_all add: one_line_def number_plain)

lemma line_plain: "one_line (data_line r t s)"
  unfolding data_line_def by (intro one_line_rules(1,2) one_line_rules(3) [OF numbers(1)] one_line_rules(3) [OF numbers(2)])

lemma title_columns: "columns csv_title = [''Time in Millisecond'', ''Heading'', ''Temperature'', ''Humidity'',
    ''Baro Pressure'', ''UV Index'', ''Luminance'', ''PM2.5'', ''Sound'']"
  by simp

lemma off_card_frames:
  "appends off_card (led_embedded_color c)" "appends off_card (style f x)" "appends off_card (line_EN n cs)" "appends off_card (lcd d)"
  "appends off_card rt_tick_get_millisecond" "appends off_card (sprintf k cs)"
proof -
  show "appends off_card (led_embedded_color c)"
    by (rule appends_mono [OF appends_led_embedded_color]) auto
  show "appends off_card (style f x)" "appends off_card (line_EN n cs)" "appends off_card (lcd d)"
    "appends off_card rt_tick_get_millisecond" "appends off_card (sprintf k cs)"
    unfolding style_def line_EN_def LINE_def lcd_def rt_tick_get_millisecond_def sprintf_def fault_def
    by (intro frame_intros; simp)+
qed

text \<open>The lines a call tries to save.\<close>

definition pending :: "(real \<Rightarrow> real) \<Rightarrow> u32 \<Rightarrow> 'z app_st_scheme \<Rightarrow> string list" where
  "pending r t s = (if isFirstSave s then [csv_title] else []) @ [data_line r t s]"

lemma pending_columns: "q \<in> set (pending r t s) \<Longrightarrow> length (columns q) = 9 \<and> LF \<notin> set q"
  using line_plain [of r t s] by (auto simp: pending_def columns_line title_columns one_line_def readings_def split: if_splits)

lemma logged_bind:
  fixes s u :: "'z board_scheme"
  assumes "logged rs s (snd (run_state m s))" and "logged qs (snd (run_state m s)) (snd (run_state (f (fst (run_state m s))) (snd (run_state m s))))"
  shows "logged (rs @ qs) s (snd (run_state (m \<bind> f) s))"
  unfolding snd_run_bind using assms by (rule logged_trans)

text \<open>The second half of the function: the line of readings.\<close>

definition save_line :: "('z app_st_scheme, unit) state" where
  "save_line = do {
     t \<leftarrow> rt_tick_get_millisecond;
     r \<leftarrow> ask (\<lambda>e h. rnd e);
     text \<leftarrow> gets (data_line r t);
     dataBlock \<leftarrow> sprintf (9 * 32) text;
     sdcard_appendNewData (dataBlock @ [LF]) (length dataBlock + 1);
     led_embedded_color LED_GREEN;
     lcd (LCD_SetTextColor ''CL_GREEN'');
     line_EN 13 ''     Saving current data succeeded!     ''
   }"

definition finish_save :: "string \<Rightarrow> ('z app_st_scheme, unit) state" where
  "finish_save dataBlock = do {
     sdcard_appendNewData (dataBlock @ [LF]) (length dataBlock + 1);
     led_embedded_color LED_GREEN;
     lcd (LCD_SetTextColor ''CL_GREEN'');
     line_EN 13 ''     Saving current data succeeded!     ''
   }"

lemma append_logged: "one_line r \<Longrightarrow> appends off_card m \<Longrightarrow>
    logged [r] s (snd (run_state (do { sdcard_appendNewData (r @ [LF]) (length r + 1); m }) s))"
  using logged_bind [where f = "\<lambda>_. m", OF logged_append logged_quiet] by (simp add: one_line_def)

lemma save_line_logged:
  fixes s :: "'z app_st_scheme"
  shows "logged [data_line (rnd (env s)) (tick_ms (env s) (hist s)) s] s (snd (run_state save_line s))"
proof -
  define line where "line = data_line (rnd (env s)) (tick_ms (env s) (hist s)) s"
  define u where "u = s\<lparr>hist := hist s @ Tick (tick_ms (env s) (hist s)) # (if length line \<ge> 288 then [Fault BufferOverrun] else [])\<rparr>"
  have "data_line r t (s\<lparr>hist := h\<rparr>) = data_line r t s" for r t h by (simp add: data_line_def)
  then have "run_state save_line s = run_state (finish_save line) u"
    by (simp add: save_line_def finish_save_def rt_tick_get_millisecond_def run_sprintf u_def flip: line_def)
  moreover have "logged [] s u"
    unfolding u_def by (rule logged_events) simp
  moreover have "logged [line] u (snd (run_state (finish_save line) u))"
    unfolding finish_save_def line_def
    by (intro append_logged line_plain appends_bind off_card_frames)
  ultimately show ?thesis using logged_trans [of "[]" s u "[line]"] by (simp add: line_def)
qed

definition save_title :: "('z app_st_scheme, unit) state" where
  "save_title = do {
     led_embedded_color LED_BLUE;
     style Font8x16 ''CL_YELLOW'';
     line_EN 13 ''         Saving current data...         '';
     first \<leftarrow> gets isFirstSave;
     when_true first (do {
       modify (\<lambda>s. s\<lparr>isFirstSave := False\<rparr>);
       sdcard_appendNewData (csv_title @ [LF]) (length csv_title + 1)
     })
   }"

lemma save_halves: "sdcard_saveCurrData = do { save_title; save_line }"
  by (simp add: sdcard_saveCurrData_def save_title_def save_line_def)

lemma title_one_line: "one_line csv_title"
  by (simp add: one_line_def)

text \<open>The first half changes the flag and nothing the line is made of.\<close>

lemma save_title_logged:
  fixes s :: "'z app_st_scheme"
  defines "t \<equiv> snd (run_state save_title s)"
  shows "logged (if isFirstSave s then [csv_title] else []) s t" and "env t = env s" and "data_line r now t = data_line r now s"
    and "\<not> isFirstSave t"
proof -
  define head where "head = (do { led_embedded_color LED_BLUE; style Font8x16 ''CL_YELLOW'';
     line_EN 13 ''         Saving current data...         '' } :: ('z app_st_scheme, unit) state)"
  define u where "u = snd (run_state head s)"
  have head: "appends off_card head" unfolding head_def by (intro appends_bind off_card_frames)
  obtain es where es: "u = s\<lparr>hist := hist s @ es\<rparr>" using appendsD [OF head prod.collapse [symmetric], of s] u_def by blast
  have su: "logged [] s u" unfolding u_def by (rule logged_quiet [OF head])
  define v where "v = u\<lparr>isFirstSave := False\<rparr>"
  have t: "t = (if isFirstSave s then snd (run_state (sdcard_appendNewData (csv_title @ [LF]) (length csv_title + 1)) v) else u)"
  proof -
    have halves: "save_title = head \<bind> (\<lambda>_. gets isFirstSave \<bind> (\<lambda>first. when_true first (do {
        modify (\<lambda>s. s\<lparr>isFirstSave := False\<rparr>); sdcard_appendNewData (csv_title @ [LF]) (length csv_title + 1) })))"
      by (simp only: save_title_def head_def bind_assoc)
    have "t = snd (run_state (gets isFirstSave \<bind> (\<lambda>first. when_true first (do {
        modify (\<lambda>s. s\<lparr>isFirstSave := False\<rparr>); sdcard_appendNewData (csv_title @ [LF]) (length csv_title + 1) }))) u)"
      unfolding t_def u_def halves by (rule snd_run_bind)
    then show ?thesis by (simp add: es v_def)
  qed
  have "logged [] u v" unfolding v_def by (rule logged_modify) simp_all
  then have "logged [csv_title] u (snd (run_state (sdcard_appendNewData (csv_title @ [LF]) (length csv_title + 1)) v))"
    using logged_trans [of "[]" u v "[csv_title]"] logged_append [of csv_title v] title_one_line by (simp add: one_line_def)
  then show "logged (if isFirstSave s then [csv_title] else []) s t"
    using su logged_trans [OF su] by (simp add: t)
  show "env t = env s" "data_line r now t = data_line r now s" "\<not> isFirstSave t"
    using es by (auto simp: t v_def run_append data_line_def)
qed

text \<open>The message of success, as the last thing the function does.\<close>

definition success_shown :: "ev list \<Rightarrow> bool" where
  "success_shown h \<longleftrightarrow> (\<exists>g y. h = g @ [Lcd (ILI9341_DispStringLine_EN y ''     Saving current data succeeded!     '')])"

lemma shows_after: "(\<And>x s. success_shown (hist (snd (run_state (f x) s)))) \<Longrightarrow> success_shown (hist (snd (run_state (m \<bind> f) s)))"
  unfolding snd_run_bind .

lemma save_shows_success: "success_shown (hist (snd (run_state sdcard_saveCurrData s)))"
proof -
  have "success_shown (hist (snd (run_state (line_EN 13 ''     Saving current data succeeded!     '') s)))" for s :: "'b board_scheme"
    by (auto simp: line_EN_def LINE_def lcd_def success_shown_def)
  then show ?thesis unfolding sdcard_saveCurrData_def by (intro shows_after)
qed

text \<open>
  C15: what saving does. A call tries to open the data file for the title, if it is the first
  call, and for one line of readings, and appends each of them for which that succeeds, ended with a line feed.
  The title and the line have the same nine columns, the line's being the time stamp and the eight readings
  shown on the screen. The title is never tried again, and success is reported in any
  case. Whenever something is written, printing it for the log has read past the end of its text.
\<close>

theorem saving_appends_columns:
  assumes "run_state sdcard_saveCurrData s = (x, t)"
  shows "\<exists>time. logged (pending (rnd (env s)) time s) s t \<and> \<not> isFirstSave t \<and> success_shown (hist t) \<and>
    list_all (\<lambda>q. length (columns q) = length (columns csv_title) \<and> LF \<notin> set q) (pending (rnd (env s)) time s) \<and>
    columns (last (pending (rnd (env s)) time s)) = readings (rnd (env s)) time s"
proof -
  define u where "u = snd (run_state save_title s)"
  define time where "time = tick_ms (env u) (hist u)"
  note u = save_title_logged(2-4) [where s = s, folded u_def]
  have t: "t = snd (run_state save_line u)" using assms by (simp add: save_halves u_def split_beta)
  have "data_line (rnd (env u)) time u = data_line (rnd (env s)) time s" by (simp add: u)
  then have "logged (pending (rnd (env s)) time s) s t"
    using logged_trans [OF save_title_logged(1) [of s, folded u_def] save_line_logged] by (simp add: t pending_def time_def)
  moreover have "\<not> isFirstSave t"
  proof -
    have "keeps isFirstSave (save_line :: ('a app_st_scheme, unit) state)"
      unfolding save_line_def
      by (intro keep_intros appends_keeps [OF led_calm] appends_keeps [OF text_calm(2)] appends_keeps [OF lcd_calm]
        appends_keeps [OF files_calm(1)] appends_keeps [OF time_calm(3)] appends_keeps [OF sprintf_calm]; simp)
    then show ?thesis by (simp add: keeps_def t u)
  qed
  moreover have "success_shown (hist t)" using save_shows_success [of s] assms by simp
  moreover have "list_all (\<lambda>q. length (columns q) = length (columns csv_title) \<and> LF \<notin> set q) (pending (rnd (env s)) time s)"
    using pending_columns [of _ "rnd (env s)" time s] by (auto simp: list_all_iff title_columns)
  moreover have "columns (last (pending (rnd (env s)) time s)) = readings (rnd (env s)) time s"
    by (simp add: pending_def columns_line)
  ultimately show ?thesis by blast
qed

text \<open>Without a card the first save writes nothing, uses up the title and reports success.\<close>

lemma saving_appends_columns_witness:
  "\<exists>t. run_state sdcard_saveCurrData (app_reset (env0\<lparr>open_result := \<lambda>h p. - 1\<rparr>)) = ((), t) \<and>
     file_text ''/data.csv'' (hist t) = [] \<and> \<not> isFirstSave t \<and> success_shown (hist t)"
proof -
  let ?s = "app_reset (env0\<lparr>open_result := \<lambda>h p. - 1\<rparr>)"
  obtain t where t: "run_state sdcard_saveCurrData ?s = ((), t)" by (metis old.unit.exhaust prod.exhaust)
  obtain time where l: "logged (pending (rnd (env ?s)) time ?s) ?s t" "\<not> isFirstSave t" "success_shown (hist t)"
    using saving_appends_columns [OF t] by blast
  have "accepted fds rs = []" if "\<forall>fd\<in>set fds. fd = - 1" for fds rs
    using that by (auto simp: accepted_def filter_empty_conv dest!: set_zip_leftD)
  moreover obtain es where "\<forall>fd\<in>set (opens es). fd = - 1"
    "file_text ''/data.csv'' (hist t) = file_text ''/data.csv'' (hist ?s) @ unlines (accepted (opens es) (pending (rnd (env ?s)) time ?s))"
    using l(1) by (auto simp: logged_def app_reset_def env0_def)
  moreover have "file_text ''/data.csv'' (hist ?s) = []" by (simp add: app_reset_def file_text_def no_files_def)
  ultimately show ?thesis using t l(2,3) by simp
qed

end
