(* ===== verification/Lcd.thy ===== *)
theory Lcd
  imports Prelude
begin

text \<open>
  \<open>src/applications/bsp_lcd_ili9341.c\<close>: the display driver. A state holds the driver's static variables
  and \<open>bus\<close>, everything it has written to the display's command and data ports. Values
  read back are a function \<open>reply\<close> of that. The table of a font is a pointer: the bytes
  from there on.
\<close>

section \<open>State\<close>

datatype bus_ev =
    Cmd u16
  | Data u16
  | DataRead
  | LcdPin nat nat bool
  | LcdDelay nat
  | LcdGpioInit nat "nat list" bool
  | LcdSramInit

text \<open>A font: the glyphs of the characters from the blank on, row by row, eight pixels to a byte.\<close>

record sFONT =
  table :: "nat \<Rightarrow> u8"
  Width :: u16
  Height :: u16

record lcd_st =
  bus :: "bus_ev list"
  reply :: "bus_ev list \<Rightarrow> u16"
  LCD_X_LENGTH :: u16
  LCD_Y_LENGTH :: u16
  LCD_SCAN_MODE :: u8
  lcdid :: u16
  LCD_Currentfonts :: sFONT
  CurrentTextColor :: u16
  CurrentBackColor :: u16

definition ILI9341_LESS_PIXEL :: u16 where "ILI9341_LESS_PIXEL = 240"
definition ILI9341_MORE_PIXEL :: u16 where "ILI9341_MORE_PIXEL = 320"

abbreviation (input) CMD_SetCoordinateX :: u16 where "CMD_SetCoordinateX \<equiv> 0x2A"
abbreviation (input) CMD_SetCoordinateY :: u16 where "CMD_SetCoordinateY \<equiv> 0x2B"
abbreviation (input) CMD_SetPixel :: u16 where "CMD_SetPixel \<equiv> 0x2C"

abbreviation (input) LCDID_UNKNOWN :: u16 where "LCDID_UNKNOWN \<equiv> 0"
abbreviation (input) LCDID_ILI9341 :: u16 where "LCDID_ILI9341 \<equiv> 0x9341"
abbreviation (input) LCDID_ST7789V :: u16 where "LCDID_ST7789V \<equiv> 0x8552"

text \<open>The initial values of the variables.\<close>

definition lcd_reset :: "(bus_ev list \<Rightarrow> u16) \<Rightarrow> sFONT \<Rightarrow> lcd_st" where
  "lcd_reset r font8x16 = \<lparr>bus = [], reply = r, LCD_X_LENGTH = ILI9341_LESS_PIXEL, LCD_Y_LENGTH = ILI9341_MORE_PIXEL,
     LCD_SCAN_MODE = 6, lcdid = LCDID_UNKNOWN, LCD_Currentfonts = font8x16, CurrentTextColor = 0x0000, CurrentBackColor = 0xFFFF\<rparr>"

section \<open>The ports\<close>

definition put :: "bus_ev \<Rightarrow> ('z lcd_st_scheme, unit) state" where
  "put e = modify (\<lambda>s. s\<lparr>bus := bus s @ [e]\<rparr>)"

definition ILI9341_Write_Cmd :: "u16 \<Rightarrow> ('z lcd_st_scheme, unit) state" where
  "ILI9341_Write_Cmd usCmd = put (Cmd usCmd)"

definition ILI9341_Write_Data :: "u16 \<Rightarrow> ('z lcd_st_scheme, unit) state" where
  "ILI9341_Write_Data usData = put (Data usData)"

definition ILI9341_Read_Data :: "('z lcd_st_scheme, u16) state" where
  "ILI9341_Read_Data = do { v \<leftarrow> gets (\<lambda>s. reply s (bus s)); put DataRead; ret v }"

definition ILI9341_Delay :: "nat \<Rightarrow> ('z lcd_st_scheme, unit) state" where
  "ILI9341_Delay nCount = put (LcdDelay nCount)"

section \<open>Start-up\<close>

abbreviation (input) LCD_GPIOD :: nat where "LCD_GPIOD \<equiv> 3"
abbreviation (input) LCD_GPIOE :: nat where "LCD_GPIOE \<equiv> 4"

text \<open>The flag of a pin set-up says whether the pins are those of the memory controller.\<close>

definition ILI9341_GPIO_Config :: "('z lcd_st_scheme, unit) state" where
  "ILI9341_GPIO_Config = do {
     put (LcdGpioInit LCD_GPIOD [12] False);
     put (LcdGpioInit LCD_GPIOE [1] False);
     put (LcdGpioInit LCD_GPIOD [0, 1, 4, 5, 7, 8, 9, 10, 11, 14, 15] True);
     put (LcdGpioInit LCD_GPIOE [7, 8, 9, 10, 11, 12, 13, 14, 15] True)
   }"

definition ILI9341_FSMC_Config :: "('z lcd_st_scheme, unit) state" where
  "ILI9341_FSMC_Config = do { ILI9341_GPIO_Config; put LcdSramInit }"

definition ILI9341_BackLed_Control :: "bool \<Rightarrow> ('z lcd_st_scheme, unit) state" where
  "ILI9341_BackLed_Control enumState =
     (if enumState then put (LcdPin LCD_GPIOD 12 False) else put (LcdPin LCD_GPIOD 12 True))"

text \<open>Two reads combined into one identifier; the first two reads are discarded.\<close>

definition read_id :: "u16 \<Rightarrow> ('z lcd_st_scheme, u16) state" where
  "read_id usCmd = do {
     ILI9341_Write_Cmd usCmd;
     ILI9341_Read_Data;
     ILI9341_Read_Data;
     hi \<leftarrow> ILI9341_Read_Data;
     lo \<leftarrow> ILI9341_Read_Data;
     ret (push_bit 8 hi OR lo)
   }"

definition ILI9341_ReadID :: "('z lcd_st_scheme, u16) state" where
  "ILI9341_ReadID = do {
     id \<leftarrow> read_id 0x04;
     if id = LCDID_ST7789V then ret id
     else do {
       id \<leftarrow> read_id 0xD3;
       ret (if id = LCDID_ILI9341 then id else LCDID_UNKNOWN)
     }
   }"

definition ILI9341_Rst :: "('z lcd_st_scheme, unit) state" where
  "ILI9341_Rst = do {
     put (LcdPin LCD_GPIOE 1 False);
     ILI9341_Delay 0xAFF;
     put (LcdPin LCD_GPIOE 1 True);
     ILI9341_Delay 0xAFF
   }"

text \<open>The tables of commands and their data, up to leaving the sleep mode.\<close>

definition ili9341_regs :: "(u16 \<times> u16 list) list" where
  "ili9341_regs = [
     (0xCF, [0x00, 0x81, 0x30]), (0xED, [0x64, 0x03, 0x12, 0x81]), (0xE8, [0x85, 0x10, 0x78]),
     (0xCB, [0x39, 0x2C, 0x00, 0x34, 0x06]), (0xF7, [0x20]), (0xEA, [0x00, 0x00]), (0xB1, [0x00, 0x1B]),
     (0xB6, [0x0A, 0xA2]), (0xC0, [0x35]), (0xC1, [0x11]), (0xC5, [0x45, 0x45]), (0xC7, [0xA2]), (0xF2, [0x00]),
     (0x26, [0x01]),
     (0xE0, [0x0F, 0x26, 0x24, 0x0B, 0x0E, 0x09, 0x54, 0xA8, 0x46, 0x0C, 0x17, 0x09, 0x0F, 0x07, 0x00]),
     (0xE1, [0x00, 0x19, 0x1B, 0x04, 0x10, 0x07, 0x2A, 0x47, 0x39, 0x03, 0x06, 0x06, 0x30, 0x38, 0x0F]),
     (0x36, [0xC8]), (CMD_SetCoordinateX, [0x00, 0x00, 0x00, 0xEF]), (CMD_SetCoordinateY, [0x00, 0x00, 0x01, 0x3F]),
     (0x3A, [0x55])]"

definition st7789v_regs :: "(u16 \<times> u16 list) list" where
  "st7789v_regs = [
     (0xCF, [0x00, 0xC1, 0x30]), (0xED, [0x64, 0x03, 0x12, 0x81]), (0xE8, [0x85, 0x10, 0x78]),
     (0xCB, [0x39, 0x2C, 0x00, 0x34, 0x02]), (0xF7, [0x20]), (0xEA, [0x00, 0x00]), (0xC0, [0x21]), (0xC1, [0x11]),
     (0xC5, [0x2D, 0x33]), (0x36, [0x00]), (0x3A, [0x55]), (0xB1, [0x00, 0x17]), (0xB6, [0x0A, 0xA2]),
     (0xF6, [0x01, 0x30]), (0xF2, [0x00]), (0x26, [0x01]),
     (0xE0, [0xD0, 0x00, 0x02, 0x07, 0x0B, 0x1A, 0x31, 0x54, 0x40, 0x29, 0x12, 0x12, 0x12, 0x17]),
     (0xE1, [0xD0, 0x00, 0x02, 0x07, 0x05, 0x25, 0x2D, 0x44, 0x45, 0x1C, 0x18, 0x16, 0x1C, 0x1D])]"

definition write_table :: "(u16 \<times> u16 list) list \<Rightarrow> ('z lcd_st_scheme, unit) state" where
  "write_table regs = for_each regs (\<lambda>(c, ds). do { ILI9341_Write_Cmd c; for_each ds ILI9341_Write_Data })"

definition sleep_out :: "('z lcd_st_scheme, unit) state" where
  "sleep_out = do { ILI9341_Write_Cmd 0x11; ILI9341_Delay 0x2BFFC; ILI9341_Write_Cmd 0x29 }"

definition ILI9341_REG_Config :: "('z lcd_st_scheme, unit) state" where
  "ILI9341_REG_Config = do {
     id \<leftarrow> ILI9341_ReadID;
     modify (\<lambda>s. s\<lparr>lcdid := id\<rparr>);
     if id = LCDID_ILI9341 then do { write_table ili9341_regs; sleep_out }
     else if id = LCDID_ST7789V then do { write_table st7789v_regs; sleep_out; ILI9341_Write_Cmd CMD_SetPixel }
     else ret ()
   }"

definition high_byte :: "int \<Rightarrow> u16" where "high_byte v = word_of_int (v div 256)"
definition low_byte_of :: "int \<Rightarrow> u16" where "low_byte_of v = word_of_int (v mod 256)"

text \<open>The parameter of 0x36 is one byte in the code's arithmetic: three bits of the mode above five others.\<close>

definition scan_axes :: "('z lcd_st_scheme, unit) state" where
  "scan_axes = do {
     x \<leftarrow> gets LCD_X_LENGTH;
     y \<leftarrow> gets LCD_Y_LENGTH;
     ILI9341_Write_Cmd CMD_SetCoordinateX;
     for_each [0, 0, high_byte (uint x - 1) AND 0xFF, low_byte_of (uint x - 1)] ILI9341_Write_Data;
     ILI9341_Write_Cmd CMD_SetCoordinateY;
     for_each [0, 0, high_byte (uint y - 1) AND 0xFF, low_byte_of (uint y - 1)] ILI9341_Write_Data;
     ILI9341_Write_Cmd CMD_SetPixel
   }"

definition ILI9341_GramScan :: "u8 \<Rightarrow> ('z lcd_st_scheme, unit) state" where
  "ILI9341_GramScan ucOption =
     (if ucOption > 7 then ret ()
      else do {
        modify (\<lambda>s. s\<lparr>LCD_SCAN_MODE := ucOption\<rparr>);
        (if ucOption mod 2 = 0
         then modify (\<lambda>s. s\<lparr>LCD_X_LENGTH := ILI9341_LESS_PIXEL, LCD_Y_LENGTH := ILI9341_MORE_PIXEL\<rparr>)
         else modify (\<lambda>s. s\<lparr>LCD_X_LENGTH := ILI9341_MORE_PIXEL, LCD_Y_LENGTH := ILI9341_LESS_PIXEL\<rparr>));
        ILI9341_Write_Cmd 0x36;
        id \<leftarrow> gets lcdid;
        (if id = LCDID_ILI9341 then ILI9341_Write_Data (0x08 OR push_bit 5 (ucast ucOption))
         else if id = LCDID_ST7789V then ILI9341_Write_Data (0x00 OR push_bit 5 (ucast ucOption))
         else ret ());
        scan_axes
      })"

definition ILI9341_Init :: "('z lcd_st_scheme, unit) state" where
  "ILI9341_Init = do {
     ILI9341_GPIO_Config;
     ILI9341_FSMC_Config;
     ILI9341_BackLed_Control True;
     ILI9341_Rst;
     ILI9341_REG_Config;
     m \<leftarrow> gets LCD_SCAN_MODE;
     ILI9341_GramScan m
   }"

section \<open>Windows and pixels\<close>

text \<open>Sums of coordinates are computed in \<open>int\<close>, and cut to 16 bits when they are written.\<close>

definition ILI9341_OpenWindow :: "u16 \<Rightarrow> u16 \<Rightarrow> u16 \<Rightarrow> u16 \<Rightarrow> ('z lcd_st_scheme, unit) state" where
  "ILI9341_OpenWindow usX usY usWidth usHeight = do {
     ILI9341_Write_Cmd CMD_SetCoordinateX;
     ILI9341_Write_Data (high_byte (uint usX));
     ILI9341_Write_Data (low_byte_of (uint usX));
     ILI9341_Write_Data (high_byte (uint usX + uint usWidth - 1));
     ILI9341_Write_Data (low_byte_of (uint usX + uint usWidth - 1));
     ILI9341_Write_Cmd CMD_SetCoordinateY;
     ILI9341_Write_Data (high_byte (uint usY));
     ILI9341_Write_Data (low_byte_of (uint usY));
     ILI9341_Write_Data (high_byte (uint usY + uint usHeight - 1));
     ILI9341_Write_Data (low_byte_of (uint usY + uint usHeight - 1))
   }"

definition ILI9341_SetCursor :: "u16 \<Rightarrow> u16 \<Rightarrow> ('z lcd_st_scheme, unit) state" where
  "ILI9341_SetCursor usX usY = ILI9341_OpenWindow usX usY 1 1"

definition ILI9341_FillColor :: "u32 \<Rightarrow> u16 \<Rightarrow> ('z lcd_st_scheme, unit) state" where
  "ILI9341_FillColor ulAmout_Point usColor = do {
     ILI9341_Write_Cmd CMD_SetPixel;
     for_each [0..<unat ulAmout_Point] (\<lambda>i. ILI9341_Write_Data usColor)
   }"

definition ILI9341_Clear :: "u16 \<Rightarrow> u16 \<Rightarrow> u16 \<Rightarrow> u16 \<Rightarrow> ('z lcd_st_scheme, unit) state" where
  "ILI9341_Clear usX usY usWidth usHeight = do {
     ILI9341_OpenWindow usX usY usWidth usHeight;
     c \<leftarrow> gets CurrentBackColor;
     ILI9341_FillColor (word_of_int (uint usWidth * uint usHeight)) c
   }"

definition ILI9341_SetPointPixel :: "u16 \<Rightarrow> u16 \<Rightarrow> ('z lcd_st_scheme, unit) state" where
  "ILI9341_SetPointPixel usX usY = do {
     x \<leftarrow> gets LCD_X_LENGTH;
     y \<leftarrow> gets LCD_Y_LENGTH;
     when_true (usX < x \<and> usY < y) (do {
       ILI9341_SetCursor usX usY;
       c \<leftarrow> gets CurrentTextColor;
       ILI9341_FillColor 1 c
     })
   }"

definition ILI9341_Read_PixelData :: "('z lcd_st_scheme, u16) state" where
  "ILI9341_Read_PixelData = do {
     ILI9341_Write_Cmd 0x2E;
     ILI9341_Read_Data;
     usRG \<leftarrow> ILI9341_Read_Data;
     usB \<leftarrow> ILI9341_Read_Data;
     ret ((usRG AND 0xF800) OR (push_bit 3 usRG AND 0x7E0) OR drop_bit 11 usB)
   }"

definition ILI9341_GetPointPixel :: "u16 \<Rightarrow> u16 \<Rightarrow> ('z lcd_st_scheme, u16) state" where
  "ILI9341_GetPointPixel usX usY = do { ILI9341_SetCursor usX usY; ILI9341_Read_PixelData }"

section \<open>Fonts and colours\<close>

definition LCD_SetFont :: "sFONT \<Rightarrow> ('z lcd_st_scheme, unit) state" where
  "LCD_SetFont fonts = modify (\<lambda>s. s\<lparr>LCD_Currentfonts := fonts\<rparr>)"

definition LCD_GetFont :: "('z lcd_st_scheme, sFONT) state" where
  "LCD_GetFont = gets LCD_Currentfonts"

definition LCD_SetColors :: "u16 \<Rightarrow> u16 \<Rightarrow> ('z lcd_st_scheme, unit) state" where
  "LCD_SetColors TextColor BackColor = modify (\<lambda>s. s\<lparr>CurrentTextColor := TextColor, CurrentBackColor := BackColor\<rparr>)"

definition LCD_GetColors :: "('z lcd_st_scheme, u16 \<times> u16) state" where
  "LCD_GetColors = gets (\<lambda>s. (CurrentTextColor s, CurrentBackColor s))"

definition LCD_SetTextColor :: "u16 \<Rightarrow> ('z lcd_st_scheme, unit) state" where
  "LCD_SetTextColor Color = modify (\<lambda>s. s\<lparr>CurrentTextColor := Color\<rparr>)"

definition LCD_SetBackColor :: "u16 \<Rightarrow> ('z lcd_st_scheme, unit) state" where
  "LCD_SetBackColor Color = modify (\<lambda>s. s\<lparr>CurrentBackColor := Color\<rparr>)"

definition LCD_ClearLine :: "u16 \<Rightarrow> ('z lcd_st_scheme, unit) state" where
  "LCD_ClearLine Line = do {
     x \<leftarrow> gets LCD_X_LENGTH;
     f \<leftarrow> LCD_GetFont;
     ILI9341_Clear 0 Line x (Height f)
   }"

section \<open>Characters and strings\<close>

text \<open>The number of bytes of a glyph is kept in eight bits, the position of a character in the table in sixteen.\<close>

definition glyph_bytes :: "sFONT \<Rightarrow> u8" where
  "glyph_bytes f = word_of_int (uint (Width f) * uint (Height f) div 8)"

definition glyph :: "sFONT \<Rightarrow> u8 \<Rightarrow> u8 list" where
  "glyph f cChar =
     (let ucRelativePositon = word_of_int (uint cChar - 32) :: u16;
          fontLength = glyph_bytes f
      in map (\<lambda>byteCount. table f (unat ucRelativePositon * unat fontLength + byteCount)) [0..<unat fontLength])"

definition ILI9341_DispChar_EN :: "u16 \<Rightarrow> u16 \<Rightarrow> u8 \<Rightarrow> ('z lcd_st_scheme, unit) state" where
  "ILI9341_DispChar_EN usX usY cChar = do {
     f \<leftarrow> gets LCD_Currentfonts;
     text \<leftarrow> gets CurrentTextColor;
     back \<leftarrow> gets CurrentBackColor;
     ILI9341_OpenWindow usX usY (Width f) (Height f);
     ILI9341_Write_Cmd CMD_SetPixel;
     for_each (glyph f cChar) (\<lambda>byte.
       for_each [0..<8] (\<lambda>bitCount.
         if byte AND drop_bit bitCount 0x80 \<noteq> 0 then ILI9341_Write_Data text else ILI9341_Write_Data back))
   }"

text \<open>
  The loops over the characters of a string. \<open>disp_along_x\<close> is that of two functions, which differ
  only in where they start.
\<close>

fun disp_along_x :: "u16 \<Rightarrow> u16 \<Rightarrow> u8 list \<Rightarrow> ('z lcd_st_scheme, unit) state" where
  "disp_along_x usX usY [] = ret ()"
| "disp_along_x usX usY (c # pStr) = do {
     f \<leftarrow> gets LCD_Currentfonts;
     xl \<leftarrow> gets LCD_X_LENGTH;
     yl \<leftarrow> gets LCD_Y_LENGTH;
     let (usX, usY) = (if uint usX + uint (Width f) > uint xl then (0, usY + Height f) else (usX, usY));
     let (usX, usY) = (if uint usY + uint (Height f) > uint yl then (0, 0) else (usX, usY));
     ILI9341_DispChar_EN usX usY c;
     disp_along_x (usX + Width f) usY pStr
   }"

definition ILI9341_DispStringLine_EN :: "u16 \<Rightarrow> u8 list \<Rightarrow> ('z lcd_st_scheme, unit) state" where
  "ILI9341_DispStringLine_EN line pStr = disp_along_x 0 line pStr"

definition ILI9341_DispString_EN :: "u16 \<Rightarrow> u16 \<Rightarrow> u8 list \<Rightarrow> ('z lcd_st_scheme, unit) state" where
  "ILI9341_DispString_EN usX usY pStr = disp_along_x usX usY pStr"

fun ILI9341_DispString_EN_YDir :: "u16 \<Rightarrow> u16 \<Rightarrow> u8 list \<Rightarrow> ('z lcd_st_scheme, unit) state" where
  "ILI9341_DispString_EN_YDir usX usY [] = ret ()"
| "ILI9341_DispString_EN_YDir usX usY (c # pStr) = do {
     f \<leftarrow> gets LCD_Currentfonts;
     xl \<leftarrow> gets LCD_X_LENGTH;
     yl \<leftarrow> gets LCD_Y_LENGTH;
     let (usX, usY) = (if uint usY + uint (Height f) > uint yl then (usX + Width f, 0) else (usX, usY));
     let (usX, usY) = (if uint usX + uint (Width f) > uint xl then (0, 0) else (usX, usY));
     ILI9341_DispChar_EN usX usY c;
     ILI9341_DispString_EN_YDir usX (usY + Height f) pStr
   }"

end
