(* ===== verification/Lcd_Panel.thy ===== *)
theory Lcd_Panel
  imports Lcd
begin

text \<open>
  What the display shows: the commands it receives read as the code's comments and the
  controller's manual describe them. 0x2A and 0x2B with four data each set a window, 0x2C starts
  writing pixels into it, row by row. Coordinates are those of the scan mode. Then
  the driver's operations as changes of the picture.
\<close>

section \<open>The panel\<close>

record panel =
  cmd :: u16
  params :: "u16 list"
  win_x0 :: nat
  win_x1 :: nat
  win_y0 :: nat
  win_y1 :: nat
  pos_x :: nat
  pos_y :: nat
  gram :: "nat \<times> nat \<Rightarrow> u16"

definition two_bytes :: "u16 \<Rightarrow> u16 \<Rightarrow> nat" where
  "two_bytes a b = 256 * (unat a mod 256) + unat b mod 256"

definition set_param :: "u16 \<Rightarrow> panel \<Rightarrow> panel" where
  "set_param d p = (case params p of
     [a, b, c] \<Rightarrow>
       if cmd p = CMD_SetCoordinateX then p\<lparr>params := [a, b, c, d], win_x0 := two_bytes a b, win_x1 := two_bytes c d\<rparr>
       else p\<lparr>params := [a, b, c, d], win_y0 := two_bytes a b, win_y1 := two_bytes c d\<rparr>
   | ps \<Rightarrow> p\<lparr>params := ps @ [d]\<rparr>)"

definition write_pixel :: "u16 \<Rightarrow> panel \<Rightarrow> panel" where
  "write_pixel d p = p\<lparr>gram := (gram p)((pos_x p, pos_y p) := d),
     pos_x := (if pos_x p < win_x1 p then pos_x p + 1 else win_x0 p),
     pos_y := (if pos_x p < win_x1 p then pos_y p else if pos_y p < win_y1 p then pos_y p + 1 else win_y0 p)\<rparr>"

fun panel_step :: "panel \<Rightarrow> bus_ev \<Rightarrow> panel" where
  "panel_step p (Cmd c) = (if c = CMD_SetPixel then p\<lparr>cmd := c, params := [], pos_x := win_x0 p, pos_y := win_y0 p\<rparr>
     else p\<lparr>cmd := c, params := []\<rparr>)"
| "panel_step p (Data d) =
     (if cmd p = CMD_SetCoordinateX \<or> cmd p = CMD_SetCoordinateY then set_param d p
      else if cmd p = CMD_SetPixel then write_pixel d p else p)"
| "panel_step p _ = p"

definition panel0 :: "(nat \<times> nat \<Rightarrow> u16) \<Rightarrow> panel" where
  "panel0 g = \<lparr>cmd = 0, params = [], win_x0 = 0, win_x1 = 239, win_y0 = 0, win_y1 = 319, pos_x = 0, pos_y = 0, gram = g\<rparr>"

text \<open>The picture after a history, the memory having held \<open>g\<close> at power-up.\<close>

definition picture :: "(nat \<times> nat \<Rightarrow> u16) \<Rightarrow> bus_ev list \<Rightarrow> nat \<times> nat \<Rightarrow> u16" where
  "picture g h = gram (foldl panel_step (panel0 g) h)"

section \<open>Writing into a window\<close>

text \<open>Pixels \<open>ds\<close> written into the window of width \<open>w\<close> and height \<open>h\<close> at \<open>(x, y)\<close>.\<close>

definition paint :: "nat \<Rightarrow> nat \<Rightarrow> nat \<Rightarrow> nat \<Rightarrow> u16 list \<Rightarrow> (nat \<times> nat \<Rightarrow> u16) \<Rightarrow> nat \<times> nat \<Rightarrow> u16" where
  "paint x y w h ds g = (\<lambda>(i, j).
     if x \<le> i \<and> i < x + w \<and> y \<le> j \<and> j < y + h \<and> (j - y) * w + (i - x) < length ds
     then ds ! ((j - y) * w + (i - x)) else g (i, j))"

lemma paint_Nil [simp]: "paint x y w h [] g = g"
  by (simp add: paint_def fun_eq_iff)

lemma index_unique:
  fixes w :: nat
  assumes "a < w"
  shows "b * w + a = k \<longleftrightarrow> a = k mod w \<and> b = k div w"
  using assms by (auto simp: mult.commute)

lemma paint_snoc:
  assumes "length ds < w * h"
  shows "paint x y w h (ds @ [d]) g = (paint x y w h ds g)((x + length ds mod w, y + length ds div w) := d)"
proof
  fix ij :: "nat \<times> nat"
  obtain i j where ij: "ij = (i, j)" by (cases ij)
  let ?k = "length ds"
  have w: "0 < w" using assms by (cases w) auto
  then have k: "?k mod w < w" "?k div w < h" using assms by (simp_all add: less_mult_imp_div_less mult.commute)
  show "paint x y w h (ds @ [d]) g ij = ((paint x y w h ds g)((x + ?k mod w, y + ?k div w) := d)) ij"
  proof (cases "x \<le> i \<and> i < x + w \<and> y \<le> j \<and> j < y + h")
    case True
    then have "(j - y) * w + (i - x) = ?k \<longleftrightarrow> i - x = ?k mod w \<and> j - y = ?k div w"
      by (intro index_unique) auto
    also have "\<dots> \<longleftrightarrow> (i, j) = (x + ?k mod w, y + ?k div w)" using True by auto
    finally show ?thesis using True by (auto simp: paint_def ij nth_append less_Suc_eq)
  next
    case False
    then have "(i, j) \<noteq> (x + ?k mod w, y + ?k div w)" using k by auto
    with False show ?thesis by (auto simp: paint_def ij)
  qed
qed

text \<open>The panel after \<open>k\<close> pixels.\<close>

lemma panel_pixels:
  assumes "cmd p = CMD_SetPixel" and "pos_x p = win_x0 p" and "pos_y p = win_y0 p"
    and "w = win_x1 p + 1 - win_x0 p" and "h = win_y1 p + 1 - win_y0 p" and "win_x0 p \<le> win_x1 p" and "win_y0 p \<le> win_y1 p"
    and "length ds \<le> w * h"
  shows "foldl panel_step p (map Data ds) = p\<lparr>pos_x := win_x0 p + length ds mod w, pos_y := win_y0 p + length ds div w mod h,
     gram := paint (win_x0 p) (win_y0 p) w h ds (gram p)\<rparr>"
  using assms(8)
proof (induction ds rule: rev_induct)
  case Nil
  show ?case using assms(2,3) by simp
next
  case (snoc d ds)
  let ?k = "length ds" and ?x = "win_x0 p" and ?y = "win_y0 p"
  have k: "?k < w * h" using snoc.prems by simp
  have w: "0 < w" "win_x1 p = ?x + (w - 1)" and h: "0 < h" "win_y1 p = ?y + (h - 1)" using assms(4-7) by simp_all
  have div: "?k div w < h" using k by (simp add: less_mult_imp_div_less mult.commute)
  have m: "?k mod w < w" using w by simp
  have next_x: "Suc ?k mod w = (if ?k mod w < w - 1 then ?k mod w + 1 else 0)" using w m by (simp add: mod_Suc) linarith
  have next_y: "Suc ?k div w = (if ?k mod w < w - 1 then ?k div w else ?k div w + 1)" using w m by (simp add: div_Suc mod_Suc) linarith
  have wrap: "(?k div w + 1) mod h = (if ?k div w < h - 1 then ?k div w + 1 else 0)" using div h by (cases "?k div w = h - 1") auto
  have "foldl panel_step p (map Data (ds @ [d])) =
      write_pixel d (p\<lparr>pos_x := ?x + ?k mod w, pos_y := ?y + ?k div w, gram := paint ?x ?y w h ds (gram p)\<rparr>)"
    using snoc k assms(1) div by simp
  also have "\<dots> = p\<lparr>pos_x := ?x + Suc ?k mod w, pos_y := ?y + (Suc ?k div w) mod h,
     gram := paint ?x ?y w h (ds @ [d]) (gram p)\<rparr>"
    using next_x next_y wrap div w(2) h(2) by (auto simp: write_pixel_def paint_snoc [OF k])
  finally show ?case by simp
qed

lemma unit_run: "\<exists>t. run_state m s = ((), t)"
  by (metis old.unit.exhaust prod.exhaust)

text \<open>Bounds of the coordinates.\<close>

lemma uint16: "uint v < 65536" for v :: u16
  using uint_lt2p [of v] by simp

lemma unat16: "unat v < 65536" for v :: u16
proof -
  have "int (unat v) = uint v" by simp
  then show ?thesis using uint16 [of v] by linarith
qed

text \<open>The events of opening a window.\<close>

definition window_events :: "u16 \<Rightarrow> u16 \<Rightarrow> u16 \<Rightarrow> u16 \<Rightarrow> bus_ev list" where
  "window_events x y w h =
     [Cmd CMD_SetCoordinateX, Data (high_byte (uint x)), Data (low_byte_of (uint x)),
      Data (high_byte (uint x + uint w - 1)), Data (low_byte_of (uint x + uint w - 1)),
      Cmd CMD_SetCoordinateY, Data (high_byte (uint y)), Data (low_byte_of (uint y)),
      Data (high_byte (uint y + uint h - 1)), Data (low_byte_of (uint y + uint h - 1))]"

lemma run_OpenWindow: "run_state (ILI9341_OpenWindow x y w h) s = ((), s\<lparr>bus := bus s @ window_events x y w h\<rparr>)"
  by (simp add: ILI9341_OpenWindow_def ILI9341_Write_Cmd_def ILI9341_Write_Data_def put_def window_events_def)

lemma two_bytes_of: "0 \<le> v \<Longrightarrow> v < 65536 \<Longrightarrow> two_bytes (high_byte v) (low_byte_of v) = nat v"
proof -
  assume v: "0 \<le> v" "v < 65536"
  have "unat (high_byte v) = nat (v div 256)" "unat (low_byte_of v) = nat (v mod 256)"
    using v by (simp_all add: high_byte_def low_byte_of_def unsigned_of_int take_bit_int_eq_self)
  moreover have "nat (v div 256) mod 256 = nat (v div 256)" "nat (v mod 256) mod 256 = nat (v mod 256)" using v by auto
  moreover obtain m where "v = int m" using v(1) by (metis nonneg_int_cases)
  moreover have "nat (int m div 256) = m div 256" "nat (int m mod 256) = m mod 256" for m
    by (simp_all add: nat_div_distrib nat_mod_distrib)
  ultimately show ?thesis by (simp add: two_bytes_def)
qed

lemma panel_window:
  assumes "1 \<le> uint w" "1 \<le> uint h" "uint x + uint w \<le> 65536" "uint y + uint h \<le> 65536"
    and "length ds \<le> unat w * unat h"
  shows "gram (foldl panel_step p (window_events x y w h @ Cmd CMD_SetPixel # map Data ds)) =
    paint (unat x) (unat y) (unat w) (unat h) ds (gram p)"
proof -
  define q where "q = p\<lparr>cmd := CMD_SetPixel, params := [], win_x0 := unat x, win_x1 := unat x + unat w - 1,
    win_y0 := unat y, win_y1 := unat y + unat h - 1, pos_x := unat x, pos_y := unat y\<rparr>"
  have u: "two_bytes (high_byte (uint v)) (low_byte_of (uint v)) = unat v" for v :: u16
    using two_bytes_of [of "uint v"] uint_lt2p [of v] by simp
  have e: "two_bytes (high_byte (uint v + uint n - 1)) (low_byte_of (uint v + uint n - 1)) = unat v + unat n - 1"
    if "1 \<le> uint n" "uint v + uint n \<le> 65536" for v n :: u16
  proof -
    have "two_bytes (high_byte (uint v + uint n - 1)) (low_byte_of (uint v + uint n - 1)) = nat (uint v + uint n - 1)"
      using that uint_ge_0 [of v] by (intro two_bytes_of) linarith+
    moreover have "int (unat v) = uint v" "int (unat n) = uint n" by simp_all
    ultimately show ?thesis using that by linarith
  qed
  have "foldl panel_step p (window_events x y w h @ [Cmd CMD_SetPixel]) = q"
    by (simp add: window_events_def set_param_def q_def u e [OF assms(1,3)] e [OF assms(2,4)])
  then have "foldl panel_step p (window_events x y w h @ Cmd CMD_SetPixel # map Data ds) = foldl panel_step q (map Data ds)"
    by (metis append.assoc append_Cons append_Nil foldl_append)
  moreover have pos: "1 \<le> unat w" "1 \<le> unat h"
  proof -
    have "int (unat w) = uint w" "int (unat h) = uint h" by simp_all
    then show "1 \<le> unat w" "1 \<le> unat h" using assms(1,2) by linarith+
  qed
  have "gram (foldl panel_step q (map Data ds)) = paint (unat x) (unat y) (unat w) (unat h) ds (gram p)"
    by (subst panel_pixels [where w = "unat w" and h = "unat h"]) (use pos assms(5) in \<open>auto simp: q_def\<close>)
  ultimately show ?thesis by simp
qed

section \<open>Operations as changes of the picture\<close>

text \<open>
  \<open>draws s m f\<close>: with the variables of \<open>s\<close>, \<open>m\<close> changes nothing but the display, and the picture
  by \<open>f\<close>, whatever the display was told before.
\<close>

definition draws :: "'z lcd_st_scheme \<Rightarrow> ('z lcd_st_scheme, 'a) state \<Rightarrow> ((nat \<times> nat \<Rightarrow> u16) \<Rightarrow> nat \<times> nat \<Rightarrow> u16) \<Rightarrow> bool" where
  "draws s m f \<longleftrightarrow> (\<forall>b. \<exists>es. snd (run_state m (s\<lparr>bus := b\<rparr>)) = s\<lparr>bus := b @ es\<rparr> \<and>
     (\<forall>p. gram (foldl panel_step p es) = f (gram p)))"

named_theorems draw_intros \<open>what operations draw\<close>

lemma drawsD:
  assumes "draws s m f" and "run_state m s = (x, t)"
  shows "picture g (bus t) = f (picture g (bus s))" and "\<exists>b. t = s\<lparr>bus := b\<rparr>"
proof -
  obtain es where es: "snd (run_state m (s\<lparr>bus := bus s\<rparr>)) = s\<lparr>bus := bus s @ es\<rparr>" "\<forall>p. gram (foldl panel_step p es) = f (gram p)"
    using assms(1) unfolding draws_def by blast
  then have "t = s\<lparr>bus := bus s @ es\<rparr>" using assms(2) by simp
  then show "picture g (bus t) = f (picture g (bus s))" "\<exists>b. t = s\<lparr>bus := b\<rparr>" using es(2) by (auto simp: picture_def)
qed

lemma draws_ret [draw_intros]: "draws s (ret x) (\<lambda>g. g)"
  by (auto simp: draws_def intro!: exI [of _ "[]"])

lemma draws_bind:
  assumes "draws s m f" and "\<And>x. draws s (k x) f'"
  shows "draws s (m \<bind> k) (\<lambda>g. f' (f g))"
  unfolding draws_def
proof
  fix b
  obtain es where es: "snd (run_state m (s\<lparr>bus := b\<rparr>)) = s\<lparr>bus := b @ es\<rparr>" "\<forall>p. gram (foldl panel_step p es) = f (gram p)"
    using assms(1) unfolding draws_def by blast
  obtain fs where fs: "snd (run_state (k (fst (run_state m (s\<lparr>bus := b\<rparr>)))) (s\<lparr>bus := b @ es\<rparr>)) = s\<lparr>bus := (b @ es) @ fs\<rparr>"
    "\<forall>p. gram (foldl panel_step p fs) = f' (gram p)"
    using assms(2) unfolding draws_def by blast
  show "\<exists>es. snd (run_state (m \<bind> k) (s\<lparr>bus := b\<rparr>)) = s\<lparr>bus := b @ es\<rparr> \<and> (\<forall>p. gram (foldl panel_step p es) = f' (f (gram p)))"
    unfolding snd_run_bind using es fs by (intro exI [of _ "es @ fs"]) simp
qed

lemma draws_gets: "(\<And>b. h (s\<lparr>bus := b\<rparr>) = h s) \<Longrightarrow> draws s (k (h s)) f \<Longrightarrow> draws s (gets h \<bind> k) f"
  by (simp add: draws_def)

lemma draws_when_true: "(c \<Longrightarrow> draws s m f) \<Longrightarrow> draws s (when_true c m) (if c then f else (\<lambda>g. g))"
  by (cases c) (auto simp: when_true_def draws_ret)

lemma run_write_data: "run_state (for_each ds ILI9341_Write_Data) s = ((), s\<lparr>bus := bus s @ map Data ds\<rparr>)"
  by (induction ds arbitrary: s) (simp_all add: ILI9341_Write_Data_def put_def)

lemma draws_window:
  assumes "1 \<le> uint w" "1 \<le> uint h" "uint x + uint w \<le> 65536" "uint y + uint h \<le> 65536" and "length ds \<le> unat w * unat h"
    and "\<And>b. run_state m (s\<lparr>bus := b\<rparr>) = (z, s\<lparr>bus := b @ window_events x y w h @ Cmd CMD_SetPixel # map Data ds\<rparr>)"
  shows "draws s m (paint (unat x) (unat y) (unat w) (unat h) ds)"
  unfolding draws_def
  by (intro allI exI [of _ "window_events x y w h @ Cmd CMD_SetPixel # map Data ds"] conjI)
    (simp add: assms(6), rule panel_window [OF assms(1-5)])

lemma run_write_same: "run_state (for_each xs (\<lambda>_. ILI9341_Write_Data c)) s = ((), s\<lparr>bus := bus s @ replicate (length xs) (Data c)\<rparr>)"
  by (induction xs arbitrary: s) (simp_all add: ILI9341_Write_Data_def put_def)

lemma run_FillColor: "run_state (ILI9341_FillColor n c) s = ((), s\<lparr>bus := bus s @ Cmd CMD_SetPixel # map Data (replicate (unat n) c)\<rparr>)"
  by (simp add: ILI9341_FillColor_def ILI9341_Write_Cmd_def put_def run_write_same)

text \<open>A rectangle in one colour, and a single pixel.\<close>

definition box :: "nat \<Rightarrow> nat \<Rightarrow> nat \<Rightarrow> nat \<Rightarrow> u16 \<Rightarrow> (nat \<times> nat \<Rightarrow> u16) \<Rightarrow> nat \<times> nat \<Rightarrow> u16" where
  "box x y w h c g = (\<lambda>(i, j). if x \<le> i \<and> i < x + w \<and> y \<le> j \<and> j < y + h then c else g (i, j))"

lemma box_index: "a < w \<Longrightarrow> b < h \<Longrightarrow> b * w + a < w * h" for a b w h :: nat
proof -
  assume "a < w" "b < h"
  then have "b * w + a < (b + 1) * w" by simp
  also have "\<dots> \<le> h * w" using \<open>b < h\<close> by (intro mult_le_mono1) simp
  finally show ?thesis by (simp add: mult.commute)
qed

lemma paint_box: "paint x y w h (replicate (w * h) c) = box x y w h c"
proof -
  have "(j - y) * w + (i - x) < w * h" if "x \<le> i" "i < x + w" "y \<le> j" "j < y + h" for i j
    by (rule box_index) (use that in linarith)+
  then show ?thesis by (auto simp: paint_def box_def fun_eq_iff)
qed

lemma area: "unat (word_of_int (uint w * uint h) :: u32) = unat w * unat h" for w h :: u16
proof -
  have "uint w * uint h \<le> 65535 * 65535" using uint_lt2p [of w] uint_lt2p [of h] by (intro mult_mono) simp_all
  then have "take_bit 32 (uint w * uint h) = uint w * uint h" by (simp add: take_bit_int_eq_self)
  then have "unat (word_of_int (uint w * uint h) :: u32) = nat (uint w * uint h)"
    unfolding unsigned_of_int by simp
  then show ?thesis by (simp add: nat_mult_distrib)
qed

lemma draws_box:
  assumes "1 \<le> uint w" "1 \<le> uint h" "uint x + uint w \<le> 65536" "uint y + uint h \<le> 65536"
  shows "draws s (do { ILI9341_OpenWindow x y w h; ILI9341_FillColor (word_of_int (uint w * uint h)) c })
    (box (unat x) (unat y) (unat w) (unat h) c)"
proof -
  have "draws s (do { ILI9341_OpenWindow x y w h; ILI9341_FillColor (word_of_int (uint w * uint h)) c })
      (paint (unat x) (unat y) (unat w) (unat h) (replicate (unat w * unat h) c))"
    by (rule draws_window [OF assms, where z = "()"]) (simp, simp only: run_state_bind run_OpenWindow run_FillColor area prod.case, simp)
  then show ?thesis by (simp only: paint_box)
qed

lemma draws_clear:
  assumes "1 \<le> uint w" "1 \<le> uint h" "uint x + uint w \<le> 65536" "uint y + uint h \<le> 65536"
  shows "draws s (ILI9341_Clear x y w h) (box (unat x) (unat y) (unat w) (unat h) (CurrentBackColor s))"
proof -
  have "draws s (do { ILI9341_OpenWindow x y w h; ILI9341_FillColor (word_of_int (uint w * uint h)) (CurrentBackColor s) })
    (box (unat x) (unat y) (unat w) (unat h) (CurrentBackColor s))" by (rule draws_box [OF assms])
  then show ?thesis by (simp add: ILI9341_Clear_def draws_def run_OpenWindow)
qed

text \<open>A point, if it is on the screen.\<close>

definition on_screen :: "'z lcd_st_scheme \<Rightarrow> u16 \<Rightarrow> u16 \<Rightarrow> bool" where
  "on_screen s a b \<longleftrightarrow> a < LCD_X_LENGTH s \<and> b < LCD_Y_LENGTH s"

definition dot :: "'z lcd_st_scheme \<Rightarrow> u16 \<times> u16 \<Rightarrow> (nat \<times> nat \<Rightarrow> u16) \<Rightarrow> nat \<times> nat \<Rightarrow> u16" where
  "dot s = (\<lambda>(a, b) g. if on_screen s a b then g((unat a, unat b) := CurrentTextColor s) else g)"

lemma draws_point: "draws s (ILI9341_SetPointPixel a b) (dot s (a, b))"
proof (cases "on_screen s a b")
  case True
  have u: "uint v + 1 \<le> 65536" for v :: u16 using uint_lt2p [of v] by simp
  have "draws s (do { ILI9341_OpenWindow a b 1 1; ILI9341_FillColor (word_of_int (uint (1 :: u16) * uint (1 :: u16))) (CurrentTextColor s) })
    (box (unat a) (unat b) 1 1 (CurrentTextColor s))" using draws_box [of 1 1 a b s] u by simp
  moreover have "box (unat a) (unat b) 1 1 (CurrentTextColor s) = dot s (a, b)"
    using True by (auto simp: box_def dot_def fun_eq_iff)
  ultimately show ?thesis
    using True by (simp add: ILI9341_SetPointPixel_def ILI9341_SetCursor_def draws_def on_screen_def run_OpenWindow)
next
  case False
  then show ?thesis by (auto simp: ILI9341_SetPointPixel_def draws_def dot_def on_screen_def intro!: exI [of _ "[]"])
qed

text \<open>
  Clearing a window and setting a point change exactly the pixels they name. A window that
  ends within 16 bits gets the background colour and no other pixel changes; a point
  on the screen gets the text colour, and for a point beside the screen nothing changes. The driver's
  variables stay as they are.
\<close>

lemma clear_and_point_paint:
  assumes "1 \<le> uint w" "1 \<le> uint h" "uint x + uint w \<le> 65536" "uint y + uint h \<le> 65536"
    and "run_state (do { ILI9341_Clear x y w h; ILI9341_SetPointPixel a b }) s = (r, t)"
  shows "picture g (bus t) (i, j) =
      (if (i, j) = (unat a, unat b) \<and> a < LCD_X_LENGTH s \<and> b < LCD_Y_LENGTH s then CurrentTextColor s
       else if unat x \<le> i \<and> i < unat x + unat w \<and> unat y \<le> j \<and> j < unat y + unat h then CurrentBackColor s
       else picture g (bus s) (i, j)) \<and>
    (\<exists>b. t = s\<lparr>bus := b\<rparr>)"
proof -
  have "draws s (do { ILI9341_Clear x y w h; ILI9341_SetPointPixel a b })
      (\<lambda>g. dot s (a, b) (box (unat x) (unat y) (unat w) (unat h) (CurrentBackColor s) g))"
    by (rule draws_bind [OF draws_clear [OF assms(1-4)] draws_point])
  from drawsD [OF this assms(5)] show ?thesis by (auto simp: dot_def box_def on_screen_def)
qed

definition font8 :: sFONT where
  "font8 = \<lparr>table = (\<lambda>_. 0xAA), Width = 8, Height = 16\<rparr>"

text \<open>The bottom right pixel of the screen.\<close>

lemma clear_and_point_paint_example:
  "\<exists>t. run_state (do { ILI9341_Clear 0 0 240 320; ILI9341_SetPointPixel 239 319 }) (lcd_reset (\<lambda>_. 0) font8) = ((), t) \<and>
     picture (\<lambda>_. 7) (bus t) (239, 319) = 0 \<and> picture (\<lambda>_. 7) (bus t) (238, 319) = 0xFFFF \<and>
     picture (\<lambda>_. 7) (bus t) (240, 319) = 7"
proof -
  let ?s = "lcd_reset (\<lambda>_. 0) font8"
  obtain t where t: "run_state (do { ILI9341_Clear 0 0 240 320; ILI9341_SetPointPixel 239 319 }) ?s = ((), t)"
    by (metis old.unit.exhaust prod.exhaust)
  have p: "picture g (bus ?s) = g" for g by (simp add: lcd_reset_def picture_def panel0_def)
  show ?thesis
    using t clear_and_point_paint [OF _ _ _ _ t, of "\<lambda>_. 7"] p
    by (simp add: lcd_reset_def ILI9341_LESS_PIXEL_def ILI9341_MORE_PIXEL_def)
qed

end
