(* ===== verification/Lcd_Text.thy ===== *)
theory Lcd_Text
  imports Lcd_Panel
begin

text \<open>
  Characters and strings on the display: the pixels of a character, and where the characters of a string
  are put.
\<close>

section \<open>A character\<close>

text \<open>
  A font whose glyphs fill their cells: the area is a whole number of bytes, and the number of bytes fits
  into eight bits. The three fonts of the program, 8 by 16, 16 by 24 and 24 by 32, are such.
\<close>

definition good_font :: "sFONT \<Rightarrow> bool" where
  "good_font f \<longleftrightarrow> 1 \<le> unat (Width f) \<and> 1 \<le> unat (Height f) \<and> 8 dvd unat (Width f) * unat (Height f) \<and>
     unat (Width f) * unat (Height f) < 2048"

text \<open>The bit of a glyph at column \<open>i\<close> and row \<open>j\<close> of its cell.\<close>

definition glyph_bit :: "sFONT \<Rightarrow> u8 \<Rightarrow> nat \<Rightarrow> nat \<Rightarrow> bool" where
  "glyph_bit f c i j =
     (let n = j * unat (Width f) + i; start = unat (word_of_int (uint c - 32) :: u16) * (unat (Width f) * unat (Height f) div 8)
      in bit (table f (start + n div 8)) (7 - n mod 8))"

definition put_char :: "'z lcd_st_scheme \<Rightarrow> nat \<times> nat \<Rightarrow> u8 \<Rightarrow> (nat \<times> nat \<Rightarrow> u16) \<Rightarrow> nat \<times> nat \<Rightarrow> u16" where
  "put_char s = (\<lambda>(x, y) c g (i, j). let f = LCD_Currentfonts s in
     if x \<le> i \<and> i < x + unat (Width f) \<and> y \<le> j \<and> j < y + unat (Height f)
     then if glyph_bit f c (i - x) (j - y) then CurrentTextColor s else CurrentBackColor s
     else g (i, j))"

text \<open>The colours of the pixels of a byte, and of a glyph.\<close>

definition byte_pixels :: "u16 \<Rightarrow> u16 \<Rightarrow> u8 \<Rightarrow> u16 list" where
  "byte_pixels text back byte = map (\<lambda>k. if bit byte (7 - k) then text else back) [0..<8]"

lemma length_byte_pixels [simp]: "length (byte_pixels t b y) = 8"
  by (simp add: byte_pixels_def)

lemma mask_bit: "k < 8 \<Longrightarrow> (byte AND drop_bit k 0x80 \<noteq> (0 :: u8)) = bit byte (7 - k)"
proof -
  assume "k < 8"
  then have "k \<in> {0, 1, 2, 3, 4, 5, 6, 7}" by auto
  then have "drop_bit k 0x80 = (2 :: u8) ^ (7 - k)" by auto
  then show ?thesis by (simp add: and_exp_eq_0_iff_not_bit)
qed

lemma run_byte: "run_state (for_each [0..<8] (\<lambda>k. if byte AND drop_bit k 0x80 \<noteq> 0 then ILI9341_Write_Data t else ILI9341_Write_Data b)) s =
    ((), s\<lparr>bus := bus s @ map Data (byte_pixels t b byte)\<rparr>)"
proof -
  have "for_each [0..<8] (\<lambda>k. if byte AND drop_bit k 0x80 \<noteq> 0 then ILI9341_Write_Data t else ILI9341_Write_Data b) =
      (for_each (byte_pixels t b byte) ILI9341_Write_Data :: ('a lcd_st_scheme, unit) state)"
    using mask_bit [of 0 byte] mask_bit [of 1 byte] mask_bit [of 2 byte] mask_bit [of 3 byte] mask_bit [of 4 byte]
      mask_bit [of 5 byte] mask_bit [of 6 byte] mask_bit [of 7 byte]
    by (simp add: byte_pixels_def upt_rec [of 0] upt_rec eval_nat_numeral if_distrib [of ILI9341_Write_Data])
  then show ?thesis by (simp add: run_write_data)
qed

lemma run_bytes: "run_state (for_each bs (\<lambda>byte. for_each [0..<8] (\<lambda>k. if byte AND drop_bit k 0x80 \<noteq> 0 then ILI9341_Write_Data t else ILI9341_Write_Data b))) s =
    ((), s\<lparr>bus := bus s @ map Data (concat (map (byte_pixels t b) bs))\<rparr>)"
  by (induction bs arbitrary: s) (simp_all add: run_byte)

lemma length_pixels: "length (concat (map (byte_pixels t b) bs)) = 8 * length bs"
  by (induction bs) simp_all

lemma pixel_at: "n < 8 * length bs \<Longrightarrow> concat (map (byte_pixels t b) bs) ! n = (if bit (bs ! (n div 8)) (7 - n mod 8) then t else b)"
proof (induction bs arbitrary: n)
  case (Cons byte bs)
  show ?case
  proof (cases "n < 8")
    case True
    then show ?thesis by (simp add: nth_append byte_pixels_def)
  next
    case False
    then have "n div 8 = Suc ((n - 8) div 8)" "n mod 8 = (n - 8) mod 8" by (simp_all add: div_if mod_if)
    then show ?thesis using Cons.IH [of "n - 8"] Cons.prems False by (simp add: nth_append)
  qed
qed simp

lemma good_fontD:
  assumes "good_font f"
  shows "1 \<le> unat (Width f)" "1 \<le> unat (Height f)" "1 \<le> uint (Width f)" "1 \<le> uint (Height f)"
    "8 * (unat (Width f) * unat (Height f) div 8) = unat (Width f) * unat (Height f)"
    "unat (glyph_bytes f) = unat (Width f) * unat (Height f) div 8"
proof -
  have i: "uint (Width f) = int (unat (Width f))" "uint (Height f) = int (unat (Height f))" by simp_all
  show u: "1 \<le> unat (Width f)" "1 \<le> unat (Height f)" using assms unfolding good_font_def by blast+
  then show "1 \<le> uint (Width f)" "1 \<le> uint (Height f)" unfolding i by linarith+
  show "8 * (unat (Width f) * unat (Height f) div 8) = unat (Width f) * unat (Height f)"
    using assms unfolding good_font_def by simp
  have "unat (Width f) * unat (Height f) < 2048" using assms unfolding good_font_def by blast
  then have "unat (Width f) * unat (Height f) div 8 < 256" by linarith
  then have "unat (word_of_int (int (unat (Width f) * unat (Height f) div 8)) :: u8) = unat (Width f) * unat (Height f) div 8"
    by (simp add: unat_of_nat take_bit_nat_eq_self)
  moreover have "uint (Width f) * uint (Height f) div 8 = int (unat (Width f) * unat (Height f) div 8)"
    unfolding i by (simp add: zdiv_int)
  ultimately show "unat (glyph_bytes f) = unat (Width f) * unat (Height f) div 8" by (simp only: glyph_bytes_def)
qed

lemma draws_char:
  assumes "good_font (LCD_Currentfonts s)" and "uint x + uint (Width (LCD_Currentfonts s)) \<le> 65536"
    and "uint y + uint (Height (LCD_Currentfonts s)) \<le> 65536"
  shows "draws s (ILI9341_DispChar_EN x y c) (put_char s (unat x, unat y) c)"
proof -
  let ?f = "LCD_Currentfonts s" and ?ds = "concat (map (byte_pixels (CurrentTextColor s) (CurrentBackColor s)) (glyph (LCD_Currentfonts s) c))"
  let ?w = "unat (Width ?f)" and ?h = "unat (Height ?f)"
  note f = good_fontD [OF assms(1)]
  have g: "length (glyph ?f c) = ?w * ?h div 8" by (simp add: glyph_def f(6) Let_def)
  then have len: "length ?ds = ?w * ?h" using f(5) by (simp add: length_pixels)
  have "draws s (ILI9341_DispChar_EN x y c) (paint (unat x) (unat y) ?w ?h ?ds)"
    by (rule draws_window [where z = "()"])
      (use assms(2,3) f(3,4) len in \<open>auto simp: ILI9341_DispChar_EN_def run_OpenWindow ILI9341_Write_Cmd_def put_def run_bytes\<close>)
  moreover have "paint (unat x) (unat y) ?w ?h ?ds = put_char s (unat x, unat y) c"
  proof (intro ext, clarify)
    fix g i j
    have at: "?ds ! n = (if glyph_bit ?f c i' j' then CurrentTextColor s else CurrentBackColor s)"
      if "n = j' * ?w + i'" "n < ?w * ?h" for n i' j'
    proof -
      have "n div 8 < ?w * ?h div 8" using that(2) f(5) by (metis less_mult_imp_div_less mult.commute)
      then have "glyph ?f c ! (n div 8) = table ?f (unat (word_of_int (uint c - 32) :: u16) * (?w * ?h div 8) + n div 8)"
        by (simp add: glyph_def f(6) Let_def)
      then show ?thesis using that f(5) g by (simp add: pixel_at glyph_bit_def Let_def)
    qed
    define n where "n = (j - unat y) * ?w + (i - unat x)"
    define inside where "inside \<longleftrightarrow> unat x \<le> i \<and> i < unat x + ?w \<and> unat y \<le> j \<and> j < unat y + ?h"
    have "paint (unat x) (unat y) ?w ?h ?ds g (i, j) = (if inside \<and> n < length ?ds then ?ds ! n else g (i, j))"
      by (simp only: paint_def prod.case n_def inside_def conj_assoc)
    moreover have "n < length ?ds" if inside
      unfolding n_def len by (rule box_index) (use that in \<open>unfold inside_def, linarith\<close>)+
    moreover have "?ds ! n = (if glyph_bit ?f c (i - unat x) (j - unat y) then CurrentTextColor s else CurrentBackColor s)" if inside
      using at [OF n_def] \<open>inside \<Longrightarrow> n < length ?ds\<close> that len by simp
    ultimately have "paint (unat x) (unat y) ?w ?h ?ds g (i, j) =
       (if inside then if glyph_bit ?f c (i - unat x) (j - unat y) then CurrentTextColor s else CurrentBackColor s else g (i, j))"
      by (cases inside) simp_all
    then show "paint (unat x) (unat y) ?w ?h ?ds g (i, j) = put_char s (unat x, unat y) c g (i, j)"
      by (simp only: put_char_def prod.case Let_def inside_def)
  qed
  ultimately show ?thesis by simp
qed

section \<open>Strings\<close>

text \<open>
  The screen as a grid of cells of the font's size, numbered row by row from the line at \<open>y\<close> on.
\<close>

definition columns_of :: "'z lcd_st_scheme \<Rightarrow> nat" where
  "columns_of s = unat (LCD_X_LENGTH s) div unat (Width (LCD_Currentfonts s))"

definition cell :: "'z lcd_st_scheme \<Rightarrow> nat \<Rightarrow> nat \<Rightarrow> nat \<times> nat" where
  "cell s y n = (n mod columns_of s * unat (Width (LCD_Currentfonts s)), y + n div columns_of s * unat (Height (LCD_Currentfonts s)))"

definition put_cells :: "'z lcd_st_scheme \<Rightarrow> nat \<Rightarrow> nat \<Rightarrow> u8 list \<Rightarrow> (nat \<times> nat \<Rightarrow> u16) \<Rightarrow> nat \<times> nat \<Rightarrow> u16" where
  "put_cells s y n cs g = fst (foldl (\<lambda>(g, n) c. (put_char s (cell s y n) c g, Suc n)) (g, n) cs)"

lemma put_cells_simps [simp]: "put_cells s y n [] = (\<lambda>g. g)"
  "put_cells s y n (c # cs) = (\<lambda>g. put_cells s y (Suc n) cs (put_char s (cell s y n) c g))"
  by (simp_all add: put_cells_def fun_eq_iff)

text \<open>All cells of a string starting in cell \<open>n\<close> are on the screen.\<close>

definition fits_below :: "'z lcd_st_scheme \<Rightarrow> nat \<Rightarrow> nat \<Rightarrow> bool" where
  "fits_below s y n \<longleftrightarrow> y + (n div columns_of s + 1) * unat (Height (LCD_Currentfonts s)) \<le> unat (LCD_Y_LENGTH s)"

lemma fits_below_mono: "fits_below s y m \<Longrightarrow> n \<le> m \<Longrightarrow> fits_below s y n"
proof -
  assume "n \<le> m" "fits_below s y m"
  moreover from this(1) have "(n div columns_of s + 1) * unat (Height (LCD_Currentfonts s)) \<le> (m div columns_of s + 1) * unat (Height (LCD_Currentfonts s))"
    by (intro mult_le_mono1 add_le_mono1 div_le_mono)
  ultimately show ?thesis unfolding fits_below_def by linarith
qed

lemma over: "uint a + uint b > uint c \<longleftrightarrow> unat a + unat b > unat c" for a b c :: u16
proof -
  have "uint a = int (unat a)" "uint b = int (unat b)" "uint c = int (unat c)" by simp_all
  then show ?thesis by linarith
qed

text \<open>Where the loop puts the next character, having come to column \<open>a\<close> of row \<open>r\<close>, past the last column included.\<close>

lemma draws_cells:
  assumes "good_font (LCD_Currentfonts s)" and "1 \<le> columns_of s" and "a \<le> columns_of s"
    and "cs \<noteq> [] \<longrightarrow> fits_below s y (r * columns_of s + a + length cs - 1)"
  shows "draws s (disp_along_x (of_nat (a * unat (Width (LCD_Currentfonts s)))) (of_nat (y + r * unat (Height (LCD_Currentfonts s)))) cs)
    (put_cells s y (r * columns_of s + a) cs)"
  using assms(3,4)
proof (induction cs arbitrary: a r)
  case Nil
  then show ?case by (simp add: draws_ret)
next
  case (Cons c cs)
  let ?f = "LCD_Currentfonts s" and ?k = "columns_of s"
  let ?w = "unat (Width ?f)" and ?h = "unat (Height ?f)" and ?xl = "unat (LCD_X_LENGTH s)" and ?yl = "unat (LCD_Y_LENGTH s)"
  note f = good_fontD [OF assms(1)]
  define a' where "a' = (if a = ?k then 0 else a)"
  define r' where "r' = (if a = ?k then r + 1 else r)"
  have n: "r' * ?k + a' = r * ?k + a" by (simp add: a'_def r'_def)
  have a': "a' < ?k" using Cons.prems(1) assms(2) by (auto simp: a'_def)
  have "fits_below s y (r' * ?k + a')" using Cons.prems(2) fits_below_mono by (fastforce simp: n)
  then have low: "y + (r' + 1) * ?h \<le> ?yl" using a' by (simp add: fits_below_def)
  have kx: "(b + 1) * ?w \<le> ?xl \<longleftrightarrow> b < ?k" for b
    using f(1) less_eq_div_iff_mult_less_eq [of ?w "b + 1" ?xl] unfolding columns_of_def by auto
  have u: "uint (LCD_X_LENGTH s) = int ?xl" "uint (LCD_Y_LENGTH s) = int ?yl" "uint (Width ?f) = int ?w" "uint (Height ?f) = int ?h" by simp_all
  have bound: "unat (LCD_X_LENGTH s) < 65536" "unat (LCD_Y_LENGTH s) < 65536"
    by (rule unat16)+
  have nat16: "uint (of_nat m :: u16) = int m" "unat (of_nat m :: u16) = m" if "m < 65536" for m
    using that by (simp_all add: unsigned_of_nat take_bit_nat_eq_self)
  have "a * ?w \<le> ?xl" using Cons.prems(1) unfolding columns_of_def
    by (metis div_times_less_eq_dividend le_trans mult_le_mono1)
  then have x: "unat (of_nat (a * ?w) :: u16) = a * ?w" using bound by (intro nat16) linarith
  have turn: "(uint (of_nat (a * ?w) :: u16) + uint (Width ?f) > uint (LCD_X_LENGTH s)) = (a = ?k)"
    unfolding over x using kx [of a] Cons.prems(1) by (auto simp: algebra_simps)
  have xy: "(if uint (of_nat (a * ?w) :: u16) + uint (Width ?f) > uint (LCD_X_LENGTH s)
      then (0, of_nat (y + r * ?h) + Height ?f) else (of_nat (a * ?w), of_nat (y + r * ?h))) =
      (of_nat (a' * ?w) :: u16, of_nat (y + r' * ?h) :: u16)"
    unfolding turn by (simp add: a'_def r'_def algebra_simps)
  have lowu: "y + r' * ?h + ?h \<le> ?yl" using low by (simp add: algebra_simps)
  have y': "uint (of_nat (y + r' * ?h) :: u16) = int (y + r' * ?h)" "unat (of_nat (y + r' * ?h) :: u16) = y + r' * ?h"
    using lowu bound by (intro nat16; linarith)+
  have stay: "\<not> uint (of_nat (y + r' * ?h) :: u16) + uint (Height ?f) > uint (LCD_Y_LENGTH s)"
    unfolding over y'(2) using lowu by simp
  have w': "a' * ?w + ?w \<le> ?xl" using kx [of a'] a' by (simp add: algebra_simps)
  have x': "uint (of_nat (a' * ?w) :: u16) = int (a' * ?w)" "unat (of_nat (a' * ?w) :: u16) = a' * ?w"
    using w' bound by (intro nat16; linarith)+
  have cell: "cell s y (r * ?k + a) = (a' * ?w, y + r' * ?h)"
    unfolding n [symmetric] cell_def using a' by simp
  have room: "uint (of_nat (a' * ?w) :: u16) + uint (Width ?f) \<le> 65536" "uint (of_nat (y + r' * ?h) :: u16) + uint (Height ?f) \<le> 65536"
    unfolding x' y' u using w' lowu bound by linarith+
  have char: "draws s (ILI9341_DispChar_EN (of_nat (a' * ?w)) (of_nat (y + r' * ?h)) c) (put_char s (cell s y (r * ?k + a)) c)"
    using draws_char [OF assms(1) room, of c] unfolding cell x' y' .
  have "cs \<noteq> [] \<longrightarrow> fits_below s y (r' * ?k + (a' + 1) + length cs - 1)"
    using Cons.prems(2) n by (simp add: add.assoc [symmetric])
  then have rest: "draws s (disp_along_x (of_nat (a' * ?w) + Width ?f) (of_nat (y + r' * ?h)) cs)
      (put_cells s y (Suc (r * ?k + a)) cs)"
    using Cons.IH [of "a' + 1" r'] a' n by (simp add: algebra_simps)
  show ?case
    unfolding disp_along_x.simps put_cells_simps
    by (intro draws_gets) (simp, simp, simp, simp only: xy Let_def prod.case stay if_False draws_bind [OF char rest])
qed

text \<open>A pixel lies in one cell.\<close>

lemma in_span: "q * w \<le> i \<and> i < q * w + w \<longleftrightarrow> 0 < w \<and> i div w = q" for q w i :: nat
  by (metis add.commute add_cancel_left_right div_less_iff_less_mult div_nat_eqI le_eq_less_or_eq less_mult_imp_div_less
      mult.commute mult_Suc mult_Suc_right not_gr_zero times_div_less_eq_dividend dividend_less_times_div)

lemma in_cell:
  assumes "1 \<le> columns_of s" and "cell s y n = (u, v)" and "1 \<le> w" and "1 \<le> h"
    and "w = unat (Width (LCD_Currentfonts s))" and "h = unat (Height (LCD_Currentfonts s))"
  shows "(u \<le> i \<and> i < u + w \<and> v \<le> j \<and> j < v + h) \<longleftrightarrow>
    (y \<le> j \<and> i div w < columns_of s \<and> (j - y) div h * columns_of s + i div w = n)"
    and "i div w = n mod columns_of s \<Longrightarrow> i - u = i mod w"
    and "(j - y) div h = n div columns_of s \<Longrightarrow> j - v = (j - y) mod h"
proof -
  let ?k = "columns_of s"
  have uv: "u = n mod ?k * w" "v = y + n div ?k * h" using assms(2,5,6) by (auto simp: cell_def)
  have "(u \<le> i \<and> i < u + w) \<longleftrightarrow> i div w = n mod ?k" using in_span [of "n mod ?k" w i] assms(3) by (simp add: uv)
  moreover have "(v \<le> j \<and> j < v + h) \<longleftrightarrow> y \<le> j \<and> (j - y) div h = n div ?k"
    using in_span [of "n div ?k" h "j - y"] assms(4) unfolding uv by auto
  moreover have "i div w < ?k \<Longrightarrow> (j - y) div h * ?k + i div w = n \<longleftrightarrow> i div w = n mod ?k \<and> (j - y) div h = n div ?k"
    by (rule index_unique)
  moreover have "n mod ?k < ?k" using assms(1) by simp
  ultimately show "(u \<le> i \<and> i < u + w \<and> v \<le> j \<and> j < v + h) \<longleftrightarrow>
    (y \<le> j \<and> i div w < ?k \<and> (j - y) div h * ?k + i div w = n)" by auto
  show "i div w = n mod ?k \<Longrightarrow> i - u = i mod w"
    unfolding uv by (metis minus_div_mult_eq_mod)
  show "(j - y) div h = n div ?k \<Longrightarrow> j - v = (j - y) mod h"
    unfolding uv by (metis diff_diff_left minus_div_mult_eq_mod)
qed

text \<open>The number of the cell of a pixel, counted from \<open>y\<close> on.\<close>

definition cell_no :: "'z lcd_st_scheme \<Rightarrow> nat \<Rightarrow> nat \<times> nat \<Rightarrow> nat" where
  "cell_no s y = (\<lambda>(i, j). (j - y) div unat (Height (LCD_Currentfonts s)) * columns_of s + i div unat (Width (LCD_Currentfonts s)))"

definition cell_pixel :: "'z lcd_st_scheme \<Rightarrow> nat \<Rightarrow> u8 \<Rightarrow> nat \<times> nat \<Rightarrow> u16" where
  "cell_pixel s y c = (\<lambda>(i, j). let f = LCD_Currentfonts s in
     if glyph_bit f c (i mod unat (Width f)) ((j - y) mod unat (Height f)) then CurrentTextColor s else CurrentBackColor s)"

definition in_grid :: "'z lcd_st_scheme \<Rightarrow> nat \<Rightarrow> nat \<times> nat \<Rightarrow> bool" where
  "in_grid s y = (\<lambda>(i, j). y \<le> j \<and> i div unat (Width (LCD_Currentfonts s)) < columns_of s)"

lemma put_char_cell:
  assumes "good_font (LCD_Currentfonts s)" and "1 \<le> columns_of s"
  shows "put_char s (cell s y n) c g p = (if in_grid s y p \<and> cell_no s y p = n then cell_pixel s y c p else g p)"
proof -
  let ?w = "unat (Width (LCD_Currentfonts s))" and ?h = "unat (Height (LCD_Currentfonts s))"
  obtain u v where uv: "cell s y n = (u, v)" by (cases "cell s y n")
  obtain i j where p: "p = (i, j)" by (cases p)
  note c = in_cell [OF assms(2) uv good_fontD(1) [OF assms(1)] good_fontD(2) [OF assms(1)] refl refl]
  show ?thesis
  proof (cases "in_grid s y p \<and> cell_no s y p = n")
    case True
    then have "i div ?w = n mod columns_of s" "(j - y) div ?h = n div columns_of s"
      using index_unique [of "i div ?w" "columns_of s" "(j - y) div ?h" n] by (auto simp: in_grid_def cell_no_def p)
    then show ?thesis
      using True c by (simp add: uv p put_char_def cell_pixel_def Let_def in_grid_def cell_no_def)
  next
    case False
    then have "\<not> (u \<le> i \<and> i < u + ?w \<and> v \<le> j \<and> j < v + ?h)" unfolding c(1) by (simp add: in_grid_def cell_no_def p)
    with False show ?thesis by (auto simp: uv p put_char_def Let_def)
  qed
qed

lemma put_cells_pixel:
  assumes "good_font (LCD_Currentfonts s)" and "1 \<le> columns_of s"
  shows "put_cells s y n cs g p =
    (if in_grid s y p \<and> n \<le> cell_no s y p \<and> cell_no s y p < n + length cs then cell_pixel s y (cs ! (cell_no s y p - n)) p else g p)"
proof (induction cs arbitrary: n g)
  case (Cons c cs)
  show ?case
    by (cases "cell_no s y p = n") (auto simp: Cons.IH put_char_cell [OF assms] nth_Cons' Suc_le_eq le_less)
qed auto


text \<open>
  C22: a string on the display: characters one after the other in a grid of cells of the font's size, row by
  row, starting at column \<open>a\<close> of the line at \<open>y\<close>. For a font whose glyphs fill their cells, and a
  string whose last cell is still on the screen, the pixel \<open>(i, j)\<close> below \<open>y\<close> in a
  whole column belongs to the cell numbered \<open>n\<close>, and shows bit \<open>(i mod W, (j - y) mod H)\<close> of
  the character \<open>n - a\<close>, if there is one, in the text colour on the background colour; all other pixels, and the
  driver's variables, stay as they were. \<open>ILI9341_DispStringLine_EN\<close> is the case \<open>a = 0\<close>.
\<close>

theorem string_layout:
  assumes "good_font (LCD_Currentfonts s)" and "1 \<le> unat (LCD_X_LENGTH s) div unat (Width (LCD_Currentfonts s))"
    and "a \<le> unat (LCD_X_LENGTH s) div unat (Width (LCD_Currentfonts s))" and "cs \<noteq> []"
    and "unat y + ((a + length cs - 1) div (unat (LCD_X_LENGTH s) div unat (Width (LCD_Currentfonts s))) + 1) * unat (Height (LCD_Currentfonts s))
      \<le> unat (LCD_Y_LENGTH s)"
    and "m = ILI9341_DispString_EN (of_nat a * Width (LCD_Currentfonts s)) y cs \<or> a = 0 \<and> m = ILI9341_DispStringLine_EN y cs"
    and "run_state m s = (r, t)"
  shows "let f = LCD_Currentfonts s; w = unat (Width f); h = unat (Height f); columns = unat (LCD_X_LENGTH s) div w;
      n = (j - unat y) div h * columns + i div w in
    picture g (bus t) (i, j) =
      (if unat y \<le> j \<and> i div w < columns \<and> a \<le> n \<and> n < a + length cs
       then if glyph_bit f (cs ! (n - a)) (i mod w) ((j - unat y) mod h) then CurrentTextColor s else CurrentBackColor s
       else picture g (bus s) (i, j)) \<and>
    (\<exists>b. t = s\<lparr>bus := b\<rparr>)"
proof -
  have "draws s (disp_along_x (of_nat (a * unat (Width (LCD_Currentfonts s)))) (of_nat (unat y + 0 * unat (Height (LCD_Currentfonts s)))) cs)
    (put_cells s (unat y) (0 * columns_of s + a) cs)"
    using assms(1-5) by (intro draws_cells) (simp_all add: columns_of_def fits_below_def)
  then have d: "draws s (disp_along_x (of_nat a * Width (LCD_Currentfonts s)) y cs) (put_cells s (unat y) a cs)" by simp
  have "m = disp_along_x (of_nat a * Width (LCD_Currentfonts s)) y cs"
    using assms(6) by (auto simp: ILI9341_DispString_EN_def ILI9341_DispStringLine_EN_def)
  then have "draws s m (put_cells s (unat y) a cs)" using d by simp
  from drawsD [OF this assms(7)] show ?thesis
    using put_cells_pixel [OF assms(1), of "unat y" a cs "picture g (bus s)" "(i, j)"] assms(2)
    by (simp add: columns_of_def Let_def in_grid_def cell_no_def cell_pixel_def)
qed

text \<open>
  Thirty-one characters of eight pixels on a screen of 240 pixels: the last is the first of the second row. The
  glyphs of the font alternate columns.
\<close>

lemma string_layout_witness:
  "\<exists>t. run_state (ILI9341_DispStringLine_EN 16 (replicate 31 65)) (lcd_reset (\<lambda>_. 0) font8) = ((), t) \<and>
     picture (\<lambda>_. 7) (bus t) (7, 47) = 0xFFFF \<and> picture (\<lambda>_. 7) (bus t) (6, 47) = 0 \<and> picture (\<lambda>_. 7) (bus t) (8, 47) = 7"
proof -
  let ?s = "lcd_reset (\<lambda>_. 0) font8"
  obtain t where t: "run_state (ILI9341_DispStringLine_EN 16 (replicate 31 65)) ?s = ((), t)"
    by (metis old.unit.exhaust prod.exhaust)
  have p: "picture g (bus ?s) = g" for g by (simp add: lcd_reset_def picture_def panel0_def)
  have good: "good_font (LCD_Currentfonts ?s)" by (simp add: good_font_def lcd_reset_def font8_def)
  note l = string_layout [OF good _ _ _ _ disjI2 [OF conjI [OF refl refl]] t, where g = "\<lambda>_. 7"]
  show ?thesis
    using t l [of 47 7] l [of 47 6] l [of 47 8] p
    by (simp add: lcd_reset_def ILI9341_LESS_PIXEL_def ILI9341_MORE_PIXEL_def font8_def glyph_bit_def Let_def bit_numeral_rec)
qed

end
