(* ===== verification/Lcd_Draw.thy ===== *)
theory Lcd_Draw
  imports Lcd_Panel
begin

text \<open>
  \<open>src/applications/bsp_lcd_ili9341.c\<close>: lines, rectangles and circles. The loops of these
  functions are bounded by variables of fixed width, and need not end: a \<open>fuel\<close> bounds the rounds of each loop, and the
  result says whether the function returned.
\<close>

section \<open>The functions\<close>

subsection \<open>Lines\<close>

text \<open>The variables of the loop; the others are constants of it. The errors, of 32 bits, stay below \<open>2 ^ 17\<close>.\<close>

record line_run =
  us :: u16
  usX_Current :: u16
  usY_Current :: u16
  lError_X :: int
  lError_Y :: int

text \<open>The direction of an axis, and the length along it.\<close>

definition line_axis :: "int \<Rightarrow> int \<times> int" where
  "line_axis lDelta = (if lDelta > 0 then (1, lDelta) else if lDelta = 0 then (0, lDelta) else (-1, - lDelta))"

definition line_step :: "int \<Rightarrow> int \<Rightarrow> int \<Rightarrow> int \<Rightarrow> int \<Rightarrow> line_run \<Rightarrow> line_run" where
  "line_step lDelta_X lDelta_Y lDistance lIncrease_X lIncrease_Y l =
     (let ex = lError_X l + lDelta_X; ey = lError_Y l + lDelta_Y in
      l\<lparr>us := us l + 1,
        lError_X := if ex > lDistance then ex - lDistance else ex,
        usX_Current := if ex > lDistance then usX_Current l + word_of_int lIncrease_X else usX_Current l,
        lError_Y := if ey > lDistance then ey - lDistance else ey,
        usY_Current := if ey > lDistance then usY_Current l + word_of_int lIncrease_Y else usY_Current l\<rparr>)"

fun line_loop :: "nat \<Rightarrow> int \<Rightarrow> int \<Rightarrow> int \<Rightarrow> int \<Rightarrow> int \<Rightarrow> line_run \<Rightarrow> ('z lcd_st_scheme, bool) state" where
  "line_loop 0 dx dy md ix iy l = ret False"
| "line_loop (Suc fuel) dx dy md ix iy l =
     (if uint (us l) \<le> md + 1
      then do { ILI9341_SetPointPixel (usX_Current l) (usY_Current l); line_loop fuel dx dy md ix iy (line_step dx dy md ix iy l) }
      else ret True)"

definition ILI9341_DrawLine :: "nat \<Rightarrow> u16 \<Rightarrow> u16 \<Rightarrow> u16 \<Rightarrow> u16 \<Rightarrow> ('z lcd_st_scheme, bool) state" where
  "ILI9341_DrawLine fuel usX1 usY1 usX2 usY2 =
     (let (lIncrease_X, lDelta_X) = line_axis (uint usX2 - uint usX1);
          (lIncrease_Y, lDelta_Y) = line_axis (uint usY2 - uint usY1);
          lDistance = (if lDelta_X > lDelta_Y then lDelta_X else lDelta_Y)
      in line_loop fuel lDelta_X lDelta_Y lDistance lIncrease_X lIncrease_Y
           \<lparr>us = 0, usX_Current = usX1, usY_Current = usY1, lError_X = 0, lError_Y = 0\<rparr>)"

subsection \<open>Rectangles\<close>

text \<open>One call after the other, as long as they return.\<close>

definition and_then :: "('s, bool) state \<Rightarrow> ('s, bool) state \<Rightarrow> ('s, bool) state" where
  "and_then m k = do { b \<leftarrow> m; if b then k else ret False }"

definition ILI9341_DrawRectangle :: "nat \<Rightarrow> u16 \<Rightarrow> u16 \<Rightarrow> u16 \<Rightarrow> u16 \<Rightarrow> u8 \<Rightarrow> ('z lcd_st_scheme, bool) state" where
  "ILI9341_DrawRectangle fuel usX_Start usY_Start usWidth usHeight ucFilled =
     (if ucFilled \<noteq> 0
      then do {
        ILI9341_OpenWindow usX_Start usY_Start usWidth usHeight;
        c \<leftarrow> gets CurrentTextColor;
        ILI9341_FillColor (word_of_int (uint usWidth * uint usHeight)) c;
        ret True
      }
      else
        and_then (ILI9341_DrawLine fuel usX_Start usY_Start (usX_Start + usWidth - 1) usY_Start)
        (and_then (ILI9341_DrawLine fuel usX_Start (usY_Start + usHeight - 1) (usX_Start + usWidth - 1) (usY_Start + usHeight - 1))
        (and_then (ILI9341_DrawLine fuel usX_Start usY_Start usX_Start (usY_Start + usHeight - 1))
          (ILI9341_DrawLine fuel (usX_Start + usWidth - 1) usY_Start (usX_Start + usWidth - 1) (usY_Start + usHeight - 1)))))"

subsection \<open>Circles\<close>

text \<open>The three variables are signed, of 16 bits: words, read with \<open>sint\<close>.\<close>

definition eight_points :: "u16 \<Rightarrow> u16 \<Rightarrow> u16 \<Rightarrow> u16 \<Rightarrow> ('z lcd_st_scheme, unit) state" where
  "eight_points xc yc a b = do {
     ILI9341_SetPointPixel (xc + a) (yc + b);
     ILI9341_SetPointPixel (xc - a) (yc + b);
     ILI9341_SetPointPixel (xc - b) (yc + a);
     ILI9341_SetPointPixel (xc - b) (yc - a);
     ILI9341_SetPointPixel (xc - a) (yc - b);
     ILI9341_SetPointPixel (xc + a) (yc - b);
     ILI9341_SetPointPixel (xc + b) (yc - a);
     ILI9341_SetPointPixel (xc + b) (yc + a)
   }"

fun fill_loop :: "nat \<Rightarrow> u16 \<Rightarrow> u16 \<Rightarrow> u16 \<Rightarrow> u16 \<Rightarrow> u16 \<Rightarrow> ('z lcd_st_scheme, bool) state" where
  "fill_loop 0 xc yc sCurrentX sCurrentY sCountY = ret False"
| "fill_loop (Suc fuel) xc yc sCurrentX sCurrentY sCountY =
     (if sint sCountY \<le> sint sCurrentY
      then do { eight_points xc yc sCurrentX sCountY; fill_loop fuel xc yc sCurrentX sCurrentY (sCountY + 1) }
      else ret True)"

definition circle_step :: "u16 \<times> u16 \<times> u16 \<Rightarrow> u16 \<times> u16 \<times> u16" where
  "circle_step = (\<lambda>(sCurrentX, sCurrentY, sError).
     let x = sCurrentX + 1 in
     if sint sError < 0 then (x, sCurrentY, word_of_int (sint sError + (4 * sint x + 6)))
     else (x, sCurrentY - 1, word_of_int (sint sError + (10 + 4 * (sint x - sint sCurrentY)))))"

fun circle_loop :: "nat \<Rightarrow> u16 \<Rightarrow> u16 \<Rightarrow> bool \<Rightarrow> u16 \<times> u16 \<times> u16 \<Rightarrow> ('z lcd_st_scheme, bool) state" where
  "circle_loop 0 xc yc filled v = ret False"
| "circle_loop (Suc fuel) xc yc filled (sCurrentX, sCurrentY, sError) =
     (if sint sCurrentX \<le> sint sCurrentY
      then and_then
        (if filled then fill_loop (Suc fuel) xc yc sCurrentX sCurrentY sCurrentX
         else do { eight_points xc yc sCurrentX sCurrentY; ret True })
        (circle_loop fuel xc yc filled (circle_step (sCurrentX, sCurrentY, sError)))
      else ret True)"

definition ILI9341_DrawCircle :: "nat \<Rightarrow> u16 \<Rightarrow> u16 \<Rightarrow> u16 \<Rightarrow> u8 \<Rightarrow> ('z lcd_st_scheme, bool) state" where
  "ILI9341_DrawCircle fuel usX_Center usY_Center usRadius ucFilled =
     circle_loop fuel usX_Center usY_Center (ucFilled \<noteq> 0) (0, usRadius, word_of_int (3 - 2 * uint usRadius))"

section \<open>Drawing with a result\<close>

definition results :: "'z lcd_st_scheme \<Rightarrow> ('z lcd_st_scheme, 'a) state \<Rightarrow> 'a \<Rightarrow> ((nat \<times> nat \<Rightarrow> u16) \<Rightarrow> nat \<times> nat \<Rightarrow> u16) \<Rightarrow> bool" where
  "results s m v f \<longleftrightarrow> draws s m f \<and> (\<forall>b. fst (run_state m (s\<lparr>bus := b\<rparr>)) = v)"

lemma results_ret: "results s (ret v) v (\<lambda>g. g)"
  by (simp add: results_def draws_ret)

lemma results_unit: "draws s m f \<Longrightarrow> results s m () f"
  by (simp add: results_def)

lemma results_bind:
  assumes "results s m v f" and "results s (k v) w f'"
  shows "results s (m \<bind> k) w (\<lambda>g. f' (f g))"
proof -
  have v: "fst (run_state m (s\<lparr>bus := b\<rparr>)) = v" for b using assms(1) unfolding results_def by blast
  have m: "\<exists>es. snd (run_state m (s\<lparr>bus := b\<rparr>)) = s\<lparr>bus := b @ es\<rparr> \<and> (\<forall>p. gram (foldl panel_step p es) = f (gram p))" for b
    using assms(1) unfolding results_def draws_def by blast
  have k: "\<exists>es. snd (run_state (k v) (s\<lparr>bus := b\<rparr>)) = s\<lparr>bus := b @ es\<rparr> \<and> (\<forall>p. gram (foldl panel_step p es) = f' (gram p))"
    "fst (run_state (k v) (s\<lparr>bus := b\<rparr>)) = w" for b
    using assms(2) unfolding results_def draws_def by blast+
  have "\<exists>es. snd (run_state (m \<bind> k) (s\<lparr>bus := b\<rparr>)) = s\<lparr>bus := b @ es\<rparr> \<and> (\<forall>p. gram (foldl panel_step p es) = f' (f (gram p)))
      \<and> fst (run_state (m \<bind> k) (s\<lparr>bus := b\<rparr>)) = w" for b
  proof -
    obtain es where es: "snd (run_state m (s\<lparr>bus := b\<rparr>)) = s\<lparr>bus := b @ es\<rparr>" "\<forall>p. gram (foldl panel_step p es) = f (gram p)"
      using m [of b] by blast
    obtain fs where fs: "snd (run_state (k v) (s\<lparr>bus := b @ es\<rparr>)) = s\<lparr>bus := (b @ es) @ fs\<rparr>"
      "\<forall>p. gram (foldl panel_step p fs) = f' (gram p)" using k(1) [of "b @ es"] by blast
    show ?thesis unfolding snd_run_bind fst_run_bind v using es fs k(2) by (intro exI [of _ "es @ fs"]) simp
  qed
  then show ?thesis unfolding results_def draws_def by blast
qed

lemma resultsD:
  assumes "results s m v f" and "run_state m s = (x, t)"
  shows "x = v" and "picture g (bus t) = f (picture g (bus s))" and "\<exists>b. t = s\<lparr>bus := b\<rparr>"
proof -
  have "fst (run_state m (s\<lparr>bus := bus s\<rparr>)) = v" using assms(1) unfolding results_def by blast
  then show "x = v" using assms(2) by simp
  show "picture g (bus t) = f (picture g (bus s))" "\<exists>b. t = s\<lparr>bus := b\<rparr>"
    using drawsD [OF _ assms(2)] assms(1) unfolding results_def by blast+
qed

lemma results_then: "results s m True f \<Longrightarrow> results s k w f' \<Longrightarrow> results s (and_then m k) w (\<lambda>g. f' (f g))"
  unfolding and_then_def by (rule results_bind [where v = True]) simp_all

text \<open>A list of points, one after the other.\<close>

definition dots :: "'z lcd_st_scheme \<Rightarrow> (u16 \<times> u16) list \<Rightarrow> (nat \<times> nat \<Rightarrow> u16) \<Rightarrow> nat \<times> nat \<Rightarrow> u16" where
  "dots s ps g = foldl (\<lambda>g p. dot s p g) g ps"

lemma dots_simps: "dots s [] = (\<lambda>g. g)" "dots s (p # ps) = (\<lambda>g. dots s ps (dot s p g))"
  "dots s (ps @ qs) = (\<lambda>g. dots s qs (dots s ps g))"
  by (simp_all add: dots_def fun_eq_iff)

lemma dots_pixel: "dots s ps g (i, j) =
    (if \<exists>(a, b)\<in>set ps. on_screen s a b \<and> (i, j) = (unat a, unat b) then CurrentTextColor s else g (i, j))"
  by (induction ps arbitrary: g) (auto simp: dots_simps dot_def split: if_splits)


section \<open>Lines\<close>

text \<open>How far along an axis of length \<open>m\<close> the loop is after \<open>k\<close> rounds, the longer axis being of length \<open>d\<close>.\<close>

definition line_off :: "nat \<Rightarrow> nat \<Rightarrow> nat \<Rightarrow> nat" where
  "line_off m d k = (k * m - 1) div d"

lemma line_off_step:
  assumes "m \<le> d"
  shows "line_off m d (Suc k) = (if int (k * m) - int (line_off m d k * d) + int m > int d then Suc (line_off m d k) else line_off m d k)"
proof (cases "m = 0 \<or> k = 0")
  case True
  moreover have "(m - 1) div d = 0" using assms by (cases "m = 0") simp_all
  ultimately show ?thesis using assms by (auto simp: line_off_def)
next
  case False
  define q where "q = (k * m - 1) div d"
  define r where "r = (k * m - 1) mod d"
  have d: "0 < d" using False assms by auto
  have "1 \<le> k * m" using False by (cases k; cases m) auto
  moreover have "q * d + r = k * m - 1" unfolding q_def r_def by (rule div_mult_mod_eq)
  ultimately have km: "k * m = q * d + r + 1" by linarith
  have r: "r < d" unfolding r_def using d by simp
  have "Suc k * m - 1 = q * d + (r + m)" using km by simp
  then have nxt: "line_off m d (Suc k) = q + (r + m) div d" unfolding line_off_def using d by simp
  have "(r + m) div d = (if r + m \<ge> d then 1 else 0)" using r assms d by (auto simp: div_if)
  moreover have "int (k * m) - int (q * d) + int m > int d \<longleftrightarrow> r + m \<ge> d" unfolding km by auto
  moreover have "line_off m d k = q" by (simp add: line_off_def q_def)
  ultimately show ?thesis using nxt by simp
qed

text \<open>The point of round \<open>k\<close>.\<close>

definition line_at :: "u16 \<Rightarrow> int \<Rightarrow> nat \<Rightarrow> nat \<Rightarrow> nat \<Rightarrow> u16" where
  "line_at x ix m d k = x + word_of_int ix * of_nat (line_off m d k)"

definition line_state :: "u16 \<Rightarrow> u16 \<Rightarrow> int \<Rightarrow> int \<Rightarrow> nat \<Rightarrow> nat \<Rightarrow> nat \<Rightarrow> nat \<Rightarrow> line_run" where
  "line_state x y ix iy m n d k = \<lparr>us = of_nat k, usX_Current = line_at x ix m d k, usY_Current = line_at y iy n d k,
     lError_X = int (k * m) - int (line_off m d k * d), lError_Y = int (k * n) - int (line_off n d k * d)\<rparr>"

lemma line_step_state:
  assumes "m \<le> d" and "n \<le> d"
  shows "line_step (int m) (int n) (int d) ix iy (line_state x y ix iy m n d k) = line_state x y ix iy m n d (Suc k)"
  by (simp add: line_step_def line_state_def line_at_def line_off_step [OF assms(1)] line_off_step [OF assms(2)] algebra_simps)

lemma results_line_loop:
  assumes "m \<le> d" and "n \<le> d" and "d \<le> 65533" and "k \<le> d + 2" and "d + 2 < fuel + k"
  shows "results s (line_loop fuel (int m) (int n) (int d) ix iy (line_state x y ix iy m n d k)) True
    (dots s (map (\<lambda>k. (line_at x ix m d k, line_at y iy n d k)) [k..<d + 2]))"
  using assms(4,5)
proof (induction fuel arbitrary: k)
  case (Suc fuel)
  have u: "uint (us (line_state x y ix iy m n d k)) = int k"
    using Suc.prems(1) assms(3) by (simp add: line_state_def unsigned_of_nat take_bit_nat_eq_self)
  show ?case
  proof (cases "k = d + 2")
    case True
    show ?thesis using u unfolding True by (simp add: results_ret dots_simps)
  next
    case False
    then have "results s (line_loop fuel (int m) (int n) (int d) ix iy (line_state x y ix iy m n d (Suc k))) True
        (dots s (map (\<lambda>k. (line_at x ix m d k, line_at y iy n d k)) [Suc k..<d + 2]))"
      using Suc.prems by (intro Suc.IH) simp_all
    from results_bind [OF results_unit [OF draws_point] this]
    have "results s (do { ILI9341_SetPointPixel (line_at x ix m d k) (line_at y iy n d k);
        line_loop fuel (int m) (int n) (int d) ix iy (line_state x y ix iy m n d (Suc k)) }) True
        (\<lambda>g. dots s (map (\<lambda>k. (line_at x ix m d k, line_at y iy n d k)) [Suc k..<d + 2]) (dot s (line_at x ix m d k, line_at y iy n d k) g))" .
    moreover have "[k..<d + 2] = k # [Suc k..<d + 2]" using False Suc.prems(1) by (intro upt_conv_Cons) simp
    ultimately show ?thesis
      using u False Suc.prems(1)
      by (simp add: dots_simps line_step_state [OF assms(1,2)] del: upt_Suc) (simp add: line_state_def)
  qed
qed simp

text \<open>On a distance of 65534 the sixteen bits of the counter never pass the bound.\<close>

lemma line_loop_hangs: "65534 \<le> d \<Longrightarrow> fst (run_state (line_loop fuel dx dy d ix iy l) s) = False"
proof (induction fuel arbitrary: l s)
  case (Suc fuel)
  have "uint (us l) \<le> d + 1" using uint_lt2p [of "us l"] Suc.prems by simp
  with Suc show ?case by (simp add: split_beta)
qed simp


lemma line_axis: "line_axis v = (sgn v, \<bar>v\<bar>)"
  by (simp add: line_axis_def sgn_if)

lemma line_off_first: "m \<le> d \<Longrightarrow> line_off m d 0 = 0" "m \<le> d \<Longrightarrow> line_off m d 1 = 0"
  by (cases "m = 0"; simp add: line_off_def)+

lemma line_off_le: "m \<le> d \<Longrightarrow> k \<le> d + 1 \<Longrightarrow> line_off m d k \<le> m"
proof -
  assume "m \<le> d" "k \<le> d + 1"
  then have "k * m - 1 < (m + 1) * d \<or> d = 0"
  proof -
    have "k * m \<le> (d + 1) * m" using \<open>k \<le> d + 1\<close> by (rule mult_le_mono1)
    then show ?thesis using \<open>m \<le> d\<close> by (cases "d = 0") (auto simp: algebra_simps)
  qed
  then show ?thesis unfolding line_off_def by (metis Suc_eq_plus1 div_by_0 le0 less_Suc_eq_le less_mult_imp_div_less)
qed

text \<open>The length of a line in rounds.\<close>

definition line_length :: "u16 \<Rightarrow> u16 \<Rightarrow> u16 \<Rightarrow> u16 \<Rightarrow> nat" where
  "line_length x1 y1 x2 y2 = max (nat \<bar>uint x2 - uint x1\<bar>) (nat \<bar>uint y2 - uint y1\<bar>)"

definition line_points :: "u16 \<Rightarrow> u16 \<Rightarrow> u16 \<Rightarrow> u16 \<Rightarrow> (u16 \<times> u16) list" where
  "line_points x1 y1 x2 y2 = (let d = line_length x1 y1 x2 y2 in map (\<lambda>k.
     (line_at x1 (sgn (uint x2 - uint x1)) (nat \<bar>uint x2 - uint x1\<bar>) d k,
      line_at y1 (sgn (uint y2 - uint y1)) (nat \<bar>uint y2 - uint y1\<bar>) d k)) [0..<d + 2])"

lemma DrawLine_loop: "ILI9341_DrawLine fuel x1 y1 x2 y2 =
    line_loop fuel (int (nat \<bar>uint x2 - uint x1\<bar>)) (int (nat \<bar>uint y2 - uint y1\<bar>)) (int (line_length x1 y1 x2 y2))
      (sgn (uint x2 - uint x1)) (sgn (uint y2 - uint y1))
      (line_state x1 y1 (sgn (uint x2 - uint x1)) (sgn (uint y2 - uint y1)) (nat \<bar>uint x2 - uint x1\<bar>) (nat \<bar>uint y2 - uint y1\<bar>)
        (line_length x1 y1 x2 y2) 0)"
proof -
  have "line_state x1 y1 ix iy m n d 0 = \<lparr>us = 0, usX_Current = x1, usY_Current = y1, lError_X = 0, lError_Y = 0\<rparr>"
    for ix iy m n d by (simp add: line_state_def line_at_def line_off_def)
  moreover have "(if \<bar>a\<bar> > \<bar>b\<bar> then \<bar>a\<bar> else \<bar>b\<bar>) = int (max (nat \<bar>a\<bar>) (nat \<bar>b\<bar>))" for a b :: int by (auto simp: max_def)
  ultimately show ?thesis by (simp add: ILI9341_DrawLine_def line_axis line_length_def Let_def)
qed

lemma results_line:
  assumes "line_length x1 y1 x2 y2 \<le> 65533" and "line_length x1 y1 x2 y2 + 2 < fuel"
  shows "results s (ILI9341_DrawLine fuel x1 y1 x2 y2) True (dots s (line_points x1 y1 x2 y2))"
  unfolding DrawLine_loop line_points_def Let_def
  by (rule results_line_loop) (use assms in \<open>auto simp: line_length_def\<close>)

lemma line_hangs: "65534 \<le> line_length x1 y1 x2 y2 \<Longrightarrow> fst (run_state (ILI9341_DrawLine fuel x1 y1 x2 y2) s) = False"
  unfolding DrawLine_loop by (rule line_loop_hangs) simp

text \<open>A point of the line does not wrap around.\<close>

lemma sgn_between: "0 \<le> a \<Longrightarrow> a < n \<Longrightarrow> 0 \<le> b \<Longrightarrow> b < n \<Longrightarrow> k \<le> nat \<bar>b - a\<bar> \<Longrightarrow>
    0 \<le> a + sgn (b - a) * int k \<and> a + sgn (b - a) * int k < n" for a b n :: int
  by (auto simp: sgn_if)

lemma uint_line_at:
  fixes x1 x2 :: u16
  assumes "nat \<bar>uint x2 - uint x1\<bar> \<le> d" and "k \<le> d + 1"
  shows "int (unat (line_at x1 (sgn (uint x2 - uint x1)) (nat \<bar>uint x2 - uint x1\<bar>) d k)) =
    uint x1 + sgn (uint x2 - uint x1) * int (line_off (nat \<bar>uint x2 - uint x1\<bar>) d k)"
proof -
  define o1 where "o1 = line_off (nat \<bar>uint x2 - uint x1\<bar>) d k"
  have "o1 \<le> nat \<bar>uint x2 - uint x1\<bar>" unfolding o1_def by (rule line_off_le [OF assms])
  then have range: "0 \<le> uint x1 + sgn (uint x2 - uint x1) * int o1" "uint x1 + sgn (uint x2 - uint x1) * int o1 < 65536"
    using sgn_between [OF uint_ge_0 uint16 uint_ge_0 uint16] by blast+
  have "line_at x1 (sgn (uint x2 - uint x1)) (nat \<bar>uint x2 - uint x1\<bar>) d k = word_of_int (uint x1 + sgn (uint x2 - uint x1) * int o1)"
    unfolding line_at_def o1_def by simp
  moreover have "uint (word_of_int (uint x1 + sgn (uint x2 - uint x1) * int o1) :: u16) = uint x1 + sgn (uint x2 - uint x1) * int o1"
    unfolding unsigned_of_int using range by (simp add: take_bit_int_eq_self)
  ultimately show ?thesis by (simp add: o1_def)
qed

text \<open>The pixels of the line.\<close>

definition on_line :: "u16 \<Rightarrow> u16 \<Rightarrow> u16 \<Rightarrow> u16 \<Rightarrow> nat \<Rightarrow> nat \<Rightarrow> bool" where
  "on_line x1 y1 x2 y2 i j \<longleftrightarrow> (\<exists>k\<le>line_length x1 y1 x2 y2.
     int i = uint x1 + sgn (uint x2 - uint x1) * int (line_off (nat \<bar>uint x2 - uint x1\<bar>) (line_length x1 y1 x2 y2) (k + 1)) \<and>
     int j = uint y1 + sgn (uint y2 - uint y1) * int (line_off (nat \<bar>uint y2 - uint y1\<bar>) (line_length x1 y1 x2 y2) (k + 1)))"

lemma bex_rounds: "(\<exists>x\<in>(\<lambda>k. f (k + 1)) ` {..d}. Q x) \<longleftrightarrow> (\<exists>k\<le>d. Q (f (k + 1)))" for d :: nat
  by auto

lemma line_points_on_line: "(\<exists>(a, b)\<in>set (line_points x1 y1 x2 y2). P a b \<and> (i, j) = (unat a, unat b)) \<longleftrightarrow>
    on_line x1 y1 x2 y2 i j \<and> P (of_nat i) (of_nat j)"
proof -
  define d where "d = line_length x1 y1 x2 y2"
  define m where "m = nat \<bar>uint x2 - uint x1\<bar>"
  define n where "n = nat \<bar>uint y2 - uint y1\<bar>"
  define p where "p = (\<lambda>k. (line_at x1 (sgn (uint x2 - uint x1)) m d k, line_at y1 (sgn (uint y2 - uint y1)) n d k))"
  have le: "m \<le> d" "n \<le> d" by (simp_all add: m_def n_def d_def line_length_def)
  have p0: "p 0 = p 1" using line_off_first [OF le(1)] line_off_first [OF le(2)] by (simp add: p_def line_at_def)
  have "set [0..<d + 2] = {..d + 1}" by auto
  then have "set (line_points x1 y1 x2 y2) = p ` {..d + 1}"
    unfolding line_points_def Let_def d_def [symmetric] m_def [symmetric] n_def [symmetric] p_def [symmetric] set_map by (rule arg_cong)
  also have "\<dots> = (\<lambda>k. p (k + 1)) ` {..d}" (is "_ = ?r")
  proof
    show "p ` {..d + 1} \<subseteq> ?r"
    proof
      fix q assume "q \<in> p ` {..d + 1}"
      then obtain k where k: "k \<le> d + 1" "q = p k" by auto
      show "q \<in> ?r"
      proof (cases k)
        case 0
        then show ?thesis using k p0 by (intro image_eqI [of _ _ 0]) simp_all
      next
        case (Suc l)
        then show ?thesis using k by (intro image_eqI [of _ _ l]) simp_all
      qed
    qed
  qed auto
  finally have pts: "set (line_points x1 y1 x2 y2) = ?r" .
  define C where "C = (\<lambda>k. int i = uint x1 + sgn (uint x2 - uint x1) * int (line_off m d (k + 1)) \<and>
     int j = uint y1 + sgn (uint y2 - uint y1) * int (line_off n d (k + 1)))"
  have pk: "(case p (k + 1) of (a, b) \<Rightarrow> P a b \<and> (i, j) = (unat a, unat b)) \<longleftrightarrow> C k \<and> P (of_nat i) (of_nat j)" if "k \<le> d" for k
  proof -
    obtain a b where ab: "p (k + 1) = (a, b)" by (cases "p (k + 1)")
    have "C k \<longleftrightarrow> (i, j) = (unat a, unat b)"
      using uint_line_at [of x2 x1 d "k + 1"] uint_line_at [of y2 y1 d "k + 1"] le ab \<open>k \<le> d\<close> unfolding p_def m_def n_def C_def
      by (simp only: prod.inject of_nat_eq_iff [symmetric, where 'a = int])
    then show ?thesis unfolding ab by auto
  qed
  have "(\<exists>(a, b)\<in>?r. P a b \<and> (i, j) = (unat a, unat b)) \<longleftrightarrow> (\<exists>k\<le>d. case p (k + 1) of (a, b) \<Rightarrow> P a b \<and> (i, j) = (unat a, unat b))"
    by (rule bex_rounds)
  also have "\<dots> \<longleftrightarrow> (\<exists>k\<le>d. C k \<and> P (of_nat i) (of_nat j))" by (rule ex_cong1, rule conj_cong, rule refl, rule pk)
  also have "\<dots> \<longleftrightarrow> (\<exists>k\<le>d. C k) \<and> P (of_nat i) (of_nat j)" by blast
  finally show ?thesis unfolding pts on_line_def C_def d_def m_def n_def .
qed

lemma dots_line: "dots s (line_points x1 y1 x2 y2) g (i, j) =
    (if on_line x1 y1 x2 y2 i j \<and> i < unat (LCD_X_LENGTH s) \<and> j < unat (LCD_Y_LENGTH s) then CurrentTextColor s else g (i, j))"
proof -
  have "(\<exists>(a, b)\<in>set (line_points x1 y1 x2 y2). on_screen s a b \<and> (i, j) = (unat a, unat b)) \<longleftrightarrow>
    (\<exists>(a, b)\<in>set (line_points x1 y1 x2 y2). (i < unat (LCD_X_LENGTH s) \<and> j < unat (LCD_Y_LENGTH s)) \<and> (i, j) = (unat a, unat b))"
    by (intro bex_cong refl) (auto simp: on_screen_def word_less_nat_alt)
  then show ?thesis unfolding dots_pixel by (simp only: line_points_on_line)
qed

text \<open>
  C19: a line, and whether it comes to an end. Let \<open>d\<close> be the greater of the two distances. If it is at most 65533,
  the function returns after \<open>d + 2\<close> rounds; the pixels of the line that are on the screen have the text
  colour, the others, and the driver's variables, are as they were. The pixels are those \<open>k\<close> steps along the longer
  axis, \<open>k \<le> d\<close>, and \<open>((k + 1) * m - 1) div d\<close> along the other one of length
  \<open>m\<close>. If the distance is greater, the counter of sixteen bits never passes it, and the function never returns.
\<close>

theorem line_draws:
  "if line_length x1 y1 x2 y2 \<le> 65533 then
     \<exists>t. run_state (ILI9341_DrawLine (line_length x1 y1 x2 y2 + 3 + n) x1 y1 x2 y2) s = (True, t) \<and> (\<exists>b. t = s\<lparr>bus := b\<rparr>) \<and>
       picture g (bus t) (i, j) =
         (if on_line x1 y1 x2 y2 i j \<and> i < unat (LCD_X_LENGTH s) \<and> j < unat (LCD_Y_LENGTH s) then CurrentTextColor s
          else picture g (bus s) (i, j))
   else fst (run_state (ILI9341_DrawLine n x1 y1 x2 y2) s) = False"
proof (cases "line_length x1 y1 x2 y2 \<le> 65533")
  case True
  obtain v t where t: "run_state (ILI9341_DrawLine (line_length x1 y1 x2 y2 + 3 + n) x1 y1 x2 y2) s = (v, t)"
    by (metis prod.exhaust)
  have "results s (ILI9341_DrawLine (line_length x1 y1 x2 y2 + 3 + n) x1 y1 x2 y2) True (dots s (line_points x1 y1 x2 y2))"
    by (rule results_line [OF True]) simp
  from resultsD [OF this t] show ?thesis using True t by (simp add: dots_line)
next
  case False
  then show ?thesis by (simp add: line_hangs)
qed

text \<open>How close the steps are to the straight line.\<close>

lemma line_off_near:
  assumes "m \<le> d" and "0 < d"
  shows "\<bar>int (line_off m d (k + 1)) * int d - int k * int m\<bar> < int d"
proof (cases "m = 0")
  case False
  define q where "q = line_off m d (k + 1)"
  have n: "(k + 1) * m - 1 = k * m + (m - 1)" using False by (cases m) simp_all
  have "q * d \<le> k * m + (m - 1)" "k * m + (m - 1) < q * d + d"
    unfolding q_def line_off_def n using dividend_less_div_times [OF assms(2), of "k * m + (m - 1)"] by simp_all
  moreover have "int q * int d = int (q * d)" "int k * int m = int (k * m)" by simp_all
  ultimately show ?thesis using False assms(1) unfolding q_def by linarith
qed (simp add: line_off_def assms(2))

lemma div_rest: "r < d \<Longrightarrow> (k * d + r) div d = k" for r d k :: nat
  by simp

lemma line_off_self: "0 < d \<Longrightarrow> line_off d d (k + 1) = k"
proof -
  assume "0 < d"
  then have "(k + 1) * d - 1 = k * d + (d - 1)" "d - 1 < d" by simp_all
  then show ?thesis unfolding line_off_def by (metis div_rest)
qed

lemma line_off_last: "m \<le> d \<Longrightarrow> line_off m d (d + 1) = m"
proof (cases "m = 0")
  case False
  assume m: "m \<le> d"
  then have "(d + 1) * m - 1 = m * d + (m - 1)" "m - 1 < d" using False by (cases m; simp)+
  then show ?thesis unfolding line_off_def by (metis div_rest)
qed (simp add: line_off_def)

lemma signs: "sgn a = -1 \<or> sgn a = 0 \<or> sgn a = 1" for a :: int
  by (auto simp: sgn_if)

lemma on_line_straight:
  assumes "on_line x1 y1 x2 y2 i j"
  shows "\<bar>(int i - uint x1) * (uint y2 - uint y1) - (int j - uint y1) * (uint x2 - uint x1)\<bar> < max 1 (int (line_length x1 y1 x2 y2))"
proof -
  define d where "d = line_length x1 y1 x2 y2"
  define m where "m = nat \<bar>uint x2 - uint x1\<bar>"
  define n where "n = nat \<bar>uint y2 - uint y1\<bar>"
  define sx where "sx = sgn (uint x2 - uint x1)"
  define sy where "sy = sgn (uint y2 - uint y1)"
  obtain k where k: "k \<le> d" "int i - uint x1 = sx * int (line_off m d (k + 1))" "int j - uint y1 = sy * int (line_off n d (k + 1))"
    using assms unfolding on_line_def d_def [symmetric] m_def [symmetric] n_def [symmetric] sx_def sy_def by auto
  have mn: "m \<le> d" "n \<le> d" "m = d \<or> n = d" by (simp_all add: m_def n_def d_def line_length_def max_def)
  have dx: "uint x2 - uint x1 = sx * int m" "uint y2 - uint y1 = sy * int n"
    unfolding m_def n_def sx_def sy_def by (simp_all add: sgn_mult_abs)
  have eq: "(int i - uint x1) * (uint y2 - uint y1) - (int j - uint y1) * (uint x2 - uint x1) =
      sx * sy * (int (line_off m d (k + 1)) * int n - int (line_off n d (k + 1)) * int m)"
    unfolding k(2,3) dx by (simp add: algebra_simps)
  show ?thesis
  proof (cases "d = 0")
    case True
    then have "m = 0" "n = 0" using mn by simp_all
    then show ?thesis unfolding eq by simp
  next
    case False
    then have d: "0 < d" by simp
    have "\<bar>int (line_off m d (k + 1)) * int n - int (line_off n d (k + 1)) * int m\<bar> < int d"
      using mn(3) line_off_near [OF mn(1) d, of k] line_off_near [OF mn(2) d, of k] line_off_self [OF d, of k]
      by (auto simp: abs_minus_commute)
    moreover have "\<bar>sx * sy * v\<bar> \<le> \<bar>v\<bar>" for v :: int
      using signs [of "uint x2 - uint x1"] signs [of "uint y2 - uint y1"] unfolding sx_def [symmetric] sy_def [symmetric] by auto
    ultimately show ?thesis unfolding eq d_def [symmetric] by (smt (verit))
  qed
qed


lemma on_line_ends: "on_line x1 y1 x2 y2 (unat x1) (unat y1)" "on_line x1 y1 x2 y2 (unat x2) (unat y2)"
proof -
  have m: "nat \<bar>uint x2 - uint x1\<bar> \<le> line_length x1 y1 x2 y2" "nat \<bar>uint y2 - uint y1\<bar> \<le> line_length x1 y1 x2 y2"
    by (simp_all add: line_length_def)
  show "on_line x1 y1 x2 y2 (unat x1) (unat y1)" unfolding on_line_def
    using line_off_first(2) [OF m(1)] line_off_first(2) [OF m(2)] by (intro exI [of _ 0]) simp
  show "on_line x1 y1 x2 y2 (unat x2) (unat y2)" unfolding on_line_def
    using line_off_last [OF m(1)] line_off_last [OF m(2)]
    by (intro exI [of _ "line_length x1 y1 x2 y2"]) (simp add: sgn_mult_abs)
qed

lemma sgn_range: "k \<le> nat \<bar>b - a\<bar> \<Longrightarrow> min a b \<le> a + sgn (b - a) * int k \<and> a + sgn (b - a) * int k \<le> max a b" for a b :: int
  by (auto simp: sgn_if)

lemma on_line_box:
  assumes "on_line x1 y1 x2 y2 i j"
  shows "min (uint x1) (uint x2) \<le> int i \<and> int i \<le> max (uint x1) (uint x2)"
    and "min (uint y1) (uint y2) \<le> int j \<and> int j \<le> max (uint y1) (uint y2)"
proof -
  have m: "nat \<bar>uint x2 - uint x1\<bar> \<le> line_length x1 y1 x2 y2" "nat \<bar>uint y2 - uint y1\<bar> \<le> line_length x1 y1 x2 y2"
    by (simp_all add: line_length_def)
  obtain k where k: "k \<le> line_length x1 y1 x2 y2"
    "int i = uint x1 + sgn (uint x2 - uint x1) * int (line_off (nat \<bar>uint x2 - uint x1\<bar>) (line_length x1 y1 x2 y2) (k + 1))"
    "int j = uint y1 + sgn (uint y2 - uint y1) * int (line_off (nat \<bar>uint y2 - uint y1\<bar>) (line_length x1 y1 x2 y2) (k + 1))"
    using assms unfolding on_line_def by blast
  show "min (uint x1) (uint x2) \<le> int i \<and> int i \<le> max (uint x1) (uint x2)"
    unfolding k(2) by (rule sgn_range, rule line_off_le [OF m(1)]) (simp add: k(1))
  show "min (uint y1) (uint y2) \<le> int j \<and> int j \<le> max (uint y1) (uint y2)"
    unfolding k(3) by (rule sgn_range, rule line_off_le [OF m(2)]) (simp add: k(1))
qed

text \<open>
  C20: the line is straight. Both ends, if they are on the screen, are drawn, and every pixel that changes lies between
  the ends and off the exact line by less than one pixel: the cross product of its position
  with the direction of the line is below the greater of the two distances.
\<close>

theorem line_is_straight:
  assumes "line_length x1 y1 x2 y2 \<le> 65533"
    and "run_state (ILI9341_DrawLine (line_length x1 y1 x2 y2 + 3 + n) x1 y1 x2 y2) s = (v, t)"
  shows "(x1 < LCD_X_LENGTH s \<and> y1 < LCD_Y_LENGTH s \<longrightarrow> picture g (bus t) (unat x1, unat y1) = CurrentTextColor s) \<and>
    (x2 < LCD_X_LENGTH s \<and> y2 < LCD_Y_LENGTH s \<longrightarrow> picture g (bus t) (unat x2, unat y2) = CurrentTextColor s) \<and>
    (picture g (bus t) (i, j) \<noteq> picture g (bus s) (i, j) \<longrightarrow>
      min (uint x1) (uint x2) \<le> int i \<and> int i \<le> max (uint x1) (uint x2) \<and>
      min (uint y1) (uint y2) \<le> int j \<and> int j \<le> max (uint y1) (uint y2) \<and>
      \<bar>(int i - uint x1) * (uint y2 - uint y1) - (int j - uint y1) * (uint x2 - uint x1)\<bar>
        < max 1 (max \<bar>uint x2 - uint x1\<bar> \<bar>uint y2 - uint y1\<bar>))"
proof -
  have "results s (ILI9341_DrawLine (line_length x1 y1 x2 y2 + 3 + n) x1 y1 x2 y2) True (dots s (line_points x1 y1 x2 y2))"
    by (rule results_line [OF assms(1)]) simp
  from resultsD(2) [OF this assms(2)]
  have t: "picture g (bus t) (i, j) = (if on_line x1 y1 x2 y2 i j \<and> i < unat (LCD_X_LENGTH s) \<and> j < unat (LCD_Y_LENGTH s)
      then CurrentTextColor s else picture g (bus s) (i, j))" for i j by (simp add: dots_line)
  have len: "int (line_length x1 y1 x2 y2) = max \<bar>uint x2 - uint x1\<bar> \<bar>uint y2 - uint y1\<bar>" by (simp add: line_length_def)
  show ?thesis using on_line_straight [of x1 y1 x2 y2 i j] on_line_box [of x1 y1 x2 y2 i j]
    unfolding t len by (simp add: on_line_ends word_less_nat_alt)
qed

lemma line_is_straight_witness:
  "\<exists>t. run_state (ILI9341_DrawLine 10 0 0 7 3) (lcd_reset (\<lambda>_. 0) font8) = (True, t) \<and>
     picture (\<lambda>_. 7) (bus t) (7, 3) = 0 \<and> picture (\<lambda>_. 7) (bus t) (3, 3) = 7"
proof -
  let ?s = "lcd_reset (\<lambda>_. 0) font8"
  have len: "line_length 0 0 7 3 = 7" by (simp add: line_length_def)
  have r: "results ?s (ILI9341_DrawLine 10 0 0 7 3) True (dots ?s (line_points 0 0 7 3))"
    by (rule results_line) (simp_all add: len)
  obtain v t where vt: "run_state (ILI9341_DrawLine 10 0 0 7 3) ?s = (v, t)" by (metis prod.exhaust)
  then have t: "run_state (ILI9341_DrawLine 10 0 0 7 3) ?s = (True, t)" using resultsD(1) [OF r vt] by simp
  have p: "picture g (bus ?s) = g" for g by (simp add: lcd_reset_def picture_def panel0_def)
  show ?thesis
    using t line_is_straight [where ?x1.0 = 0 and ?y1.0 = 0 and ?x2.0 = 7 and ?y2.0 = 3 and s = ?s and v = True and t = t and n = 0 and g = "\<lambda>_. 7" and i = 3 and j = 3] p len
    by (auto simp: lcd_reset_def ILI9341_LESS_PIXEL_def ILI9341_MORE_PIXEL_def)
qed


section \<open>Rectangles\<close>

text \<open>Horizontal and vertical lines.\<close>

lemma on_line_along:
  assumes "uint x1 \<le> uint x2"
  shows "on_line x1 y x2 y i j \<longleftrightarrow> j = unat y \<and> unat x1 \<le> i \<and> i \<le> unat x2"
    and "on_line y x1 y x2 i j \<longleftrightarrow> i = unat y \<and> unat x1 \<le> j \<and> j \<le> unat x2"
proof -
  let ?d = "nat (uint x2 - uint x1)"
  have len: "line_length x1 y x2 y = ?d" "line_length y x1 y x2 = ?d" using assms by (simp_all add: line_length_def)
  have off: "sgn (uint x2 - uint x1) * int (line_off ?d ?d (k + 1)) = int k" if "k \<le> ?d" for k
    using that assms line_off_self [of ?d k] by (cases "?d = 0") (auto simp: sgn_if)
  have between: "(\<exists>k\<le>?d. int i = uint x1 + int k) \<longleftrightarrow> unat x1 \<le> i \<and> i \<le> unat x2" for i
  proof
    assume "unat x1 \<le> i \<and> i \<le> unat x2"
    moreover have "int (unat x1) = uint x1" "int (unat x2) = uint x2" by simp_all
    ultimately have "i - unat x1 \<le> ?d" "int i = uint x1 + int (i - unat x1)" by linarith+
    then show "\<exists>k\<le>?d. int i = uint x1 + int k" by blast
  next
    assume "\<exists>k\<le>?d. int i = uint x1 + int k"
    moreover have "int (unat x1) = uint x1" "int (unat x2) = uint x2" by simp_all
    ultimately show "unat x1 \<le> i \<and> i \<le> unat x2" using assms by (elim exE conjE) linarith
  qed
  have level: "int j = uint y \<longleftrightarrow> j = unat y" for j
  proof -
    have "int (unat y) = uint y" by simp
    then show ?thesis by linarith
  qed
  have rounds: "(\<exists>k\<le>?d. int i = uint x1 + sgn (uint x2 - uint x1) * int (line_off ?d ?d (k + 1)) \<and> q) \<longleftrightarrow>
      (\<exists>k\<le>?d. int i = uint x1 + int k) \<and> q"
    "(\<exists>k\<le>?d. q \<and> int i = uint x1 + sgn (uint x2 - uint x1) * int (line_off ?d ?d (k + 1))) \<longleftrightarrow>
      (\<exists>k\<le>?d. int i = uint x1 + int k) \<and> q" for i q
    by (metis off)+
  have line: "on_line x1 y x2 y i j \<longleftrightarrow> (\<exists>k\<le>?d. int i = uint x1 + int k) \<and> int j = uint y"
    "on_line y x1 y x2 i j \<longleftrightarrow> (\<exists>k\<le>?d. int j = uint x1 + int k) \<and> int i = uint y"
    unfolding on_line_def len abs_of_nonneg [OF diff_ge_0_iff_ge [THEN iffD2, OF assms]] diff_self sgn_0 mult_zero_left add_0_right
    using rounds by blast+
  show "on_line x1 y x2 y i j \<longleftrightarrow> j = unat y \<and> unat x1 \<le> i \<and> i \<le> unat x2"
    "on_line y x1 y x2 i j \<longleftrightarrow> i = unat y \<and> unat x1 \<le> j \<and> j \<le> unat x2"
    unfolding line between level by blast+
qed


lemma corner: "1 \<le> uint w \<Longrightarrow> uint x + uint w \<le> 65536 \<Longrightarrow> uint (x + w - 1) = uint x + uint w - 1" for x w :: u16
proof -
  assume w: "1 \<le> uint w" "uint x + uint w \<le> 65536"
  then have "0 < uint x + uint w" using uint_ge_0 [of x] by linarith
  moreover have e: "x + w - 1 = word_of_int (uint x + uint w - 1)" by simp
  ultimately show ?thesis unfolding e unsigned_of_int using w by (simp add: take_bit_int_eq_self_iff)
qed

lemma dots_lines: "dots s (line_points x1 y1 x2 y2) = (\<lambda>g (i, j).
    if on_line x1 y1 x2 y2 i j \<and> i < unat (LCD_X_LENGTH s) \<and> j < unat (LCD_Y_LENGTH s) then CurrentTextColor s else g (i, j))"
  by (simp add: fun_eq_iff dots_line)

definition border :: "nat \<Rightarrow> nat \<Rightarrow> nat \<Rightarrow> nat \<Rightarrow> nat \<Rightarrow> nat \<Rightarrow> bool" where
  "border x y w h i j \<longleftrightarrow> x \<le> i \<and> i < x + w \<and> y \<le> j \<and> j < y + h \<and> (i = x \<or> i + 1 = x + w \<or> j = y \<or> j + 1 = y + h)"

lemma results_rectangle:
  assumes "1 \<le> uint w" "1 \<le> uint h" "uint x + uint w \<le> 65536" "uint y + uint h \<le> 65536" "uint w \<le> 65534" "uint h \<le> 65534" "65536 \<le> fuel"
  shows "results s (ILI9341_DrawRectangle fuel x y w h 0) True (\<lambda>g (i, j).
    if border (unat x) (unat y) (unat w) (unat h) i j \<and> i < unat (LCD_X_LENGTH s) \<and> j < unat (LCD_Y_LENGTH s) then CurrentTextColor s else g (i, j))"
proof -
  let ?x = "x + w - 1" and ?y = "y + h - 1"
  note c = corner [OF assms(1,3)] corner [OF assms(2,4)]
  have le: "uint x \<le> uint ?x" "uint y \<le> uint ?y" using c assms(1,2) by linarith+
  have len: "line_length x v ?x v \<le> 65533" "line_length v y v ?y \<le> 65533" for v
    using c assms(1,2,5,6) by (simp_all add: line_length_def)
  have line: "results s (ILI9341_DrawLine fuel x v ?x v) True (dots s (line_points x v ?x v))"
    "results s (ILI9341_DrawLine fuel v y v ?y) True (dots s (line_points v y v ?y))" for v
    using len [of v] assms(7) by (intro results_line; linarith)+
  have "results s (ILI9341_DrawRectangle fuel x y w h 0) True
    (\<lambda>g. dots s (line_points ?x y ?x ?y) (dots s (line_points x y x ?y) (dots s (line_points x ?y ?x ?y) (dots s (line_points x y ?x y) g))))"
    using results_then [OF line(1) [of y] results_then [OF line(1) [of ?y] results_then [OF line(2) [of x] line(2) [of ?x]]]]
    by (simp add: ILI9341_DrawRectangle_def)
  moreover have "unat ?x + 1 = unat x + unat w" "unat ?y + 1 = unat y + unat h" "1 \<le> unat w" "1 \<le> unat h"
  proof -
    have "int (unat ?x) = uint ?x" "int (unat ?y) = uint ?y" "int (unat x) = uint x" "int (unat y) = uint y" "int (unat w) = uint w"
      "int (unat h) = uint h" by simp_all
    then show "unat ?x + 1 = unat x + unat w" "unat ?y + 1 = unat y + unat h" "1 \<le> unat w" "1 \<le> unat h"
      using c assms(1,2) by linarith+
  qed
  then have "on_line x y ?x y i j \<or> on_line x ?y ?x ?y i j \<or> on_line x y x ?y i j \<or> on_line ?x y ?x ?y i j \<longleftrightarrow>
      border (unat x) (unat y) (unat w) (unat h) i j" for i j
    unfolding on_line_along [OF le(1)] on_line_along [OF le(2)] border_def by auto
  then have "(\<lambda>g. dots s (line_points ?x y ?x ?y) (dots s (line_points x y x ?y) (dots s (line_points x ?y ?x ?y) (dots s (line_points x y ?x y) g)))) =
    (\<lambda>g (i, j). if border (unat x) (unat y) (unat w) (unat h) i j \<and> i < unat (LCD_X_LENGTH s) \<and> j < unat (LCD_Y_LENGTH s) then CurrentTextColor s else g (i, j))"
    unfolding dots_lines by (auto simp: fun_eq_iff)
  ultimately show ?thesis by simp
qed


text \<open>
  A rectangle: filled, all pixels from the corner on over its width and height get the text colour; hollow, those
  of its border that are on the screen. No other pixel and no variable of the driver changes, and the
  function returns.
\<close>

theorem rectangle_draws:
  assumes "1 \<le> uint w" "1 \<le> uint h" "uint x + uint w \<le> 65536" "uint y + uint h \<le> 65536" "uint w \<le> 65534" "uint h \<le> 65534"
    and "run_state (ILI9341_DrawRectangle (65536 + n) x y w h filled) s = (v, t)"
  shows "v = True \<and> (\<exists>b. t = s\<lparr>bus := b\<rparr>) \<and> picture g (bus t) (i, j) =
    (if unat x \<le> i \<and> i < unat x + unat w \<and> unat y \<le> j \<and> j < unat y + unat h \<and>
        (filled \<noteq> 0 \<or> (i = unat x \<or> i + 1 = unat x + unat w \<or> j = unat y \<or> j + 1 = unat y + unat h) \<and>
          i < unat (LCD_X_LENGTH s) \<and> j < unat (LCD_Y_LENGTH s))
     then CurrentTextColor s else picture g (bus s) (i, j))"
proof (cases "filled = 0")
  case True
  from resultsD [OF results_rectangle [OF assms(1-6)] assms(7) [unfolded True], simplified]
  show ?thesis using True by (auto simp: border_def)
next
  case False
  then have run: "run_state (ILI9341_DrawRectangle fuel x y w h filled) s =
      (True, snd (run_state (do { ILI9341_OpenWindow x y w h; ILI9341_FillColor (word_of_int (uint w * uint h)) (CurrentTextColor s) }) s))"
    for fuel by (simp add: ILI9341_DrawRectangle_def run_OpenWindow run_FillColor)
  obtain r t' where t': "run_state (do { ILI9341_OpenWindow x y w h; ILI9341_FillColor (word_of_int (uint w * uint h)) (CurrentTextColor s) }) s = (r, t')"
    by (metis prod.exhaust)
  then have "v = True" "t' = t" using assms(7) unfolding run by simp_all
  then show ?thesis using drawsD [OF draws_box [OF assms(1-4)] t'] False by (auto simp: box_def)
qed

lemma rectangle_draws_witness:
  "\<exists>t. run_state (ILI9341_DrawRectangle 65536 10 20 5 4 0) (lcd_reset (\<lambda>_. 0) font8) = (True, t) \<and>
     picture (\<lambda>_. 7) (bus t) (14, 23) = 0 \<and> picture (\<lambda>_. 7) (bus t) (13, 22) = 7"
proof -
  let ?s = "lcd_reset (\<lambda>_. 0) font8"
  obtain v t where t: "run_state (ILI9341_DrawRectangle 65536 10 20 5 4 0) ?s = (v, t)" by (metis prod.exhaust)
  have p: "picture g (bus ?s) = g" for g by (simp add: lcd_reset_def picture_def panel0_def)
  have run: "run_state (ILI9341_DrawRectangle (65536 + 0) 10 20 5 4 0) ?s = (v, t)" using t by simp
  note r = rectangle_draws [OF _ _ _ _ _ _ run, where g = "\<lambda>_. 7"]
  show ?thesis using t r [of 14 23] r [of 13 22] p
    by (simp add: lcd_reset_def ILI9341_LESS_PIXEL_def ILI9341_MORE_PIXEL_def)
qed

text \<open>A hollow rectangle of no width at the left edge is a line to the column 65535, which never ends.\<close>

lemma empty_rectangle_hangs: "fst (run_state (ILI9341_DrawRectangle fuel 0 y 0 h 0) s) = False"
proof -
  have "65534 \<le> line_length 0 y (0 + 0 - 1) y" by (simp add: line_length_def unsigned_minus_1_eq_mask mask_eq_exp_minus_1)
  from line_hangs [OF this, of fuel s] show ?thesis by (simp add: ILI9341_DrawRectangle_def and_then_def split_beta)
qed

end
