(* ===== verification/Lcd_Circle.thy ===== *)
theory Lcd_Circle
  imports Lcd_Draw
begin

text \<open>
  Drawing circles: the points the loop of \<open>ILI9341_DrawCircle\<close> goes through, how close they are to the circle, and
  what is drawn.
\<close>

section \<open>The path of the loop\<close>

text \<open>The loop on unbounded integers.\<close>

definition octant_step :: "int \<times> int \<times> int \<Rightarrow> int \<times> int \<times> int" where
  "octant_step = (\<lambda>(x, y, e).
     if e < 0 then (x + 1, y, e + (4 * (x + 1) + 6)) else (x + 1, y - 1, e + (10 + 4 * ((x + 1) - y))))"

fun octant :: "nat \<Rightarrow> int \<times> int \<times> int \<Rightarrow> (int \<times> int) list" where
  "octant 0 v = []"
| "octant (Suc n) (x, y, e) = (if x \<le> y then (x, y) # octant n (octant_step (x, y, e)) else [])"

text \<open>
  Its invariant. \<open>e\<close> is the decision variable of Bresenham's algorithm, which tells which of two points is
  closer to the circle, plus \<open>4 * x\<close>: the code has stepped \<open>x\<close> before it updates the variable.
\<close>

definition circle_inv :: "int \<Rightarrow> int \<times> int \<times> int \<Rightarrow> bool" where
  "circle_inv r = (\<lambda>(x, y, e).
     0 \<le> x \<and> x \<le> y + 2 \<and> - y \<le> x \<and> y \<le> r \<and>
     e = 2 * (x + 1) * (x + 1) + y * y + (y - 1) * (y - 1) - 2 * r * r + 4 * x \<and>
     4 * x - 4 * y + 3 \<le> e \<and> e \<le> 4 * x + 18 \<and> (x \<le> y \<longrightarrow> e \<le> 4 * x + 8) \<and> (x < y \<longrightarrow> e \<le> 4 * x + 6))"

lemma circle_inv_start: "0 \<le> r \<Longrightarrow> circle_inv r (0, r, 3 - 2 * r)"
  by (simp add: circle_inv_def algebra_simps)

lemma circle_inv_step:
  assumes "circle_inv r (x, y, e)" and "x \<le> y"
  shows "circle_inv r (octant_step (x, y, e))"
proof -
  have e: "e = 2 * (x + 1) * (x + 1) + y * y + (y - 1) * (y - 1) - 2 * r * r + 4 * x"
    and lin: "0 \<le> x" "- y \<le> x" "y \<le> r" "4 * x - 4 * y + 3 \<le> e" "e \<le> 4 * x + 8" "x < y \<longrightarrow> e \<le> 4 * x + 6"
    using assms unfolding circle_inv_def by auto
  show ?thesis
  proof (cases "e < 0")
    case True
    have "e + (4 * (x + 1) + 6) = 2 * (x + 1 + 1) * (x + 1 + 1) + y * y + (y - 1) * (y - 1) - 2 * r * r + 4 * (x + 1)"
      unfolding e by (simp add: algebra_simps)
    then show ?thesis unfolding octant_step_def circle_inv_def prod.case if_P [OF True]
      by (intro conjI impI) (assumption | use lin assms(2) True in auto)+
  next
    case False
    have "e + (10 + 4 * ((x + 1) - y)) = 2 * (x + 1 + 1) * (x + 1 + 1) + (y - 1) * (y - 1) + (y - 1 - 1) * (y - 1 - 1) - 2 * r * r + 4 * (x + 1)"
      unfolding e by (simp add: algebra_simps)
    then show ?thesis unfolding octant_step_def circle_inv_def prod.case if_not_P [OF False]
      by (intro conjI impI) (assumption | use lin assms(2) False in auto)+
  qed
qed

text \<open>What the invariant says of the distance from the centre.\<close>

lemma circle_inv_distance:
  assumes "circle_inv r (x, y, e)"
  shows "r * r - y - 2 * x \<le> x * x + y * y" and "2 * (x * x + y * y) \<le> 2 * r * r + 2 * y - 4 * x + 15"
    and "x \<le> y \<Longrightarrow> x * x + y * y \<le> r * r + y - 2 * x + 2"
proof -
  have e: "e = 2 * (x + 1) * (x + 1) + y * y + (y - 1) * (y - 1) - 2 * r * r + 4 * x"
    and le: "4 * x - 4 * y + 3 \<le> e" "e \<le> 4 * x + 18" "x \<le> y \<Longrightarrow> e \<le> 4 * x + 8"
    using assms unfolding circle_inv_def by auto
  have "e = 2 * (x * x + y * y) - 2 * r * r + 8 * x - 2 * y + 3" unfolding e by (simp add: algebra_simps)
  then show "r * r - y - 2 * x \<le> x * x + y * y" "2 * (x * x + y * y) \<le> 2 * r * r + 2 * y - 4 * x + 15"
    "x \<le> y \<Longrightarrow> x * x + y * y \<le> r * r + y - 2 * x + 2"
    using le by (simp_all add: algebra_simps)
qed

lemma octant_inv: "circle_inv r v \<Longrightarrow> (a, b) \<in> set (octant n v) \<Longrightarrow> \<exists>e. circle_inv r (a, b, e) \<and> fst v \<le> a \<and> a \<le> b"
proof (induction n v arbitrary: a b rule: octant.induct)
  case (2 n x y e)
  show ?case
  proof (cases "x \<le> y \<and> (a, b) \<noteq> (x, y)")
    case True
    then have "(a, b) \<in> set (octant n (octant_step (x, y, e)))" using 2(3) by auto
    then have "\<exists>e'. circle_inv r (a, b, e') \<and> fst (octant_step (x, y, e)) \<le> a \<and> a \<le> b"
      using 2(1) [OF _ circle_inv_step [OF 2(2)]] True by blast
    moreover have "fst (octant_step (x, y, e)) = x + 1" by (simp add: octant_step_def)
    ultimately show ?thesis by auto
  next
    case False
    then show ?thesis using 2(2,3) by (auto split: if_splits)
  qed
qed simp

text \<open>Every column is reached up to the diagonal.\<close>

lemma octant_covers:
  "circle_inv r v \<Longrightarrow> fst v \<le> a \<Longrightarrow> r + 1 - fst v < int n \<Longrightarrow>
    (\<exists>b. (a, b) \<in> set (octant n v)) \<or> (\<exists>x y e. circle_inv r (x, y, e) \<and> y < x \<and> x \<le> a)"
proof (induction n v rule: octant.induct)
  case (1 v)
  obtain x y e where v: "v = (x, y, e)" by (cases v)
  have "y < x" using 1 by (simp add: v circle_inv_def)
  with 1 show ?case unfolding v by auto
next
  case (2 n x y e)
  show ?case
  proof (cases "x \<le> y \<and> x \<noteq> a")
    case True
    have "fst (octant_step (x, y, e)) = x + 1" by (simp add: octant_step_def)
    then have "(\<exists>b. (a, b) \<in> set (octant n (octant_step (x, y, e)))) \<or> (\<exists>x y e. circle_inv r (x, y, e) \<and> y < x \<and> x \<le> a)"
      using 2(1) [OF _ circle_inv_step [OF 2(2)]] 2(3,4) True by auto
    with True show ?thesis by auto
  next
    case False
    then show ?thesis using 2(2,3) by (cases "x \<le> y") (auto simp: not_le)
  qed
qed

text \<open>The annulus, for radii from 5 on.\<close>

lemma octant_near:
  assumes "circle_inv r (a, b, e)" and "a \<le> b" and "5 \<le> r"
  shows "(r - 2) * (r - 2) \<le> a * a + b * b" and "a * a + b * b < (r + 1) * (r + 1)"
proof -
  have "b \<le> r" "0 \<le> a" using assms(1) by (auto simp: circle_inv_def)
  then show "(r - 2) * (r - 2) \<le> a * a + b * b" "a * a + b * b < (r + 1) * (r + 1)"
    using circle_inv_distance(1,3) [OF assms(1)] assms(2,3) by (simp_all add: algebra_simps)
qed

text \<open>The loop ends beyond the diagonal.\<close>

lemma octant_end:
  assumes "circle_inv r (x, y, e)" and "y < x" and "x \<le> a" and "5 \<le> r"
  shows "(r - 2) * (r - 2) \<le> 2 * a * a"
proof -
  have i: "x \<le> y + 2" "0 \<le> x" "- y \<le> x" "y \<le> r" using assms(1) by (auto simp: circle_inv_def)
  note d = circle_inv_distance(1,2) [OF assms(1)]
  have "y \<noteq> r"
  proof
    assume "y = r"
    then have "(r + 1) * (r + 1) \<le> x * x" using assms(2,4) by (intro mult_mono) simp_all
    moreover have "(r + 1) * (r + 1) = r * r + 2 * r + 1" by (simp add: algebra_simps)
    moreover have "5 * r \<le> r * r" using assms(4) by (intro mult_right_mono) simp_all
    moreover have "2 * (x * x) \<le> 2 * r - 4 * x + 15" using d(2) unfolding \<open>y = r\<close> by simp
    ultimately show False using \<open>y = r\<close> assms(2,4) by linarith
  qed
  then have "r * r - 3 * r - 1 \<le> x * x + y * y" using d(1) i by linarith
  moreover have "y * y \<le> x * x" using i assms(2) by (simp add: abs_le_square_iff [of y x, unfolded power2_eq_square, symmetric])
  moreover have "x * x \<le> a * a" using i(2) assms(3) by (intro mult_mono) simp_all
  moreover have "(r - 2) * (r - 2) = r * r - 4 * r + 4" "2 * a * a = 2 * (a * a)" by (simp_all add: algebra_simps)
  ultimately show ?thesis using assms(4) by linarith
qed


section \<open>What is drawn\<close>

definition eight :: "u16 \<Rightarrow> u16 \<Rightarrow> int \<times> int \<Rightarrow> (u16 \<times> u16) list" where
  "eight xc yc = (\<lambda>(x, y). let a = word_of_int x; b = word_of_int y in
     [(xc + a, yc + b), (xc - a, yc + b), (xc - b, yc + a), (xc - b, yc - a),
      (xc - a, yc - b), (xc + a, yc - b), (xc + b, yc - a), (xc + b, yc + a)])"

lemma results_dot: "results s m v (dots s ps) \<Longrightarrow> results s (do { ILI9341_SetPointPixel a b; m }) v (dots s ((a, b) # ps))"
  using results_bind [OF results_unit [OF draws_point], of s "\<lambda>_. m" v "dots s ps" a b] by (simp add: dots_simps)

lemma results_last_dot: "results s (ILI9341_SetPointPixel a b) () (dots s [(a, b)])"
  by (simp add: dots_simps results_unit draws_point)

lemma results_dots: "results s m v (dots s ps) \<Longrightarrow> results s (k v) w (dots s qs) \<Longrightarrow> results s (m \<bind> k) w (dots s (ps @ qs))"
  unfolding dots_simps by (rule results_bind)

lemma results_then_dots: "results s m True (dots s ps) \<Longrightarrow> results s k w (dots s qs) \<Longrightarrow> results s (and_then m k) w (dots s (ps @ qs))"
  unfolding dots_simps by (rule results_then)

lemma results_eight: "results s (eight_points xc yc (word_of_int x) (word_of_int y)) () (dots s (eight xc yc (x, y)))"
  unfolding eight_points_def eight_def prod.case Let_def by (intro results_dot results_last_dot)

text \<open>The signed variables hold the integers of the path, as long as these fit.\<close>

lemma sint_16: "- 32768 \<le> v \<Longrightarrow> v < 32768 \<Longrightarrow> sint (word_of_int v :: u16) = v"
  by (simp add: sint_sbintrunc' signed_take_bit_int_eq_self)

lemma results_fill:
  assumes "- 1 \<le> y" "y \<le> 32766" "0 \<le> c" "c \<le> y + 1" "y + 1 - c < int fuel"
  shows "results s (fill_loop fuel xc yc (word_of_int x) (word_of_int y) (word_of_int c)) True
    (dots s (concat (map (\<lambda>c. eight xc yc (x, c)) [c..y])))"
  using assms(3-)
proof (induction fuel arbitrary: c)
  case (Suc fuel)
  have v: "sint (word_of_int c :: u16) = c" "sint (word_of_int y :: u16) = y"
    using Suc.prems assms(1,2) by (intro sint_16; linarith)+
  show ?case
  proof (cases "c \<le> y")
    case True
    then have "results s (fill_loop fuel xc yc (word_of_int x) (word_of_int y) (word_of_int (c + 1))) True
        (dots s (concat (map (\<lambda>c. eight xc yc (x, c)) [c + 1..y])))" using Suc.prems by (intro Suc.IH) simp_all
    from results_dots [OF results_eight [of s xc yc x c], where k = "\<lambda>_. fill_loop fuel xc yc (word_of_int x) (word_of_int y) (word_of_int (c + 1))", OF this]
    show ?thesis using True by (simp add: v upto_rec1)
  next
    case False
    then show ?thesis by (simp add: v dots_simps results_ret)
  qed
qed simp

text \<open>The points of the loop's path: one, or, filled, a column down to the diagonal.\<close>

definition column :: "bool \<Rightarrow> int \<times> int \<Rightarrow> (int \<times> int) list" where
  "column filled = (\<lambda>(x, y). if filled then map (Pair x) [x..y] else [(x, y)])"

definition circle_dots :: "u16 \<Rightarrow> u16 \<Rightarrow> bool \<Rightarrow> (int \<times> int) list \<Rightarrow> (u16 \<times> u16) list" where
  "circle_dots xc yc filled ps = concat (map (eight xc yc) (concat (map (column filled) ps)))"

definition as_words :: "int \<times> int \<times> int \<Rightarrow> u16 \<times> u16 \<times> u16" where
  "as_words = (\<lambda>(x, y, e). (word_of_int x, word_of_int y, word_of_int e))"

lemma circle_step_words:
  assumes "circle_inv r (x, y, e)" and "x \<le> y" and "r \<le> 8000"
  shows "circle_step (as_words (x, y, e)) = as_words (octant_step (x, y, e))"
proof -
  have i: "0 \<le> x" "y \<le> r" "4 * x - 4 * y + 3 \<le> e" "e \<le> 4 * x + 18" using assms(1) by (auto simp: circle_inv_def)
  have v: "sint (word_of_int y :: u16) = y" "sint (word_of_int e :: u16) = e" "sint (word_of_int (x + 1) :: u16) = x + 1"
    using i assms(2,3) by (intro sint_16; linarith)+
  have "(word_of_int x + 1 :: u16) = word_of_int (x + 1)" "(word_of_int y - 1 :: u16) = word_of_int (y - 1)" by simp_all
  then show ?thesis unfolding circle_step_def as_words_def octant_step_def prod.case Let_def by (simp only: v prod.case split: if_split) simp
qed

lemma circle_dots_simps: "circle_dots xc yc filled [] = []"
  "circle_dots xc yc filled (p # ps) = concat (map (eight xc yc) (column filled p)) @ circle_dots xc yc filled ps"
  by (simp_all add: circle_dots_def)

lemma results_column:
  assumes "0 \<le> x" "x \<le> y" "y \<le> 32766" "y + 1 - x < int fuel"
  shows "results s (if filled then fill_loop fuel xc yc (word_of_int x) (word_of_int y) (word_of_int x)
      else do { eight_points xc yc (word_of_int x) (word_of_int y); ret True }) True
    (dots s (concat (map (eight xc yc) (column filled (x, y)))))"
proof (cases filled)
  case True
  have "results s (fill_loop fuel xc yc (word_of_int x) (word_of_int y) (word_of_int x)) True
    (dots s (concat (map (\<lambda>c. eight xc yc (x, c)) [x..y])))" by (rule results_fill) (use assms in simp_all)
  then show ?thesis using True by (simp add: column_def comp_def)
next
  case False
  have "results s (do { eight_points xc yc (word_of_int x) (word_of_int y); ret True }) True (dots s (eight xc yc (x, y) @ []))"
    by (rule results_dots [OF results_eight]) (simp add: dots_simps results_ret)
  then show ?thesis using False by (simp add: column_def)
qed

lemma results_circle_loop:
  assumes "circle_inv r v" and "r \<le> 8000" and "r + 2 - fst v < int fuel"
  shows "results s (circle_loop fuel xc yc filled (as_words v)) True (dots s (circle_dots xc yc filled (octant fuel v)))"
  using assms(1,3)
proof (induction fuel arbitrary: v)
  case 0
  then show ?case by (cases v) (simp add: circle_inv_def)
next
  case (Suc fuel)
  obtain x y e where v: "v = (x, y, e)" by (cases v)
  note inv = Suc.prems(1)[unfolded v]
  have i: "0 \<le> x" "x \<le> y + 2" "- y \<le> x" "y \<le> r" using inv by (auto simp: circle_inv_def)
  have s16: "sint (word_of_int x :: u16) = x" "sint (word_of_int y :: u16) = y"
    using i assms(2) by (intro sint_16; linarith)+
  show ?case
  proof (cases "x \<le> y")
    case True
    have "fst (octant_step (x, y, e)) = x + 1" by (simp add: octant_step_def)
    then have "results s (circle_loop fuel xc yc filled (as_words (octant_step (x, y, e)))) True
        (dots s (circle_dots xc yc filled (octant fuel (octant_step (x, y, e)))))"
      using Suc.prems(2) by (intro Suc.IH circle_inv_step [OF inv True]) (simp add: v)
    then have rest: "results s (circle_loop fuel xc yc filled (circle_step (word_of_int x, word_of_int y, word_of_int e))) True
        (dots s (circle_dots xc yc filled (octant fuel (octant_step (x, y, e)))))"
      using circle_step_words [OF inv True assms(2)] by (simp add: as_words_def)
    have "y + 1 - x < int (Suc fuel)" "y \<le> 32766" using Suc.prems(2) i assms(2) by (simp_all add: v)
    note col = results_column [OF i(1) True this(2,1)]
    show ?thesis unfolding v as_words_def prod.case circle_loop.simps s16 octant.simps if_P [OF True] circle_dots_simps
      by (rule results_then_dots [OF col rest])
  next
    case False
    then show ?thesis by (simp add: v as_words_def s16 circle_dots_simps dots_simps results_ret)
  qed
qed

lemma results_circle:
  assumes "uint radius \<le> 8000" and "uint radius + 2 < int fuel"
  shows "results s (ILI9341_DrawCircle fuel xc yc radius filled) True
    (dots s (circle_dots xc yc (filled \<noteq> 0) (octant fuel (0, uint radius, 3 - 2 * uint radius))))"
  using results_circle_loop [OF circle_inv_start [OF uint_ge_0] assms(1), where fuel = fuel] assms(2)
  by (simp add: ILI9341_DrawCircle_def as_words_def)


section \<open>The pixels\<close>

text \<open>Offsets of a centre: one that would be negative wraps around to a column far off the screen.\<close>

lemma offset_words:
  fixes c :: u16
  assumes "uint c \<le> 50000" and "0 \<le> d" "d \<le> 8000"
  shows "int i = uint (c + word_of_int d) \<longleftrightarrow> int i = uint c + d"
    and "i < 1000 \<Longrightarrow> int i = uint (c - word_of_int d) \<longleftrightarrow> int i = uint c - d"
proof -
  have "c + word_of_int d = word_of_int (uint c + d)" by simp
  moreover have "uint (word_of_int (uint c + d) :: u16) = uint c + d"
    using assms uint_ge_0 [of c] unfolding unsigned_of_int by (simp add: take_bit_int_eq_self_iff)
  ultimately show "int i = uint (c + word_of_int d) \<longleftrightarrow> int i = uint c + d" by simp
  assume i: "i < 1000"
  have m: "c - word_of_int d = word_of_int (uint c - d)" by simp
  have "uint (word_of_int (uint c - d) :: u16) = (if uint c - d < 0 then uint c - d + 65536 else uint c - d)"
  proof (cases "uint c - d < 0")
    case True
    have w: "(word_of_int (uint c - d) :: u16) = word_of_int (uint c - d + 65536)" by simp
    have "0 \<le> uint c - d + 65536" "uint c - d + 65536 < 65536" using True assms uint_ge_0 [of c] by linarith+
    then have "uint (word_of_int (uint c - d + 65536) :: u16) = uint c - d + 65536"
      unfolding unsigned_of_int by (simp add: take_bit_int_eq_self_iff)
    then show ?thesis unfolding w using True by (simp only: if_True)
  next
    case False
    then show ?thesis using assms uint_ge_0 [of c] unfolding unsigned_of_int by (simp add: take_bit_int_eq_self_iff)
  qed
  then show "int i = uint (c - word_of_int d) \<longleftrightarrow> int i = uint c - d"
    unfolding m using i assms(2,3) uint_ge_0 [of c] by (cases "uint c - d < 0"; simp only: if_True if_False; linarith)
qed

definition at_offset :: "u16 \<Rightarrow> u16 \<Rightarrow> nat \<Rightarrow> nat \<Rightarrow> int \<times> int \<Rightarrow> bool" where
  "at_offset xc yc i j = (\<lambda>(x, y).
     (\<bar>int i - uint xc\<bar> = x \<and> \<bar>int j - uint yc\<bar> = y) \<or> (\<bar>int i - uint xc\<bar> = y \<and> \<bar>int j - uint yc\<bar> = x))"

lemma eight_pixel:
  assumes "uint xc \<le> 50000" "uint yc \<le> 50000" "0 \<le> x" "x \<le> 8000" "0 \<le> y" "y \<le> 8000" "i < 1000" "j < 1000"
  shows "(\<exists>(a, b)\<in>set (eight xc yc (x, y)). (i, j) = (unat a, unat b)) \<longleftrightarrow> at_offset xc yc i j (x, y)"
proof -
  have n: "(i, j) = (unat a, unat b) \<longleftrightarrow> int i = uint a \<and> int j = uint b" for a b :: u16
  proof -
    have "int (unat a) = uint a" "int (unat b) = uint b" by simp_all
    then show ?thesis by (metis of_nat_eq_iff prod.inject)
  qed
  note x = offset_words(1) [OF assms(1,3,4), of i] offset_words(1) [OF assms(1,5,6), of i]
    offset_words(2) [OF assms(1,3,4,7)] offset_words(2) [OF assms(1,5,6,7)]
  note y = offset_words(1) [OF assms(2,3,4), of j] offset_words(1) [OF assms(2,5,6), of j]
    offset_words(2) [OF assms(2,3,4,8)] offset_words(2) [OF assms(2,5,6,8)]
  have abs: "\<bar>int k - uint c\<bar> = d \<longleftrightarrow> int k = uint c + d \<or> int k = uint c - d" if "0 \<le> d" for k d and c :: u16
    using that by auto
  show ?thesis unfolding at_offset_def prod.case abs [OF assms(3)] abs [OF assms(5)]
    by (simp only: eight_def prod.case Let_def list.set ball_simps bex_simps n x y) blast
qed

lemma circle_pixel:
  assumes "uint xc \<le> 50000" "uint yc \<le> 50000" and "uint (LCD_X_LENGTH s) \<le> 320" "uint (LCD_Y_LENGTH s) \<le> 320"
    and "\<forall>(x, y)\<in>set ps. 0 \<le> x \<and> x \<le> y \<and> y \<le> 8000"
  shows "dots s (circle_dots xc yc filled ps) g (i, j) =
    (if i < unat (LCD_X_LENGTH s) \<and> j < unat (LCD_Y_LENGTH s) \<and> (\<exists>p\<in>set ps. \<exists>q\<in>set (column filled p). at_offset xc yc i j q)
     then CurrentTextColor s else g (i, j))"
proof (cases "i < unat (LCD_X_LENGTH s) \<and> j < unat (LCD_Y_LENGTH s)")
  case True
  have small: "i < 1000" "j < 1000"
  proof -
    have "int (unat (LCD_X_LENGTH s)) = uint (LCD_X_LENGTH s)" "int (unat (LCD_Y_LENGTH s)) = uint (LCD_Y_LENGTH s)" by simp_all
    then show "i < 1000" "j < 1000" using True assms(3,4) by linarith+
  qed
  have "(\<exists>(a, b)\<in>set (circle_dots xc yc filled ps). on_screen s a b \<and> (i, j) = (unat a, unat b)) \<longleftrightarrow>
      (\<exists>p\<in>set ps. \<exists>q\<in>set (column filled p). \<exists>(a, b)\<in>set (eight xc yc q). (i, j) = (unat a, unat b))"
    using True by (auto simp: circle_dots_def on_screen_def word_less_nat_alt)
  also have "\<dots> \<longleftrightarrow> (\<exists>p\<in>set ps. \<exists>q\<in>set (column filled p). at_offset xc yc i j q)"
  proof (intro bex_cong refl)
    fix p q
    assume p: "p \<in> set ps" and q: "q \<in> set (column filled p)"
    obtain x y where xy: "p = (x, y)" by (cases p)
    obtain a b where ab: "q = (a, b)" by (cases q)
    have "0 \<le> x" "x \<le> y" "y \<le> 8000" using assms(5) p by (auto simp: xy)
    then have "0 \<le> a" "a \<le> 8000" "0 \<le> b" "b \<le> 8000" using q by (auto simp: xy ab column_def split: if_splits)
    then show "(\<exists>(a, b)\<in>set (eight xc yc q). (i, j) = (unat a, unat b)) \<longleftrightarrow> at_offset xc yc i j q"
      unfolding ab by (intro eight_pixel assms(1,2) small)
  qed
  finally show ?thesis using True unfolding dots_pixel by simp
next
  case False
  then have "\<not> (\<exists>(a, b)\<in>set (circle_dots xc yc filled ps). on_screen s a b \<and> (i, j) = (unat a, unat b))"
    by (auto simp: on_screen_def word_less_nat_alt)
  with False show ?thesis unfolding dots_pixel by auto
qed


lemma octant_range:
  assumes "5 \<le> r" "r \<le> 8000"
  shows "\<forall>(x, y)\<in>set (octant n (0, r, 3 - 2 * r)). 0 \<le> x \<and> x \<le> y \<and> y \<le> 8000"
proof (clarify)
  fix x y assume "(x, y) \<in> set (octant n (0, r, 3 - 2 * r))"
  moreover have "circle_inv r (0, r, 3 - 2 * r)" using assms by (intro circle_inv_start) simp
  ultimately obtain e where "circle_inv r (x, y, e)" "x \<le> y" using octant_inv by blast
  then show "0 \<le> x \<and> x \<le> y \<and> y \<le> 8000" using assms(2) by (auto simp: circle_inv_def)
qed

lemma at_offset_square: "at_offset xc yc i j (a, b) \<Longrightarrow> (int i - uint xc) ^ 2 + (int j - uint yc) ^ 2 = a * a + b * b"
  unfolding at_offset_def prod.case by (metis add.commute power2_abs power2_eq_square)

text \<open>The path of a circle of radius \<open>r\<close>, with enough fuel.\<close>

definition circle_path :: "nat \<Rightarrow> int \<Rightarrow> (int \<times> int) list" where
  "circle_path n r = octant (8003 + n) (0, r, 3 - 2 * r)"

lemma path_near:
  assumes "5 \<le> r" "(a, b) \<in> set (circle_path n r)"
  shows "0 \<le> a" "a \<le> b" "b \<le> r" "(r - 2) ^ 2 \<le> a * a + b * b" "a * a + b * b < (r + 1) ^ 2" "r * r - b - 2 * a \<le> a * a + b * b"
proof -
  have "circle_inv r (0, r, 3 - 2 * r)" using assms(1) by (intro circle_inv_start) simp
  then obtain e where e: "circle_inv r (a, b, e)" "a \<le> b" using octant_inv assms(2) unfolding circle_path_def by blast
  then show "0 \<le> a" "a \<le> b" "b \<le> r" by (auto simp: circle_inv_def)
  show "(r - 2) ^ 2 \<le> a * a + b * b" "a * a + b * b < (r + 1) ^ 2" "r * r - b - 2 * a \<le> a * a + b * b"
    using octant_near [OF e assms(1)] circle_inv_distance(1) [OF e(1)] by (simp_all add: power2_eq_square)
qed

lemma path_covers:
  assumes "5 \<le> r" "r \<le> 8000" "0 \<le> a" "2 * a ^ 2 < (r - 2) ^ 2"
  shows "\<exists>b. (a, b) \<in> set (circle_path n r)"
proof -
  have inv: "circle_inv r (0, r, 3 - 2 * r)" using assms(1) by (intro circle_inv_start) simp
  have "(\<exists>b. (a, b) \<in> set (circle_path n r)) \<or> (\<exists>x y e. circle_inv r (x, y, e) \<and> y < x \<and> x \<le> a)"
    unfolding circle_path_def by (rule octant_covers [OF inv]) (use assms in simp_all)
  moreover have "\<not> (y < x \<and> x \<le> a)" if "circle_inv r (x, y, e)" for x y e
    using octant_end [OF that _ _ assms(1), of a] assms(4) by (auto simp: power2_eq_square)
  ultimately show ?thesis by blast
qed

lemma circle_picture:
  assumes "5 \<le> uint radius" "uint radius \<le> 8000" "uint xc \<le> 50000" "uint yc \<le> 50000"
    and "uint (LCD_X_LENGTH s) \<le> 320" "uint (LCD_Y_LENGTH s) \<le> 320"
    and "run_state (ILI9341_DrawCircle (8003 + n) xc yc radius filled) s = (v, t)"
  shows "v = True" and "\<exists>b. t = s\<lparr>bus := b\<rparr>"
    and "picture g (bus t) (i, j) = (if i < unat (LCD_X_LENGTH s) \<and> j < unat (LCD_Y_LENGTH s) \<and>
      (\<exists>p\<in>set (circle_path n (uint radius)). \<exists>q\<in>set (column (filled \<noteq> 0) p). at_offset xc yc i j q)
      then CurrentTextColor s else picture g (bus s) (i, j))"
proof -
  have "uint radius + 2 < int (8003 + n)" using assms(2) by simp
  note r = resultsD [OF results_circle [OF assms(2) this] assms(7)]
  show "v = True" "\<exists>b. t = s\<lparr>bus := b\<rparr>"
    "picture g (bus t) (i, j) = (if i < unat (LCD_X_LENGTH s) \<and> j < unat (LCD_Y_LENGTH s) \<and>
      (\<exists>p\<in>set (circle_path n (uint radius)). \<exists>q\<in>set (column (filled \<noteq> 0) p). at_offset xc yc i j q)
      then CurrentTextColor s else picture g (bus s) (i, j))"
    unfolding circle_path_def circle_pixel [OF assms(3-6) octant_range [OF assms(1,2)], symmetric]
    by (rule r(1), rule r(3), rule fun_cong [OF r(2)])
qed

text \<open>
  C18: a hollow circle: the function returns; every pixel that changes has the text colour and lies, by the square of its
  distance from the centre, in the ring from two pixels inside the radius to one pixel outside;
  and there are no gaps: in each of the eight symmetric arcs every column up to the diagonal of the ring has a
  pixel of the ring, drawn if it is on the screen.
\<close>

theorem circle_is_round:
  assumes "5 \<le> uint radius" "uint radius \<le> 8000" "uint xc \<le> 50000" "uint yc \<le> 50000"
    and "uint (LCD_X_LENGTH s) \<le> 320" "uint (LCD_Y_LENGTH s) \<le> 320"
    and "run_state (ILI9341_DrawCircle (8003 + n) xc yc radius 0) s = (v, t)"
  shows "v = True \<and> (\<exists>b. t = s\<lparr>bus := b\<rparr>) \<and>
    (picture g (bus t) (i, j) \<noteq> picture g (bus s) (i, j) \<longrightarrow>
      picture g (bus t) (i, j) = CurrentTextColor s \<and>
      (uint radius - 2) ^ 2 \<le> (int i - uint xc) ^ 2 + (int j - uint yc) ^ 2 \<and>
      (int i - uint xc) ^ 2 + (int j - uint yc) ^ 2 < (uint radius + 1) ^ 2) \<and>
    (0 \<le> a \<and> 2 * a ^ 2 < (uint radius - 2) ^ 2 \<longrightarrow>
      (\<exists>b. a \<le> b \<and> (uint radius - 2) ^ 2 \<le> a ^ 2 + b ^ 2 \<and> a ^ 2 + b ^ 2 < (uint radius + 1) ^ 2 \<and> (\<forall>i j. (\<bar>int i - uint xc\<bar> = a \<and> \<bar>int j - uint yc\<bar> = b \<or> \<bar>int i - uint xc\<bar> = b \<and> \<bar>int j - uint yc\<bar> = a) \<and>
         i < unat (LCD_X_LENGTH s) \<and> j < unat (LCD_Y_LENGTH s) \<longrightarrow> picture g (bus t) (i, j) = CurrentTextColor s)))"
proof -
  note d = circle_picture [OF assms]
  have pixel: "picture g (bus t) (i, j) = (if i < unat (LCD_X_LENGTH s) \<and> j < unat (LCD_Y_LENGTH s) \<and>
      (\<exists>p\<in>set (circle_path n (uint radius)). at_offset xc yc i j p) then CurrentTextColor s else picture g (bus s) (i, j))" for i j
    unfolding d(3) by (simp add: column_def split_beta)
  show ?thesis
  proof (intro conjI impI)
    show "v = True" "\<exists>b. t = s\<lparr>bus := b\<rparr>" by (rule d(1), rule d(2))
  next
    assume "picture g (bus t) (i, j) \<noteq> picture g (bus s) (i, j)"
    then obtain a b where p: "(a, b) \<in> set (circle_path n (uint radius))" "at_offset xc yc i j (a, b)"
      and c: "picture g (bus t) (i, j) = CurrentTextColor s" unfolding pixel by (auto split: if_splits)
    show "picture g (bus t) (i, j) = CurrentTextColor s" by (rule c)
    show "(uint radius - 2) ^ 2 \<le> (int i - uint xc) ^ 2 + (int j - uint yc) ^ 2"
      "(int i - uint xc) ^ 2 + (int j - uint yc) ^ 2 < (uint radius + 1) ^ 2"
      unfolding at_offset_square [OF p(2)] by (rule path_near [OF assms(1) p(1)])+
  next
    assume a: "0 \<le> a \<and> 2 * a ^ 2 < (uint radius - 2) ^ 2"
    then obtain b where b: "(a, b) \<in> set (circle_path n (uint radius))" using path_covers [OF assms(1,2)] by blast
    then have "\<forall>i j. (\<bar>int i - uint xc\<bar> = a \<and> \<bar>int j - uint yc\<bar> = b \<or> \<bar>int i - uint xc\<bar> = b \<and> \<bar>int j - uint yc\<bar> = a) \<and>
         i < unat (LCD_X_LENGTH s) \<and> j < unat (LCD_Y_LENGTH s) \<longrightarrow> picture g (bus t) (i, j) = CurrentTextColor s"
      by (auto simp: pixel at_offset_def intro!: bexI [of _ "(a, b)"])
    then show "\<exists>b. a \<le> b \<and> (uint radius - 2) ^ 2 \<le> a ^ 2 + b ^ 2 \<and> a ^ 2 + b ^ 2 < (uint radius + 1) ^ 2 \<and> (\<forall>i j. (\<bar>int i - uint xc\<bar> = a \<and> \<bar>int j - uint yc\<bar> = b \<or> \<bar>int i - uint xc\<bar> = b \<and> \<bar>int j - uint yc\<bar> = a) \<and>
         i < unat (LCD_X_LENGTH s) \<and> j < unat (LCD_Y_LENGTH s) \<longrightarrow> picture g (bus t) (i, j) = CurrentTextColor s)"
      using path_near(2) [OF assms(1) b] path_near(4,5) [OF assms(1) b, folded power2_eq_square [of a] power2_eq_square [of b]] by blast
  qed
qed


lemma circle_is_round_witness:
  "\<exists>t. run_state (ILI9341_DrawCircle 8003 100 200 20 0) (lcd_reset (\<lambda>_. 0) font8) = (True, t) \<and>
     picture (\<lambda>_. 7) (bus t) (112, 212) = 7 \<and> picture (\<lambda>_. 7) (bus t) (100, 221) = 7"
proof -
  let ?s = "lcd_reset (\<lambda>_. 0) font8"
  obtain v t where t: "run_state (ILI9341_DrawCircle 8003 100 200 20 0) ?s = (v, t)" by (metis prod.exhaust)
  then have run: "run_state (ILI9341_DrawCircle (8003 + 0) 100 200 20 0) ?s = (v, t)" by simp
  have p: "picture g (bus ?s) = g" for g by (simp add: lcd_reset_def picture_def panel0_def)
  have s: "uint (LCD_X_LENGTH ?s) \<le> 320" "uint (LCD_Y_LENGTH ?s) \<le> 320"
    by (simp_all add: lcd_reset_def ILI9341_LESS_PIXEL_def ILI9341_MORE_PIXEL_def)
  note c = circle_is_round [where radius = 20 and xc = 100 and yc = 200, OF _ _ _ _ s run, where g = "\<lambda>_. 7" and a = 0]
  have "v \<and> picture (\<lambda>_. 7) (bus t) (112, 212) = 7" using c [where i = 112 and j = 212] by (auto simp: p)
  moreover have "picture (\<lambda>_. 7) (bus t) (100, 221) = 7" using c [where i = 100 and j = 221] by (auto simp: p)
  ultimately show ?thesis using t by auto
qed




text \<open>
  Because of the \<open>4 * x\<close> the loop steps down early: at column 5 of a circle of radius 10 it takes row 8, with
  row 9 closer to the circle.
\<close>

lemma circle_takes_farther_pixel:
  "(5, 8) \<in> set (octant 12 (0, 10, 3 - 2 * 10)) \<and> (5, 9) \<notin> set (octant 12 (0, 10, 3 - 2 * 10)) \<and>
   \<bar>5 * 5 + 9 * 9 - 10 * 10\<bar> < \<bar>5 * 5 + 8 * 8 - 10 * 10 :: int\<bar>"
  by (simp add: octant_step_def eval_nat_numeral)

end
