(* ===== verification/App_Display.thy ===== *)
theory App_Display
  imports App_Scenes Lcd_Text
begin

text \<open>
  The application's calls carried out by the display driver: what the screens of
  \<open>src/applications/main.c\<close>, and the pictures of the camera, look like on the panel.
\<close>

section \<open>The calls\<close>

text \<open>\<open>palette.h\<close>: colours from eight bits for each of red, green and blue.\<close>

definition RGB :: "nat \<Rightarrow> nat \<Rightarrow> nat \<Rightarrow> u16" where
  "RGB r g b = push_bit 11 (drop_bit 3 (of_nat r)) OR push_bit 5 (drop_bit 2 (of_nat g)) OR drop_bit 3 (of_nat b)"

definition colour :: "string \<Rightarrow> u16" where
  "colour c =
     (if c = ''CL_WHITE'' then RGB 255 255 255
      else if c = ''CL_BLACK'' then RGB 0 0 0
      else if c = ''CL_RED'' then RGB 255 0 0
      else if c = ''CL_GREEN'' then RGB 0 255 0
      else if c = ''CL_BLUE'' then RGB 0 0 255
      else if c = ''CL_YELLOW'' then RGB 255 255 0
      else if c = ''CL_GREY'' then RGB 98 98 98
      else if c = ''CL_GREY1'' then RGB 150 150 150
      else if c = ''CL_GREY3'' then RGB 200 200 200
      else if c = ''CL_BUTTON_GREY'' then RGB 195 195 195
      else if c = ''CL_MAGENTA'' then RGB 255 0 255
      else if c = ''CL_CYAN'' then RGB 0 255 255
      else if c = ''CL_BLUE4'' then RGB 0 64 128
      else 0)"

text \<open>\<open>fonts.c\<close>: the fonts; their tables of glyphs are a parameter.\<close>

fun font_of :: "(lcd_font \<Rightarrow> nat \<Rightarrow> u8) \<Rightarrow> lcd_font \<Rightarrow> sFONT" where
  "font_of F Font8x16 = \<lparr>table = F Font8x16, Width = 8, Height = 16\<rparr>"
| "font_of F Font16x24 = \<lparr>table = F Font16x24, Width = 16, Height = 24\<rparr>"
| "font_of F Font24x32 = \<lparr>table = F Font24x32, Width = 24, Height = 32\<rparr>"

definition chars :: "string \<Rightarrow> u8 list" where
  "chars text = map of_char text"

text \<open>A call of the application, by the driver. The touch panel's start-up does not concern the display.\<close>

fun do_call :: "(lcd_font \<Rightarrow> nat \<Rightarrow> u8) \<Rightarrow> lcd_call \<Rightarrow> ('z lcd_st_scheme, unit) state" where
  "do_call F lcd_call.ILI9341_Init = Lcd.ILI9341_Init"
| "do_call F lcd_call.XPT2046_Init = ret ()"
| "do_call F (lcd_call.ILI9341_GramScan m) = Lcd.ILI9341_GramScan (of_nat m)"
| "do_call F (lcd_call.LCD_SetBackColor c) = Lcd.LCD_SetBackColor (colour c)"
| "do_call F (lcd_call.LCD_SetTextColor c) = Lcd.LCD_SetTextColor (colour c)"
| "do_call F (lcd_call.LCD_SetFont f) = Lcd.LCD_SetFont (font_of F f)"
| "do_call F (lcd_call.ILI9341_Clear x y w h) = Lcd.ILI9341_Clear (of_nat x) (of_nat y) (of_nat w) (of_nat h)"
| "do_call F (lcd_call.ILI9341_DispStringLine_EN y text) = Lcd.ILI9341_DispStringLine_EN (of_nat y) (chars text)"
| "do_call F (lcd_call.ILI9341_DispString_EN x y text) = Lcd.ILI9341_DispString_EN (of_nat x) (of_nat y) (chars text)"
| "do_call F (lcd_call.ILI9341_OpenWindow x y w h) = Lcd.ILI9341_OpenWindow x y w h"
| "do_call F (lcd_call.ILI9341_Write_Cmd c) = Lcd.ILI9341_Write_Cmd c"
| "do_call F (lcd_call.ILI9341_Write_Data d) = Lcd.ILI9341_Write_Data d"

definition do_calls :: "(lcd_font \<Rightarrow> nat \<Rightarrow> u8) \<Rightarrow> lcd_call list \<Rightarrow> ('z lcd_st_scheme, unit) state" where
  "do_calls F cs = for_each cs (do_call F)"

section \<open>The photo\<close>

lemma run_calls_append: "run_state (do_calls F (cs @ ds)) s = run_state (do_calls F ds) (snd (run_state (do_calls F cs) s))"
  unfolding do_calls_def by (rule run_for_each_append)

lemma run_data: "run_state (do_calls F (map lcd_call.ILI9341_Write_Data ds)) s = ((), s\<lparr>bus := bus s @ map Data ds\<rparr>)"
  unfolding do_calls_def by (induction ds arbitrary: s) (simp_all add: Lcd.ILI9341_Write_Data_def put_def)

lemma draws_pixels:
  assumes "1 \<le> uint w" "1 \<le> uint h" "uint x + uint w \<le> 65536" "uint y + uint h \<le> 65536" and "length ds \<le> unat w * unat h"
  shows "draws s (do_calls F (lcd_call.ILI9341_OpenWindow x y w h # lcd_call.ILI9341_Write_Cmd CMD_SetPixel # map lcd_call.ILI9341_Write_Data ds))
    (paint (unat x) (unat y) (unat w) (unat h) ds)"
  by (rule draws_window [OF assms, where z = "()"])
    (simp add: do_calls_def run_data [unfolded do_calls_def] run_OpenWindow Lcd.ILI9341_Write_Cmd_def put_def)

lemma length_frame_pixels: "length (pixels bs) = length bs div 2"
  by (induction bs rule: pixels.induct) auto

lemma paint_frame:
  assumes "length ds = 320 * 240"
  shows "paint 0 0 320 240 ds g (i, j) = (if i < 320 \<and> j < 240 then ds ! (320 * j + i) else g (i, j))"
proof -
  have "j * 320 + i < 320 * 240" if "i < 320" "j < 240" using that by linarith
  then show ?thesis by (auto simp: paint_def assms mult.commute)
qed

text \<open>
  C11: the camera's frame as a picture. When a frame has been stored, \<open>my_ov7725_test\<close> makes the driver
  show it: after its calls pixel \<open>(i, j)\<close> of the 320 by 240 window at the corner of the display is the pixel
  number \<open>320 * j + i\<close> made of the bytes sampled from the camera's memory, row by row, and
  nothing else has changed.
\<close>

theorem photo_on_display:
  assumes "Ov7725_vsync s = 2" and "\<not> f_we (fifo_in s)" and "run_state my_ov7725_test s = (u, t)"
    and "es = drop (length (hist s)) (hist t)" and "run_state (do_calls F (lcd_of es)) d = (r, d')"
  shows "hist t = hist s @ es \<and> length (idr_of es) = 2 * 320 * 240 \<and>
    picture g (bus d') (i, j) = (if i < 320 \<and> j < 240 then pixels (idr_of es) ! (320 * j + i) else picture g (bus d) (i, j)) \<and>
    (\<exists>b. d' = d\<lparr>bus := b\<rparr>)"
proof -
  have es: "hist t = hist s @ es" "length (idr_of es) = 2 * frame_size"
    "lcd_of es = lcd_call.ILI9341_OpenWindow 0 0 320 240 # lcd_call.ILI9341_Write_Cmd CMD_SetPixel # map lcd_call.ILI9341_Write_Data (pixels (idr_of es))"
    using displays_frame [OF assms(1-3)] unfolding assms(4) by auto
  have len: "length (pixels (idr_of es)) = 320 * 240" unfolding length_frame_pixels es(2) frame_size_def by simp
  have "draws d (do_calls F (lcd_of es)) (paint 0 0 320 240 (pixels (idr_of es)))"
    unfolding es(3) using draws_pixels [of 320 240 0 0 "pixels (idr_of es)" d F] len by simp
  from drawsD [OF this assms(5)] show ?thesis
    using es(1,2) paint_frame [OF len] by (simp add: frame_size_def)
qed

lemma photo_on_display_witness:
  "\<exists>es d'. run_state (do_calls (\<lambda>_ _. 0) (lcd_of es)) (lcd_reset (\<lambda>_. 0) font8) = ((), d') \<and>
     es = hist (snd (run_state my_ov7725_test ((cam_board memory)\<lparr>Ov7725_vsync := 2\<rparr>))) \<and>
     length (idr_of es) = 153600 \<and> picture (\<lambda>_. 7) (bus d') (0, 1) = pixels (idr_of es) ! 320 \<and> picture (\<lambda>_. 7) (bus d') (320, 1) = 7"
proof -
  let ?s = "(cam_board memory)\<lparr>Ov7725_vsync := 2\<rparr>" and ?d = "lcd_reset (\<lambda>_. 0) font8"
  obtain u t where r: "run_state my_ov7725_test ?s = (u, t)" by (metis prod.exhaust)
  have s: "Ov7725_vsync ?s = 2" "\<not> f_we (fifo_in ?s)" "hist ?s = []"
    by (simp_all add: cam_board_def fifo_in_def fifo0_def)
  obtain d' where d: "run_state (do_calls (\<lambda>_ _. 0) (lcd_of (hist t))) ?d = ((), d')" by (metis old.unit.exhaust prod.exhaust)
  have p: "picture g (bus ?d) = g" for g by (simp add: lcd_reset_def picture_def panel0_def)
  note ph = photo_on_display [OF s(1,2) r _ d, where g = "\<lambda>_. 7"]
  show ?thesis
    using ph [of 0 1] ph [of 320 1] r d s(3) p by (intro exI [of _ "hist t"] exI [of _ d']) simp
qed


section \<open>The screens\<close>

text \<open>
  What the screens count on: a canvas that knows a font, two colours and its size, and takes calls. A
  string goes into one row from where it is put.
\<close>

record canvas =
  c_font :: lcd_font
  c_text :: u16
  c_back :: u16
  c_wide :: nat
  c_high :: nat
  c_pic :: "nat \<times> nat \<Rightarrow> u16"

definition put_row :: "sFONT \<Rightarrow> u16 \<Rightarrow> u16 \<Rightarrow> nat \<Rightarrow> nat \<Rightarrow> u8 list \<Rightarrow> (nat \<times> nat \<Rightarrow> u16) \<Rightarrow> nat \<times> nat \<Rightarrow> u16" where
  "put_row f tc bc x y cs g = (\<lambda>(i, j).
     if x \<le> i \<and> i < x + length cs * unat (Width f) \<and> y \<le> j \<and> j < y + unat (Height f)
     then if glyph_bit f (cs ! ((i - x) div unat (Width f))) ((i - x) mod unat (Width f)) (j - y) then tc else bc
     else g (i, j))"

definition write_at :: "(lcd_font \<Rightarrow> nat \<Rightarrow> u8) \<Rightarrow> nat \<Rightarrow> nat \<Rightarrow> string \<Rightarrow> canvas \<Rightarrow> canvas" where
  "write_at F x y text c = c\<lparr>c_pic := put_row (font_of F (c_font c)) (c_text c) (c_back c) x y (chars text) (c_pic c)\<rparr>"

fun canvas_step :: "(lcd_font \<Rightarrow> nat \<Rightarrow> u8) \<Rightarrow> canvas \<Rightarrow> lcd_call \<Rightarrow> canvas" where
  "canvas_step F c (lcd_call.LCD_SetBackColor n) = c\<lparr>c_back := colour n\<rparr>"
| "canvas_step F c (lcd_call.LCD_SetTextColor n) = c\<lparr>c_text := colour n\<rparr>"
| "canvas_step F c (lcd_call.LCD_SetFont f) = c\<lparr>c_font := f\<rparr>"
| "canvas_step F c (lcd_call.ILI9341_Clear x y w h) = c\<lparr>c_pic := box x y w h (c_back c) (c_pic c)\<rparr>"
| "canvas_step F c (lcd_call.ILI9341_DispStringLine_EN y text) = write_at F 0 y text c"
| "canvas_step F c (lcd_call.ILI9341_DispString_EN x y text) = write_at F x y text c"
| "canvas_step F c _ = c"

text \<open>The calls a canvas takes: those that stay on it.\<close>

definition room :: "canvas \<Rightarrow> nat \<Rightarrow> nat \<Rightarrow> string \<Rightarrow> bool" where
  "room c x y text \<longleftrightarrow> x + length text * unat (Width (font_of (\<lambda>_ _. 0) (c_font c))) \<le> c_wide c \<and> y + font_height (c_font c) \<le> c_high c"

fun call_fits :: "canvas \<Rightarrow> lcd_call \<Rightarrow> bool" where
  "call_fits c (lcd_call.LCD_SetBackColor n) = True"
| "call_fits c (lcd_call.LCD_SetTextColor n) = True"
| "call_fits c (lcd_call.LCD_SetFont f) = True"
| "call_fits c (lcd_call.ILI9341_Clear x y w h) = (1 \<le> w \<and> 1 \<le> h \<and> x + w \<le> c_wide c \<and> y + h \<le> c_high c)"
| "call_fits c (lcd_call.ILI9341_DispStringLine_EN y text) = room c 0 y text"
| "call_fits c (lcd_call.ILI9341_DispString_EN x y text) = room c x y text"
| "call_fits c _ = False"

fun calls_fit :: "(lcd_font \<Rightarrow> nat \<Rightarrow> u8) \<Rightarrow> canvas \<Rightarrow> lcd_call list \<Rightarrow> bool" where
  "calls_fit F c [] = True"
| "calls_fit F c (e # es) = (call_fits c e \<and> calls_fit F (canvas_step F c e) es)"

text \<open>The driver's variables and the panel's memory stand for a canvas.\<close>

definition canvas_is :: "(lcd_font \<Rightarrow> nat \<Rightarrow> u8) \<Rightarrow> (nat \<times> nat \<Rightarrow> u16) \<Rightarrow> canvas \<Rightarrow> 'z lcd_st_scheme \<Rightarrow> bool" where
  "canvas_is F g c s \<longleftrightarrow> LCD_Currentfonts s = font_of F (c_font c) \<and> CurrentTextColor s = c_text c \<and> CurrentBackColor s = c_back c \<and>
     unat (lcd_st.LCD_X_LENGTH s) = c_wide c \<and> unat (lcd_st.LCD_Y_LENGTH s) = c_high c \<and> picture g (bus s) = c_pic c"

lemma font_sizes: "unat (Width (font_of F f)) = unat (Width (font_of G f))" "unat (Height (font_of F f)) = font_height f"
  "good_font (font_of F f)" "1 \<le> unat (Width (font_of F f))"
  by (cases f; simp add: good_font_def)+

lemma put_row_Cons:
  assumes "1 \<le> unat (Width f)"
  shows "put_row f tc bc x y (c # cs) g = put_row f tc bc (x + unat (Width f)) y cs
    (\<lambda>(i, j). if x \<le> i \<and> i < x + unat (Width f) \<and> y \<le> j \<and> j < y + unat (Height f)
      then if glyph_bit f c (i - x) (j - y) then tc else bc else g (i, j))"
proof (intro ext, clarify)
  fix i j
  let ?w = "unat (Width f)"
  have "(i - x) div ?w = Suc ((i - (x + ?w)) div ?w)" "(i - x) mod ?w = (i - (x + ?w)) mod ?w" if "x + ?w \<le> i"
    using le_div_geq [of ?w "i - x"] le_mod_geq [of ?w "i - x"] that assms by simp_all
  moreover have "(i - x) div ?w = 0" "(i - x) mod ?w = i - x" if "x \<le> i" "i < x + ?w" using that by simp_all
  ultimately show "put_row f tc bc x y (c # cs) g (i, j) = put_row f tc bc (x + ?w) y cs
    (\<lambda>(i, j). if x \<le> i \<and> i < x + ?w \<and> y \<le> j \<and> j < y + unat (Height f)
      then if glyph_bit f c (i - x) (j - y) then tc else bc else g (i, j)) (i, j)"
    by (cases "x + ?w \<le> i") (auto simp: put_row_def)
qed

lemma draws_row:
  assumes "good_font (LCD_Currentfonts s)" and "x + length cs * unat (Width (LCD_Currentfonts s)) \<le> unat (lcd_st.LCD_X_LENGTH s)"
    and "y + unat (Height (LCD_Currentfonts s)) \<le> unat (lcd_st.LCD_Y_LENGTH s)"
  shows "draws s (disp_along_x (of_nat x) (of_nat y) cs)
    (put_row (LCD_Currentfonts s) (CurrentTextColor s) (CurrentBackColor s) x y cs)"
  using assms(2)
proof (induction cs arbitrary: x)
  case Nil
  have "put_row f tc bc x y [] = (\<lambda>g. g)" for f tc bc by (auto simp: put_row_def fun_eq_iff)
  then show ?case by (simp add: draws_ret)
next
  case (Cons c cs)
  let ?f = "LCD_Currentfonts s"
  let ?w = "unat (Width ?f)" and ?h = "unat (Height ?f)"
  note f = good_fontD [OF assms(1)]
  have bound: "unat (lcd_st.LCD_X_LENGTH s) < 65536" "unat (lcd_st.LCD_Y_LENGTH s) < 65536" by (rule unat16)+
  have fit: "x + ?w \<le> unat (lcd_st.LCD_X_LENGTH s)" "x + ?w + length cs * ?w \<le> unat (lcd_st.LCD_X_LENGTH s)"
    using Cons.prems by (simp_all add: algebra_simps)
  have xy: "unat (of_nat x :: u16) = x" "unat (of_nat y :: u16) = y"
    using fit assms(3) bound f(1,2) by (simp_all add: unsigned_of_nat take_bit_nat_eq_self)
  have stay: "\<not> uint (of_nat x :: u16) + uint (Width ?f) > uint (lcd_st.LCD_X_LENGTH s)"
    "\<not> uint (of_nat y :: u16) + uint (Height ?f) > uint (lcd_st.LCD_Y_LENGTH s)"
    unfolding over xy using fit(1) assms(3) by simp_all
  have room: "uint (of_nat x :: u16) + uint (Width ?f) \<le> 65536" "uint (of_nat y :: u16) + uint (Height ?f) \<le> 65536"
    using stay uint16 [of "lcd_st.LCD_X_LENGTH s"] uint16 [of "lcd_st.LCD_Y_LENGTH s"] by linarith+
  have "of_nat x + Width ?f = (of_nat (x + ?w) :: u16)" by simp
  then have rest: "draws s (disp_along_x (of_nat x + Width ?f) (of_nat y) cs)
    (put_row ?f (CurrentTextColor s) (CurrentBackColor s) (x + ?w) y cs)" using Cons.IH [OF fit(2)] by simp
  have char: "put_char s (unat (of_nat x :: u16), unat (of_nat y :: u16)) c g =
      (\<lambda>(i, j). if x \<le> i \<and> i < x + ?w \<and> y \<le> j \<and> j < y + ?h
        then if glyph_bit ?f c (i - x) (j - y) then CurrentTextColor s else CurrentBackColor s else g (i, j))" for g
    by (simp add: put_char_def xy Let_def fun_eq_iff)
  show ?case
    unfolding disp_along_x.simps put_row_Cons [OF f(1)] char [symmetric]
    by (intro draws_gets) (simp, simp, simp, simp only: stay if_False Let_def prod.case draws_bind [OF draws_char [OF assms(1) room] rest])
qed

lemma canvas_string:
  assumes "canvas_is F g c s" and "room c x y text" and "run_state (disp_along_x (of_nat x) (of_nat y) (chars text)) s = (u, t)"
  shows "canvas_is F g (write_at F x y text c) t"
proof -
  note c = assms(1)[unfolded canvas_is_def]
  have "draws s (disp_along_x (of_nat x) (of_nat y) (chars text))
    (put_row (LCD_Currentfonts s) (CurrentTextColor s) (CurrentBackColor s) x y (chars text))"
    using assms(2) c by (intro draws_row) (simp_all add: room_def chars_def font_sizes font_sizes(1) [of F _ "\<lambda>_ _. 0"])
  from drawsD [OF this assms(3)] show ?thesis
    using c unfolding canvas_is_def write_at_def by auto
qed


lemma canvas_draws:
  assumes "canvas_is F g c s" and "draws s m f" and "run_state m s = (u, t)"
  shows "canvas_is F g (c\<lparr>c_pic := f (c_pic c)\<rparr>) t"
  using drawsD [OF assms(2,3)] assms(1) unfolding canvas_is_def by auto

lemma canvas_clear:
  assumes "canvas_is F g c s" and "1 \<le> w" "1 \<le> h" "x + w \<le> c_wide c" "y + h \<le> c_high c"
    and "run_state (Lcd.ILI9341_Clear (of_nat x) (of_nat y) (of_nat w) (of_nat h)) s = (u, t)"
  shows "canvas_is F g (c\<lparr>c_pic := box x y w h (c_back c) (c_pic c)\<rparr>) t"
proof -
  have size: "c_wide c < 65536" "c_high c < 65536" "CurrentBackColor s = c_back c"
    using assms(1) unat16 unfolding canvas_is_def by metis+
  have n: "uint (of_nat n :: u16) = int n" "unat (of_nat n :: u16) = n" if "n < 65536" for n
    using that by (simp_all add: unsigned_of_nat take_bit_nat_eq_self)
  have lt: "x < 65536" "y < 65536" "w < 65536" "h < 65536" using assms(2-5) size by linarith+
  note n = n [OF lt(1)] n [OF lt(2)] n [OF lt(3)] n [OF lt(4)]
  have "draws s (Lcd.ILI9341_Clear (of_nat x) (of_nat y) (of_nat w) (of_nat h)) (box x y w h (c_back c))"
    using draws_clear [of "of_nat w" "of_nat h" "of_nat x" "of_nat y" s] assms(2-5) size unfolding n by simp
  from canvas_draws [OF assms(1) this assms(6)] show ?thesis .
qed

lemma canvas_call:
  assumes "canvas_is F g c s" and "call_fits c e" and "run_state (do_call F e) s = (u, t)"
  shows "canvas_is F g (canvas_step F c e) t"
proof (cases e)
  case (ILI9341_Clear x y w h)
  then show ?thesis using canvas_clear [OF assms(1), of w h x y u t] assms(2,3) by simp
next
  case (ILI9341_DispStringLine_EN y msg)
  then show ?thesis using canvas_string [OF assms(1), of 0 y msg u t] assms(2,3) by (simp add: Lcd.ILI9341_DispStringLine_EN_def)
next
  case (ILI9341_DispString_EN x y msg)
  then show ?thesis using canvas_string [OF assms(1), of x y msg u t] assms(2,3) by (simp add: Lcd.ILI9341_DispString_EN_def)
qed (use assms in \<open>auto simp: canvas_is_def Lcd.LCD_SetBackColor_def Lcd.LCD_SetTextColor_def Lcd.LCD_SetFont_def\<close>)

lemma canvas_calls:
  assumes "canvas_is F g c s" and "calls_fit F c cs" and "run_state (do_calls F cs) s = (u, t)"
  shows "canvas_is F g (foldl (canvas_step F) c cs) t"
  using assms
proof (induction cs arbitrary: c s)
  case (Cons e cs)
  obtain v s1 where 1: "run_state (do_call F e) s = (v, s1)" by (metis prod.exhaust)
  have "canvas_is F g (canvas_step F c e) s1" using canvas_call [OF Cons.prems(1) _ 1] Cons.prems(2) by simp
  then show ?case using Cons.IH [of "canvas_step F c e" s1] Cons.prems(2,3) 1 by (simp add: do_calls_def)
qed (simp add: do_calls_def)

text \<open>
  C9: the display driver implements a canvas. Take any sequence of calls for colours, fonts, clearing and strings that stay on
  the screen. If the driver's variables and what the panel shows stand for a canvas, then after the driver has
  carried out the calls, with all their commands to the panel, they stand for the canvas on which the
  calls have been done directly: rectangles of one colour and rows of glyphs.
\<close>

theorem driver_implements_canvas:
  assumes "canvas_is F g c s" and "calls_fit F c cs" and "run_state (do_calls F cs) s = (u, t)"
  shows "canvas_is F g (foldl (canvas_step F) c cs) t"
  using canvas_calls [OF assms] .

definition canvas0 :: "(nat \<times> nat \<Rightarrow> u16) \<Rightarrow> canvas" where
  "canvas0 g = \<lparr>c_font = Font8x16, c_text = 0, c_back = 0xFFFF, c_wide = 240, c_high = 320, c_pic = g\<rparr>"

lemma driver_implements_canvas_witness:
  "\<exists>t. run_state (do_calls (\<lambda>_ _. 0) [lcd_call.LCD_SetFont Font16x24, lcd_call.ILI9341_DispString_EN 32 48 ''Hi''])
      (lcd_reset (\<lambda>_. 0) (font_of (\<lambda>_ _. 0) Font8x16)) = ((), t) \<and>
    canvas_is (\<lambda>_ _. 0) (\<lambda>_. 7) ((canvas0 (\<lambda>_. 7))\<lparr>c_font := Font16x24,
      c_pic := put_row (font_of (\<lambda>_ _. 0) Font16x24) 0 0xFFFF 32 48 (chars ''Hi'') (\<lambda>_. 7)\<rparr>) t"
proof -
  let ?F = "\<lambda>_ _. 0" and ?cs = "[lcd_call.LCD_SetFont Font16x24, lcd_call.ILI9341_DispString_EN 32 48 ''Hi'']"
  let ?s = "lcd_reset (\<lambda>_. 0) (font_of ?F Font8x16)"
  obtain t where t: "run_state (do_calls ?F ?cs) ?s = ((), t)" by (metis old.unit.exhaust prod.exhaust)
  have "canvas_is ?F (\<lambda>_. 7) (canvas0 (\<lambda>_. 7)) ?s"
    by (simp add: canvas_is_def canvas0_def lcd_reset_def ILI9341_LESS_PIXEL_def ILI9341_MORE_PIXEL_def picture_def panel0_def)
  from driver_implements_canvas [OF this _ t]
  show ?thesis using t by (simp add: canvas0_def room_def write_at_def)
qed


text \<open>The calls of the menu.\<close>

definition menu_calls :: "nat \<Rightarrow> lcd_call list" where
  "menu_calls sel = [
     lcd_call.ILI9341_Clear 0 0 320 240,
     lcd_call.LCD_SetFont Font24x32, lcd_call.LCD_SetTextColor ''CL_CYAN'', lcd_call.ILI9341_DispString_EN 68 0 ''WELCOME!'',
     lcd_call.LCD_SetFont Font8x16, lcd_call.LCD_SetTextColor ''CL_GREY1'', lcd_call.ILI9341_DispString_EN 72 32 ''K1: Select | K2: Enter'',
     lcd_call.LCD_SetFont Font16x24, lcd_call.LCD_SetTextColor ''CL_GREY3'',
     lcd_call.ILI9341_DispStringLine_EN 72 ''    Display Data'', lcd_call.ILI9341_DispStringLine_EN 96 ''    Take Photo'',
     lcd_call.ILI9341_DispStringLine_EN 120 ''    Eject SD Card'', lcd_call.ILI9341_DispStringLine_EN 144 ''    Settings'',
     lcd_call.LCD_SetFont Font16x24, lcd_call.LCD_SetTextColor ''CL_GREEN'', lcd_call.ILI9341_Clear 0 72 48 96,
     lcd_call.ILI9341_DispStringLine_EN (24 * (sel + 2)) '' >>'']"

lemma run_style: "run_state (style f c) s = ((), s\<lparr>hist := hist s @ map Lcd [lcd_call.LCD_SetFont f, lcd_call.LCD_SetTextColor c]\<rparr>)"
  by (simp add: style_def)

lemma run_line_EN: "run_state (line_EN x msg) s = ((), s\<lparr>hist := hist s @ [Lcd (lcd_call.ILI9341_DispStringLine_EN (x * font_height (current_font (hist s))) msg)]\<rparr>)"
  by (simp add: line_EN_def LINE_def)

lemma run_string_EN: "run_state (string_EN ux x msg) s = ((), s\<lparr>hist := hist s @ [Lcd (lcd_call.ILI9341_DispString_EN ux (x * font_height (current_font (hist s))) msg)]\<rparr>)"
  by (simp add: string_EN_def LINE_def)

lemma run_menu:
  assumes "odd (App_State.LCD_SCAN_MODE (hist s))"
  shows "run_state MENU_task s = ((), s\<lparr>hist := hist s @ map Lcd (menu_calls (selectScene s))\<rparr>)"
  using assms by (simp add: MENU_task_def MENU_updateSelect_def clear_screen_def App_State.LCD_X_LENGTH_def App_State.LCD_Y_LENGTH_def
      run_style run_line_EN run_string_EN LINE_def current_font_def menu_calls_def)


text \<open>A pixel of a string in the font of the menu's lines.\<close>

definition menu_glyph :: "(lcd_font \<Rightarrow> nat \<Rightarrow> u8) \<Rightarrow> string \<Rightarrow> nat \<Rightarrow> nat \<Rightarrow> bool" where
  "menu_glyph F msg i j = glyph_bit (font_of F Font16x24) (chars msg ! (i div 16)) (i mod 16) j"

definition menu_texts :: "string list" where
  "menu_texts = [''    Display Data'', ''    Take Photo'', ''    Eject SD Card'', ''    Settings'']"

lemma row_pixel: "put_row (font_of F Font16x24) tc bc 0 y (chars msg) g (i, j) =
    (if i < 16 * length msg \<and> y \<le> j \<and> j < y + 24 then if menu_glyph F msg i (j - y) then tc else bc else g (i, j))"
  by (simp add: put_row_def menu_glyph_def chars_def mult.commute)

lemma row_above: "y + unat (Height f) \<le> j \<Longrightarrow> put_row f tc bc x y cs g (i, j) = g (i, j)"
  by (simp add: put_row_def)

lemma box_pixel: "box x y w h c g (i, j) = (if x \<le> i \<and> i < x + w \<and> y \<le> j \<and> j < y + h then c else g (i, j))"
  by (simp add: box_def)

lemma menu_fits: "c_wide c = 320 \<Longrightarrow> c_high c = 240 \<Longrightarrow> sel \<in> {1..4} \<Longrightarrow> calls_fit F c (menu_calls sel)"
  by (simp add: menu_calls_def room_def write_at_def)

lemma menu_pixel:
  assumes "c_wide c = 320" "c_high c = 240" "sel \<in> {1..4}" and "k < 4" and "j < 24" and "i < 320"
  shows "c_pic (foldl (canvas_step F) c (menu_calls sel)) (i, 72 + 24 * k + j) =
    (if i < 48 then if sel = k + 1 \<and> menu_glyph F '' >>'' i j then RGB 0 255 0 else c_back c
     else if i < 16 * length (menu_texts ! k) \<and> menu_glyph F (menu_texts ! k) i j then RGB 200 200 200 else c_back c)"
proof -
  have k: "k = 0 \<or> k = 1 \<or> k = 2 \<or> k = 3" using assms(4) by auto
  have sel: "sel = 1 \<or> sel = 2 \<or> sel = 3 \<or> sel = 4" using assms(3) by auto
  show ?thesis
    using k sel assms(5,6)
    by (elim disjE) (simp_all add: menu_calls_def write_at_def row_pixel row_above box_pixel menu_texts_def colour_def font_sizes(2) del: font_of.simps)
qed


lemma lcd_of_calls: "lcd_of (map Lcd cs) = cs"
  by (induction cs) simp_all

text \<open>
  C21: the menu on the display. From any state of the application and any canvas of 320 by 240 pixels, the calls
  of \<open>MENU_task\<close>, carried out by the driver, leave in the four lines of 24 pixels below row 72: the
  names of the four screens in light grey from the left edge on, except for its first three columns of 16 pixels; there, in the line of the
  scene that is selected and in no other, the marker in green; and the background colour elsewhere.
\<close>

theorem menu_on_display:
  assumes "odd (App_State.LCD_SCAN_MODE (hist s))" and "selectScene s \<in> {1..4}" and "run_state MENU_task s = (u, t)"
    and "es = drop (length (hist s)) (hist t)"
    and "canvas_is F g c d" and "c_wide c = 320" and "c_high c = 240" and "run_state (do_calls F (lcd_of es)) d = (r, d')"
    and "k < 4" and "j < 24" and "i < 320"
  shows "picture g (bus d') (i, 72 + 24 * k + j) =
    (if i < 48 then if selectScene s = k + 1 \<and> menu_glyph F '' >>'' i j then RGB 0 255 0 else c_back c
     else if i < 16 * length (menu_texts ! k) \<and> menu_glyph F (menu_texts ! k) i j then RGB 200 200 200 else c_back c)"
proof -
  have "es = map Lcd (menu_calls (selectScene s))"
    using run_menu [OF assms(1)] assms(3,4) by auto
  then have calls: "lcd_of es = menu_calls (selectScene s)" by (simp only: lcd_of_calls)
  have "canvas_is F g (foldl (canvas_step F) c (menu_calls (selectScene s))) d'"
    using canvas_calls [OF assms(5) menu_fits [OF assms(6,7,2)]] assms(8) unfolding calls by blast
  then show ?thesis using menu_pixel [OF assms(6,7,2,9-11)] unfolding canvas_is_def by metis
qed

definition canvas1 :: "(nat \<times> nat \<Rightarrow> u16) \<Rightarrow> canvas" where
  "canvas1 g = \<lparr>c_font = Font8x16, c_text = 0, c_back = 0, c_wide = 320, c_high = 240, c_pic = g\<rparr>"


text \<open>After the start-up the selected scene is the first; the glyphs of the witness are full.\<close>

lemma menu_on_display_witness:
  "\<exists>s d'. s = (app_reset env0)\<lparr>hist := [Lcd (lcd_call.ILI9341_GramScan 3)]\<rparr> \<and>
     run_state (do_calls (\<lambda>_ _. - 1) (lcd_of (drop 1 (hist (snd (run_state MENU_task s))))))
       ((lcd_reset (\<lambda>_. 0) (font_of (\<lambda>_ _. - 1) Font8x16))\<lparr>lcd_st.LCD_X_LENGTH := 320, lcd_st.LCD_Y_LENGTH := 240, CurrentBackColor := 0\<rparr>) = ((), d') \<and>
     picture (\<lambda>_. 7) (bus d') (0, 72) = 0x07E0 \<and> picture (\<lambda>_. 7) (bus d') (0, 96) = 0 \<and> picture (\<lambda>_. 7) (bus d') (64, 96) = 0xCE59"
proof -
  let ?F = "\<lambda>_ _. - 1" and ?s = "(app_reset env0)\<lparr>hist := [Lcd (lcd_call.ILI9341_GramScan 3)]\<rparr>"
  let ?d = "(lcd_reset (\<lambda>_. 0) (font_of ?F Font8x16))\<lparr>lcd_st.LCD_X_LENGTH := 320, lcd_st.LCD_Y_LENGTH := 240, CurrentBackColor := 0\<rparr>"
  obtain u t where m: "run_state MENU_task ?s = (u, t)" by (metis prod.exhaust)
  obtain d' where d: "run_state (do_calls ?F (lcd_of (drop 1 (hist t)))) ?d = ((), d')" by (rule exE [OF unit_run])
  have c: "canvas_is ?F (\<lambda>_. 7) (canvas1 (\<lambda>_. 7)) ?d"
    by (simp add: canvas_is_def canvas1_def lcd_reset_def picture_def panel0_def)
  have odd: "odd (App_State.LCD_SCAN_MODE (hist ?s))" by (simp add: App_State.LCD_SCAN_MODE_def)
  have sel: "selectScene ?s = 1" by (simp add: app_reset_def)
  have es: "drop 1 (hist t) = drop (length (hist ?s)) (hist t)" by simp
  have glyph: "menu_glyph ?F msg i j" for msg i j by (simp add: menu_glyph_def glyph_bit_def Let_def)
  have cw: "c_wide (canvas1 (\<lambda>_. 7)) = 320" "c_high (canvas1 (\<lambda>_. 7)) = 240" "c_back (canvas1 (\<lambda>_. 7)) = 0" by (simp_all add: canvas1_def)
  have s14: "selectScene ?s \<in> {1..4}" unfolding sel by simp
  note p = menu_on_display [OF odd s14 m es c cw(1,2) d, unfolded sel cw(3)]
  have "picture (\<lambda>_. 7) (bus d') (0, 72) = 0x07E0" using p [of 0 0 0] by (simp add: RGB_def glyph)
  moreover have "picture (\<lambda>_. 7) (bus d') (0, 96) = 0" using p [of 1 0 0] by simp
  moreover have "picture (\<lambda>_. 7) (bus d') (64, 96) = 0xCE59" using p [of 1 0 64] by (simp add: RGB_def menu_texts_def glyph)
  ultimately show ?thesis using d m by (intro exI [of _ ?s] exI [of _ d']) simp
qed

end
