(* ===== verification/Lcd_Demo.thy ===== *)
theory Lcd_Demo
  imports App_Display Lcd_Circle
begin

text \<open>
  \<open>src/applications/bsp_lcd_ili9341.c\<close>: the demonstration of the display, which draws with every function of
  the driver, and the proof that it comes to an end.
\<close>

record lcd_demo_st = lcd_st +
  testCNT :: u8

text \<open>The statements of a function one after the other; \<open>fuel\<close> bounds the rounds of each loop.\<close>

definition always :: "('s, unit) state \<Rightarrow> ('s, bool) state" where
  "always m = do { m; ret True }"

definition all_of :: "('s, bool) state list \<Rightarrow> ('s, bool) state" where
  "all_of ms = foldr and_then ms (ret True)"

definition lcd_LINE :: "nat \<Rightarrow> ('z lcd_st_scheme, u16) state" where
  "lcd_LINE x = do { f \<leftarrow> Lcd.LCD_GetFont; ret (of_nat x * Height f) }"

definition show_line :: "nat \<Rightarrow> string \<Rightarrow> ('z lcd_st_scheme, unit) state" where
  "show_line x msg = do { y \<leftarrow> lcd_LINE x; Lcd.ILI9341_DispStringLine_EN y (chars msg) }"

definition clear_line :: "nat \<Rightarrow> ('z lcd_st_scheme, unit) state" where
  "clear_line x = do { y \<leftarrow> lcd_LINE x; Lcd.LCD_ClearLine y }"

definition clear_from :: "u16 \<Rightarrow> ('z lcd_st_scheme, unit) state" where
  "clear_from y = do {
     xl \<leftarrow> gets lcd_st.LCD_X_LENGTH;
     yl \<leftarrow> gets lcd_st.LCD_Y_LENGTH;
     Lcd.ILI9341_Clear 0 y xl (yl - y)
   }"

abbreviation (input) RED :: u16 where "RED \<equiv> 0xF800"
abbreviation (input) BLACK :: u16 where "BLACK \<equiv> 0x0000"
abbreviation (input) BLUE :: u16 where "BLUE \<equiv> 0x001F"
abbreviation (input) GREEN :: u16 where "GREEN \<equiv> 0x07E0"

definition LCD_Test :: "(lcd_font \<Rightarrow> nat \<Rightarrow> u8) \<Rightarrow> nat \<Rightarrow> ('z lcd_demo_st_scheme, bool) state" where
  "LCD_Test F fuel = all_of [
     always (do {
       modify (\<lambda>s. s\<lparr>testCNT := testCNT s + 1\<rparr>);
       Lcd.LCD_SetFont (font_of F Font8x16);
       Lcd.LCD_SetColors RED BLACK;
       clear_from 0;
       show_line 0 ''BH 3.2 inch LCD para:'';
       show_line 1 ''Image resolution:240x320 px'';
       id \<leftarrow> gets lcdid;
       (if id = LCDID_ILI9341 then show_line 2 ''ILI9341 LCD driver''
        else when_true (id = LCDID_ST7789V) (show_line 2 ''ST7789V LCD driver''));
       show_line 3 ''XPT2046 Touch Pad driver'';
       Lcd.LCD_SetFont (font_of F Font16x24);
       Lcd.LCD_SetTextColor GREEN;
       n \<leftarrow> gets testCNT;
       clear_line 4;
       show_line 4 (''Count : '' @ show_int (uint n) @ '' '');
       Lcd.LCD_SetFont (font_of F Font24x32);
       clear_line 4;
       Lcd.LCD_SetTextColor BLUE;
       show_line 4 ''Draw line:'';
       Lcd.LCD_SetTextColor RED
     }),
     ILI9341_DrawLine fuel 50 170 210 230, ILI9341_DrawLine fuel 50 200 210 240, always (Lcd.LCD_SetTextColor GREEN),
     ILI9341_DrawLine fuel 100 170 200 230, ILI9341_DrawLine fuel 200 200 220 240, always (Lcd.LCD_SetTextColor BLUE),
     ILI9341_DrawLine fuel 110 170 110 230, ILI9341_DrawLine fuel 130 200 220 240,
     always (do {
       Lcd.ILI9341_Delay 0xFFFFFF;
       clear_from (16 * 8);
       clear_line 4;
       Lcd.LCD_SetTextColor BLUE;
       show_line 4 ''Draw Rect:'';
       Lcd.LCD_SetTextColor RED
     }),
     ILI9341_DrawRectangle fuel 50 200 100 30 1, always (Lcd.LCD_SetTextColor GREEN),
     ILI9341_DrawRectangle fuel 160 200 20 40 0, always (Lcd.LCD_SetTextColor BLUE),
     ILI9341_DrawRectangle fuel 170 200 50 20 1,
     always (do {
       Lcd.ILI9341_Delay 0xFFFFFF;
       clear_from (16 * 8);
       clear_line 4;
       Lcd.LCD_SetTextColor BLUE;
       show_line 4 ''Draw Cir:'';
       Lcd.LCD_SetTextColor RED
     }),
     ILI9341_DrawCircle fuel 100 200 20 0, always (Lcd.LCD_SetTextColor GREEN),
     ILI9341_DrawCircle fuel 100 200 10 1, always (Lcd.LCD_SetTextColor BLUE),
     ILI9341_DrawCircle fuel 140 200 20 0,
     always (do { Lcd.ILI9341_Delay 0xFFFFFF; clear_from (16 * 8) })]"

definition LCD_Direction_Show :: "(lcd_font \<Rightarrow> nat \<Rightarrow> u8) \<Rightarrow> nat \<Rightarrow> ('z lcd_demo_st_scheme, bool) state" where
  "LCD_Direction_Show F fuel = all_of (map (\<lambda>i. and_then
     (always (do {
       Lcd.LCD_SetFont (font_of F Font16x24);
       Lcd.LCD_SetColors RED BLACK;
       clear_from 0;
       Lcd.ILI9341_GramScan (of_nat i);
       Lcd.ILI9341_DispString_EN 0 0 (chars (''o'' @ show_int (int i) @ ''. X --->''));
       Lcd.ILI9341_DispString_EN_YDir 0 0 (chars (''o'' @ show_int (int i) @ ''.Y|V''));
       Lcd.ILI9341_Delay 0xFFFFFF
     }))
     (LCD_Test F fuel)) [0..<8])"

section \<open>It comes to an end\<close>

definition ends :: "('s, bool) state \<Rightarrow> bool" where
  "ends m \<longleftrightarrow> (\<forall>s. fst (run_state m s) = True)"

named_theorems end_intros \<open>which drawings come to an end\<close>

lemma ends_always [end_intros]: "ends (always m)"
  by (simp add: ends_def always_def split_beta)

lemma ends_then [end_intros]: "ends m \<Longrightarrow> ends k \<Longrightarrow> ends (and_then m k)"
  by (simp add: ends_def and_then_def split_beta)

lemma ends_all: "(\<And>m. m \<in> set ms \<Longrightarrow> ends m) \<Longrightarrow> ends (all_of ms)"
proof (induction ms)
  case Nil
  then show ?case by (simp add: all_of_def ends_def)
next
  case (Cons m ms)
  then show ?case using ends_then [of m "all_of ms"] by (simp add: all_of_def)
qed

lemma ends_results: "(\<And>s. \<exists>f. results s m True f) \<Longrightarrow> ends m"
  unfolding ends_def by (metis prod.collapse resultsD(1))

lemma ends_line [end_intros]: "line_length x1 y1 x2 y2 \<le> 65533 \<Longrightarrow> 65536 \<le> fuel \<Longrightarrow> ends (ILI9341_DrawLine fuel x1 y1 x2 y2)"
  by (rule ends_results, rule exI, rule results_line) simp_all

lemma ends_circle [end_intros]: "uint radius \<le> 8000 \<Longrightarrow> 65536 \<le> fuel \<Longrightarrow> ends (ILI9341_DrawCircle fuel x y radius filled)"
  by (rule ends_results, rule exI, rule results_circle) simp_all

lemma ends_filled [end_intros]: "ends (ILI9341_DrawRectangle fuel x y w h 1)"
  by (simp add: ends_def ILI9341_DrawRectangle_def run_OpenWindow run_FillColor)

lemma ends_hollow [end_intros]:
  "1 \<le> uint w \<Longrightarrow> 1 \<le> uint h \<Longrightarrow> uint x + uint w \<le> 65536 \<Longrightarrow> uint y + uint h \<le> 65536 \<Longrightarrow> uint w \<le> 65534 \<Longrightarrow> uint h \<le> 65534 \<Longrightarrow>
    65536 \<le> fuel \<Longrightarrow> ends (ILI9341_DrawRectangle fuel x y w h 0)"
  by (rule ends_results, rule exI, rule results_rectangle)

lemma LCD_Test_ends: "65536 \<le> fuel \<Longrightarrow> ends (LCD_Test F fuel)"
  unfolding LCD_Test_def
  by (rule ends_all) (auto intro!: end_intros simp: line_length_def)

text \<open>Both demonstrations return, whatever the state of the display.\<close>

lemma LCD_Direction_Show_ends: "65536 \<le> fuel \<Longrightarrow> ends (LCD_Direction_Show F fuel)"
  unfolding LCD_Direction_Show_def
  by (rule ends_all) (auto intro!: ends_then ends_always LCD_Test_ends)

end
