(* ===== verification/Palette.thy ===== *)
theory Palette
  imports Lcd_Demo "HOL-Library.Signed_Division"
begin

text \<open>
  \<open>src/applications/palette.c\<close> and \<open>palette.h\<close>: the drawing board of the touch panel: two columns of
  buttons at the left, for the colours and the brushes, and trails drawn to the right of them. Its state extends that of the
  display driver; \<open>fuel\<close> bounds the rounds of the loops that draw, and the result says whether a function returned.
  Coordinates are words of 16 bits, read with \<open>sint\<close> where the code has them signed.
\<close>

section \<open>State\<close>

abbreviation (input) COLOR_BLOCK_WIDTH :: u16 where "COLOR_BLOCK_WIDTH \<equiv> 40"
abbreviation (input) COLOR_BLOCK_HEIGHT :: u16 where "COLOR_BLOCK_HEIGHT \<equiv> 28"
abbreviation (input) BUTTON_NUM :: nat where "BUTTON_NUM \<equiv> 16"
abbreviation (input) BUTTON_START_X :: u16 where "BUTTON_START_X \<equiv> 0"
abbreviation (input) PALETTE_START_X :: int where "PALETTE_START_X \<equiv> 81"
abbreviation (input) PALETTE_START_Y :: int where "PALETTE_START_Y \<equiv> 0"

abbreviation (input) LINE_SINGLE_PIXCEL :: u32 where "LINE_SINGLE_PIXCEL \<equiv> 0"
abbreviation (input) LINE_2_PIXCEL :: u32 where "LINE_2_PIXCEL \<equiv> 1"
abbreviation (input) LINE_4_PIXCEL :: u32 where "LINE_4_PIXCEL \<equiv> 2"
abbreviation (input) LINE_6_PIXCEL :: u32 where "LINE_6_PIXCEL \<equiv> 3"
abbreviation (input) LINE_8_PIXCEL :: u32 where "LINE_8_PIXCEL \<equiv> 4"
abbreviation (input) LINE_16_PIXCEL :: u32 where "LINE_16_PIXCEL \<equiv> 5"
abbreviation (input) LINE_20_PIXCEL :: u32 where "LINE_20_PIXCEL \<equiv> 6"
abbreviation (input) LINE_WITH_CIRCLE :: u32 where "LINE_WITH_CIRCLE \<equiv> 7"
abbreviation (input) RUBBER :: u32 where "RUBBER \<equiv> 8"

text \<open>The functions a button points to.\<close>

datatype draw_fn = Draw_Color | Draw_Clear | Draw_Shape
datatype command_fn = Select_Color | Select_Brush | Clear_Palette

record Touch_Button =
  start_x :: u16
  start_y :: u16
  end_x :: u16
  end_y :: u16
  para :: u32
  touch_flag :: u8
  draw_btn :: draw_fn
  btn_command :: command_fn

record Brush_Style =
  brush_color :: u32
  brush_shape :: u32

record palette_st = lcd_st +
  button :: "Touch_Button list"
  brush :: Brush_Style

section \<open>The buttons\<close>

text \<open>Colour buttons down the first column with the clear button below, brushes down the second with the rubber below.\<close>

definition init_buttons :: "u16 \<Rightarrow> Touch_Button list" where
  "init_buttons lcd_y =
     map (\<lambda>(i, c). \<lparr>start_x = BUTTON_START_X, start_y = COLOR_BLOCK_HEIGHT * of_nat i, end_x = BUTTON_START_X + COLOR_BLOCK_WIDTH,
         end_y = COLOR_BLOCK_HEIGHT * of_nat (i + 1), para = ucast (colour c), touch_flag = 0, draw_btn = Draw_Color, btn_command = Select_Color\<rparr>)
       [(0, ''CL_BLACK''), (1, ''CL_GREY''), (2, ''CL_BLUE''), (3, ''CL_CYAN''), (4, ''CL_RED''), (5, ''CL_MAGENTA''), (6, ''CL_GREEN'')] @
     [\<lparr>start_x = BUTTON_START_X, start_y = COLOR_BLOCK_HEIGHT * 7, end_x = BUTTON_START_X + COLOR_BLOCK_WIDTH, end_y = lcd_y,
       para = ucast (colour ''CL_BUTTON_GREY''), touch_flag = 0, draw_btn = Draw_Clear, btn_command = Clear_Palette\<rparr>] @
     map (\<lambda>(i, p). \<lparr>start_x = BUTTON_START_X + COLOR_BLOCK_WIDTH, start_y = COLOR_BLOCK_HEIGHT * of_nat i,
         end_x = BUTTON_START_X + COLOR_BLOCK_WIDTH * 2, end_y = COLOR_BLOCK_HEIGHT * of_nat (i + 1), para = p, touch_flag = 0,
         draw_btn = Draw_Shape, btn_command = Select_Brush\<rparr>)
       [(0, LINE_SINGLE_PIXCEL), (1, LINE_2_PIXCEL), (2, LINE_4_PIXCEL), (3, LINE_6_PIXCEL), (4, LINE_8_PIXCEL), (5, LINE_16_PIXCEL),
        (6, LINE_20_PIXCEL)] @
     [\<lparr>start_x = BUTTON_START_X + COLOR_BLOCK_WIDTH, start_y = COLOR_BLOCK_HEIGHT * 7, end_x = BUTTON_START_X + COLOR_BLOCK_WIDTH * 2,
       end_y = lcd_y, para = RUBBER, touch_flag = 0, draw_btn = Draw_Shape, btn_command = Select_Brush\<rparr>]"

definition Touch_Button_Init :: "('z palette_st_scheme, unit) state" where
  "Touch_Button_Init = modify (\<lambda>s. s\<lparr>button := init_buttons (LCD_Y_LENGTH s)\<rparr>)"

section \<open>Thick lines\<close>

text \<open>The variables of the loop: the point and the numerator, signed.\<close>

record uni_run =
  uni_x :: u16
  uni_y :: u16
  uni_num :: u16

text \<open>What is constant over the loop: the steps taken when the numerator overflows and those taken always.\<close>

record uni_par =
  xinc1 :: u16
  yinc1 :: u16
  xinc2 :: u16
  yinc2 :: u16
  uni_den :: u16
  numadd :: u16

definition uni_step :: "uni_par \<Rightarrow> uni_run \<Rightarrow> uni_run" where
  "uni_step p r =
     (let num = uni_num r + numadd p in
      if sint num \<ge> sint (uni_den p)
      then \<lparr>uni_x = uni_x r + xinc1 p + xinc2 p, uni_y = uni_y r + yinc1 p + yinc2 p, uni_num = num - uni_den p\<rparr>
      else \<lparr>uni_x = uni_x r + xinc2 p, uni_y = uni_y r + yinc2 p, uni_num = num\<rparr>)"

text \<open>Outside of the screen by the thickness: the round is skipped, and with it the step.\<close>

definition uni_out :: "u16 \<Rightarrow> u16 \<Rightarrow> u8 \<Rightarrow> uni_run \<Rightarrow> bool" where
  "uni_out xl yl thick r \<longleftrightarrow>
     sint (uni_x r) + uint thick > uint xl \<or> sint (uni_x r) - uint thick < 0 \<or>
     sint (uni_y r) + uint thick > uint yl \<or> sint (uni_y r) - uint thick < 0"

fun uni_loop :: "nat \<Rightarrow> uni_par \<Rightarrow> u16 \<Rightarrow> u8 \<Rightarrow> u16 \<Rightarrow> uni_run \<Rightarrow> ('z lcd_st_scheme, bool) state" where
  "uni_loop 0 p numpixels thick curpixel r = ret False"
| "uni_loop (Suc fuel) p numpixels thick curpixel r =
     (if sint curpixel \<le> sint numpixels
      then do {
        xl \<leftarrow> gets LCD_X_LENGTH;
        yl \<leftarrow> gets LCD_Y_LENGTH;
        if uni_out xl yl thick r then uni_loop fuel p numpixels thick (curpixel + 1) r
        else and_then (ILI9341_DrawCircle (Suc fuel) (uni_x r) (uni_y r) (ucast thick) 1)
          (uni_loop fuel p numpixels thick (curpixel + 1) (uni_step p r))
      }
      else ret True)"

definition LCD_DrawUniLineCircle :: "nat \<Rightarrow> u16 \<Rightarrow> u16 \<Rightarrow> u16 \<Rightarrow> u16 \<Rightarrow> u8 \<Rightarrow> ('z lcd_st_scheme, bool) state" where
  "LCD_DrawUniLineCircle fuel x1 y1 x2 y2 thick =
     (let deltax = (word_of_int \<bar>uint x2 - uint x1\<bar> :: u16);
          deltay = (word_of_int \<bar>uint y2 - uint y1\<bar> :: u16);
          xinc = (if x2 \<ge> x1 then 1 else - 1);
          yinc = (if y2 \<ge> y1 then 1 else - 1)
      in if sint deltax \<ge> sint deltay
         then uni_loop fuel \<lparr>xinc1 = 0, yinc1 = yinc, xinc2 = xinc, yinc2 = 0, uni_den = deltax, numadd = deltay\<rparr>
           deltax thick 0 \<lparr>uni_x = x1, uni_y = y1, uni_num = word_of_int (sint deltax sdiv 2)\<rparr>
         else uni_loop fuel \<lparr>xinc1 = xinc, yinc1 = 0, xinc2 = 0, yinc2 = yinc, uni_den = deltay, numadd = deltax\<rparr>
           deltay thick 0 \<lparr>uni_x = x1, uni_y = y1, uni_num = word_of_int (sint deltay sdiv 2)\<rparr>)"

section \<open>Drawing the buttons\<close>

definition white :: u16 where "white = colour ''CL_WHITE''"

text \<open>The rectangle of a button, filled or its border.\<close>

definition button_box :: "nat \<Rightarrow> Touch_Button \<Rightarrow> u8 \<Rightarrow> ('z lcd_st_scheme, bool) state" where
  "button_box fuel b filled = ILI9341_DrawRectangle fuel (start_x b) (start_y b) (end_x b - start_x b) (end_y b - start_y b) filled"

definition set_colors :: "u16 \<Rightarrow> u16 \<Rightarrow> ('z lcd_st_scheme, bool) state" where
  "set_colors t b = always (Lcd.LCD_SetColors t b)"

definition Draw_Color_Button :: "nat \<Rightarrow> Touch_Button \<Rightarrow> ('z lcd_st_scheme, bool) state" where
  "Draw_Color_Button fuel b = all_of [
     (if touch_flag b = 0 then all_of [set_colors (ucast (para b)) white, button_box fuel b 1]
      else all_of [set_colors white white, button_box fuel b 1]),
     set_colors (colour ''CL_BLUE4'') white, button_box fuel b 0]"

text \<open>The label of a button, at an offset from its corner; the offsets are computed as \<open>int\<close>.\<close>

definition button_label :: "(lcd_font \<Rightarrow> nat \<Rightarrow> u8) \<Rightarrow> Touch_Button \<Rightarrow> int \<Rightarrow> int \<Rightarrow> string \<Rightarrow> ('z lcd_st_scheme, bool) state" where
  "button_label F b dx dy msg = always (do {
     Lcd.LCD_SetFont (font_of F Font8x16);
     Lcd.ILI9341_DispString_EN (word_of_int (uint (start_x b) + dx)) (word_of_int (uint (start_y b) + dy)) (chars msg)
   })"

definition Draw_Clear_Button :: "(lcd_font \<Rightarrow> nat \<Rightarrow> u8) \<Rightarrow> nat \<Rightarrow> Touch_Button \<Rightarrow> ('z lcd_st_scheme, bool) state" where
  "Draw_Clear_Button F fuel b =
     (let label = button_label F b ((uint (end_x b) - uint (start_x b) - 16 * 2) sdiv 2) ((uint (end_y b) - uint (start_y b) - 16) sdiv 2) ''CLR''
      in all_of [
        (if touch_flag b = 0
         then all_of [set_colors (colour ''CL_BUTTON_GREY'') white, button_box fuel b 1,
           set_colors (colour ''CL_RED'') (colour ''CL_BUTTON_GREY''), label]
         else all_of [set_colors white white, button_box fuel b 1, set_colors (colour ''CL_RED'') white, label]),
        set_colors (colour ''CL_BLUE4'') white, button_box fuel b 0])"

text \<open>The thickness, as a radius, of the lines drawn with discs.\<close>

definition thickness :: "u32 \<Rightarrow> u8 option" where
  "thickness shape =
     (if shape = LINE_2_PIXCEL then Some 1 else if shape = LINE_4_PIXCEL then Some 2 else if shape = LINE_6_PIXCEL then Some 3
      else if shape = LINE_8_PIXCEL then Some 4 else if shape = LINE_16_PIXCEL then Some 8 else if shape = LINE_20_PIXCEL then Some 10
      else None)"

definition Draw_Shape_Button :: "(lcd_font \<Rightarrow> nat \<Rightarrow> u8) \<Rightarrow> nat \<Rightarrow> Touch_Button \<Rightarrow> ('z lcd_st_scheme, bool) state" where
  "Draw_Shape_Button F fuel b =
     (let w = uint (end_x b) - uint (start_x b); h = uint (end_y b) - uint (start_y b); black = colour ''CL_BLACK'';
          mid = (word_of_int (uint (start_y b) + h sdiv 2) :: u16)
      in all_of [
        (if touch_flag b = 0
         then all_of [set_colors (colour ''CL_BUTTON_GREY'') white, button_box fuel b 1,
           set_colors (colour ''CL_BLUE4'') (colour ''CL_BUTTON_GREY''), button_box fuel b 0]
         else all_of [set_colors white white, button_box fuel b 1, set_colors (colour ''CL_BLUE4'') white, button_box fuel b 0]),
        set_colors black white,
        (if para b = LINE_SINGLE_PIXCEL
         then all_of [set_colors black white, ILI9341_DrawLine fuel (start_x b + 20) mid (end_x b - 20) mid]
         else if para b = LINE_WITH_CIRCLE
         then all_of (set_colors black white # ILI9341_DrawLine fuel (start_x b + 5) mid (end_x b - 5) mid #
           map (\<lambda>i. ILI9341_DrawCircle fuel (start_x b + 5 + of_nat i * 10) mid 3 1) [0..<nat ((w - 10) sdiv 10)])
         else if para b = RUBBER
         then all_of [set_colors white black,
           ILI9341_DrawRectangle fuel (word_of_int (uint (start_x b) + (w - 24) sdiv 2)) (word_of_int (uint (start_y b) + (h - 24 - 16) sdiv 2)) 24 24 1,
           set_colors (colour ''CL_RED'') (colour ''CL_BUTTON_GREY''),
           button_label F b ((w - 16 * 2) sdiv 2) ((h - 24 - 16) sdiv 2 + 24) ''ERS'']
         else case thickness (para b) of
           Some thick \<Rightarrow> LCD_DrawUniLineCircle fuel (start_x b + 20) mid (end_x b - 20) mid thick
         | None \<Rightarrow> ret True)])"

definition draw_button :: "(lcd_font \<Rightarrow> nat \<Rightarrow> u8) \<Rightarrow> nat \<Rightarrow> Touch_Button \<Rightarrow> ('z lcd_st_scheme, bool) state" where
  "draw_button F fuel b =
     (case draw_btn b of
        Draw_Color \<Rightarrow> Draw_Color_Button fuel b
      | Draw_Clear \<Rightarrow> Draw_Clear_Button F fuel b
      | Draw_Shape \<Rightarrow> Draw_Shape_Button F fuel b)"

section \<open>Their commands\<close>

definition Command_Select_Color :: "Touch_Button \<Rightarrow> ('z palette_st_scheme, bool) state" where
  "Command_Select_Color b = always (do {
     modify (\<lambda>s. s\<lparr>brush := (brush s)\<lparr>brush_color := para b\<rparr>\<rparr>);
     c \<leftarrow> gets (\<lambda>s. brush_color (brush s));
     Lcd.LCD_SetColors (ucast c) white;
     sh \<leftarrow> gets (\<lambda>s. brush_shape (brush s));
     when_true (sh = RUBBER) (modify (\<lambda>s. s\<lparr>brush := (brush s)\<lparr>brush_shape := LINE_SINGLE_PIXCEL\<rparr>\<rparr>))
   })"

definition Command_Select_Brush :: "Touch_Button \<Rightarrow> ('z palette_st_scheme, bool) state" where
  "Command_Select_Brush b = always (do {
     modify (\<lambda>s. s\<lparr>brush := (brush s)\<lparr>brush_shape := para b\<rparr>\<rparr>);
     c \<leftarrow> gets (\<lambda>s. brush_color (brush s));
     Lcd.LCD_SetColors (ucast c) white
   })"

definition Command_Clear_Palette :: "nat \<Rightarrow> ('z lcd_st_scheme, bool) state" where
  "Command_Clear_Palette fuel = and_then (set_colors white white) (do {
     xl \<leftarrow> gets LCD_X_LENGTH;
     yl \<leftarrow> gets LCD_Y_LENGTH;
     ILI9341_DrawRectangle fuel (word_of_int PALETTE_START_X) (word_of_int PALETTE_START_Y) (word_of_int (uint xl - (PALETTE_START_X + 1)))
       (word_of_int (uint yl - PALETTE_START_Y)) 1
   })"

definition run_command :: "nat \<Rightarrow> Touch_Button \<Rightarrow> ('z palette_st_scheme, bool) state" where
  "run_command fuel b =
     (case btn_command b of
        Select_Color \<Rightarrow> Command_Select_Color b
      | Select_Brush \<Rightarrow> Command_Select_Brush b
      | Clear_Palette \<Rightarrow> Command_Clear_Palette fuel)"

section \<open>Touches\<close>

definition set_flag :: "nat \<Rightarrow> u8 \<Rightarrow> ('z palette_st_scheme, bool) state" where
  "set_flag i v = always (modify (\<lambda>s. s\<lparr>button := (button s)[i := (button s ! i)\<lparr>touch_flag := v\<rparr>]\<rparr>))"

definition redraw :: "(lcd_font \<Rightarrow> nat \<Rightarrow> u8) \<Rightarrow> nat \<Rightarrow> nat \<Rightarrow> ('z palette_st_scheme, bool) state" where
  "redraw F fuel i = do { b \<leftarrow> gets (\<lambda>s. button s ! i); draw_button F fuel b }"

definition touches :: "u16 \<Rightarrow> u16 \<Rightarrow> Touch_Button \<Rightarrow> bool" where
  "touches x y b \<longleftrightarrow> x \<le> end_x b \<and> y \<le> end_y b \<and> y \<ge> start_y b \<and> x \<ge> start_x b"

definition button_down :: "(lcd_font \<Rightarrow> nat \<Rightarrow> u8) \<Rightarrow> nat \<Rightarrow> u16 \<Rightarrow> u16 \<Rightarrow> nat \<Rightarrow> ('z palette_st_scheme, bool) state" where
  "button_down F fuel x y i = do {
     b \<leftarrow> gets (\<lambda>s. button s ! i);
     if touches x y b
     then (if touch_flag b = 0 then and_then (set_flag i 1) (redraw F fuel i) else ret True)
     else if touch_flag b = 1 then and_then (set_flag i 0) (redraw F fuel i)
     else ret True
   }"

definition Touch_Button_Down :: "(lcd_font \<Rightarrow> nat \<Rightarrow> u8) \<Rightarrow> nat \<Rightarrow> u16 \<Rightarrow> u16 \<Rightarrow> ('z palette_st_scheme, bool) state" where
  "Touch_Button_Down F fuel x y = all_of (map (button_down F fuel x y) [0..<BUTTON_NUM])"

definition in_button :: "u16 \<Rightarrow> u16 \<Rightarrow> Touch_Button \<Rightarrow> bool" where
  "in_button x y b \<longleftrightarrow> x < end_x b \<and> x > start_x b \<and> y < end_y b \<and> y > start_y b"

fun up_loop :: "(lcd_font \<Rightarrow> nat \<Rightarrow> u8) \<Rightarrow> nat \<Rightarrow> u16 \<Rightarrow> u16 \<Rightarrow> nat list \<Rightarrow> ('z palette_st_scheme, bool) state" where
  "up_loop F fuel x y [] = ret True"
| "up_loop F fuel x y (i # is) = do {
     b \<leftarrow> gets (\<lambda>s. button s ! i);
     if in_button x y b
     then and_then (set_flag i 0) (and_then (redraw F fuel i) (do { b \<leftarrow> gets (\<lambda>s. button s ! i); run_command fuel b }))
     else up_loop F fuel x y is
   }"

definition Touch_Button_Up :: "(lcd_font \<Rightarrow> nat \<Rightarrow> u8) \<Rightarrow> nat \<Rightarrow> u16 \<Rightarrow> u16 \<Rightarrow> ('z palette_st_scheme, bool) state" where
  "Touch_Button_Up F fuel x y = up_loop F fuel x y [0..<BUTTON_NUM]"

text \<open>A trail from the last point to the new one, by the shape of the brush.\<close>

definition Draw_Trail :: "nat \<Rightarrow> u16 \<Rightarrow> u16 \<Rightarrow> u16 \<Rightarrow> u16 \<Rightarrow> Brush_Style \<Rightarrow> ('z lcd_st_scheme, bool) state" where
  "Draw_Trail fuel pre_x pre_y x y br =
     (if sint x > PALETTE_START_X \<and> sint pre_x > PALETTE_START_X
      then (
        if brush_shape br = LINE_SINGLE_PIXCEL
        then (if sint pre_x < 0 \<or> sint pre_y < 0 then always (Lcd.ILI9341_SetPointPixel x y) else ILI9341_DrawLine fuel pre_x pre_y x y)
        else if brush_shape br = LINE_WITH_CIRCLE
        then (if sint x - 3 < PALETTE_START_X \<or> sint pre_x - 3 < PALETTE_START_X then ret True
          else if sint pre_x < 0 \<or> sint pre_y < 0 then always (Lcd.ILI9341_SetPointPixel x y)
          else and_then (ILI9341_DrawLine fuel pre_x pre_y x y) (ILI9341_DrawCircle fuel x y 3 1))
        else if brush_shape br = RUBBER
        then do {
          xl \<leftarrow> gets LCD_X_LENGTH;
          yl \<leftarrow> gets LCD_Y_LENGTH;
          if sint x - 20 < PALETTE_START_X \<or> sint x + 20 > uint xl \<or> sint x - 20 < 0 \<or> sint y + 20 > uint yl \<or> sint y - 20 < 0 then ret True
          else and_then (set_colors white white) (ILI9341_DrawRectangle fuel (x - 20) (y - 20) 40 40 1)
        }
        else case thickness (brush_shape br) of
          Some thick \<Rightarrow>
            (if sint x - uint thick < PALETTE_START_X \<or> sint pre_x - uint thick < PALETTE_START_X then ret True
             else LCD_DrawUniLineCircle fuel pre_x pre_y x y thick)
        | None \<Rightarrow> ret True)
      else ret True)"

definition Palette_Init :: "(lcd_font \<Rightarrow> nat \<Rightarrow> u8) \<Rightarrow> nat \<Rightarrow> u8 \<Rightarrow> ('z palette_st_scheme, bool) state" where
  "Palette_Init F fuel LCD_Mode = all_of (
     [always (do { Lcd.ILI9341_GramScan LCD_Mode; Lcd.LCD_SetBackColor white; clear_from 0; Touch_Button_Init })] @
     map (redraw F fuel) [0..<BUTTON_NUM] @
     [always (do {
       modify (\<lambda>s. s\<lparr>brush := \<lparr>brush_color = ucast (colour ''CL_BLACK''), brush_shape = LINE_SINGLE_PIXCEL\<rparr>\<rparr>);
       c \<leftarrow> gets (\<lambda>s. brush_color (brush s));
       Lcd.LCD_SetTextColor (ucast c)
     })])"

end
