(* ===== verification/Palette_Buttons.thy ===== *)
theory Palette_Buttons
  imports Palette
begin

text \<open>
  The buttons of the drawing board: which button a point belongs to, which buttons a touch marks,
  and what releasing a button does, with what the clear button paints. Redrawing a button always returns and leaves the variables of the drawing board alone.
\<close>

section \<open>The display driver leaves the drawing board alone\<close>

lemma keeps_and_then [keep_intros]: "keeps f m \<Longrightarrow> keeps f k \<Longrightarrow> keeps f (and_then m k)"
  unfolding and_then_def by (intro keep_intros)

lemma keeps_always [keep_intros]: "keeps f m \<Longrightarrow> keeps f (always m)"
  unfolding always_def by (intro keep_intros)

lemma keeps_all_of: "(\<And>m. m \<in> set ms \<Longrightarrow> keeps f m) \<Longrightarrow> keeps f (all_of ms)"
proof (induction ms)
  case Nil
  then show ?case by (simp add: all_of_def keep_intros)
next
  case (Cons m ms)
  then have "keeps f m" "keeps f (all_of ms)" by simp_all
  then show ?case unfolding all_of_def by (simp add: keeps_and_then)
qed

lemma keeps_all_of_simps [keep_intros]: "keeps f (all_of [])"
  "keeps f m \<Longrightarrow> keeps f (all_of ms) \<Longrightarrow> keeps f (all_of (m # ms))"
  by (simp_all add: all_of_def keep_intros)

text \<open>The variables that drawing leaves alone: the scan mode, and what the state has beyond the driver's variables.\<close>

definition kept :: "'z lcd_st_scheme \<Rightarrow> u16 \<times> u16 \<times> u8 \<times> 'z" where
  "kept s = (LCD_X_LENGTH s, LCD_Y_LENGTH s, LCD_SCAN_MODE s, lcd_st.more s)"

lemma keeps_port [keep_intros]: "keeps kept (put e)" "keeps kept (Lcd.LCD_SetColors a b)"
  "keeps kept (Lcd.LCD_SetFont f)" "keeps kept (Lcd.LCD_SetBackColor c)" "keeps kept (Lcd.LCD_SetTextColor c)"
  by (simp_all add: keeps_def kept_def put_def Lcd.LCD_SetColors_def Lcd.LCD_SetFont_def Lcd.LCD_SetBackColor_def Lcd.LCD_SetTextColor_def)

lemma keeps_window [keep_intros]: "keeps kept (Lcd.ILI9341_OpenWindow x y w h)"
  "keeps kept (Lcd.ILI9341_FillColor n c)" "keeps kept (Lcd.ILI9341_SetPointPixel x y)"
  "keeps kept (Lcd.ILI9341_Write_Cmd c)" "keeps kept (Lcd.ILI9341_Write_Data d)"
  unfolding Lcd.ILI9341_OpenWindow_def Lcd.ILI9341_FillColor_def Lcd.ILI9341_SetPointPixel_def Lcd.ILI9341_SetCursor_def
    Lcd.ILI9341_Write_Cmd_def Lcd.ILI9341_Write_Data_def
  by (intro keep_intros)+

lemma keeps_char [keep_intros]: "keeps kept (Lcd.ILI9341_DispChar_EN x y c)"
  unfolding Lcd.ILI9341_DispChar_EN_def by (intro keep_intros)

lemma keeps_string [keep_intros]: "keeps kept (Lcd.ILI9341_DispString_EN x y cs)"
  unfolding Lcd.ILI9341_DispString_EN_def
  by (induction cs arbitrary: x y) (auto intro!: keep_intros simp: Let_def split: prod.split)

lemma keeps_line [keep_intros]: "keeps kept (ILI9341_DrawLine fuel x1 y1 x2 y2)"
proof -
  have "keeps kept (line_loop fuel dx dy md ix iy l)" for dx dy md ix iy l
    by (induction fuel arbitrary: l) (auto intro!: keep_intros)
  then show ?thesis unfolding DrawLine_loop .
qed

lemma keeps_rectangle [keep_intros]: "keeps kept (ILI9341_DrawRectangle fuel x y w h filled)"
  unfolding ILI9341_DrawRectangle_def by (intro keep_intros)

lemma keeps_circle [keep_intros]: "keeps kept (ILI9341_DrawCircle fuel x y r filled)"
proof -
  have points: "keeps kept (eight_points xc yc a b)" for xc yc a b unfolding eight_points_def by (intro keep_intros)
  have fill: "keeps kept (fill_loop n xc yc a b c)" for n xc yc a b c
    by (induction n arbitrary: c) (auto intro!: keep_intros points)
  have "keeps kept (circle_loop fuel xc yc b v)" for xc yc b v
  proof (induction fuel arbitrary: v)
    case (Suc fuel)
    obtain a c e where "v = (a, c, e)" by (cases v)
    then show ?case by (simp only: circle_loop.simps) (intro keep_intros points fill Suc.IH)
  qed (cases v, simp add: keep_intros)
  then show ?thesis unfolding ILI9341_DrawCircle_def .
qed

lemma keeps_thick_line [keep_intros]: "keeps kept (LCD_DrawUniLineCircle fuel x1 y1 x2 y2 thick)"
proof -
  have "keeps kept (uni_loop fuel p n thick c r)" for p n c r
    by (induction fuel arbitrary: c r) (auto intro!: keep_intros)
  then show ?thesis unfolding LCD_DrawUniLineCircle_def Let_def by (intro keep_intros)
qed

lemma keeps_set_colors [keep_intros]: "keeps kept (set_colors a b)" "keeps kept (button_box fuel b' filled)"
  "keeps kept (button_label F b' dx dy msg)"
  unfolding set_colors_def button_box_def button_label_def by (intro keep_intros)+

lemma keeps_draw_button: "keeps kept (draw_button F fuel b)"
proof -
  have "keeps kept (Draw_Color_Button fuel b)" unfolding Draw_Color_Button_def by (intro keep_intros)
  moreover have "keeps kept (Draw_Clear_Button F fuel b)" unfolding Draw_Clear_Button_def Let_def by (intro keep_intros)
  moreover have "keeps kept (Draw_Shape_Button F fuel b)" unfolding Draw_Shape_Button_def Let_def
    by (intro keep_intros keeps_all_of) (auto intro!: keep_intros)
  ultimately show ?thesis unfolding draw_button_def by (cases "draw_btn b") simp_all
qed

lemma keeps_trail: "keeps kept (Draw_Trail fuel px py x y br)"
  unfolding Draw_Trail_def by (intro keep_intros)

section \<open>Drawing a button returns\<close>

lemma ends_set_colors [end_intros]: "ends (set_colors a b)" "ends (button_label F b' dx dy msg)"
  unfolding set_colors_def button_label_def by (intro end_intros)+

lemma ends_if [end_intros]: "(c \<Longrightarrow> ends m) \<Longrightarrow> (\<not> c \<Longrightarrow> ends k) \<Longrightarrow> ends (if c then m else k)"
  by simp

lemma ends_ret [end_intros]: "ends (ret True)"
  by (simp add: ends_def)

lemma ends_gets [end_intros]: "(\<And>v. ends (k v)) \<Longrightarrow> ends (gets h \<bind> k)"
  by (simp add: ends_def)

lemma ends_disc: "uint radius \<le> 8000 \<Longrightarrow> uint radius + 2 < int fuel \<Longrightarrow> ends (ILI9341_DrawCircle fuel x y radius filled)"
  by (rule ends_results, rule exI, rule results_circle)

lemma sint_next: "sint c < 32767 \<Longrightarrow> sint (c + 1) = sint c + 1" for c :: u16
proof -
  assume "sint c < 32767"
  moreover have "- 32768 \<le> sint c" using sint_ge [of c] by simp
  moreover have "c + 1 = word_of_int (sint c + 1)" by simp
  ultimately show ?thesis by (simp only: sint_16)
qed

lemma uint_thick: "uint (ucast thick :: u16) = uint thick" for thick :: u8
  by (simp add: uint_up_ucast is_up)

lemma ends_uni_loop:
  assumes "sint n < 32767" and "max (sint n - sint c + 1) 0 + 300 < int fuel" and "0 \<le> sint c"
  shows "ends (uni_loop fuel p n thick c r :: ('z lcd_st_scheme, bool) state)"
  using assms(2,3)
proof (induction fuel arbitrary: c r)
  case (Suc fuel)
  show ?case
  proof (cases "sint c \<le> sint n")
    case True
    then have s: "sint (c + 1) = sint c + 1" using assms(1) by (intro sint_next) simp
    then have rest: "ends (uni_loop fuel p n thick (c + 1) r :: ('z lcd_st_scheme, bool) state)" for r using Suc.prems True by (intro Suc.IH) simp_all
    have "uint thick < 256" using uint_lt2p [of thick] by simp
    then have disc: "ends (ILI9341_DrawCircle (Suc fuel) x y (ucast thick) 1 :: ('z lcd_st_scheme, bool) state)" for x y
      using Suc.prems True by (intro ends_disc) (simp_all add: uint_thick)
    then show ?thesis unfolding uni_loop.simps by (intro ends_gets ends_if ends_then ends_ret disc rest)
  next
    case False
    then show ?thesis by (simp add: end_intros)
  qed
qed simp

text \<open>The buttons of the drawing board are 40 pixels wide and lie at the left of the screen.\<close>

definition good_button :: "Touch_Button \<Rightarrow> bool" where
  "good_button b \<longleftrightarrow> end_x b = start_x b + 40 \<and> uint (start_x b) \<le> 40 \<and> uint (start_y b) < uint (end_y b) \<and> uint (end_y b) \<le> 320"

lemma ends_all_of [end_intros]: "ends (all_of [])" "ends m \<Longrightarrow> ends (all_of ms) \<Longrightarrow> ends (all_of (m # ms))"
  unfolding all_of_def by (simp_all add: ends_def and_then_def split_beta)

lemma uint_shift: "uint x \<le> 40 \<Longrightarrow> 0 \<le> k \<Longrightarrow> k \<le> 40 \<Longrightarrow> uint (x + word_of_int k) = uint x + k" for x :: u16
proof -
  assume k: "uint x \<le> 40" "0 \<le> k" "k \<le> 40"
  have m: "x + word_of_int k = word_of_int (uint x + k)" by simp
  have "0 \<le> uint x" by simp
  then show ?thesis unfolding m unsigned_of_int using k by (simp add: take_bit_int_eq_self_iff)
qed

lemma good_size:
  assumes "good_button b"
  shows "uint (end_x b) = uint (start_x b) + 40" "uint (end_x b - start_x b) = 40"
    "uint (end_y b - start_y b) = uint (end_y b) - uint (start_y b)"
  using assms uint_shift [of "start_x b" 40] by (simp_all add: good_button_def uint_minus_simple_alt [THEN iffD1] word_le_def)

lemma ends_box [end_intros]:
  assumes "good_button b" and "65536 \<le> fuel"
  shows "ends (button_box fuel b 0)" "ends (button_box fuel b 1)"
proof -
  note s = good_size [OF assms(1)]
  have "uint (start_x b) \<le> 40" "uint (start_y b) < uint (end_y b)" "uint (end_y b) \<le> 320" using assms(1) by (simp_all add: good_button_def)
  moreover have "0 \<le> uint (start_y b)" by simp
  ultimately show "ends (button_box fuel b 0)" unfolding button_box_def using s assms(2) by (intro ends_hollow) linarith+
  show "ends (button_box fuel b 1)" unfolding button_box_def by (rule ends_filled)
qed

lemma ends_thick_point: "uint x \<le> 40 \<Longrightarrow> 65536 \<le> fuel \<Longrightarrow> ends (LCD_DrawUniLineCircle fuel a m a m thick)"
  unfolding LCD_DrawUniLineCircle_def Let_def by (simp add: ends_uni_loop)

lemma ends_draw_button:
  assumes "good_button b" and "65536 \<le> fuel"
  shows "ends (draw_button F fuel b)"
proof -
  note box = ends_box [OF assms]
  have x: "end_x b - 20 = start_x b + 20" "end_x b - 5 = start_x b + 35" "uint (start_x b + 5) = uint (start_x b) + 5"
    "uint (start_x b + 35) = uint (start_x b) + 35"
    using assms(1) uint_shift [of "start_x b" 5] uint_shift [of "start_x b" 35] by (simp_all add: good_button_def add.commute)
  have line: "ends (ILI9341_DrawLine fuel (start_x b + 20) m (end_x b - 20) m)" "ends (ILI9341_DrawLine fuel (start_x b + 5) m (end_x b - 5) m)" for m
    using assms(2) by (intro ends_line; simp add: x line_length_def)+
  have thick: "ends (LCD_DrawUniLineCircle fuel (start_x b + 20) m (end_x b - 20) m th)" for m th
    unfolding x using assms(2) by (intro ends_thick_point [of 0]) simp_all
  have disc: "ends (ILI9341_DrawCircle fuel u m 3 1)" for u m using assms(2) by (intro ends_disc) simp_all
  have rect: "ends (ILI9341_DrawRectangle fuel u v w h 1)" for u v w h by (rule ends_filled)
  have "ends (Draw_Color_Button fuel b)" unfolding Draw_Color_Button_def by (auto intro!: end_intros box)
  moreover have "ends (Draw_Clear_Button F fuel b)" unfolding Draw_Clear_Button_def Let_def by (auto intro!: end_intros box)
  moreover have "ends (Draw_Shape_Button F fuel b)" unfolding Draw_Shape_Button_def Let_def
    by (auto intro!: end_intros box line thick rect ends_all disc split: option.split)
  ultimately show ?thesis unfolding draw_button_def by (cases "draw_btn b") simp_all
qed

section \<open>The board\<close>

text \<open>The buttons as initialised, but for the flags.\<close>

definition board :: "u16 \<Rightarrow> Touch_Button list \<Rightarrow> bool" where
  "board yl bs \<longleftrightarrow> map (\<lambda>b. b\<lparr>touch_flag := 0\<rparr>) bs = init_buttons yl"

lemma length_init: "length (init_buttons yl) = 16"
  by (simp add: init_buttons_def)

lemma board_length: "board yl bs \<Longrightarrow> length bs = 16"
  using length_init [of yl] unfolding board_def by (metis length_map)

lemma board_nth: "board yl bs \<Longrightarrow> i < 16 \<Longrightarrow> (bs ! i)\<lparr>touch_flag := 0\<rparr> = init_buttons yl ! i"
  using board_length [of yl bs] unfolding board_def by (metis nth_map)

lemma board_flag: "board yl bs \<Longrightarrow> i < 16 \<Longrightarrow> board yl (bs[i := (bs ! i)\<lparr>touch_flag := v\<rparr>])"
  using board_nth [of yl bs i] unfolding board_def by (simp add: map_update)

text \<open>Flags matter neither to where a button is nor to what it does.\<close>

lemma same_place:
  "in_button x y (b\<lparr>touch_flag := v\<rparr>) = in_button x y b" "touches x y (b\<lparr>touch_flag := v\<rparr>) = touches x y b"
  "good_button (b\<lparr>touch_flag := v\<rparr>) = good_button b" "para (b\<lparr>touch_flag := v\<rparr>) = para b"
  "btn_command (b\<lparr>touch_flag := v\<rparr>) = btn_command b"
  by (simp_all add: in_button_def touches_def good_button_def)

lemma sixteen: "i < 16 \<Longrightarrow> i \<in> {0, 1, 2, 3, 4, 5, 6, 7, 8, 9, 10, 11, 12, 13, 14, 15}" for i :: nat
  unfolding insert_iff empty_iff by presburger

lemma init_nth: "i < 16 \<Longrightarrow> start_x (init_buttons yl ! i) = of_nat (40 * (i div 8)) \<and> end_x (init_buttons yl ! i) = of_nat (40 * (i div 8) + 40) \<and>
    start_y (init_buttons yl ! i) = of_nat (28 * (i mod 8)) \<and>
    end_y (init_buttons yl ! i) = (if i mod 8 = 7 then yl else of_nat (28 * (i mod 8) + 28)) \<and> touch_flag (init_buttons yl ! i) = 0"
  by (drule sixteen) (elim insertE emptyE; simp add: init_buttons_def)

lemma board_good:
  assumes "board yl bs" "i < 16" "197 \<le> uint yl" "uint yl \<le> 320"
  shows "good_button (bs ! i)"
proof -
  have "good_button (init_buttons yl ! i)" using sixteen [OF assms(2)] assms(3,4)
    by (elim insertE emptyE) (simp_all add: init_buttons_def good_button_def)
  then show ?thesis unfolding board_nth [OF assms(1,2), symmetric] by (simp only: same_place)
qed

text \<open>Which button a point is inside of, if any: the lines between buttons belong to none.\<close>

definition cell :: "u16 \<Rightarrow> u16 \<Rightarrow> u16 \<Rightarrow> nat option" where
  "cell yl x y =
     (if unat x < 80 \<and> unat x mod 40 \<noteq> 0 \<and> unat y < unat yl \<and> (unat y mod 28 \<noteq> 0 \<or> 196 < unat y)
      then Some (8 * (unat x div 40) + min 7 (unat y div 28)) else None)"

lemma strip: "0 < d \<Longrightarrow> d * c < i \<and> i < d * c + d \<longleftrightarrow> i mod d \<noteq> 0 \<and> i div d = c" for d i c :: nat
proof
  assume i: "d * c < i \<and> i < d * c + d"
  then have "i div d = c" by (intro div_nat_eqI) simp_all
  moreover have "i = d * (i div d) + i mod d" by simp
  ultimately show "i mod d \<noteq> 0 \<and> i div d = c" using i by auto
next
  assume "0 < d" and i: "i mod d \<noteq> 0 \<and> i div d = c"
  moreover have "i = d * c + i mod d" using i by auto
  ultimately show "d * c < i \<and> i < d * c + d" using mod_less_divisor [of d i] by linarith
qed

lemma digits: "a < 8 \<Longrightarrow> b < 8 \<Longrightarrow> 8 * m + a = 8 * n + b \<longleftrightarrow> m = n \<and> a = b" for a b m n :: nat
  by presburger

lemma in_button_cell:
  assumes "n < 16" and "197 \<le> unat yl"
  shows "in_button x y (init_buttons yl ! n) \<longleftrightarrow> cell yl x y = Some n"
proof -
  define c r i j where "c = n div 8" and "r = n mod 8" and "i = unat x" and "j = unat y"
  have n: "n = 8 * c + r" "r < 8" "c < 2" using assms(1) by (simp_all add: c_def r_def)
  have u: "unat (of_nat m :: u16) = m" if "m \<le> 320" for m using that by (simp add: unsigned_of_nat take_bit_nat_eq_self)
  have "in_button x y (init_buttons yl ! n) \<longleftrightarrow> (40 * c < i \<and> i < 40 * c + 40) \<and> 28 * r < j \<and> j < (if r = 7 then unat yl else 28 * r + 28)"
    using init_nth [OF assms(1), of yl] n u [of "40 * c"] u [of "40 * c + 40"] u [of "28 * r"] u [of "28 * r + 28"]
    unfolding in_button_def word_less_nat_alt c_def [symmetric] r_def [symmetric] i_def j_def
    by (simp only: split: if_split) auto
  also have "\<dots> \<longleftrightarrow> (i mod 40 \<noteq> 0 \<and> i div 40 = c) \<and> j < unat yl \<and> (j mod 28 \<noteq> 0 \<or> 196 < j) \<and> min 7 (j div 28) = r"
  proof (cases "r = 7")
    case True
    have "7 \<le> j div 28 \<longleftrightarrow> 196 \<le> j" by (simp add: less_eq_div_iff_mult_less_eq)
    moreover have "j = 196 \<Longrightarrow> j mod 28 = 0" by simp
    ultimately show ?thesis unfolding strip [of 40, simplified] using True by (auto simp: min_def le_less)
  next
    case False
    then have "28 * r < j \<and> j < 28 * r + 28 \<longleftrightarrow> (j mod 28 \<noteq> 0 \<and> j div 28 = r)" by (intro strip) simp
    moreover have "j div 28 = r \<Longrightarrow> j < 196" using False n(2) by (simp add: div_less_iff_less_mult)
    ultimately show ?thesis unfolding strip [of 40, simplified] using False n(2) assms(2) by (auto simp: min_def)
  qed
  also have "\<dots> \<longleftrightarrow> cell yl x y = Some n"
  proof -
    have "8 * (i div 40) + min 7 (j div 28) = 8 * c + r \<longleftrightarrow> i div 40 = c \<and> min 7 (j div 28) = r" using n(2) by (intro digits) simp_all
    moreover have "i div 40 = c \<Longrightarrow> i < 80" using n(3) by (simp add: div_less_iff_less_mult [of 40 i 2, simplified, symmetric])
    ultimately show ?thesis unfolding cell_def i_def [symmetric] j_def [symmetric] n(1) by auto
  qed
  finally show ?thesis .
qed

lemma find_cell: "(\<And>i. i < n \<Longrightarrow> P i \<longleftrightarrow> c = Some i) \<Longrightarrow> (\<And>i. c = Some i \<Longrightarrow> i < n) \<Longrightarrow> find P [0..<n] = c"
  by (cases c) (auto simp: find_None_iff find_Some_iff)

lemma cell_less: "cell yl x y = Some i \<Longrightarrow> i < 16"
proof -
  assume "cell yl x y = Some i"
  then have "unat x div 40 < 2" "i = 8 * (unat x div 40) + min 7 (unat y div 28)"
    by (auto simp: cell_def less_mult_imp_div_less split: if_splits)
  then show "i < 16" by simp
qed

lemma find_button:
  assumes "board yl bs" and "197 \<le> unat yl"
  shows "find (\<lambda>i. in_button x y (bs ! i)) [0..<16] = cell yl x y"
proof (rule find_cell)
  fix i :: nat
  assume "i < 16"
  then show "in_button x y (bs ! i) \<longleftrightarrow> cell yl x y = Some i"
    using in_button_cell [OF _ assms(2), of i x y] board_nth [OF assms(1), of i] same_place(1) [of x y 0 "bs ! i"] by simp
qed (rule cell_less)

section \<open>Releasing a button\<close>

lemma more_fields: "kept s = kept t \<Longrightarrow> button s = button t \<and> brush s = brush t"
  for s t :: "'z palette_st_scheme"
  by (cases s; cases t) (simp add: kept_def)

lemma keeps_button: "keeps kept m \<Longrightarrow> keeps button m" "keeps kept m \<Longrightarrow> keeps brush m"
  for m :: "('z palette_st_scheme, 'a) state"
  using more_fields unfolding keeps_def by blast+

lemma run_redraw:
  fixes s :: "'z palette_st_scheme"
  assumes "good_button (button s ! i)" and "65536 \<le> fuel"
  shows "\<exists>t. run_state (redraw F fuel i) s = (True, t) \<and> button t = button s \<and> brush t = brush s \<and>
    LCD_X_LENGTH t = LCD_X_LENGTH s \<and> LCD_Y_LENGTH t = LCD_Y_LENGTH s"
proof -
  obtain v t where run: "run_state (draw_button F fuel (button s ! i)) s = (v, t)" by (metis prod.exhaust)
  have "fst (run_state (draw_button F fuel (button s ! i)) s) = True" using ends_draw_button [OF assms] unfolding ends_def by blast
  moreover have "kept t = kept s" by (rule keepsD [OF keeps_draw_button run])
  moreover have "LCD_X_LENGTH t = LCD_X_LENGTH s" "LCD_Y_LENGTH t = LCD_Y_LENGTH s" using \<open>kept t = kept s\<close> by (simp_all add: kept_def)
  ultimately show ?thesis using run more_fields [of t s] by (simp add: redraw_def)
qed

lemma run_set_flag: "run_state (set_flag i v) s = (True, s\<lparr>button := (button s)[i := (button s ! i)\<lparr>touch_flag := v\<rparr>]\<rparr>)"
  by (simp add: set_flag_def always_def)

lemma run_up_loop:
  "run_state (up_loop F fuel x y is) s = (case find (\<lambda>i. in_button x y (button s ! i)) is of
     None \<Rightarrow> (True, s)
   | Some i \<Rightarrow> run_state (and_then (set_flag i 0) (and_then (redraw F fuel i) (do { b \<leftarrow> gets (\<lambda>s. button s ! i); run_command fuel b }))) s)"
  by (induction "is") simp_all

lemma init_command: "i < 16 \<Longrightarrow> btn_command (init_buttons yl ! i) = (if i < 7 then Select_Color else if i = 7 then Clear_Palette else Select_Brush) \<and>
    (8 \<le> i \<longrightarrow> para (init_buttons yl ! i) = [0, 1, 2, 3, 4, 5, 6, 8] ! (i - 8))"
  by (drule sixteen) (elim insertE emptyE; simp add: init_buttons_def)

lemma run_filled: "\<exists>b. run_state (ILI9341_DrawRectangle fuel x y w h 1) s = (True, s\<lparr>bus := b\<rparr>)"
  by (auto simp: ILI9341_DrawRectangle_def run_OpenWindow run_FillColor)

lemma white: "white = 0xFFFF"
  by (simp add: white_def colour_def RGB_def)

text \<open>Clearing paints the drawing area white, but for its last column, which trails can draw on.\<close>

lemma clear_misses_last_column:
  assumes "83 \<le> uint (LCD_X_LENGTH s)" "1 \<le> uint (LCD_Y_LENGTH s)" and "run_state (Command_Clear_Palette fuel) s = (v, t)"
  shows "picture g (bus t) (i, j) =
    (if 81 \<le> i \<and> i + 1 < unat (LCD_X_LENGTH s) \<and> j < unat (LCD_Y_LENGTH s) then 0xFFFF else picture g (bus s) (i, j))"
proof -
  let ?s = "s\<lparr>CurrentTextColor := 0xFFFF, CurrentBackColor := 0xFFFF\<rparr>"
  define w where "w = LCD_X_LENGTH s - 82"
  have u: "uint w = uint (LCD_X_LENGTH s) - 82" unfolding w_def
    using assms(1) by (simp add: uint_minus_simple_alt [THEN iffD1] word_le_def)
  have ww: "word_of_int (uint (LCD_X_LENGTH s) - 82) = w" by (simp add: w_def)
  have bounds: "uint (LCD_X_LENGTH s) < 65536" "uint (LCD_Y_LENGTH s) < 65536" by (rule uint16)+
  have d: "draws ?s (do { ILI9341_OpenWindow 81 0 w (LCD_Y_LENGTH s); ILI9341_FillColor (word_of_int (uint w * uint (LCD_Y_LENGTH s))) 0xFFFF })
      (box (unat (81 :: u16)) (unat (0 :: u16)) (unat w) (unat (LCD_Y_LENGTH s)) 0xFFFF)"
    using assms(1,2) u bounds by (intro draws_box) simp_all
  have "run_state (do { ILI9341_OpenWindow 81 0 w (LCD_Y_LENGTH s); ILI9341_FillColor (word_of_int (uint w * uint (LCD_Y_LENGTH s))) 0xFFFF }) ?s = ((), t)"
    using assms(3) ww by (simp add: Command_Clear_Palette_def and_then_def set_colors_def always_def Lcd.LCD_SetColors_def
      ILI9341_DrawRectangle_def run_OpenWindow run_FillColor white)
  from drawsD(1) [OF d this, of g]
  have p: "picture g (bus t) = box 81 0 (unat w) (unat (LCD_Y_LENGTH s)) 0xFFFF (picture g (bus s))" by simp
  have "i < 81 + unat w \<longleftrightarrow> i + 1 < unat (LCD_X_LENGTH s)"
  proof -
    have "int (unat w) = uint w" "int (unat (LCD_X_LENGTH s)) = uint (LCD_X_LENGTH s)" by simp_all
    then show ?thesis using u by linarith
  qed
  then show ?thesis unfolding p by (simp add: box_def)
qed

lemma run_clear_palette:
  "\<exists>t. run_state (Command_Clear_Palette fuel) s = (True, t) \<and> button t = button s \<and> brush t = brush s \<and> CurrentTextColor t = 0xFFFF"
  for s :: "'z palette_st_scheme"
proof -
  let ?s = "s\<lparr>CurrentTextColor := 0xFFFF, CurrentBackColor := 0xFFFF\<rparr>"
  obtain b where "run_state (ILI9341_DrawRectangle fuel (word_of_int PALETTE_START_X) (word_of_int PALETTE_START_Y)
      (word_of_int (uint (LCD_X_LENGTH ?s) - (PALETTE_START_X + 1))) (word_of_int (uint (LCD_Y_LENGTH ?s) - PALETTE_START_Y)) 1) ?s
    = (True, ?s\<lparr>bus := b\<rparr>)" using run_filled by blast
  then show ?thesis
    by (simp add: Command_Clear_Palette_def and_then_def set_colors_def always_def Lcd.LCD_SetColors_def white)
qed

lemma run_init_command:
  fixes s :: "'z palette_st_scheme"
  assumes "i < 16"
  shows "\<exists>t. run_state (run_command fuel (init_buttons yl ! i)) s = (True, t) \<and> button t = button s \<and>
    brush t = (if i < 7 then \<lparr>brush_color = para (init_buttons yl ! i), brush_shape = if brush_shape (brush s) = 8 then 0 else brush_shape (brush s)\<rparr>
      else if i = 7 then brush s
      else (brush s)\<lparr>brush_shape := [0, 1, 2, 3, 4, 5, 6, 8] ! (i - 8)\<rparr>) \<and>
    CurrentTextColor t = (if i < 7 then ucast (para (init_buttons yl ! i)) else if i = 7 then 0xFFFF else ucast (brush_color (brush s)))"
proof -
  consider "i < 7" | "i = 7" | "8 \<le> i" by linarith
  then show ?thesis
  proof cases
    case 2
    then show ?thesis using init_command [OF assms, of yl] run_clear_palette [of fuel s] by (simp add: run_command_def)
  qed (use init_command [OF assms, of yl] in
      \<open>simp_all add: run_command_def Command_Select_Color_def Command_Select_Brush_def always_def Lcd.LCD_SetColors_def\<close>)
qed

lemma run_touch_up:
  assumes "board yl (button s)" and "197 \<le> uint yl" "uint yl \<le> 320" and "65536 \<le> fuel"
    and "run_state (Touch_Button_Up F fuel x y) s = (v, t)"
  shows "v = True \<and> (case cell yl x y of
      None \<Rightarrow> t = s
    | Some i \<Rightarrow> button t = (button s)[i := (button s ! i)\<lparr>touch_flag := 0\<rparr>] \<and>
       brush t = (if i < 7 then \<lparr>brush_color = para (init_buttons yl ! i),
           brush_shape = if brush_shape (brush s) = 8 then 0 else brush_shape (brush s)\<rparr>
         else if i = 7 then brush s
         else (brush s)\<lparr>brush_shape := [0, 1, 2, 3, 4, 5, 6, 8] ! (i - 8)\<rparr>) \<and>
       CurrentTextColor t = (if i < 7 then ucast (para (init_buttons yl ! i)) else if i = 7 then 0xFFFF else ucast (brush_color (brush s))) \<and>
       (i = 7 \<and> 83 \<le> uint (LCD_X_LENGTH s) \<and> 1 \<le> uint (LCD_Y_LENGTH s) \<longrightarrow>
         (\<forall>a b. 81 \<le> a \<and> a + 1 < unat (LCD_X_LENGTH s) \<and> b < unat (LCD_Y_LENGTH s) \<longrightarrow> picture g (bus t) (a, b) = 0xFFFF)))"
proof -
  have "int (unat yl) = uint yl" by simp
  then have yl: "197 \<le> unat yl" using assms(2) by linarith
  show ?thesis
  proof (cases "cell yl x y")
  case None
  then show ?thesis using assms(5) find_button [OF assms(1) yl, of x y] by (simp add: Touch_Button_Up_def run_up_loop)
next
  case (Some i)
  then have i: "i < 16" by (rule cell_less)
  let ?s = "s\<lparr>button := (button s)[i := (button s ! i)\<lparr>touch_flag := 0\<rparr>]\<rparr>"
  have b: "button ?s ! i = (button s ! i)\<lparr>touch_flag := 0\<rparr>" using board_length [OF assms(1)] i by simp
  have g: "good_button (button ?s ! i)" unfolding b same_place by (rule board_good [OF assms(1) i assms(2,3)])
  obtain u where u: "run_state (redraw F fuel i) ?s = (True, u)" "button u = button ?s" "brush u = brush ?s"
    "LCD_X_LENGTH u = LCD_X_LENGTH ?s" "LCD_Y_LENGTH u = LCD_Y_LENGTH ?s"
    using run_redraw [OF g assms(4), of F] by blast
  have "button u ! i = init_buttons yl ! i" unfolding u(2) b by (rule board_nth [OF assms(1) i])
  then have run: "run_state (run_command fuel (init_buttons yl ! i)) u = (v, t)"
    using assms(5) find_button [OF assms(1) yl, of x y] Some u(1)
    by (simp add: Touch_Button_Up_def run_up_loop and_then_def run_set_flag)
  have "picture g (bus t) (a, b) = 0xFFFF"
    if "i = 7" "83 \<le> uint (LCD_X_LENGTH s)" "1 \<le> uint (LCD_Y_LENGTH s)"
      "81 \<le> a" "a + 1 < unat (LCD_X_LENGTH s)" "b < unat (LCD_Y_LENGTH s)" for a b
  proof -
    have "run_state (Command_Clear_Palette fuel) u = (v, t)"
      using run init_command [OF i, of yl] \<open>i = 7\<close> by (simp add: run_command_def)
    from clear_misses_last_column [OF _ _ this, of g a b] that u(4,5) show ?thesis by simp
  qed
  then show ?thesis using run_init_command [OF i, of fuel yl u] run Some u(2,3) by auto
  qed
qed

text \<open>
  C27: what releasing the pen does, with the buttons as initialised but for their flags: inside a button, its flag is cleared and
  its command runs: a colour becomes that of the brush and the pen, and the rubber is put away; a brush becomes the shape
  and the pen gets the colour of the brush; the clear button keeps the brush, leaves the pen white and paints the drawing area white, up to the last column but one of the screen. Outside of all buttons,
  and on the lines between them, nothing happens. The function returns.
\<close>

theorem release_runs_command:
  assumes "board yl (button s)" and "197 \<le> uint yl" "uint yl \<le> 320" and "65536 \<le> fuel"
    and "run_state (Touch_Button_Up F fuel x y) s = (v, t)"
  shows "v = True \<and> (case cell yl x y of
      None \<Rightarrow> t = s
    | Some i \<Rightarrow> button t = (button s)[i := (button s ! i)\<lparr>touch_flag := 0\<rparr>] \<and>
       brush t = (if i < 7 then \<lparr>brush_color = para (init_buttons yl ! i),
           brush_shape = if brush_shape (brush s) = 8 then 0 else brush_shape (brush s)\<rparr>
         else if i = 7 then brush s
         else (brush s)\<lparr>brush_shape := [0, 1, 2, 3, 4, 5, 6, 8] ! (i - 8)\<rparr>) \<and>
       CurrentTextColor t = (if i < 7 then ucast (para (init_buttons yl ! i)) else if i = 7 then 0xFFFF else ucast (brush_color (brush s))) \<and>
       (i = 7 \<and> 83 \<le> uint (LCD_X_LENGTH s) \<and> 1 \<le> uint (LCD_Y_LENGTH s) \<longrightarrow>
         (\<forall>a b. 81 \<le> a \<and> a + 1 < unat (LCD_X_LENGTH s) \<and> b < unat (LCD_Y_LENGTH s) \<longrightarrow> picture g (bus t) (a, b) = 0xFFFF)))"
  using assms by (rule run_touch_up)

definition board_example :: palette_st where
  "board_example = lcd_st.extend (lcd_reset (\<lambda>_. 0) font8)
     (palette_st.fields (init_buttons ILI9341_MORE_PIXEL) \<lparr>brush_color = 0, brush_shape = 8\<rparr>)"

lemma board_init: "board yl (init_buttons yl)"
  by (simp add: board_def init_buttons_def)

lemma example_fields: "button board_example = init_buttons ILI9341_MORE_PIXEL" "brush board_example = \<lparr>brush_color = 0, brush_shape = 8\<rparr>"
  by (simp_all add: board_example_def lcd_st.defs palette_st.defs)

lemma release_runs_command_witness:
  "\<exists>t. run_state (Touch_Button_Up (\<lambda>_ _. 0) 65536 20 60) board_example = (True, t) \<and> brush t = \<lparr>brush_color = 0x1F, brush_shape = 0\<rparr> \<and>
     CurrentTextColor t = 0x1F"
proof -
  obtain v t where run: "run_state (Touch_Button_Up (\<lambda>_ _. 0) 65536 20 60) board_example = (v, t)" by (metis prod.exhaust)
  have "board ILI9341_MORE_PIXEL (button board_example)" unfolding example_fields by (rule board_init)
  note r = release_runs_command [OF this _ _ _ run]
  have "cell ILI9341_MORE_PIXEL 20 60 = Some 2" by (simp add: cell_def ILI9341_MORE_PIXEL_def)
  moreover have "para (init_buttons ILI9341_MORE_PIXEL ! 2) = 0x1F" by (simp add: init_buttons_def colour_def RGB_def)
  ultimately show ?thesis using run r by (simp add: example_fields ILI9341_MORE_PIXEL_def)
qed

section \<open>Marking buttons\<close>

definition mark :: "u16 \<Rightarrow> u16 \<Rightarrow> Touch_Button \<Rightarrow> Touch_Button" where
  "mark x y b = b\<lparr>touch_flag := if touches x y b then 1 else 0\<rparr>"

definition flags_ok :: "Touch_Button list \<Rightarrow> bool" where
  "flags_ok bs \<longleftrightarrow> (\<forall>b\<in>set bs. touch_flag b = 0 \<or> touch_flag b = 1)"

lemma flags_update: "flags_ok bs \<Longrightarrow> touch_flag b = 0 \<or> touch_flag b = 1 \<Longrightarrow> flags_ok (bs[k := b])"
  unfolding flags_ok_def using set_update_subset_insert [of bs k b] by blast

lemma run_button_down:
  fixes s :: "'z palette_st_scheme"
  assumes "good_button (button s ! i)" and "65536 \<le> fuel" and "i < length (button s)" and "flags_ok (button s)"
  shows "\<exists>t. run_state (button_down F fuel x y i) s = (True, t) \<and> button t = (button s)[i := mark x y (button s ! i)] \<and> brush t = brush s"
proof -
  have flag: "touch_flag (button s ! i) = 0 \<or> touch_flag (button s ! i) = 1" using assms(3,4) by (simp add: flags_ok_def)
  have redrawn: "\<exists>t. run_state (and_then (set_flag i v) (redraw F fuel i)) s = (True, t) \<and>
      button t = (button s)[i := (button s ! i)\<lparr>touch_flag := v\<rparr>] \<and> brush t = brush s" for v
    using run_redraw [of "s\<lparr>button := (button s)[i := (button s ! i)\<lparr>touch_flag := v\<rparr>]\<rparr>" i fuel F] assms(1-3)
    by (auto simp: and_then_def run_set_flag same_place)
  have same: "touch_flag (button s ! i) = v \<Longrightarrow> (button s)[i := (button s ! i)\<lparr>touch_flag := v\<rparr>] = button s" for v by (drule sym) simp
  show ?thesis
    using redrawn [of 0] redrawn [of 1] flag same [of 0] same [of 1] by (auto simp: button_down_def mark_def)
qed

lemma run_buttons_down:
  fixes s :: "'z palette_st_scheme"
  assumes "board yl (button s)" "197 \<le> uint yl" "uint yl \<le> 320" "65536 \<le> fuel" "flags_ok (button s)" and "k \<le> 16"
  shows "\<exists>t. run_state (all_of (map (button_down F fuel x y) [k..<16])) s = (True, t) \<and>
    button t = take k (button s) @ map (mark x y) (drop k (button s)) \<and> brush t = brush s"
  using assms(6,1,5)
proof (induction k arbitrary: s rule: inc_induct)
  case base
  then show ?case using board_length by (auto simp: all_of_def)
next
  case (step k)
  have len: "length (button s) = 16" by (rule board_length [OF step.prems(1)])
  have good: "good_button (button s ! k)" using step by (intro board_good [OF step.prems(1) _ assms(2,3)]) simp
  obtain u where u: "run_state (button_down F fuel x y k) s = (True, u)" "button u = (button s)[k := mark x y (button s ! k)]" "brush u = brush s"
    using run_button_down [OF good assms(4) _ step.prems(2)] step(2) len by metis
  have "board yl (button u)" using board_flag [OF step.prems(1), of k] step(2) unfolding u(2) mark_def by simp
  moreover have "flags_ok (button u)" unfolding u(2) by (rule flags_update [OF step.prems(2)]) (simp add: mark_def)
  ultimately obtain t where t: "run_state (all_of (map (button_down F fuel x y) [Suc k..<16])) u = (True, t)"
    "button t = take (Suc k) (button u) @ map (mark x y) (drop (Suc k) (button u))" "brush t = brush u"
    using step.IH by blast
  have "button t = take k (button s) @ map (mark x y) (drop k (button s))"
    unfolding t(2) u(2) using step(2) len by (simp add: take_Suc_conv_app_nth Cons_nth_drop_Suc [symmetric])
  then show ?case using step(2) t(1,3) u(1,3) by (simp add: upt_conv_Cons all_of_def and_then_def)
qed

text \<open>
  A touch marks exactly the buttons whose area, border included, it lies in: afterwards the flag of each of these is 1 and that
  of every other button 0; nothing else of the buttons changes, nor does the brush, and the
  function returns. A touch on a line between two buttons marks both.
\<close>

theorem touch_marks_buttons:
  assumes "board yl (button s)" and "197 \<le> uint yl" "uint yl \<le> 320" and "65536 \<le> fuel"
    and "\<forall>b\<in>set (button s). touch_flag b = 0 \<or> touch_flag b = 1"
    and "run_state (Touch_Button_Down F fuel x y) s = (v, t)"
  shows "v = True \<and> button t = map (\<lambda>b. b\<lparr>touch_flag := if touches x y b then 1 else 0\<rparr>) (button s) \<and> brush t = brush s \<and>
    board yl (button t) \<and> (\<forall>b\<in>set (button t). touch_flag b = 0 \<or> touch_flag b = 1)"
proof -
  have "flags_ok (button s)" using assms(5) by (simp add: flags_ok_def)
  from run_buttons_down [OF assms(1-4) this, of 0 F x y]
  have "v = True" "button t = map (mark x y) (button s)" "brush t = brush s" using assms(6) by (auto simp: Touch_Button_Down_def)
  moreover have "board yl (map (mark x y) (button s))" using assms(1) by (simp add: board_def mark_def comp_def)
  ultimately show ?thesis by (auto simp: mark_def)
qed

lemma touch_marks_buttons_witness:
  "\<exists>t. run_state (Touch_Button_Down (\<lambda>_ _. 0) 65536 40 10) board_example = (True, t) \<and>
     map touch_flag (button t) = [1, 0, 0, 0, 0, 0, 0, 0, 1, 0, 0, 0, 0, 0, 0, 0]"
proof -
  obtain v t where run: "run_state (Touch_Button_Down (\<lambda>_ _. 0) 65536 40 10) board_example = (v, t)" by (metis prod.exhaust)
  have b: "board ILI9341_MORE_PIXEL (button board_example)" unfolding example_fields by (rule board_init)
  have f: "\<forall>b\<in>set (button board_example). touch_flag b = 0 \<or> touch_flag b = 1" unfolding example_fields by (simp add: init_buttons_def)
  have "v = True" "button t = map (\<lambda>b. b\<lparr>touch_flag := if touches 40 10 b then 1 else 0\<rparr>) (init_buttons ILI9341_MORE_PIXEL)"
    using touch_marks_buttons [OF b _ _ _ f run] by (simp_all add: ILI9341_MORE_PIXEL_def example_fields)
  then show ?thesis using run by (simp add: init_buttons_def touches_def comp_def ILI9341_MORE_PIXEL_def)
qed

text \<open>
  A touch on the line between the first two buttons that is released there leaves both marked: the release
  belongs to neither.
\<close>

lemma border_stays_marked:
  assumes "board yl (button s)" and "197 \<le> uint yl" "uint yl \<le> 320" and "65536 \<le> fuel"
    and "run_state (Touch_Button_Up F fuel 40 y) s = (v, t)"
  shows "t = s"
proof -
  have "int (unat yl) = uint yl" by simp
  then have "197 \<le> unat yl" using assms(2) by linarith
  then show ?thesis using assms(5) find_button [OF assms(1), of 40 y] by (simp add: Touch_Button_Up_def run_up_loop cell_def)
qed

end
