(* ===== verification/Palette_Trails.thy ===== *)
theory Palette_Trails
  imports Palette_Buttons
begin

text \<open>
  What is drawn on the drawing board: the discs of a thick line, their shape, and where trails go.
\<close>

section \<open>The centres of a thick line\<close>

text \<open>After \<open>k\<close> rounds along an axis of length \<open>d\<close>: the steps taken along the other, of length \<open>m\<close>, and the numerator.\<close>

definition rise :: "nat \<Rightarrow> nat \<Rightarrow> nat \<Rightarrow> nat" where
  "rise d m k = (d div 2 + k * m) div d"

definition rest :: "nat \<Rightarrow> nat \<Rightarrow> nat \<Rightarrow> nat" where
  "rest d m k = (d div 2 + k * m) mod d"

lemma rise_step:
  assumes "m \<le> d" and "0 < d"
  shows "rest d m k + m \<ge> d \<Longrightarrow> rise d m (Suc k) = Suc (rise d m k) \<and> rest d m (Suc k) = rest d m k + m - d"
    and "rest d m k + m < d \<Longrightarrow> rise d m (Suc k) = rise d m k \<and> rest d m (Suc k) = rest d m k + m"
proof -
  define a where "a = d div 2 + k * m"
  have e: "d div 2 + Suc k * m = a + m" by (simp add: a_def)
  have split: "a + m = d * (a div d) + (a mod d + m)" by simp
  have r: "a mod d < d" using assms(2) by simp
  show "rest d m k + m \<ge> d \<Longrightarrow> rise d m (Suc k) = Suc (rise d m k) \<and> rest d m (Suc k) = rest d m k + m - d"
  proof -
    assume ge: "rest d m k + m \<ge> d"
    have lt: "a mod d + m - d < d" using r assms(1) by linarith
    have "a + m = d * (a div d + 1) + (a mod d + m - d)" using split ge unfolding rest_def a_def [symmetric] by simp
    then have "(a + m) div d = a div d + 1" "(a + m) mod d = a mod d + m - d" using lt by (simp_all add: div_mult_self4 del: mult_Suc_right)
    then show ?thesis unfolding rise_def rest_def e a_def [symmetric] by simp
  qed
  show "rest d m k + m < d \<Longrightarrow> rise d m (Suc k) = rise d m k \<and> rest d m (Suc k) = rest d m k + m"
  proof -
    assume "rest d m k + m < d"
    then have lt: "a mod d + m < d" unfolding rest_def a_def [symmetric] .
    then have "(a + m) div d = a div d" "(a + m) mod d = a mod d + m" using split by (metis add.commute div_mult_self2 div_less mod_less mod_mult_self2 add_0 less_nat_zero_code)+
    then show ?thesis unfolding rise_def rest_def e a_def [symmetric] by simp
  qed
qed

lemma rise_le: "m \<le> d \<Longrightarrow> k \<le> d \<Longrightarrow> rise d m k \<le> m"
proof (cases "d = 0")
  case False
  assume "k \<le> d"
  then have "k * m \<le> d * m" by (rule mult_le_mono1)
  moreover have "(m + 1) * d = d * m + d" "d div 2 < d" using False by simp_all
  ultimately have "d div 2 + k * m < (m + 1) * d" by linarith
  then show ?thesis unfolding rise_def by (simp add: less_mult_imp_div_less flip: less_Suc_eq_le)
qed (simp add: rise_def)

definition axis_sign :: "u16 \<Rightarrow> u16 \<Rightarrow> int" where
  "axis_sign a b = (if a \<le> b then 1 else - 1)"

definition gap :: "u16 \<Rightarrow> u16 \<Rightarrow> nat" where
  "gap a b = nat \<bar>uint b - uint a\<bar>"

text \<open>The centre of round \<open>k\<close>: the longer axis pixel by pixel, the other rounded to the nearest.\<close>

definition stroke_at :: "u16 \<Rightarrow> u16 \<Rightarrow> u16 \<Rightarrow> u16 \<Rightarrow> nat \<Rightarrow> int \<times> int" where
  "stroke_at x1 y1 x2 y2 k =
     (if gap y1 y2 \<le> gap x1 x2
      then (uint x1 + axis_sign x1 x2 * int k, uint y1 + axis_sign y1 y2 * int (rise (gap x1 x2) (gap y1 y2) k))
      else (uint x1 + axis_sign x1 x2 * int (rise (gap y1 y2) (gap x1 x2) k), uint y1 + axis_sign y1 y2 * int k))"

definition stroke_length :: "u16 \<Rightarrow> u16 \<Rightarrow> u16 \<Rightarrow> u16 \<Rightarrow> nat" where
  "stroke_length x1 y1 x2 y2 = max (gap x1 x2) (gap y1 y2)"

lemma between: "k \<le> gap a b \<Longrightarrow> min (uint a) (uint b) \<le> uint a + axis_sign a b * int k \<and> uint a + axis_sign a b * int k \<le> max (uint a) (uint b)"
  by (auto simp: gap_def axis_sign_def word_le_def)

lemma stroke_box:
  assumes "k \<le> stroke_length x1 y1 x2 y2"
  shows "min (uint x1) (uint x2) \<le> fst (stroke_at x1 y1 x2 y2 k)" "fst (stroke_at x1 y1 x2 y2 k) \<le> max (uint x1) (uint x2)"
    "min (uint y1) (uint y2) \<le> snd (stroke_at x1 y1 x2 y2 k)" "snd (stroke_at x1 y1 x2 y2 k) \<le> max (uint y1) (uint y2)"
proof -
  have "gap y1 y2 \<le> gap x1 x2 \<Longrightarrow> k \<le> gap x1 x2 \<and> rise (gap x1 x2) (gap y1 y2) k \<le> gap y1 y2"
    "\<not> gap y1 y2 \<le> gap x1 x2 \<Longrightarrow> k \<le> gap y1 y2 \<and> rise (gap y1 y2) (gap x1 x2) k \<le> gap x1 x2"
    using assms by (auto simp: stroke_length_def max_def intro: rise_le split: if_splits)
  then show "min (uint x1) (uint x2) \<le> fst (stroke_at x1 y1 x2 y2 k)" "fst (stroke_at x1 y1 x2 y2 k) \<le> max (uint x1) (uint x2)"
    "min (uint y1) (uint y2) \<le> snd (stroke_at x1 y1 x2 y2 k)" "snd (stroke_at x1 y1 x2 y2 k) \<le> max (uint y1) (uint y2)"
    unfolding stroke_at_def using between by (auto split: if_splits)
qed

section \<open>The loop\<close>

text \<open>The variables and constants of the loop for a line.\<close>

definition stroke_par :: "u16 \<Rightarrow> u16 \<Rightarrow> u16 \<Rightarrow> u16 \<Rightarrow> uni_par" where
  "stroke_par x1 y1 x2 y2 =
     (if gap y1 y2 \<le> gap x1 x2
      then \<lparr>xinc1 = 0, yinc1 = word_of_int (axis_sign y1 y2), xinc2 = word_of_int (axis_sign x1 x2), yinc2 = 0,
        uni_den = of_nat (gap x1 x2), numadd = of_nat (gap y1 y2)\<rparr>
      else \<lparr>xinc1 = word_of_int (axis_sign x1 x2), yinc1 = 0, xinc2 = 0, yinc2 = word_of_int (axis_sign y1 y2),
        uni_den = of_nat (gap y1 y2), numadd = of_nat (gap x1 x2)\<rparr>)"

definition stroke_run :: "u16 \<Rightarrow> u16 \<Rightarrow> u16 \<Rightarrow> u16 \<Rightarrow> nat \<Rightarrow> uni_run" where
  "stroke_run x1 y1 x2 y2 k =
     \<lparr>uni_x = word_of_int (fst (stroke_at x1 y1 x2 y2 k)), uni_y = word_of_int (snd (stroke_at x1 y1 x2 y2 k)),
      uni_num = of_nat (if gap y1 y2 \<le> gap x1 x2 then rest (gap x1 x2) (gap y1 y2) k else rest (gap y1 y2) (gap x1 x2) k)\<rparr>"

lemma sint_of_nat: "n < 32768 \<Longrightarrow> sint (of_nat n :: u16) = int n"
  using sint_16 [of "int n"] by simp

text \<open>One step of the numerator, as words.\<close>

lemma numerator_step:
  assumes "m \<le> d" and "0 < d" and "d < 16000"
  shows "sint (of_nat (rest d m k) + of_nat m :: u16) \<ge> sint (of_nat d :: u16) \<longleftrightarrow> rest d m k + m \<ge> d"
    and "rest d m k + m \<ge> d \<Longrightarrow> (of_nat (rest d m k) + of_nat m - of_nat d :: u16) = of_nat (rest d m (Suc k))"
    and "rest d m k + m < d \<Longrightarrow> (of_nat (rest d m k) + of_nat m :: u16) = of_nat (rest d m (Suc k))"
proof -
  have r: "rest d m k < d" using assms(2) by (simp add: rest_def)
  have "of_nat (rest d m k) + of_nat m = (of_nat (rest d m k + m) :: u16)" by simp
  moreover have "sint (of_nat (rest d m k + m) :: u16) = int (rest d m k + m)" "sint (of_nat d :: u16) = int d"
    using r assms by (intro sint_of_nat; simp)+
  ultimately show "sint (of_nat (rest d m k) + of_nat m :: u16) \<ge> sint (of_nat d :: u16) \<longleftrightarrow> rest d m k + m \<ge> d" by (simp only: of_nat_le_iff)
  show "rest d m k + m \<ge> d \<Longrightarrow> (of_nat (rest d m k) + of_nat m - of_nat d :: u16) = of_nat (rest d m (Suc k))"
    using rise_step(1) [OF assms(1,2)] by (simp add: of_nat_diff)
  show "rest d m k + m < d \<Longrightarrow> (of_nat (rest d m k) + of_nat m :: u16) = of_nat (rest d m (Suc k))"
    using rise_step(2) [OF assms(1,2)] by simp
qed

lemma stroke_step:
  assumes "0 < stroke_length x1 y1 x2 y2" and "stroke_length x1 y1 x2 y2 < 16000"
  shows "uni_step (stroke_par x1 y1 x2 y2) (stroke_run x1 y1 x2 y2 k) = stroke_run x1 y1 x2 y2 (Suc k)"
proof (cases "gap y1 y2 \<le> gap x1 x2")
  case True
  then have d: "0 < gap x1 x2" "gap x1 x2 < 16000" using assms by (simp_all add: stroke_length_def)
  note n = numerator_step [OF True d, of k] rise_step [OF True d(1), of k]
  show ?thesis using True n
    by (cases "rest (gap x1 x2) (gap y1 y2) k + gap y1 y2 \<ge> gap x1 x2")
      (simp_all add: uni_step_def stroke_par_def stroke_run_def stroke_at_def Let_def algebra_simps)
next
  case False
  then have l: "gap x1 x2 \<le> gap y1 y2" and d: "0 < gap y1 y2" "gap y1 y2 < 16000" using assms by (simp_all add: stroke_length_def)
  note n = numerator_step [OF l d, of k] rise_step [OF l d(1), of k]
  show ?thesis using False n
    by (cases "rest (gap y1 y2) (gap x1 x2) k + gap x1 x2 \<ge> gap y1 y2")
      (simp_all add: uni_step_def stroke_par_def stroke_run_def stroke_at_def Let_def algebra_simps)
qed

lemma stroke_loop:
  assumes "stroke_length x1 y1 x2 y2 < 16000"
  shows "LCD_DrawUniLineCircle fuel x1 y1 x2 y2 thick =
    uni_loop fuel (stroke_par x1 y1 x2 y2) (of_nat (stroke_length x1 y1 x2 y2)) thick 0 (stroke_run x1 y1 x2 y2 0)"
proof -
  have g: "(word_of_int \<bar>uint b - uint a\<bar> :: u16) = of_nat (gap a b)" for a b by (simp add: gap_def)
  have sx: "(if a \<le> b then 1 else - 1 :: u16) = word_of_int (axis_sign a b)" for a b by (simp add: axis_sign_def)
  have s: "sint (of_nat (gap x1 x2) :: u16) = int (gap x1 x2)" "sint (of_nat (gap y1 y2) :: u16) = int (gap y1 y2)"
    using assms by (intro sint_of_nat; simp add: stroke_length_def)+
  have w: "(word_of_int (int d div 2) :: u16) = of_nat (d div 2)" for d by (metis of_int_of_nat_eq of_nat_numeral zdiv_int)
  have half: "(word_of_int (int d sdiv 2) :: u16) = of_nat (rest d m 0)" if "m \<le> d" for d m
    using that by (cases "d = 0") (simp_all add: rest_def signed_divide_int_def w)
  have flat: "rise d m 0 = 0" for d m by (cases "d = 0") (simp_all add: rise_def)
  show ?thesis
  proof (cases "gap y1 y2 \<le> gap x1 x2")
    case True
    then show ?thesis using s half [OF True]
      by (simp add: LCD_DrawUniLineCircle_def Let_def g sx stroke_par_def stroke_run_def stroke_at_def stroke_length_def flat)
  next
    case False
    then show ?thesis using s half [of "gap x1 x2" "gap y1 y2"]
      by (simp add: LCD_DrawUniLineCircle_def Let_def g sx stroke_par_def stroke_run_def stroke_at_def stroke_length_def flat)
  qed
qed

section \<open>Discs inside the screen\<close>

definition disc_dots :: "nat \<Rightarrow> u8 \<Rightarrow> int \<times> int \<Rightarrow> (u16 \<times> u16) list" where
  "disc_dots fuel thick c = circle_dots (word_of_int (fst c)) (word_of_int (snd c)) True (octant fuel (0, uint thick, 3 - 2 * uint thick))"

text \<open>The centre is at least the thickness away from the edges.\<close>

definition margin :: "u16 \<Rightarrow> u16 \<Rightarrow> u8 \<Rightarrow> int \<times> int \<Rightarrow> bool" where
  "margin xl yl thick = (\<lambda>(x, y). uint thick \<le> x \<and> x + uint thick \<le> uint xl \<and> uint thick \<le> y \<and> y + uint thick \<le> uint yl)"

definition near :: "u8 \<Rightarrow> int \<times> int \<Rightarrow> u16 \<times> u16 \<Rightarrow> bool" where
  "near thick = (\<lambda>(x, y) (a, b). \<bar>uint a - x\<bar> \<le> uint thick \<and> \<bar>uint b - y\<bar> \<le> uint thick)"

lemma offset_near:
  assumes "0 \<le> d" "d \<le> e" "e \<le> x" "x + e \<le> 65535"
  shows "\<bar>uint (word_of_int x + word_of_int d :: u16) - x\<bar> \<le> e" "\<bar>uint (word_of_int x - word_of_int d :: u16) - x\<bar> \<le> e"
proof -
  have m: "(word_of_int x + word_of_int d :: u16) = word_of_int (x + d)" "(word_of_int x - word_of_int d :: u16) = word_of_int (x - d)" by simp_all
  have "uint (word_of_int (x + d) :: u16) = x + d" "uint (word_of_int (x - d) :: u16) = x - d"
    unfolding unsigned_of_int using assms by (simp_all add: take_bit_int_eq_self_iff)
  then show "\<bar>uint (word_of_int x + word_of_int d :: u16) - x\<bar> \<le> e" "\<bar>uint (word_of_int x - word_of_int d :: u16) - x\<bar> \<le> e"
    unfolding m using assms by simp_all
qed

lemma disc_near:
  assumes "margin xl yl thick c" and "q \<in> set (disc_dots fuel thick c)"
  shows "near thick c q"
proof -
  obtain x y where c: "c = (x, y)" by (cases c)
  have e: "uint thick \<le> x" "x + uint thick \<le> 65535" "uint thick \<le> y" "y + uint thick \<le> 65535"
    using assms(1) uint16 [of xl] uint16 [of yl] by (auto simp: margin_def c)
  obtain a b z where ab: "(a, b) \<in> set (octant fuel (0, uint thick, 3 - 2 * uint thick))" "z \<in> {a..b}"
    and q: "q \<in> set (eight (word_of_int x) (word_of_int y) (a, z))"
    using assms(2) by (auto simp: disc_dots_def circle_dots_def column_def c)
  obtain e' where "circle_inv (uint thick) (a, b, e')" "0 \<le> a" "a \<le> b"
    using octant_inv [OF circle_inv_start [OF uint_ge_0] ab(1)] by auto
  then have az: "0 \<le> a" "a \<le> uint thick" "0 \<le> z" "z \<le> uint thick" using ab(2) by (auto simp: circle_inv_def)
  note o = offset_near [OF az(1,2) e(1,2)] offset_near [OF az(3,4) e(1,2)] offset_near [OF az(1,2) e(3,4)] offset_near [OF az(3,4) e(3,4)]
  show ?thesis using q o by (auto simp: near_def c eight_def Let_def)
qed

text \<open>The disc's shape, for the thicknesses in use: up to four, exactly the pixels up to a distance; beyond, between two discs.\<close>

definition disc_core :: "int \<Rightarrow> int" where
  "disc_core r = r ^ 2 + (if r = 1 then 0 else if r \<le> 4 then 1 else - 3)"

definition disc_reach :: "int \<Rightarrow> int" where
  "disc_reach r = r ^ 2 + (if r = 1 then 0 else if r \<le> 4 then 1 else 4)"

definition disc_columns :: "nat \<Rightarrow> int \<Rightarrow> (int \<times> int) list" where
  "disc_columns fuel r = concat (map (column True) (octant fuel (0, r, 3 - 2 * r)))"

lemma disc_octants:
  "octant (12 + m) (0, 1, 3 - 2 * 1) = [(0, 1)]" "octant (12 + m) (0, 2, 3 - 2 * 2) = [(0, 2), (1, 2)]"
  "octant (12 + m) (0, 3, 3 - 2 * 3) = [(0, 3), (1, 3), (2, 2)]" "octant (12 + m) (0, 4, 3 - 2 * 4) = [(0, 4), (1, 4), (2, 3)]"
  "octant (12 + m) (0, 8, 3 - 2 * 8) = [(0, 8), (1, 8), (2, 8), (3, 7), (4, 6), (5, 6)]"
  "octant (12 + m) (0, 10, 3 - 2 * 10) = [(0, 10), (1, 10), (2, 10), (3, 9), (4, 9), (5, 8), (6, 7)]"
  by (simp_all add: octant_step_def eval_nat_numeral)

lemma disc_columns:
  assumes "r \<in> {1, 2, 3, 4, 8, 10}" and "12 \<le> fuel"
  shows "\<forall>(u, v)\<in>set (disc_columns fuel r). 0 \<le> u \<and> u \<le> v \<and> v \<le> r \<and> u ^ 2 + v ^ 2 \<le> disc_reach r"
    and "list_all (\<lambda>u. list_all (\<lambda>v. u ^ 2 + v ^ 2 \<le> disc_core r \<longrightarrow> (u, v) \<in> set (disc_columns fuel r)) [u..r]) [0..r]"
proof -
  obtain m where m: "fuel = 12 + m" using assms(2) by (auto simp: le_iff_add)
  show "\<forall>(u, v)\<in>set (disc_columns fuel r). 0 \<le> u \<and> u \<le> v \<and> v \<le> r \<and> u ^ 2 + v ^ 2 \<le> disc_reach r"
    using assms(1) unfolding m disc_columns_def
    by (elim insertE emptyE; simp only: disc_octants; simp add: column_def upto_rec1 disc_reach_def)
  show "list_all (\<lambda>u. list_all (\<lambda>v. u ^ 2 + v ^ 2 \<le> disc_core r \<longrightarrow> (u, v) \<in> set (disc_columns fuel r)) [u..r]) [0..r]"
    using assms(1) unfolding m disc_columns_def
    by (elim insertE emptyE; simp only: disc_octants; simp add: column_def upto_rec1 disc_core_def)
qed

text \<open>A pixel at an offset.\<close>

lemma eight_offset:
  assumes "q = (word_of_int (x + e * u), word_of_int (y + e' * v)) \<or> q = (word_of_int (x + e * v), word_of_int (y + e' * u))"
    and "e \<in> {1, - 1}" "e' \<in> {1, - 1}"
  shows "q \<in> set (eight (word_of_int x) (word_of_int y) (u, v))"
proof -
  have w: "(word_of_int (z + 1 * d) :: u16) = word_of_int z + word_of_int d" "(word_of_int (z + - 1 * d) :: u16) = word_of_int z - word_of_int d" for z d
    by simp_all
  show ?thesis using assms(1) assms(2,3)
    by (elim disjE insertE emptyE; simp only: eight_def prod.case Let_def list.set insert_iff w prod.inject simp_thms)
qed

lemma disc_shape:
  assumes "uint thick \<in> {1, 2, 3, 4, 8, 10}" and "margin xl yl thick (x, y)" and "12 \<le> fuel"
  shows "(a, b) \<in> set (disc_dots fuel thick (x, y)) \<Longrightarrow> (uint a - x) ^ 2 + (uint b - y) ^ 2 \<le> disc_reach (uint thick)"
    and "(uint a - x) ^ 2 + (uint b - y) ^ 2 \<le> disc_core (uint thick) \<Longrightarrow> (a, b) \<in> set (disc_dots fuel thick (x, y))"
proof -
  note cols = disc_columns [OF assms(1,3)]
  have e: "uint thick \<le> x" "x + uint thick \<le> 65535" "uint thick \<le> y" "y + uint thick \<le> 65535"
    using assms(2) uint16 [of xl] uint16 [of yl] by (auto simp: margin_def)
  have dots: "set (disc_dots fuel thick (x, y)) = (\<Union>p\<in>set (disc_columns fuel (uint thick)). set (eight (word_of_int x) (word_of_int y) p))"
    by (simp add: disc_dots_def circle_dots_def disc_columns_def)
  show "(uint a - x) ^ 2 + (uint b - y) ^ 2 \<le> disc_reach (uint thick)" if ab: "(a, b) \<in> set (disc_dots fuel thick (x, y))"
  proof -
    obtain u v where uv: "(u, v) \<in> set (disc_columns fuel (uint thick))" "(a, b) \<in> set (eight (word_of_int x) (word_of_int y) (u, v))"
      using ab unfolding dots by auto
    then have r: "0 \<le> u" "u \<le> v" "v \<le> uint thick" "u ^ 2 + v ^ 2 \<le> disc_reach (uint thick)" using cols(1) by auto
    have w: "uint (word_of_int z + word_of_int d :: u16) - z = d" "uint (word_of_int z - word_of_int d :: u16) - z = - d"
      if "0 \<le> d" "d \<le> uint thick" "uint thick \<le> z" "z + uint thick \<le> 65535" for z d
    proof -
      have m: "(word_of_int z + word_of_int d :: u16) = word_of_int (z + d)" "(word_of_int z - word_of_int d :: u16) = word_of_int (z - d)" by simp_all
      have "uint (word_of_int (z + d) :: u16) = z + d" "uint (word_of_int (z - d) :: u16) = z - d"
        unfolding unsigned_of_int using that by (simp_all add: take_bit_int_eq_self_iff)
      then show "uint (word_of_int z + word_of_int d :: u16) - z = d" "uint (word_of_int z - word_of_int d :: u16) - z = - d"
        unfolding m by simp_all
    qed
    have "u \<le> uint thick" "0 \<le> v" using r by linarith+
    note w = w [OF r(1) \<open>u \<le> uint thick\<close> e(1,2)] w [OF \<open>0 \<le> v\<close> r(3) e(1,2)] w [OF r(1) \<open>u \<le> uint thick\<close> e(3,4)] w [OF \<open>0 \<le> v\<close> r(3) e(3,4)]
    have "(uint a - x) ^ 2 + (uint b - y) ^ 2 = u ^ 2 + v ^ 2"
      using uv(2) by (auto simp: eight_def Let_def w)
    then show ?thesis using r(4) by simp
  qed
  show "(a, b) \<in> set (disc_dots fuel thick (x, y))" if d: "(uint a - x) ^ 2 + (uint b - y) ^ 2 \<le> disc_core (uint thick)"
  proof -
    define u v where "u = min \<bar>uint a - x\<bar> \<bar>uint b - y\<bar>" and "v = max \<bar>uint a - x\<bar> \<bar>uint b - y\<bar>"
    have sq: "u ^ 2 + v ^ 2 = (uint a - x) ^ 2 + (uint b - y) ^ 2" by (simp add: u_def v_def min_def max_def)
    have "disc_core (uint thick) < (uint thick + 1) ^ 2" using assms(1) by (auto simp: disc_core_def)
    then have "v ^ 2 < (uint thick + 1) ^ 2" using d sq zero_le_power2 [of u] by linarith
    then have "v \<le> uint thick" using power2_less_imp_less [of v "uint thick + 1"] by simp
    moreover have "0 \<le> u" "u \<le> v" by (simp_all add: u_def v_def)
    ultimately have "(u, v) \<in> set (disc_columns fuel (uint thick))" using cols(2) d sq by (simp add: list_all_iff)
    moreover have "(a, b) \<in> set (eight (word_of_int x) (word_of_int y) (u, v))"
    proof (rule eight_offset)
      let ?e = "if uint a < x then - 1 else 1 :: int" and ?e' = "if uint b < y then - 1 else 1 :: int"
      have "a = word_of_int (x + ?e * \<bar>uint a - x\<bar>)" "b = word_of_int (y + ?e' * \<bar>uint b - y\<bar>)" by auto
      then show "(a, b) = (word_of_int (x + ?e * u), word_of_int (y + ?e' * v)) \<or> (a, b) = (word_of_int (x + ?e * v), word_of_int (y + ?e' * u))"
        unfolding u_def v_def min_def max_def by (auto split: if_splits)
    qed auto
    ultimately show ?thesis unfolding dots by blast
  qed
qed

lemma results_gets:
  assumes "\<And>b. h (s\<lparr>bus := b\<rparr>) = h s" and "results s (k (h s)) v f"
  shows "results s (gets h \<bind> k) v f"
  using assms draws_gets [of h s k f] by (simp add: results_def)

lemma results_skip:
  assumes "uni_out (LCD_X_LENGTH s) (LCD_Y_LENGTH s) thick r" and "sint n < 32767" and "max (sint n - sint c + 1) 0 < int fuel" and "0 \<le> sint c"
  shows "results s (uni_loop fuel p n thick c r) True (dots s [])"
  using assms(3,4)
proof (induction fuel arbitrary: c)
  case (Suc fuel)
  show ?case
  proof (cases "sint c \<le> sint n")
    case True
    then have "sint (c + 1) = sint c + 1" using assms(2) by (intro sint_next) simp
    then have "results s (uni_loop fuel p n thick (c + 1) r) True (dots s [])" using Suc.prems True by (intro Suc.IH) simp_all
    then show ?thesis using True assms(1) by (simp add: results_gets)
  next
    case False
    then show ?thesis by (simp add: results_ret dots_simps)
  qed
qed simp

text \<open>Which rounds draw: those up to the first one whose centre is too close to an edge.\<close>

definition drawn :: "u16 \<Rightarrow> u16 \<Rightarrow> u8 \<Rightarrow> (nat \<Rightarrow> int \<times> int) \<Rightarrow> nat \<Rightarrow> nat \<Rightarrow> bool" where
  "drawn xl yl thick c k l \<longleftrightarrow> k \<le> l \<and> (\<forall>j. k \<le> j \<and> j \<le> l \<longrightarrow> margin xl yl thick (c j))"

lemma drawn_next: "margin xl yl thick (c k) \<Longrightarrow> drawn xl yl thick c k l \<longleftrightarrow> l = k \<or> drawn xl yl thick c (Suc k) l"
  unfolding drawn_def by (metis Suc_leD Suc_leI le_antisym le_neq_implies_less nle_le)

lemma stroke_short:
  assumes "uint x1 < 16000" "uint x2 < 16000" "uint y1 < 16000" "uint y2 < 16000"
  shows "stroke_length x1 y1 x2 y2 < 16000"
proof -
  have "gap a b < 16000" if "uint a < 16000" "uint b < 16000" for a b
    using that uint_ge_0 [of a] uint_ge_0 [of b] unfolding gap_def by linarith
  then show ?thesis using assms by (simp add: stroke_length_def)
qed

lemma results_stroke:
  fixes s :: "'z lcd_st_scheme" and x1 y1 x2 y2 :: u16 and thick :: u8
  defines "c \<equiv> stroke_at x1 y1 x2 y2" and "n \<equiv> stroke_length x1 y1 x2 y2"
  defines "d \<equiv> drawn (LCD_X_LENGTH s) (LCD_Y_LENGTH s) thick c"
  assumes "uint x1 < 16000" "uint x2 < 16000" "uint y1 < 16000" "uint y2 < 16000" and "k \<le> n + 1" and "n + 301 < fuel + k"
  shows "\<exists>ps. results s (uni_loop fuel (stroke_par x1 y1 x2 y2) (of_nat n) thick (of_nat k) (stroke_run x1 y1 x2 y2 k)) True (dots s ps) \<and>
    (\<forall>q\<in>set ps. \<exists>l\<le>n. d k l \<and> (\<exists>m\<ge>12. q \<in> set (disc_dots m thick (c l)))) \<and>
    (\<forall>l\<le>n. d k l \<longrightarrow> (\<exists>m\<ge>12. set (disc_dots m thick (c l)) \<subseteq> set ps))"
  using assms(8,9)
proof (induction fuel arbitrary: k)
  case (Suc fuel)
  have n: "n < 16000" unfolding n_def by (rule stroke_short [OF assms(4-7)])
  have s: "sint (of_nat k :: u16) = int k" "sint (of_nat n :: u16) = int n" using n Suc.prems by (intro sint_of_nat; simp)+
  show ?case
  proof (cases "k \<le> n")
    case False
    then show ?thesis using s by (intro exI [of _ "[]"]) (auto simp: results_ret dots_simps d_def drawn_def)
  next
    case True
    let ?r = "stroke_run x1 y1 x2 y2 k"
    have box: "0 \<le> fst (c k)" "fst (c k) < 32768" "0 \<le> snd (c k)" "snd (c k) < 32768"
      using stroke_box [OF True [unfolded n_def]] assms(4-7) uint_ge_0 [of x1] uint_ge_0 [of x2] uint_ge_0 [of y1] uint_ge_0 [of y2]
      unfolding c_def by linarith+
    have out: "uni_out (LCD_X_LENGTH s) (LCD_Y_LENGTH s) thick ?r \<longleftrightarrow> \<not> margin (LCD_X_LENGTH s) (LCD_Y_LENGTH s) thick (c k)"
    proof -
      have "sint (uni_x ?r) = fst (c k)" "sint (uni_y ?r) = snd (c k)"
        unfolding stroke_run_def uni_run.simps c_def [symmetric] using box by (intro sint_16; simp)+
      then show ?thesis by (auto simp: uni_out_def margin_def split_beta)
    qed
    show ?thesis
    proof (cases "margin (LCD_X_LENGTH s) (LCD_Y_LENGTH s) thick (c k)")
      case False
      have "results s (uni_loop (Suc fuel) (stroke_par x1 y1 x2 y2) (of_nat n) thick (of_nat k) ?r) True (dots s [])"
        using False out s n Suc.prems(2) by (intro results_skip) simp_all
      moreover have "\<not> d k l" for l using False by (auto simp: d_def drawn_def)
      ultimately show ?thesis by (intro exI [of _ "[]"]) simp
    next
      case m: True
      have disc: "results s (ILI9341_DrawCircle (Suc fuel) (uni_x ?r) (uni_y ?r) (ucast thick) 1) True (dots s (disc_dots (Suc fuel) thick (c k)))"
      proof -
        have "uint thick < 256" using uint_lt2p [of thick] by simp
        then have "results s (ILI9341_DrawCircle (Suc fuel) (uni_x ?r) (uni_y ?r) (ucast thick) 1) True
            (dots s (circle_dots (uni_x ?r) (uni_y ?r) (1 \<noteq> (0 :: u8)) (octant (Suc fuel) (0, uint (ucast thick :: u16), 3 - 2 * uint (ucast thick :: u16)))))"
          using Suc.prems True by (intro results_circle) (simp_all add: uint_thick)
        then show ?thesis by (simp add: uint_thick disc_dots_def stroke_run_def c_def del: octant.simps)
      qed
      obtain ps where ps: "results s (uni_loop fuel (stroke_par x1 y1 x2 y2) (of_nat n) thick (of_nat (Suc k)) (stroke_run x1 y1 x2 y2 (Suc k))) True (dots s ps)"
        "\<forall>q\<in>set ps. \<exists>l\<le>n. d (Suc k) l \<and> (\<exists>m\<ge>12. q \<in> set (disc_dots m thick (c l)))"
        "\<forall>l\<le>n. d (Suc k) l \<longrightarrow> (\<exists>m\<ge>12. set (disc_dots m thick (c l)) \<subseteq> set ps)"
        using Suc.IH [of "Suc k"] Suc.prems True by auto
      have next_round: "results s (uni_loop fuel (stroke_par x1 y1 x2 y2) (of_nat n) thick (of_nat k + 1) (uni_step (stroke_par x1 y1 x2 y2) ?r)) True (dots s ps)"
      proof (cases "n = 0")
        case True
        then show ?thesis using ps(1) \<open>k \<le> n\<close> by (cases fuel) simp_all
      next
        case False
        then have "uni_step (stroke_par x1 y1 x2 y2) ?r = stroke_run x1 y1 x2 y2 (Suc k)" using n unfolding n_def by (intro stroke_step) simp_all
        then show ?thesis using ps(1) by (simp add: add.commute)
      qed
      have "results s (uni_loop (Suc fuel) (stroke_par x1 y1 x2 y2) (of_nat n) thick (of_nat k) ?r) True (dots s (disc_dots (Suc fuel) thick (c k) @ ps))"
        using results_then_dots [OF disc next_round] s True out m by (simp add: results_gets)
      moreover have dn: "d k l \<longleftrightarrow> l = k \<or> d (Suc k) l" for l unfolding d_def by (rule drawn_next) (rule m)
      have "12 \<le> Suc fuel" using Suc.prems True by simp
      have "\<forall>q\<in>set (disc_dots (Suc fuel) thick (c k) @ ps). \<exists>l\<le>n. d k l \<and> (\<exists>m\<ge>12. q \<in> set (disc_dots m thick (c l)))"
        using ps(2) True \<open>12 \<le> Suc fuel\<close> unfolding dn set_append by blast
      moreover have "\<forall>l\<le>n. d k l \<longrightarrow> (\<exists>m\<ge>12. set (disc_dots m thick (c l)) \<subseteq> set (disc_dots (Suc fuel) thick (c k) @ ps))"
        using ps(3) \<open>12 \<le> Suc fuel\<close> unfolding dn set_append by blast
      ultimately show ?thesis by blast
    qed
  qed
qed simp

lemma results_thick:
  assumes "uint x1 < 16000" "uint x2 < 16000" "uint y1 < 16000" "uint y2 < 16000" and "16302 \<le> fuel"
  shows "\<exists>ps. results s (LCD_DrawUniLineCircle fuel x1 y1 x2 y2 thick) True (dots s ps) \<and>
    (\<forall>q\<in>set ps. \<exists>l\<le> stroke_length x1 y1 x2 y2. drawn (LCD_X_LENGTH s) (LCD_Y_LENGTH s) thick (stroke_at x1 y1 x2 y2) 0 l \<and>
      (\<exists>m\<ge>12. q \<in> set (disc_dots m thick (stroke_at x1 y1 x2 y2 l)))) \<and>
    (\<forall>l\<le> stroke_length x1 y1 x2 y2. drawn (LCD_X_LENGTH s) (LCD_Y_LENGTH s) thick (stroke_at x1 y1 x2 y2) 0 l \<longrightarrow>
      (\<exists>m\<ge>12. set (disc_dots m thick (stroke_at x1 y1 x2 y2 l)) \<subseteq> set ps))"
proof -
  have n: "stroke_length x1 y1 x2 y2 < 16000" by (rule stroke_short [OF assms(1-4)])
  show ?thesis unfolding stroke_loop [OF n] using results_stroke [OF assms(1-4), of 0 fuel s thick] n assms(5) by simp
qed

lemma drawn_margin: "drawn xl yl thick c 0 l \<longleftrightarrow> (\<forall>j\<le>l. margin xl yl thick (c j))"
  by (simp add: drawn_def)

lemma results_thick_near:
  assumes "uint x1 < 16000" "uint x2 < 16000" "uint y1 < 16000" "uint y2 < 16000" and "16302 \<le> fuel"
  shows "\<exists>ps. results s (LCD_DrawUniLineCircle fuel x1 y1 x2 y2 thick) True (dots s ps) \<and>
    (\<forall>q\<in>set ps. \<exists>l\<le> stroke_length x1 y1 x2 y2. near thick (stroke_at x1 y1 x2 y2 l) q)"
proof -
  let ?c = "stroke_at x1 y1 x2 y2"
  obtain ps where ps: "results s (LCD_DrawUniLineCircle fuel x1 y1 x2 y2 thick) True (dots s ps)"
    "\<forall>q\<in>set ps. \<exists>l\<le> stroke_length x1 y1 x2 y2. (\<forall>j\<le>l. margin (LCD_X_LENGTH s) (LCD_Y_LENGTH s) thick (?c j)) \<and> (\<exists>m\<ge>12. q \<in> set (disc_dots m thick (?c l)))"
    using results_thick [OF assms, of s thick] unfolding drawn_margin by (elim exE conjE)
  have "\<exists>l\<le> stroke_length x1 y1 x2 y2. near thick (?c l) q" if q: "q \<in> set ps" for q
  proof -
    obtain l m where l: "l \<le> stroke_length x1 y1 x2 y2" "margin (LCD_X_LENGTH s) (LCD_Y_LENGTH s) thick (?c l)" "q \<in> set (disc_dots m thick (?c l))"
      using bspec [OF ps(2) q] by auto
    show ?thesis using l(1) disc_near [OF l(2,3)] by auto
  qed
  then show ?thesis using ps(1) by blast
qed

text \<open>A centre of the line that is drawn, at a squared distance of at most \<open>d\<close> from the pixel.\<close>

definition stroke_near :: "u16 \<Rightarrow> u16 \<Rightarrow> u8 \<Rightarrow> (nat \<Rightarrow> int \<times> int) \<Rightarrow> nat \<Rightarrow> int \<Rightarrow> nat \<Rightarrow> nat \<Rightarrow> bool" where
  "stroke_near xl yl thick c n d i j \<longleftrightarrow>
     (\<exists>k\<le>n. (\<forall>l\<le>k. margin xl yl thick (c l)) \<and> (int i - fst (c k)) ^ 2 + (int j - snd (c k)) ^ 2 \<le> d)"

lemma thickness_used: "thickness shape = Some thick \<Longrightarrow> uint thick \<in> {1, 2, 3, 4, 8, 10}"
  by (auto simp: thickness_def split: if_splits)

text \<open>
  C29: a thick line, of a thickness of the brushes, is discs and returns. Their centres are on the line, the longer axis pixel by pixel and
  the other rounded to the nearest, up to the first centre that is closer to an edge of the screen than the thickness: the
  code skips the step along with the disc, so nothing is drawn from there on. For a thickness \<open>r\<close> up to four, the pixels that get the
  text colour are exactly those whose squared distance from such a centre is at most \<open>r\<^sup>2 + 1\<close> (\<open>r\<^sup>2\<close> for one); for eight
  and ten all those up to \<open>r\<^sup>2 - 3\<close> and none beyond \<open>r\<^sup>2 + 4\<close>. No other pixel changes.
\<close>

theorem thick_line_stops_at_edge:
  assumes "uint x1 < 16000" "uint x2 < 16000" "uint y1 < 16000" "uint y2 < 16000" and "16302 \<le> fuel" and "thickness shape = Some thick"
    and "run_state (LCD_DrawUniLineCircle fuel x1 y1 x2 y2 thick) s = (v, t)"
  shows "v = True \<and> (\<exists>b. t = s\<lparr>bus := b\<rparr>) \<and>
    (let close = stroke_near (LCD_X_LENGTH s) (LCD_Y_LENGTH s) thick (stroke_at x1 y1 x2 y2) (stroke_length x1 y1 x2 y2) in
      (picture g (bus t) (i, j) \<noteq> picture g (bus s) (i, j) \<longrightarrow>
        picture g (bus t) (i, j) = CurrentTextColor s \<and> close (disc_reach (uint thick)) i j) \<and>
      (close (disc_core (uint thick)) i j \<and> i < unat (LCD_X_LENGTH s) \<and> j < unat (LCD_Y_LENGTH s) \<longrightarrow>
        picture g (bus t) (i, j) = CurrentTextColor s))"
proof -
  let ?c = "stroke_at x1 y1 x2 y2" and ?n = "stroke_length x1 y1 x2 y2"
  let ?ok = "\<lambda>k. k \<le> ?n \<and> (\<forall>l\<le>k. margin (LCD_X_LENGTH s) (LCD_Y_LENGTH s) thick (?c l))"
  note r = thickness_used [OF assms(6)]
  obtain ps where res: "results s (LCD_DrawUniLineCircle fuel x1 y1 x2 y2 thick) True (dots s ps)"
    and inside_disc: "\<forall>q\<in>set ps. \<exists>l\<le> ?n. (\<forall>j\<le>l. margin (LCD_X_LENGTH s) (LCD_Y_LENGTH s) thick (?c j)) \<and> (\<exists>m\<ge>12. q \<in> set (disc_dots m thick (?c l)))"
    and discs: "\<forall>l\<le> ?n. (\<forall>j\<le>l. margin (LCD_X_LENGTH s) (LCD_Y_LENGTH s) thick (?c j)) \<longrightarrow> (\<exists>m\<ge>12. set (disc_dots m thick (?c l)) \<subseteq> set ps)"
    using results_thick [OF assms(1-5), of s thick] unfolding drawn_margin by (elim exE conjE)
  note res = resultsD [OF res assms(7)]
  have reach: "\<exists>l. ?ok l \<and> (uint a - fst (?c l)) ^ 2 + (uint b - snd (?c l)) ^ 2 \<le> disc_reach (uint thick)" if ab: "(a, b) \<in> set ps" for a b
  proof -
    obtain l m where l: "?ok l" "12 \<le> m" "(a, b) \<in> set (disc_dots m thick (?c l))" using bspec [OF inside_disc ab] by auto
    obtain x y where c: "?c l = (x, y)" by (cases "?c l")
    have "margin (LCD_X_LENGTH s) (LCD_Y_LENGTH s) thick (x, y)" using l(1) c by force
    from disc_shape(1) [OF r this l(2)] l c show ?thesis by (intro exI [of _ l]) simp
  qed
  have core: "(a, b) \<in> set ps" if l: "?ok l" and d: "(uint a - fst (?c l)) ^ 2 + (uint b - snd (?c l)) ^ 2 \<le> disc_core (uint thick)" for a b l
  proof -
    obtain m where m: "12 \<le> m" "set (disc_dots m thick (?c l)) \<subseteq> set ps" using discs l by auto
    obtain x y where c: "?c l = (x, y)" by (cases "?c l")
    have "margin (LCD_X_LENGTH s) (LCD_Y_LENGTH s) thick (x, y)" using l c by force
    from disc_shape(2) [OF r this m(1)] d c m(2) show ?thesis by auto
  qed
  have pixel: "picture g (bus t) (i, j) = (if \<exists>(a, b)\<in>set ps. on_screen s a b \<and> (i, j) = (unat a, unat b) then CurrentTextColor s else picture g (bus s) (i, j))"
    unfolding res(2) by (rule dots_pixel)
  show ?thesis unfolding Let_def
  proof (intro conjI impI)
    show "v = True" "\<exists>b. t = s\<lparr>bus := b\<rparr>" by (rule res)+
  next
    assume "picture g (bus t) (i, j) \<noteq> picture g (bus s) (i, j)"
    then have ex: "\<exists>(a, b)\<in>set ps. on_screen s a b \<and> (i, j) = (unat a, unat b)" unfolding pixel by argo
    then show "picture g (bus t) (i, j) = CurrentTextColor s" unfolding pixel by (rule if_P)
    obtain a b where "(a, b) \<in> set ps" "int i = uint a" "int j = uint b" using ex by auto
    then show "stroke_near (LCD_X_LENGTH s) (LCD_Y_LENGTH s) thick ?c ?n (disc_reach (uint thick)) i j"
      using reach [of a b] unfolding stroke_near_def by auto
  next
    assume k: "stroke_near (LCD_X_LENGTH s) (LCD_Y_LENGTH s) thick ?c ?n (disc_core (uint thick)) i j \<and> i < unat (LCD_X_LENGTH s) \<and> j < unat (LCD_Y_LENGTH s)"
    have u: "unat (of_nat i :: u16) = i" "unat (of_nat j :: u16) = j"
      using k unat16 [of "LCD_X_LENGTH s"] unat16 [of "LCD_Y_LENGTH s"] by (simp_all add: unsigned_of_nat take_bit_nat_eq_self)
    then have "uint (of_nat i :: u16) = int i" "uint (of_nat j :: u16) = int j" by (metis uint_nat)+
    then have "(of_nat i, of_nat j) \<in> set ps" using k core [of _ "of_nat i" "of_nat j"] unfolding stroke_near_def by auto
    then show "picture g (bus t) (i, j) = CurrentTextColor s"
      unfolding pixel using k u by (auto simp: on_screen_def word_less_nat_alt intro!: bexI [of _ "(of_nat i, of_nat j)"])
  qed
qed

lemma thick_line_stops_at_edge_witness:
  "\<exists>t. run_state (LCD_DrawUniLineCircle 65536 100 100 110 105 2) (lcd_reset (\<lambda>_. 0) font8) = (True, t) \<and>
     picture (\<lambda>_. 7) (bus t) (105, 103) = 0"
proof -
  let ?s = "lcd_reset (\<lambda>_. 0) font8"
  obtain v t where run: "run_state (LCD_DrawUniLineCircle 65536 100 100 110 105 2) ?s = (v, t)" by (metis prod.exhaust)
  have at: "stroke_at 100 100 110 105 l = (100 + int l, 100 + int ((5 + l * 5) div 10))" for l
    by (simp add: stroke_at_def gap_def axis_sign_def rise_def)
  have "margin 240 320 2 (stroke_at 100 100 110 105 l)" if "l \<le> 5" for l
  proof -
    have "(5 + l * 5) div 10 \<le> 3" using that by simp
    then show ?thesis using that unfolding at margin_def by simp
  qed
  moreover have "stroke_length 100 100 110 105 = 10" by (simp add: stroke_length_def gap_def)
  ultimately have close: "stroke_near 240 320 2 (stroke_at 100 100 110 105) (stroke_length 100 100 110 105) (disc_core 2) 105 103"
    unfolding stroke_near_def by (intro exI [of _ 5]) (simp add: at disc_core_def)
  have "thickness 2 = Some 2" by (simp add: thickness_def)
  from thick_line_stops_at_edge [OF _ _ _ _ _ this run, where i = 105 and j = 103 and g = "\<lambda>_. 7"] close run
  show ?thesis by (simp add: Let_def lcd_reset_def ILI9341_LESS_PIXEL_def ILI9341_MORE_PIXEL_def)
qed

section \<open>Trails\<close>

lemma sint_uint_pos: "0 \<le> sint x \<Longrightarrow> uint x = sint x" for x :: u16
proof -
  assume "0 \<le> sint x"
  moreover have "sint x < 32768" using sint_lt [of x] by simp
  moreover have "uint x = uint (word_of_int (sint x) :: u16)" by simp
  ultimately show ?thesis unfolding unsigned_of_int by (simp add: take_bit_int_eq_self)
qed

lemma line_column:
  assumes "(a, b) \<in> set (line_points x1 y1 x2 y2)"
  shows "min (uint x1) (uint x2) \<le> uint a"
proof -
  let ?m = "nat \<bar>uint x2 - uint x1\<bar>" and ?d = "line_length x1 y1 x2 y2"
  obtain k where "(a, b) = (line_at x1 (sgn (uint x2 - uint x1)) ?m ?d k, line_at y1 (sgn (uint y2 - uint y1)) (nat \<bar>uint y2 - uint y1\<bar>) ?d k)"
      "k \<in> set [0..<?d + 2]"
    using assms unfolding line_points_def Let_def set_map by (rule imageE)
  then have k: "k \<le> ?d + 1" "a = line_at x1 (sgn (uint x2 - uint x1)) ?m ?d k" by (simp_all only: prod.inject set_upt atLeastLessThan_iff) simp
  have m: "?m \<le> ?d" by (simp add: line_length_def)
  have "uint a = int (unat a)" by simp
  also have "\<dots> = uint x1 + sgn (uint x2 - uint x1) * int (line_off ?m ?d k)" unfolding k(2) by (rule uint_line_at [OF m k(1)])
  finally show ?thesis using sgn_range [OF line_off_le [OF m k(1)]] by simp
qed

lemma disc_column:
  assumes "(a, b) \<in> set (circle_dots xc yc True (octant fuel (0, e, 3 - 2 * e)))" and "0 \<le> e" "e \<le> uint xc" "uint xc + e \<le> 65535"
  shows "uint xc - e \<le> uint a"
proof -
  obtain p q z where pq: "(p, q) \<in> set (octant fuel (0, e, 3 - 2 * e))" "z \<in> {p..q}" and ab: "(a, b) \<in> set (eight xc yc (p, z))"
    using assms(1) by (auto simp: circle_dots_def column_def)
  obtain e' where "circle_inv e (p, q, e')" "0 \<le> p" "p \<le> q" using octant_inv [OF circle_inv_start [OF assms(2)] pq(1)] by auto
  then have pz: "0 \<le> p" "p \<le> e" "0 \<le> z" "z \<le> e" using pq(2) by (auto simp: circle_inv_def)
  have "xc = word_of_int (uint xc)" by simp
  then have off: "\<bar>uint (xc + word_of_int d) - uint xc\<bar> \<le> e \<and> \<bar>uint (xc - word_of_int d) - uint xc\<bar> \<le> e" if "0 \<le> d" "d \<le> e" for d
    using offset_near [OF that assms(3,4)] by metis
  show ?thesis using ab off [OF pz(1,2)] off [OF pz(3,4)] by (auto simp: eight_def Let_def)
qed

text \<open>Drawings to the right of column 80.\<close>

definition spares :: "'z lcd_st_scheme \<Rightarrow> ('z lcd_st_scheme, bool) state \<Rightarrow> bool" where
  "spares s m \<longleftrightarrow> (\<exists>f. results s m True f \<and> (\<forall>g i j. i \<le> 80 \<longrightarrow> f g (i, j) = g (i, j)))"

lemma spares_dots: "results s m True (dots s ps) \<Longrightarrow> (\<And>a b. (a, b) \<in> set ps \<Longrightarrow> 81 \<le> uint a) \<Longrightarrow> spares s m"
proof -
  assume r: "results s m True (dots s ps)" and c: "\<And>a b. (a, b) \<in> set ps \<Longrightarrow> 81 \<le> uint a"
  have "81 \<le> unat a" if "(a, b) \<in> set ps" for a b
  proof -
    have "int (unat a) = uint a" by simp
    then show ?thesis using c [OF that] by linarith
  qed
  then have "dots s ps g (i, j) = g (i, j)" if "i \<le> 80" for g i j using that unfolding dots_pixel by fastforce
  then show ?thesis using r unfolding spares_def by blast
qed

lemma spares_ret: "spares s (ret True)"
  unfolding spares_def by (rule exI [of _ "\<lambda>g. g"]) (simp add: results_ret)

lemma spares_then: "spares s m \<Longrightarrow> spares s k \<Longrightarrow> spares s (and_then m k)"
  unfolding spares_def using results_then by (metis (no_types, lifting))

lemma sparesD:
  assumes "spares s m" and "run_state m s = (v, t)"
  shows "v = True \<and> (i \<le> 80 \<longrightarrow> picture g (bus t) (i, j) = picture g (bus s) (i, j))"
proof -
  obtain f where "results s m True f" "\<forall>g i j. i \<le> 80 \<longrightarrow> f g (i, j) = g (i, j)" using assms(1) unfolding spares_def by blast
  then show ?thesis using resultsD [OF _ assms(2)] by metis
qed

lemma spares_line:
  assumes "81 \<le> uint x1" "81 \<le> uint x2" and "line_length x1 y1 x2 y2 \<le> 65533" and "65536 \<le> fuel"
  shows "spares s (ILI9341_DrawLine fuel x1 y1 x2 y2)"
proof (rule spares_dots)
  show "results s (ILI9341_DrawLine fuel x1 y1 x2 y2) True (dots s (line_points x1 y1 x2 y2))" using assms(3,4) by (intro results_line) simp_all
  show "81 \<le> uint a" if "(a, b) \<in> set (line_points x1 y1 x2 y2)" for a b using line_column [OF that] assms(1,2) by simp
qed

lemma spares_disc:
  assumes "81 + uint radius \<le> uint x" "uint x < 16000" "uint radius \<le> 8000" and "65536 \<le> fuel"
  shows "spares s (ILI9341_DrawCircle fuel x y radius 1)"
proof (rule spares_dots)
  show "results s (ILI9341_DrawCircle fuel x y radius 1) True (dots s (circle_dots x y (1 \<noteq> (0 :: u8)) (octant fuel (0, uint radius, 3 - 2 * uint radius))))"
    using assms(3,4) by (intro results_circle) simp_all
  show "81 \<le> uint a" if "(a, b) \<in> set (circle_dots x y (1 \<noteq> (0 :: u8)) (octant fuel (0, uint radius, 3 - 2 * uint radius)))" for a b
    using disc_column [of a b x y fuel "uint radius"] that assms(1-3) by simp
qed

lemma spares_thick:
  assumes "81 + uint thick \<le> uint x1" "81 + uint thick \<le> uint x2" and "uint x1 < 16000" "uint x2 < 16000" "uint y1 < 16000" "uint y2 < 16000"
    and "65536 \<le> fuel"
  shows "spares s (LCD_DrawUniLineCircle fuel x1 y1 x2 y2 thick)"
proof -
  have "16302 \<le> fuel" using assms(7) by simp
  from results_thick_near [OF assms(3-6) this, of s thick]
  obtain ps where r: "results s (LCD_DrawUniLineCircle fuel x1 y1 x2 y2 thick) True (dots s ps)"
    and near: "\<And>q. q \<in> set ps \<Longrightarrow> \<exists>l\<le> stroke_length x1 y1 x2 y2. near thick (stroke_at x1 y1 x2 y2 l) q" by blast
  show ?thesis
  proof (rule spares_dots [OF r])
    fix a b
    assume "(a, b) \<in> set ps"
    then obtain l where l: "l \<le> stroke_length x1 y1 x2 y2" "\<bar>uint a - fst (stroke_at x1 y1 x2 y2 l)\<bar> \<le> uint thick"
      using near [of "(a, b)"] by (auto simp: near_def split_beta)
    then show "81 \<le> uint a" using stroke_box(1) [OF l(1)] assms(1,2) by linarith
  qed
qed

lemma sint_16_lt: "0 \<le> sint y \<Longrightarrow> sint y < 16000 \<Longrightarrow> uint y < 16000" for y :: u16
  by (simp add: sint_uint_pos)

text \<open>The rubber paints a white square.\<close>

lemma run_rubber:
  assumes "101 \<le> uint x" "uint x < 16000" "20 \<le> uint y" "uint y < 16000"
  shows "\<exists>t. run_state (and_then (set_colors white white) (ILI9341_DrawRectangle fuel (x - 20) (y - 20) 40 40 1)) s = (True, t) \<and>
    picture g (bus t) = box (nat (uint x - 20)) (nat (uint y - 20)) 40 40 white (picture g (bus s))"
proof -
  let ?s = "s\<lparr>CurrentTextColor := white, CurrentBackColor := white\<rparr>"
  have u: "uint (a - 20) = uint a - 20" if "20 \<le> uint a" for a :: u16
    using that by (simp add: uint_minus_simple_alt [THEN iffD1] word_le_def)
  have n: "unat (a - 20) = nat (uint a - 20)" if "20 \<le> uint a" for a :: u16
  proof -
    have "int (unat (a - 20)) = uint (a - 20)" by simp
    then show ?thesis using u [OF that] by linarith
  qed
  have d: "draws ?s (do { ILI9341_OpenWindow (x - 20) (y - 20) 40 40; ILI9341_FillColor (word_of_int (uint (40 :: u16) * uint (40 :: u16))) white })
      (box (unat (x - 20)) (unat (y - 20)) (unat (40 :: u16)) (unat (40 :: u16)) white)"
    using assms u by (intro draws_box) simp_all
  obtain v t where t: "run_state (do { ILI9341_OpenWindow (x - 20) (y - 20) 40 40; ILI9341_FillColor (word_of_int (uint (40 :: u16) * uint (40 :: u16))) white }) ?s = (v, t)"
    by (metis prod.exhaust)
  have "picture g (bus t) = box (nat (uint x - 20)) (nat (uint y - 20)) 40 40 white (picture g (bus s))"
    using drawsD(1) [OF d t, of g] n assms by simp
  moreover have "run_state (and_then (set_colors white white) (ILI9341_DrawRectangle fuel (x - 20) (y - 20) 40 40 1)) s = (True, t)"
    using t by (simp add: and_then_def set_colors_def always_def Lcd.LCD_SetColors_def ILI9341_DrawRectangle_def run_OpenWindow run_FillColor)
  ultimately show ?thesis by blast
qed

text \<open>The cases of a trail inside the drawing area.\<close>

definition inside :: "u16 \<Rightarrow> u16 \<Rightarrow> u16 \<Rightarrow> u16 \<Rightarrow> bool" where
  "inside pre_x pre_y x y \<longleftrightarrow> 81 < sint x \<and> sint x < 16000 \<and> 81 < sint pre_x \<and> sint pre_x < 16000 \<and>
     0 \<le> sint y \<and> sint y < 16000 \<and> 0 \<le> sint pre_y \<and> sint pre_y < 16000"

lemma inside_uint: "inside pre_x pre_y x y \<Longrightarrow> uint x = sint x \<and> uint pre_x = sint pre_x \<and> uint y = sint y \<and> uint pre_y = sint pre_y"
  by (simp add: inside_def sint_uint_pos)

lemma spares_trail_line:
  assumes "inside pre_x pre_y x y" and "65536 \<le> fuel"
  shows "spares s (ILI9341_DrawLine fuel pre_x pre_y x y)"
proof -
  note u = inside_uint [OF assms(1)]
  have "line_length pre_x pre_y x y \<le> 65533"
    unfolding line_length_def max.bounded_iff using assms(1) u unfolding inside_def by (intro conjI; linarith)
  then show ?thesis using assms u by (intro spares_line) (simp_all add: inside_def)
qed

lemma spares_trail:
  assumes "inside pre_x pre_y x y" and "65536 \<le> fuel" and "brush_shape br \<noteq> 8"
  shows "spares s (Draw_Trail fuel pre_x pre_y x y br)"
proof -
  note u = inside_uint [OF assms(1)] and line = spares_trail_line [OF assms(1,2), of s]
  have pos: "81 < sint x" "81 < sint pre_x" "\<not> sint pre_x < 0" "\<not> sint pre_y < 0" using assms(1) by (simp_all add: inside_def)
  have bead: "\<not> (sint x - 3 < 81 \<or> sint pre_x - 3 < 81) \<Longrightarrow> spares s (ILI9341_DrawCircle fuel x y 3 1)"
    using assms(1,2) u by (intro spares_disc) (simp_all add: inside_def)
  have thick: "\<not> (sint x - uint k < 81 \<or> sint pre_x - uint k < 81) \<Longrightarrow> spares s (LCD_DrawUniLineCircle fuel pre_x pre_y x y k)" for k
    using assms(1,2) u by (intro spares_thick) (simp_all add: inside_def)
  show ?thesis unfolding Draw_Trail_def using pos assms(3) line bead thick
    by (auto intro: spares_then spares_ret split: option.split)
qed

lemma trail_rubber:
  assumes "inside pre_x pre_y x y" and "brush_shape br = 8" and "run_state (Draw_Trail fuel pre_x pre_y x y br) s = (v, t)"
  shows "v = True \<and> (i \<le> 80 \<longrightarrow> picture g (bus t) (i, j) = picture g (bus s) (i, j))"
proof (cases "sint x - 20 < 81 \<or> sint x + 20 > uint (LCD_X_LENGTH s) \<or> sint x - 20 < 0 \<or> sint y + 20 > uint (LCD_Y_LENGTH s) \<or> sint y - 20 < 0")
  case True
  then show ?thesis using assms by (simp add: Draw_Trail_def inside_def)
next
  case False
  then have run: "run_state (and_then (set_colors white white) (ILI9341_DrawRectangle fuel (x - 20) (y - 20) 40 40 1)) s = (v, t)"
    using assms by (simp add: Draw_Trail_def inside_def)
  have x: "101 \<le> uint x" "uint x < 16000" "20 \<le> uint y" "uint y < 16000"
    using False inside_uint [OF assms(1)] assms(1) unfolding inside_def by linarith+
  from run_rubber [OF this, of fuel s g] run
  have "v = True" "picture g (bus t) = box (nat (uint x - 20)) (nat (uint y - 20)) 40 40 white (picture g (bus s))" by auto
  moreover have "\<not> nat (uint x - 20) \<le> i" if "i \<le> 80" using that x(1) by linarith
  ultimately show ?thesis by (auto simp: box_def)
qed

lemma trail_spares:
  assumes "0 \<le> sint pre_y" "sint pre_y < 16000" "0 \<le> sint y" "sint y < 16000" and "sint pre_x < 16000" "sint x < 16000"
    and "65536 \<le> fuel" and "run_state (Draw_Trail fuel pre_x pre_y x y br) s = (v, t)"
  shows "v = True \<and> (i \<le> 80 \<longrightarrow> picture g (bus t) (i, j) = picture g (bus s) (i, j))"
proof (cases "81 < sint x \<and> 81 < sint pre_x")
  case True
  then have "inside pre_x pre_y x y" using assms(1-6) by (simp add: inside_def)
  then show ?thesis using trail_rubber [OF _ _ assms(8)] sparesD [OF spares_trail [OF _ assms(7)] assms(8)] by blast
qed (use assms(8) in \<open>auto simp: Draw_Trail_def\<close>)

text \<open>
  C28: trails stay off the buttons: between two points whose rows are from 0 to 15999 and whose columns, as signed numbers, are below 16000,
  drawing a trail returns, with any brush, no pixel of the columns 0 to 80 changes, and neither do the buttons and the
  brush. Rows above the screen are left out: there a trail need not return, as the last lemma of this theory shows.
\<close>

theorem trail_spares_buttons:
  assumes "0 \<le> sint pre_y" "sint pre_y < 16000" "0 \<le> sint y" "sint y < 16000" and "sint pre_x < 16000" "sint x < 16000"
    and "65536 \<le> fuel" and "run_state (Draw_Trail fuel pre_x pre_y x y br) s = (v, t)"
  shows "v = True \<and> lcd_st.more t = lcd_st.more s \<and> (i \<le> 80 \<longrightarrow> picture g (bus t) (i, j) = picture g (bus s) (i, j))"
  using trail_spares [OF assms] keepsD [OF keeps_trail assms(8)] by (simp add: kept_def)

lemma trail_spares_buttons_witness:
  "\<exists>t. run_state (Draw_Trail 65536 90 10 100 20 \<lparr>brush_color = 0, brush_shape = 0\<rparr>) (lcd_reset (\<lambda>_. 0) font8) = (True, t) \<and>
     picture (\<lambda>_. 7) (bus t) (80, 10) = 7"
proof -
  obtain v t where run: "run_state (Draw_Trail 65536 90 10 100 20 \<lparr>brush_color = 0, brush_shape = 0\<rparr>) (lcd_reset (\<lambda>_. 0) font8) = (v, t)"
    by (metis prod.exhaust)
  have "picture g (bus (lcd_reset (\<lambda>_. 0) font8)) = g" for g by (simp add: lcd_reset_def picture_def panel0_def)
  then show ?thesis using run trail_spares_buttons [OF _ _ _ _ _ _ _ run, where g = "\<lambda>_. 7" and i = 80 and j = 10] by simp
qed

text \<open>A touch in the row above the screen, right below the last one, is a line to row 65535: drawing it never ends.\<close>

lemma trail_above_the_screen_hangs:
  assumes "81 < sint pre_x" and "81 < sint x" and "brush_shape br = 0"
  shows "fst (run_state (Draw_Trail fuel pre_x 0 x (- 1) br) s) = False"
proof -
  have "65534 \<le> line_length pre_x 0 x (- 1)" by (simp add: line_length_def unsigned_minus_1_eq_mask mask_eq_exp_minus_1)
  from line_hangs [OF this, of fuel s] show ?thesis using assms by (simp add: Draw_Trail_def)
qed

end
