(* ===== verification/Touch.thy ===== *)
theory Touch
  imports Palette_Trails
begin

text \<open>
  \<open>src/applications/bsp_lcd_xpt2046.c\<close>: the touch panel: sampling over a serial line driven by
  pins, smoothing, calibration, detection of a touch, and the event handler, which calls the drawing board. The state extends that of
  the drawing board. \<open>tlog\<close> is what happened on the pins; levels read are functions of it. Results
  of \<open>float\<close> operations pass through \<open>fl\<close>, the rounding to single precision, and those of \<open>double\<close> operations through \<open>db\<close>.
  \<open>fuel\<close> bounds the rounds of loops that draw or wait.
\<close>

section \<open>State\<close>

datatype touch_ev =
    Mosi bool
  | Clk bool
  | MisoRead bool
  | PenRead bool
  | TouchDelay u32
  | TouchPins nat "nat list" bool
  | ChipSelect bool
  | LedColour string

text \<open>A coordinate: signed, of 16 bits, read with \<open>sint\<close>.\<close>

record strType_XPT2046_Coordinate =
  t_x :: u16
  t_y :: u16
  pre_x :: u16
  pre_y :: u16

record strType_XPT2046_Calibration =
  An :: real
  Bn :: real
  Cn :: real
  Dn :: real
  En :: real
  Fn :: real
  Divider :: real

record strType_XPT2046_TouchPara =
  dX_X :: real
  dX_Y :: real
  dX :: real
  dY_X :: real
  dY_Y :: real
  dY :: real

datatype enumTouchState = XPT2046_STATE_RELEASE | XPT2046_STATE_WAITING | XPT2046_STATE_PRESSED

record touch_st = palette_st +
  tlog :: "touch_ev list"
  miso :: "touch_ev list \<Rightarrow> bool"
  pen :: "touch_ev list \<Rightarrow> bool"
  fl :: "real \<Rightarrow> real"
  db :: "real \<Rightarrow> real"
  strXPT2046_TouchPara :: "nat \<Rightarrow> strType_XPT2046_TouchPara"
  ucXPT2046_TouchFlag :: u8
  touch_state :: enumTouchState
  press_count :: u32
  cinfo :: strType_XPT2046_Coordinate

text \<open>The default parameters of the eight scan modes, in millionths.\<close>

definition para_table :: "int list list" where
  "para_table = [
     [- 6464, - 73259, 280358032, 74878, 2052, - 6545977],
     [86314, 1891, - 12836658, - 3722, - 65799, 254715714],
     [2782, 61522, - 11595689, 83393, 5159, - 15650089],
     [89743, - 289, - 20612209, - 1374, 64451, - 16054003],
     [767, - 68258, 250891769, - 85559, - 195, 334747650],
     [- 84744, 47, 323163147, - 2109, - 66371, 260985809],
     [- 1848, 66984, - 12807136, - 84858, - 805, 333395386],
     [- 85470, - 876, 334023163, - 3390, 64725, - 6211169]]"

definition default_para :: "(real \<Rightarrow> real) \<Rightarrow> nat \<Rightarrow> strType_XPT2046_TouchPara" where
  "default_para r i = (let q = (\<lambda>j. r (real_of_int (para_table ! i ! j) / 1000000)) in
     \<lparr>dX_X = q 0, dX_Y = q 1, dX = q 2, dY_X = q 3, dY_Y = q 4, dY = q 5\<rparr>)"

section \<open>Sampling\<close>

definition note_touch :: "touch_ev \<Rightarrow> ('z touch_st_scheme, unit) state" where
  "note_touch e = modify (\<lambda>s. s\<lparr>tlog := tlog s @ [e]\<rparr>)"

definition XPT2046_MISO :: "('z touch_st_scheme, bool) state" where
  "XPT2046_MISO = do { v \<leftarrow> gets (\<lambda>s. miso s (tlog s)); note_touch (MisoRead v); ret v }"

text \<open>Whether the panel is touched: the level of the pin is the active one, 0.\<close>

definition pen_active :: "('z touch_st_scheme, bool) state" where
  "pen_active = do { v \<leftarrow> gets (\<lambda>s. pen s (tlog s)); note_touch (PenRead v); ret (v = False) }"

definition XPT2046_DelayUS :: "u32 \<Rightarrow> ('z touch_st_scheme, unit) state" where
  "XPT2046_DelayUS ulCount = note_touch (TouchDelay ulCount)"

text \<open>The pins of the clock, the output, the chip select, the input and the pen interrupt. The chip-select macro named \<open>DISABLE\<close> drives its pin low.\<close>

definition XPT2046_Init :: "('z touch_st_scheme, unit) state" where
  "XPT2046_Init = do {
     note_touch (TouchPins 4 [0] True);
     note_touch (TouchPins 4 [2] True);
     note_touch (TouchPins 3 [13] True);
     note_touch (TouchPins 4 [3] False);
     note_touch (ChipSelect False);
     note_touch (TouchPins 4 [4] False)
   }"

definition XPT2046_WriteCMD :: "u8 \<Rightarrow> ('z touch_st_scheme, unit) state" where
  "XPT2046_WriteCMD ucCmd = do {
     note_touch (Mosi False);
     note_touch (Clk False);
     for_each [0..<8] (\<lambda>i. do {
       note_touch (Mosi (drop_bit (7 - i) ucCmd AND 1 \<noteq> 0));
       XPT2046_DelayUS 5;
       note_touch (Clk True);
       XPT2046_DelayUS 5;
       note_touch (Clk False)
     })
   }"

fun read_loop :: "nat list \<Rightarrow> u16 \<Rightarrow> ('z touch_st_scheme, u16) state" where
  "read_loop [] usBuf = ret usBuf"
| "read_loop (i # is) usBuf = do {
     note_touch (Clk False);
     usTemp \<leftarrow> XPT2046_MISO;
     note_touch (Clk True);
     read_loop is (usBuf OR push_bit (11 - i) (if usTemp then 1 else 0))
   }"

definition XPT2046_ReadCMD :: "('z touch_st_scheme, u16) state" where
  "XPT2046_ReadCMD = do { note_touch (Mosi False); note_touch (Clk True); read_loop [0..<12] 0 }"

definition XPT2046_ReadAdc :: "u8 \<Rightarrow> ('z touch_st_scheme, u16) state" where
  "XPT2046_ReadAdc ucChannel = do { XPT2046_WriteCMD ucChannel; XPT2046_ReadCMD }"

abbreviation (input) XPT2046_CHANNEL_X :: u8 where "XPT2046_CHANNEL_X \<equiv> 0x90"
abbreviation (input) XPT2046_CHANNEL_Y :: u8 where "XPT2046_CHANNEL_Y \<equiv> 0xd0"

definition XPT2046_ReadAdc_XY :: "('z touch_st_scheme, u16 \<times> u16) state" where
  "XPT2046_ReadAdc_XY = do {
     x \<leftarrow> XPT2046_ReadAdc XPT2046_CHANNEL_X;
     XPT2046_DelayUS 1;
     y \<leftarrow> XPT2046_ReadAdc XPT2046_CHANNEL_Y;
     ret (x, y)
   }"

text \<open>At most \<open>n\<close> samples, as long as the panel is touched; at least one.\<close>

primrec sample_loop :: "nat \<Rightarrow> ('z touch_st_scheme, (u16 \<times> u16) list) state" where
  "sample_loop 0 = ret []"
| "sample_loop (Suc n) = do {
     p \<leftarrow> XPT2046_ReadAdc_XY;
     a \<leftarrow> pen_active;
     if a \<and> n \<noteq> 0 then do { ps \<leftarrow> sample_loop n; ret (p # ps) } else ret [p]
   }"

definition extremes :: "int list \<Rightarrow> int \<times> int" where
  "extremes vs = foldl (\<lambda>(lo, hi) v. if v < lo then (v, hi) else if v > hi then (lo, v) else (lo, hi)) (hd vs, hd vs) (tl vs)"

text \<open>The mean of ten samples without the least and the greatest.\<close>

definition smooth :: "int list \<Rightarrow> u16" where
  "smooth vs = (let (lo, hi) = extremes vs in word_of_int (drop_bit 3 (sum_list vs - lo - hi)))"

text \<open>The variant that is compiled. \<open>Some\<close>: the result 1 and the coordinate stored; \<open>None\<close>: 0, and the coordinate stays.\<close>

definition XPT2046_ReadAdc_Smooth_XY :: "('z touch_st_scheme, (u16 \<times> u16) option) state" where
  "XPT2046_ReadAdc_Smooth_XY = do {
     ps \<leftarrow> sample_loop 10;
     a \<leftarrow> pen_active;
     when_true (\<not> a) (modify (\<lambda>s. s\<lparr>ucXPT2046_TouchFlag := 0\<rparr>));
     ret (if length ps = 10 then Some (smooth (map (sint \<circ> fst) ps), smooth (map (sint \<circ> snd) ps)) else None)
   }"

section \<open>Calibration\<close>

text \<open>The code's \<open>int\<close>: 32 bits.\<close>

definition int32 :: "int \<Rightarrow> int" where
  "int32 v = sint (word_of_int v :: u32)"

definition minor :: "int \<Rightarrow> int \<Rightarrow> int \<Rightarrow> int \<Rightarrow> int \<Rightarrow> int \<Rightarrow> int" where
  "minor u0 u1 u2 v0 v1 v2 = (u0 - u2) * (v1 - v2) - (u1 - u2) * (v0 - v2)"

definition offset_term :: "int \<Rightarrow> int \<Rightarrow> int \<Rightarrow> int \<Rightarrow> int \<Rightarrow> int \<Rightarrow> int \<Rightarrow> int \<Rightarrow> int \<Rightarrow> int" where
  "offset_term d0 d1 d2 x0 x1 x2 y0 y1 y2 = (x2 * d1 - x1 * d2) * y0 + (x0 * d2 - x2 * d0) * y1 + (x1 * d0 - x0 * d1) * y2"

text \<open>The points displayed, the samples taken there, and what the structure held before.\<close>

definition XPT2046_Calculate_CalibrationFactor ::
  "(real \<Rightarrow> real) \<Rightarrow> (int \<times> int) list \<Rightarrow> (int \<times> int) list \<Rightarrow> strType_XPT2046_Calibration \<Rightarrow> bool \<times> strType_XPT2046_Calibration" where
  "XPT2046_Calculate_CalibrationFactor r ds ss old =
     (let xd = (\<lambda>i. fst (ds ! i)); yd = (\<lambda>i. snd (ds ! i)); x = (\<lambda>i. fst (ss ! i)); y = (\<lambda>i. snd (ss ! i));
          f = (\<lambda>v. r (real_of_int (int32 v)));
          k = old\<lparr>Divider := f (minor (x 0) (x 1) (x 2) (y 0) (y 1) (y 2))\<rparr>
      in if Divider k = 0 then (False, k)
         else (True, k\<lparr>
           An := f (minor (xd 0) (xd 1) (xd 2) (y 0) (y 1) (y 2)),
           Bn := f (minor (x 0) (x 1) (x 2) (xd 0) (xd 1) (xd 2)),
           Cn := f (offset_term (xd 0) (xd 1) (xd 2) (x 0) (x 1) (x 2) (y 0) (y 1) (y 2)),
           Dn := f (minor (yd 0) (yd 1) (yd 2) (y 0) (y 1) (y 2)),
           En := f (minor (x 0) (x 1) (x 2) (yd 0) (yd 1) (yd 2)),
           Fn := f (offset_term (yd 0) (yd 1) (yd 2) (x 0) (x 1) (x 2) (y 0) (y 1) (y 2))\<rparr>))"

definition ILI9341_DrawCross :: "nat \<Rightarrow> u16 \<Rightarrow> u16 \<Rightarrow> ('z lcd_st_scheme, bool) state" where
  "ILI9341_DrawCross fuel usX usY =
     and_then (ILI9341_DrawLine fuel (usX - 10) usY (usX + 10) usY) (ILI9341_DrawLine fuel usX (usY - 10) usX (usY + 10))"

text \<open>A text behind blanks; a width of less than one still prints one.\<close>

definition padded :: "int \<Rightarrow> string \<Rightarrow> u8 list" where
  "padded w msg = chars (replicate (nat (max 1 w)) CHR '' '' @ msg)"

text \<open>The blanks before a centred text: the length is unsigned, and so are the difference and the quotient.\<close>

definition centred :: "string \<Rightarrow> ('z lcd_st_scheme, u8 list) state" where
  "centred msg = do {
     xl \<leftarrow> gets LCD_X_LENGTH;
     f \<leftarrow> LCD_GetFont;
     ret (padded (uint ((word_of_int (uint xl div uint (Width f)) - of_nat (length msg) :: u32) div 2)) msg)
   }"

primrec wait_sample :: "nat \<Rightarrow> ('z touch_st_scheme, (u16 \<times> u16) option) state" where
  "wait_sample 0 = ret None"
| "wait_sample (Suc fuel) = do {
     p \<leftarrow> XPT2046_ReadAdc_Smooth_XY;
     case p of None \<Rightarrow> wait_sample fuel | Some q \<Rightarrow> ret (Some q)
   }"

text \<open>Point \<open>i\<close> of the calibration: the texts, a cross, and a sample; \<open>None\<close> if a loop does not end.\<close>

definition calibrate_point :: "nat \<Rightarrow> nat \<Rightarrow> u16 \<times> u16 \<Rightarrow> ('z touch_st_scheme, (u16 \<times> u16) option) state" where
  "calibrate_point fuel i p = do {
     xl \<leftarrow> gets LCD_X_LENGTH;
     yl \<leftarrow> gets LCD_Y_LENGTH;
     Lcd.ILI9341_Clear 0 0 xl yl;
     cStr \<leftarrow> centred ''Touch Calibrate ......'';
     Lcd.ILI9341_DispStringLine_EN (drop_bit 1 yl) cStr;
     f \<leftarrow> LCD_GetFont;
     Lcd.ILI9341_DispStringLine_EN (drop_bit 1 yl - Height f) (padded ((uint xl div uint (Width f) - 1) sdiv 2) (show_int (int i + 1)));
     XPT2046_DelayUS 300000;
     b \<leftarrow> ILI9341_DrawCross fuel (fst p) (snd p);
     if b then wait_sample fuel else ret None
   }"

primrec calibrate_points :: "(u16 \<times> u16) list \<Rightarrow> nat \<Rightarrow> nat \<Rightarrow> ('z touch_st_scheme, (u16 \<times> u16) list option) state" where
  "calibrate_points [] fuel i = ret (Some [])"
| "calibrate_points (p # ps) fuel i = do {
     q \<leftarrow> calibrate_point fuel i p;
     case q of None \<Rightarrow> ret None
     | Some q \<Rightarrow> do { qs \<leftarrow> calibrate_points ps fuel (i + 1); ret (map_option (Cons q) qs) }
   }"

text \<open>The crosses: at a quarter and three quarters of the screen, computed as \<open>int\<close>.\<close>

definition crosses :: "u16 \<Rightarrow> u16 \<Rightarrow> (u16 \<times> u16) list" where
  "crosses xl yl =
     (let x0 = word_of_int (uint xl div 4); x1 = word_of_int (uint xl * 3 div 4); y0 = word_of_int (uint yl div 4); y1 = word_of_int (uint yl * 3 div 4)
      in [(x0, y0), (x0, y1), (x1, y1), (x1, y0)])"

text \<open>The test with the fourth point: where the factors put its sample, and how far off the cross that is.\<close>

definition test_gap :: "(real \<Rightarrow> real) \<Rightarrow> real \<Rightarrow> real \<Rightarrow> real \<Rightarrow> real \<Rightarrow> u16 \<times> u16 \<Rightarrow> u16 \<Rightarrow> u16" where
  "test_gap r a b c k s d =
     (let usTest = (word_of_int (trunc (r (r (r (r (a * real_of_int (sint (fst s))) + r (b * real_of_int (sint (snd s)))) + c) / k))) :: u16)
      in if uint usTest > sint d then word_of_int (uint usTest - sint d) else word_of_int (sint d - uint usTest))"

definition touch_para :: "(real \<Rightarrow> real) \<Rightarrow> (real \<Rightarrow> real) \<Rightarrow> strType_XPT2046_Calibration \<Rightarrow> strType_XPT2046_TouchPara" where
  "touch_para r d k = (let q = (\<lambda>v. r (d (v / Divider k))) in
     \<lparr>dX_X = q (An k), dX_Y = q (Bn k), dX = q (Cn k), dY_X = q (Dn k), dY_Y = q (En k), dY = q (Fn k)\<rparr>)"

definition calibrate_fails :: "('z touch_st_scheme, bool option) state" where
  "calibrate_fails = do {
     xl \<leftarrow> gets LCD_X_LENGTH;
     yl \<leftarrow> gets LCD_Y_LENGTH;
     Lcd.ILI9341_Clear 0 0 xl yl;
     Lcd.LCD_SetTextColor RED;
     cStr \<leftarrow> centred ''Calibrate fail'';
     Lcd.ILI9341_DispStringLine_EN (drop_bit 1 yl) cStr;
     cStr \<leftarrow> centred ''try again'';
     f \<leftarrow> LCD_GetFont;
     Lcd.ILI9341_DispStringLine_EN (drop_bit 1 yl + Height f) cStr;
     XPT2046_DelayUS 1000000;
     ret (Some False)
   }"

text \<open>\<open>garbage\<close> is what the structure on the stack held.\<close>

definition XPT2046_Touch_Calibrate ::
  "(lcd_font \<Rightarrow> nat \<Rightarrow> u8) \<Rightarrow> nat \<Rightarrow> strType_XPT2046_Calibration \<Rightarrow> u8 \<Rightarrow> ('z touch_st_scheme, bool option) state" where
  "XPT2046_Touch_Calibrate F fuel garbage LCD_Mode = do {
     Lcd.LCD_SetFont (font_of F Font8x16);
     Lcd.LCD_SetColors BLUE BLACK;
     Lcd.ILI9341_GramScan LCD_Mode;
     xl \<leftarrow> gets LCD_X_LENGTH;
     yl \<leftarrow> gets LCD_Y_LENGTH;
     let ds = crosses xl yl;
     sampled \<leftarrow> calibrate_points ds fuel 0;
     case sampled of
       None \<Rightarrow> ret None
     | Some ss \<Rightarrow> do {
         r \<leftarrow> gets fl;
         d \<leftarrow> gets db;
         let signed = map (\<lambda>(a, b). (sint a, sint b));
         let k = snd (XPT2046_Calculate_CalibrationFactor r (signed ds) (signed ss) garbage);
         if Divider k = 0 \<or> test_gap r (An k) (Bn k) (Cn k) (Divider k) (ss ! 3) (fst (ds ! 3)) > 15 \<or>
            test_gap r (Dn k) (En k) (Fn k) (Divider k) (ss ! 3) (snd (ds ! 3)) > 15
         then calibrate_fails
         else do {
           modify (\<lambda>s. s\<lparr>strXPT2046_TouchPara := (strXPT2046_TouchPara s)(unat LCD_Mode := touch_para r d k)\<rparr>);
           Lcd.ILI9341_Clear 0 0 xl yl;
           Lcd.LCD_SetTextColor GREEN;
           cStr \<leftarrow> centred ''Calibrate Succed'';
           Lcd.ILI9341_DispStringLine_EN (drop_bit 1 yl) cStr;
           XPT2046_DelayUS 1000000;
           ret (Some True)
         }
       }
   }"

section \<open>Touches\<close>

abbreviation (input) DURIATION_TIME :: u32 where "DURIATION_TIME \<equiv> 2"

definition XPT2046_TouchDetect :: "('z touch_st_scheme, bool) state" where
  "XPT2046_TouchDetect = do {
     st \<leftarrow> gets touch_state;
     case st of
       XPT2046_STATE_RELEASE \<Rightarrow> do {
         a \<leftarrow> pen_active;
         if a then do { modify (\<lambda>s. s\<lparr>touch_state := XPT2046_STATE_WAITING\<rparr>); ret False }
         else do { modify (\<lambda>s. s\<lparr>touch_state := XPT2046_STATE_RELEASE\<rparr>); ret False }
       }
     | XPT2046_STATE_WAITING \<Rightarrow> do {
         a \<leftarrow> pen_active;
         if a then do {
           modify (\<lambda>s. s\<lparr>press_count := press_count s + 1\<rparr>);
           i \<leftarrow> gets press_count;
           if i > DURIATION_TIME
           then do { modify (\<lambda>s. s\<lparr>press_count := 0, touch_state := XPT2046_STATE_PRESSED\<rparr>); ret True }
           else do { modify (\<lambda>s. s\<lparr>touch_state := XPT2046_STATE_WAITING\<rparr>); ret False }
         }
         else do { modify (\<lambda>s. s\<lparr>press_count := 0, touch_state := XPT2046_STATE_RELEASE\<rparr>); ret False }
       }
     | XPT2046_STATE_PRESSED \<Rightarrow> do {
         a \<leftarrow> pen_active;
         if a then do { modify (\<lambda>s. s\<lparr>touch_state := XPT2046_STATE_PRESSED\<rparr>); ret True }
         else do { modify (\<lambda>s. s\<lparr>touch_state := XPT2046_STATE_RELEASE\<rparr>); ret False }
       }
   }"

text \<open>The result is converted to 16 bits; a value that does not fit is undefined in C.\<close>

definition touched_axis :: "(real \<Rightarrow> real) \<Rightarrow> real \<Rightarrow> real \<Rightarrow> real \<Rightarrow> int \<Rightarrow> int \<Rightarrow> u16" where
  "touched_axis r a b c x y = word_of_int (trunc (r (r (r (a * real_of_int x) + r (b * real_of_int y)) + c)))"

definition XPT2046_Get_TouchedPoint :: "('z touch_st_scheme, (u16 \<times> u16) option) state" where
  "XPT2046_Get_TouchedPoint = do {
     p \<leftarrow> XPT2046_ReadAdc_Smooth_XY;
     r \<leftarrow> gets fl;
     k \<leftarrow> gets (\<lambda>s. strXPT2046_TouchPara s (unat (LCD_SCAN_MODE s)));
     ret (map_option (\<lambda>(x, y). (touched_axis r (dX_X k) (dX_Y k) (dX k) (sint x) (sint y),
       touched_axis r (dY_X k) (dY_Y k) (dY k) (sint x) (sint y))) p)
   }"

definition XPT2046_TouchDown :: "(lcd_font \<Rightarrow> nat \<Rightarrow> u8) \<Rightarrow> nat \<Rightarrow> strType_XPT2046_Coordinate \<Rightarrow> ('z touch_st_scheme, bool) state" where
  "XPT2046_TouchDown F fuel touch =
     (if pre_x touch = - 1 \<and> pre_y touch = - 1 then ret True
      else and_then (Touch_Button_Down F fuel (t_x touch) (t_y touch))
        (do { br \<leftarrow> gets brush; Draw_Trail fuel (pre_x touch) (pre_y touch) (t_x touch) (t_y touch) br }))"

definition XPT2046_TouchUp :: "(lcd_font \<Rightarrow> nat \<Rightarrow> u8) \<Rightarrow> nat \<Rightarrow> strType_XPT2046_Coordinate \<Rightarrow> ('z touch_st_scheme, bool) state" where
  "XPT2046_TouchUp F fuel touch =
     (if pre_x touch = - 1 \<and> pre_y touch = - 1 then ret True else Touch_Button_Up F fuel (pre_x touch) (pre_y touch))"

definition XPT2046_TouchEvenHandler :: "(lcd_font \<Rightarrow> nat \<Rightarrow> u8) \<Rightarrow> nat \<Rightarrow> ('z touch_st_scheme, bool) state" where
  "XPT2046_TouchEvenHandler F fuel = do {
     pressed \<leftarrow> XPT2046_TouchDetect;
     if pressed then do {
       note_touch (LedColour ''LED_GREEN'');
       p \<leftarrow> XPT2046_Get_TouchedPoint;
       (case p of None \<Rightarrow> ret () | Some (x, y) \<Rightarrow> modify (\<lambda>s. s\<lparr>cinfo := (cinfo s)\<lparr>t_x := x, t_y := y\<rparr>\<rparr>));
       c \<leftarrow> gets cinfo;
       and_then (XPT2046_TouchDown F fuel c)
         (always (modify (\<lambda>s. s\<lparr>cinfo := (cinfo s)\<lparr>pre_x := t_x (cinfo s), pre_y := t_y (cinfo s)\<rparr>\<rparr>)))
     }
     else do {
       note_touch (LedColour ''LED_BLUE'');
       c \<leftarrow> gets cinfo;
       and_then (XPT2046_TouchUp F fuel c)
         (always (modify (\<lambda>s. s\<lparr>cinfo := \<lparr>t_x = - 1, t_y = - 1, pre_x = - 1, pre_y = - 1\<rparr>\<rparr>)))
     }
   }"

end
