(* ===== verification/Touch_Panel.thy ===== *)
theory Touch_Panel
  imports Touch "HOL-Library.Multiset"
begin

text \<open>
  What the touch panel's functions compute: a touch is recognised after four active readings, samples are smoothed by a
  trimmed mean, the calibration maps the samples to the points displayed, and the event handler keeps the drawing board's invariant.
\<close>

section \<open>Detecting a touch\<close>

text \<open>\<open>n\<close> calls and their results.\<close>

primrec detects :: "nat \<Rightarrow> ('z touch_st_scheme, bool list) state" where
  "detects 0 = ret []"
| "detects (Suc n) = do { b \<leftarrow> XPT2046_TouchDetect; bs \<leftarrow> detects n; ret (b # bs) }"

text \<open>The state machine counts active readings up to four.\<close>

definition streak_is :: "nat \<Rightarrow> 'z touch_st_scheme \<Rightarrow> bool" where
  "streak_is c s \<longleftrightarrow>
     c = 0 \<and> touch_state s = XPT2046_STATE_RELEASE \<and> press_count s = 0 \<or>
     1 \<le> c \<and> c \<le> 3 \<and> touch_state s = XPT2046_STATE_WAITING \<and> press_count s = of_nat (c - 1) \<or>
     c = 4 \<and> touch_state s = XPT2046_STATE_PRESSED \<and> press_count s = 0"

definition streak_step :: "nat \<Rightarrow> bool \<Rightarrow> nat" where
  "streak_step c v = (if v then 0 else min 4 (c + 1))"

lemma run_pen_active: "run_state pen_active s = (\<not> pen s (tlog s), s\<lparr>tlog := tlog s @ [PenRead (pen s (tlog s))]\<rparr>)"
  by (simp add: pen_active_def note_touch_def)

lemma run_detect:
  assumes "streak_is c s" and "v = pen s (tlog s)"
  shows "\<exists>t. run_state XPT2046_TouchDetect s = (streak_step c v = 4, t) \<and> streak_is (streak_step c v) t \<and> tlog t = tlog s @ [PenRead v] \<and> pen t = pen s"
proof -
  have "c \<in> {0, 1, 2, 3, 4}" using assms(1) by (auto simp: streak_is_def)
  then show ?thesis using assms
    by (elim insertE emptyE) (simp_all add: streak_is_def streak_step_def XPT2046_TouchDetect_def run_pen_active)
qed

lemma run_detects:
  "streak_is c s \<Longrightarrow> \<exists>vs t. run_state (detects n) s = (map (\<lambda>k. foldl streak_step c (take (Suc k) vs) = 4) [0..<n], t) \<and>
     length vs = n \<and> tlog t = tlog s @ map PenRead vs \<and> (\<forall>v. pen s = (\<lambda>_. v) \<longrightarrow> vs = replicate n v)"
proof (induction n arbitrary: c s)
  case (Suc n)
  define v where "v = pen s (tlog s)"
  obtain u where u: "run_state XPT2046_TouchDetect s = (streak_step c v = 4, u)" "streak_is (streak_step c v) u" "tlog u = tlog s @ [PenRead v]" "pen u = pen s"
    using run_detect [OF Suc.prems v_def] by blast
  obtain vs t where t: "run_state (detects n) u = (map (\<lambda>k. foldl streak_step (streak_step c v) (take (Suc k) vs) = 4) [0..<n], t)"
    "length vs = n" "tlog t = tlog u @ map PenRead vs" "\<forall>v. pen u = (\<lambda>_. v) \<longrightarrow> vs = replicate n v" using Suc.IH [OF u(2)] by blast
  have "run_state (detects (Suc n)) s = (map (\<lambda>k. foldl streak_step c (take (Suc k) (v # vs)) = 4) [0..<Suc n], t)"
    using u(1) t(1) by (simp add: map_upt_Suc del: upt_Suc)
  then show ?case using t u v_def by (intro exI [of _ "v # vs"] exI [of _ t]) auto
qed simp

lemma streak_length: "m \<le> 4 \<Longrightarrow> k < length vs \<Longrightarrow> m \<le> foldl streak_step 0 (take (Suc k) vs) \<longleftrightarrow> m \<le> Suc k \<and> (\<forall>j. k < j + m \<and> j \<le> k \<longrightarrow> \<not> vs ! j)"
proof (induction k arbitrary: m)
  case 0
  then show ?case by (cases vs; cases m) (auto simp: streak_step_def)
next
  case (Suc k)
  have snoc: "foldl streak_step 0 (take (Suc (Suc k)) vs) = streak_step (foldl streak_step 0 (take (Suc k) vs)) (vs ! Suc k)"
    using Suc.prems(2) by (simp add: take_Suc_conv_app_nth)
  show ?case
  proof (cases m)
    case (Suc n)
    have ih: "n \<le> foldl streak_step 0 (take (Suc k) vs) \<longleftrightarrow> n \<le> Suc k \<and> (\<forall>j. k < j + n \<and> j \<le> k \<longrightarrow> \<not> vs ! j)"
      using Suc.IH [of n] Suc.prems Suc by simp
    have "m \<le> foldl streak_step 0 (take (Suc (Suc k)) vs) \<longleftrightarrow> \<not> vs ! Suc k \<and> n \<le> foldl streak_step 0 (take (Suc k) vs)"
      using Suc.prems(1) Suc unfolding snoc streak_step_def by auto
    also have "\<dots> \<longleftrightarrow> m \<le> Suc (Suc k) \<and> (\<forall>j. Suc k < j + m \<and> j \<le> Suc k \<longrightarrow> \<not> vs ! j)"
      unfolding ih Suc by (auto simp: le_Suc_eq)
    finally show ?thesis .
  qed auto
qed

text \<open>
  C35: touches are debounced: with the detector released, a call reports a touch exactly if the readings of the pen of this
  call and the three before were all active (low); each call reads the pen once and does nothing else on the pins.
\<close>

theorem touch_is_debounced:
  assumes "touch_state s = XPT2046_STATE_RELEASE" and "press_count s = 0" and "run_state (detects n) s = (rs, t)"
  shows "\<exists>vs. length vs = n \<and> length rs = n \<and> tlog t = tlog s @ map PenRead vs \<and>
    (\<forall>k<n. rs ! k \<longleftrightarrow> 3 \<le> k \<and> \<not> vs ! k \<and> \<not> vs ! (k - 1) \<and> \<not> vs ! (k - 2) \<and> \<not> vs ! (k - 3))"
proof -
  have "streak_is 0 s" using assms(1,2) by (simp add: streak_is_def)
  from run_detects [OF this, of n] obtain vs where vs: "rs = map (\<lambda>k. foldl streak_step 0 (take (Suc k) vs) = 4) [0..<n]" "length vs = n"
    "tlog t = tlog s @ map PenRead vs" using assms(3) by auto
  have "rs ! k \<longleftrightarrow> 3 \<le> k \<and> \<not> vs ! k \<and> \<not> vs ! (k - 1) \<and> \<not> vs ! (k - 2) \<and> \<not> vs ! (k - 3)" if "k < n" for k
  proof -
    have "foldl streak_step 0 ws \<le> 4" for ws by (induction ws rule: rev_induct) (simp_all add: streak_step_def)
    then have "rs ! k \<longleftrightarrow> 4 \<le> foldl streak_step 0 (take (Suc k) vs)" using vs(1) that by (simp add: order_antisym_conv)
    also have "\<dots> \<longleftrightarrow> 4 \<le> Suc k \<and> (\<forall>j. k < j + 4 \<and> j \<le> k \<longrightarrow> \<not> vs ! j)" using vs(2) that by (intro streak_length) simp_all
    also have "\<dots> \<longleftrightarrow> 3 \<le> k \<and> (\<forall>j\<in>{k - 3, k - 2, k - 1, k}. \<not> vs ! j)"
    proof (cases "3 \<le> k")
      case True
      then have e: "k < j + 4 \<and> j \<le> k \<longleftrightarrow> j \<in> {k - 3, k - 2, k - 1, k}" for j by auto
      show ?thesis unfolding e using True by auto
    qed simp
    finally show ?thesis by auto
  qed
  then show ?thesis using vs by auto
qed

definition touch_example :: touch_st where
  "touch_example = palette_st.extend (palette_st.truncate board_example)
     (touch_st.fields [] (\<lambda>_. False) (\<lambda>_. False) (\<lambda>v. v) (\<lambda>v. v) (default_para (\<lambda>v. v)) 0 XPT2046_STATE_RELEASE 0
       \<lparr>t_x = - 1, t_y = - 1, pre_x = - 1, pre_y = - 1\<rparr>)"

lemma example_touch: "touch_state touch_example = XPT2046_STATE_RELEASE" "press_count touch_example = 0" "pen touch_example = (\<lambda>_. False)"
  "tlog touch_example = []" "miso touch_example = (\<lambda>_. False)"
  by (simp_all add: touch_example_def palette_st.defs touch_st.defs)

text \<open>A pen that stays on the panel is reported by the fourth and the fifth call.\<close>

lemma touch_is_debounced_witness: "\<exists>rs t. run_state (detects 5) touch_example = (rs, t) \<and> rs = [False, False, False, True, True]"
proof -
  obtain rs t where run: "run_state (detects 5) touch_example = (rs, t)" by (metis prod.exhaust)
  from touch_is_debounced [OF example_touch(1,2) run]
  obtain vs where vs: "length vs = 5" "length rs = 5" "tlog t = map PenRead vs"
    "\<forall>k<5. rs ! k \<longleftrightarrow> 3 \<le> k \<and> \<not> vs ! k \<and> \<not> vs ! (k - 1) \<and> \<not> vs ! (k - 2) \<and> \<not> vs ! (k - 3)"
    by (auto simp: example_touch)
  obtain ws where "tlog t = map PenRead ws" "ws = replicate 5 False"
    using run_detects [of 0 touch_example 5] run by (auto simp: streak_is_def example_touch)
  then have "map PenRead vs = map PenRead (replicate 5 False)" using vs(3) by simp
  then have "vs = replicate 5 False" by (rule map_injective) (simp add: inj_def)
  then have low: "\<not> vs ! k" if "k < 5" for k using that by simp
  have "\<forall>k<5. rs ! k \<longleftrightarrow> 3 \<le> k" using vs(4) low by (meson diff_le_self le_less_trans)
  then have "rs = map (\<lambda>k. 3 \<le> k) [0..<5]" using vs(2) by (intro nth_equalityI) simp_all
  then show ?thesis using run by (simp add: upt_rec)
qed

section \<open>Smoothing\<close>

lemma extremes: "vs \<noteq> [] \<Longrightarrow> extremes vs = (Min (set vs), Max (set vs))"
proof (induction vs rule: rev_nonempty_induct)
  case (snoc v vs)
  obtain lo hi where e: "extremes vs = (lo, hi)" "Min (set vs) = lo" "Max (set vs) = hi" "lo \<le> hi" using snoc by simp
  have "extremes (vs @ [v]) = (case extremes vs of (lo, hi) \<Rightarrow> if v < lo then (v, hi) else if v > hi then (lo, v) else (lo, hi))"
    using snoc(1) by (cases vs) (simp_all add: extremes_def split_beta)
  moreover have "Min (set (vs @ [v])) = min v lo" "Max (set (vs @ [v])) = max v hi" using snoc(1) by (simp_all add: e(2,3))
  ultimately show ?case using e(1,4) by (simp add: min_def max_def)
qed (simp add: extremes_def)

lemma ten: "map f [0..<10] = [f 0, f 1, f 2, f 3, f 4, f 5, f 6, f 7, f 8, f 9]"
  by (simp add: upt_rec eval_nat_numeral)

lemma trimmed_mean:
  fixes vs :: "int list"
  assumes "length vs = 10"
  shows "sort vs ! 1 \<le> (sum_list vs - Min (set vs) - Max (set vs)) div 8" "(sum_list vs - Min (set vs) - Max (set vs)) div 8 \<le> sort vs ! 8"
proof -
  have "sort vs = map ((!) (sort vs)) [0..<10]" using map_nth [of "sort vs"] assms by simp
  then obtain a b c d e f g h i j where v: "sort vs = [a, b, c, d, e, f, g, h, i, j]" by (simp only: ten)
  have "sorted (sort vs)" by simp
  then have le: "a \<le> b" "b \<le> c" "c \<le> d" "d \<le> e" "e \<le> f" "f \<le> g" "g \<le> h" "h \<le> i" "i \<le> j" unfolding v by simp_all
  have "set vs = {a, b, c, d, e, f, g, h, i, j}" using arg_cong [OF v, of set] by simp
  then have "Min (set vs) = a" "Max (set vs) = j" using le by (auto intro!: Min_eqI Max_eqI)
  moreover have "sum_list vs = sum_list (sort vs)" by (metis mset_sort sum_mset_sum_list)
  ultimately have "sum_list vs - Min (set vs) - Max (set vs) = b + c + d + e + f + g + h + i" unfolding v by simp
  then show "sort vs ! 1 \<le> (sum_list vs - Min (set vs) - Max (set vs)) div 8" "(sum_list vs - Min (set vs) - Max (set vs)) div 8 \<le> sort vs ! 8"
    using le unfolding v by simp_all
qed

text \<open>What an operation returns, whatever the state.\<close>

definition answers :: "('a \<Rightarrow> bool) \<Rightarrow> ('s, 'a) state \<Rightarrow> bool" where
  "answers P m \<longleftrightarrow> (\<forall>s. P (fst (run_state m s)))"

lemma answers_bind: "answers Q m \<Longrightarrow> (\<And>x. Q x \<Longrightarrow> answers P (k x)) \<Longrightarrow> answers P (m \<bind> k)"
  unfolding answers_def fst_run_bind by blast

lemma answers_any: "answers (\<lambda>_. True) m"
  by (simp add: answers_def)

lemma answers_after: "(\<And>x. answers P (k x)) \<Longrightarrow> answers P (m \<bind> k)"
  by (rule answers_bind [OF answers_any])

lemma answers_ret: "P x \<Longrightarrow> answers P (ret x)"
  by (simp add: answers_def)

text \<open>Samples have twelve bits.\<close>

abbreviation sample_ok :: "u16 \<Rightarrow> bool" where
  "sample_ok v \<equiv> take_bit 12 v = v"

lemma sample_bit: "k \<le> 11 \<Longrightarrow> sample_ok (push_bit k (if b then 1 else 0))"
proof -
  assume "k \<le> 11"
  then have "k \<in> {0, 1, 2, 3, 4, 5, 6, 7, 8, 9, 10, 11}" unfolding insert_iff empty_iff by presburger
  then show ?thesis by (elim insertE emptyE) simp_all
qed

lemma sample_range: "sample_ok v \<Longrightarrow> uint v < 4096 \<and> sint v = uint v"
proof -
  assume "sample_ok v"
  then have "uint v = take_bit 12 (uint v)" by (metis unsigned_take_bit_eq)
  then have "uint v < 4096" using take_bit_int_less_exp [of 12 "uint v"] by simp
  moreover have "sint (word_of_int (uint v) :: u16) = uint v" using calculation by (intro sint_16; simp add: order_trans [of _ 0])
  ultimately show ?thesis by simp
qed

lemma answers_read_loop: "sample_ok b \<Longrightarrow> answers sample_ok (read_loop is b)"
proof (induction "is" arbitrary: b)
  case (Cons i "is")
  have "sample_ok (b OR push_bit (11 - i) (if v then 1 else 0))" for v
    using Cons.prems sample_bit [of "11 - i" v] by (simp only: take_bit_or diff_le_self)
  then show ?case by (auto intro!: answers_after Cons.IH simp del: push_bit_of_1)
qed (simp add: answers_ret)

lemma answers_read: "answers sample_ok (XPT2046_ReadAdc c)"
  unfolding XPT2046_ReadAdc_def XPT2046_ReadCMD_def by (intro answers_after answers_read_loop) simp

definition samples_ok :: "(u16 \<times> u16) list \<Rightarrow> bool" where
  "samples_ok ps \<longleftrightarrow> (\<forall>(a, b)\<in>set ps. sample_ok a \<and> sample_ok b)"

lemma answers_xy: "answers (\<lambda>p. sample_ok (fst p) \<and> sample_ok (snd p)) XPT2046_ReadAdc_XY"
  unfolding XPT2046_ReadAdc_XY_def by (rule answers_bind [OF answers_read], rule answers_after, rule answers_bind [OF answers_read], rule answers_ret) simp

lemma answers_samples: "answers (\<lambda>ps. samples_ok ps \<and> length ps \<le> n \<and> (n \<noteq> 0 \<longrightarrow> ps \<noteq> [])) (sample_loop n :: ('z touch_st_scheme, (u16 \<times> u16) list) state)"
proof (induction n)
  case (Suc n)
  show ?case unfolding sample_loop.simps
  proof (rule answers_bind [OF answers_xy], rule answers_after)
    fix p :: "u16 \<times> u16" and a
    assume p: "sample_ok (fst p) \<and> sample_ok (snd p)"
    have "answers (\<lambda>ps. samples_ok ps \<and> length ps \<le> Suc n \<and> (Suc n \<noteq> 0 \<longrightarrow> ps \<noteq> []))
        (do { ps \<leftarrow> sample_loop n; ret (p # ps) } :: ('z touch_st_scheme, (u16 \<times> u16) list) state)"
      using p by (intro answers_bind [OF Suc] answers_ret) (auto simp: samples_ok_def)
    then show "answers (\<lambda>ps. samples_ok ps \<and> length ps \<le> Suc n \<and> (Suc n \<noteq> 0 \<longrightarrow> ps \<noteq> []))
        (if a \<and> n \<noteq> 0 then do { ps \<leftarrow> sample_loop n; ret (p # ps) } else ret [p] :: ('z touch_st_scheme, (u16 \<times> u16) list) state)"
      using p by (auto intro!: answers_ret simp: samples_ok_def)
  qed
qed (simp add: answers_ret samples_ok_def)

text \<open>The mean of all but the least and the greatest, between the second least and the second greatest.\<close>

definition trimmed :: "int list \<Rightarrow> int \<Rightarrow> bool" where
  "trimmed vs v \<longleftrightarrow> v = (sum_list vs - Min (set vs) - Max (set vs)) div 8 \<and> sort vs ! 1 \<le> v \<and> v \<le> sort vs ! 8"

lemma smooth_trimmed:
  assumes "length vs = 10" and "\<forall>v\<in>set vs. 0 \<le> v \<and> v < 4096"
  shows "trimmed vs (uint (smooth vs))"
proof -
  define m where "m = (sum_list vs - Min (set vs) - Max (set vs)) div 8"
  note t = trimmed_mean [OF assms(1), folded m_def]
  have "sort vs ! k \<in> set vs" if "k < 10" for k using nth_mem [of k "sort vs"] that assms(1) by simp
  then have "0 \<le> sort vs ! 1" "sort vs ! 8 < 4096" using assms(2) by simp_all
  then have "0 \<le> m" "m < 4096" using t by linarith+
  moreover have w: "smooth vs = word_of_int m"
  proof -
    have "vs \<noteq> []" using assms(1) by auto
    then show ?thesis by (simp add: smooth_def m_def drop_bit_int_def extremes)
  qed
  ultimately have "uint (smooth vs) = m" unfolding w unsigned_of_int by (simp add: take_bit_int_eq_self)
  then show ?thesis using t by (simp add: trimmed_def m_def)
qed

text \<open>
  C36: sampling: between one and ten pairs of values below 4096 are read; with ten, the result is for each
  axis the mean of the eight values left without one least and one greatest, rounded down, which lies between the second
  least and the second greatest; with fewer, there is no result.
\<close>

theorem samples_are_smoothed:
  assumes "run_state XPT2046_ReadAdc_Smooth_XY s = (r, t)" and "run_state (sample_loop 10) s = (ps, u)"
  shows "1 \<le> length ps \<and> length ps \<le> 10 \<and> (\<forall>(a, b)\<in>set ps. uint a < 4096 \<and> uint b < 4096) \<and>
    (case r of None \<Rightarrow> length ps < 10
     | Some (x, y) \<Rightarrow> length ps = 10 \<and> trimmed (map (\<lambda>p. uint (fst p)) ps) (uint x) \<and> trimmed (map (\<lambda>p. uint (snd p)) ps) (uint y))"
proof -
  have ps: "samples_ok ps" "length ps \<le> 10" "ps \<noteq> []" using answers_samples [of 10] assms(2) unfolding answers_def by (metis fst_conv zero_neq_numeral)+
  then have range: "\<forall>(a, b)\<in>set ps. uint a < 4096 \<and> uint b < 4096" by (auto simp: samples_ok_def sample_range)
  have signed: "map (sint \<circ> fst) ps = map (\<lambda>p. uint (fst p)) ps" "map (sint \<circ> snd) ps = map (\<lambda>p. uint (snd p)) ps"
    using ps(1) by (auto simp: samples_ok_def sample_range)
  have r: "r = (if length ps = 10 then Some (smooth (map (\<lambda>p. uint (fst p)) ps), smooth (map (\<lambda>p. uint (snd p)) ps)) else None)"
    using assms by (simp add: XPT2046_ReadAdc_Smooth_XY_def signed split_beta split: if_splits)
  have "trimmed (map (\<lambda>p. uint (fst p)) ps) (uint (smooth (map (\<lambda>p. uint (fst p)) ps)))"
    "trimmed (map (\<lambda>p. uint (snd p)) ps) (uint (smooth (map (\<lambda>p. uint (snd p)) ps)))" if "length ps = 10"
    using that range by (intro smooth_trimmed; auto)+
  then show ?thesis using ps(2,3) range r by (auto simp: Suc_le_eq)
qed

text \<open>Sampling leaves everything but its log alone, so that a pen that stays down answers ten samples.\<close>

lemma keeps_note [keep_intros]: "(\<And>s es. f (s\<lparr>tlog := es\<rparr>) = f s) \<Longrightarrow> keeps f (note_touch e)"
  unfolding note_touch_def by (rule keeps_modify)

lemma keeps_sample:
  assumes "\<And>s es. f (s\<lparr>tlog := es\<rparr>) = f s"
  shows "keeps f XPT2046_ReadAdc_XY" "keeps f pen_active"
proof -
  have "keeps f (read_loop is b)" for "is" b
    by (induction "is" arbitrary: b) (auto intro!: keep_intros assms simp: XPT2046_MISO_def)
  then show "keeps f XPT2046_ReadAdc_XY"
    unfolding XPT2046_ReadAdc_XY_def XPT2046_ReadAdc_def XPT2046_WriteCMD_def XPT2046_ReadCMD_def XPT2046_DelayUS_def
    by (intro keep_intros assms)
  show "keeps f pen_active" unfolding pen_active_def by (intro keep_intros assms)
qed

lemma keeps_samples: "(\<And>s es. f (s\<lparr>tlog := es\<rparr>) = f s) \<Longrightarrow> keeps f (sample_loop n)"
  by (induction n) (auto intro!: keep_intros keeps_sample)

lemma touched_samples: "pen s = (\<lambda>_. False) \<Longrightarrow> length (fst (run_state (sample_loop n) s)) = n"
proof (induction n arbitrary: s)
  case (Suc n)
  obtain p u where u: "run_state XPT2046_ReadAdc_XY s = (p, u)" by (metis prod.exhaust)
  have "pen u = (\<lambda>_. False)" using keepsD [OF keeps_sample(1) u, of pen] Suc.prems by simp
  then show ?case using Suc.IH [of "u\<lparr>tlog := tlog u @ [PenRead False]\<rparr>"] u by (simp add: run_pen_active split_beta)
qed simp

lemma samples_are_smoothed_witness:
  "\<exists>r t ps u. run_state XPT2046_ReadAdc_Smooth_XY touch_example = (r, t) \<and> run_state (sample_loop 10) touch_example = (ps, u) \<and>
     length ps = 10 \<and> r \<noteq> None"
proof -
  obtain r t ps u where run: "run_state XPT2046_ReadAdc_Smooth_XY touch_example = (r, t)" "run_state (sample_loop 10) touch_example = (ps, u)"
    by (metis prod.exhaust)
  have "length ps = 10" using touched_samples [of touch_example 10] run(2) by (simp add: example_touch)
  then have "r \<noteq> None" using samples_are_smoothed [OF run] by (cases r) auto
  then show ?thesis using run \<open>length ps = 10\<close> by blast
qed

section \<open>Calibration\<close>

lemma int32_id: "- (2 ^ 31) \<le> v \<Longrightarrow> v < 2 ^ 31 \<Longrightarrow> int32 v = v"
  unfolding int32_def by (simp add: sint_sbintrunc' signed_take_bit_int_eq_self)

text \<open>Cramer's rule: the factors, before they are divided, map each sample to its point.\<close>

lemma cramer:
  "minor d0 d1 d2 y0 y1 y2 * x0 + minor x0 x1 x2 d0 d1 d2 * y0 + offset_term d0 d1 d2 x0 x1 x2 y0 y1 y2 = minor x0 x1 x2 y0 y1 y2 * d0"
  "minor d0 d1 d2 y0 y1 y2 * x1 + minor x0 x1 x2 d0 d1 d2 * y1 + offset_term d0 d1 d2 x0 x1 x2 y0 y1 y2 = minor x0 x1 x2 y0 y1 y2 * d1"
  "minor d0 d1 d2 y0 y1 y2 * x2 + minor x0 x1 x2 d0 d1 d2 * y2 + offset_term d0 d1 d2 x0 x1 x2 y0 y1 y2 = minor x0 x1 x2 y0 y1 y2 * d2"
  unfolding minor_def offset_term_def by algebra+

definition factors :: "(int \<times> int) list \<Rightarrow> (int \<times> int) list \<Rightarrow> int list" where
  "factors ds ss =
     (let xd = (\<lambda>i. fst (ds ! i)); yd = (\<lambda>i. snd (ds ! i)); x = (\<lambda>i. fst (ss ! i)); y = (\<lambda>i. snd (ss ! i)) in
      [minor (xd 0) (xd 1) (xd 2) (y 0) (y 1) (y 2), minor (x 0) (x 1) (x 2) (xd 0) (xd 1) (xd 2),
       offset_term (xd 0) (xd 1) (xd 2) (x 0) (x 1) (x 2) (y 0) (y 1) (y 2),
       minor (yd 0) (yd 1) (yd 2) (y 0) (y 1) (y 2), minor (x 0) (x 1) (x 2) (yd 0) (yd 1) (yd 2),
       offset_term (yd 0) (yd 1) (yd 2) (x 0) (x 1) (x 2) (y 0) (y 1) (y 2), minor (x 0) (x 1) (x 2) (y 0) (y 1) (y 2)])"

lemma quotient_point: "a * x + b * y + c = k * d \<Longrightarrow> k \<noteq> 0 \<Longrightarrow>
    real_of_int a / real_of_int k * real_of_int x + real_of_int b / real_of_int k * real_of_int y + real_of_int c / real_of_int k = real_of_int d"
  for a b c d k x y :: int
proof -
  assume e: "a * x + b * y + c = k * d" and "k \<noteq> 0"
  have "real_of_int a * real_of_int x + real_of_int b * real_of_int y + real_of_int c = real_of_int k * real_of_int d"
    using arg_cong [OF e, of real_of_int] by simp
  moreover have "real_of_int k \<noteq> 0" using \<open>k \<noteq> 0\<close> by simp
  ultimately show ?thesis by (simp add: add_divide_distrib [symmetric] nonzero_divide_eq_eq mult.commute)
qed

text \<open>
  C37: the calibration: if its integers fit 32 bits, it fails exactly if the three samples are in line; otherwise the
  factors are the roundings of integers whose quotients by the divisor map each of the three samples to the point
  displayed, in both axes, exactly.
\<close>

theorem calibration_is_exact:
  assumes "\<forall>v\<in>set (factors ds ss). - (2 ^ 31) \<le> v \<and> v < 2 ^ 31" and "\<forall>v. r v = 0 \<longleftrightarrow> v = 0"
    and "XPT2046_Calculate_CalibrationFactor r ds ss old = (ok, f)"
  shows "(ok \<longleftrightarrow> minor (fst (ss ! 0)) (fst (ss ! 1)) (fst (ss ! 2)) (snd (ss ! 0)) (snd (ss ! 1)) (snd (ss ! 2)) \<noteq> 0) \<and>
    (ok \<longrightarrow> (\<exists>a b c d e g k :: int. f = \<lparr>An = r a, Bn = r b, Cn = r c, Dn = r d, En = r e, Fn = r g, Divider = r k\<rparr> \<and> k \<noteq> 0 \<and>
      (\<forall>i<3. real_of_int a / real_of_int k * real_of_int (fst (ss ! i)) + real_of_int b / real_of_int k * real_of_int (snd (ss ! i)) +
          real_of_int c / real_of_int k = real_of_int (fst (ds ! i)) \<and>
        real_of_int d / real_of_int k * real_of_int (fst (ss ! i)) + real_of_int e / real_of_int k * real_of_int (snd (ss ! i)) +
          real_of_int g / real_of_int k = real_of_int (snd (ds ! i)))))"
proof -
  let ?xd = "\<lambda>i. fst (ds ! i)" and ?yd = "\<lambda>i. snd (ds ! i)" and ?x = "\<lambda>i. fst (ss ! i)" and ?y = "\<lambda>i. snd (ss ! i)"
  define a where "a = minor (?xd 0) (?xd 1) (?xd 2) (?y 0) (?y 1) (?y 2)"
  define b where "b = minor (?x 0) (?x 1) (?x 2) (?xd 0) (?xd 1) (?xd 2)"
  define c where "c = offset_term (?xd 0) (?xd 1) (?xd 2) (?x 0) (?x 1) (?x 2) (?y 0) (?y 1) (?y 2)"
  define d where "d = minor (?yd 0) (?yd 1) (?yd 2) (?y 0) (?y 1) (?y 2)"
  define e where "e = minor (?x 0) (?x 1) (?x 2) (?yd 0) (?yd 1) (?yd 2)"
  define g where "g = offset_term (?yd 0) (?yd 1) (?yd 2) (?x 0) (?x 1) (?x 2) (?y 0) (?y 1) (?y 2)"
  define k where "k = minor (?x 0) (?x 1) (?x 2) (?y 0) (?y 1) (?y 2)"
  note v = a_def b_def c_def d_def e_def g_def k_def
  have f: "factors ds ss = [a, b, c, d, e, g, k]" by (simp add: factors_def Let_def v)
  have fit: "int32 a = a" "int32 b = b" "int32 c = c" "int32 d = d" "int32 e = e" "int32 g = g" "int32 k = k"
    using assms(1) unfolding f by (simp_all add: int32_id)
  have calc: "XPT2046_Calculate_CalibrationFactor r ds ss old =
      (if k = 0 then (False, old\<lparr>Divider := r k\<rparr>) else (True, \<lparr>An = r a, Bn = r b, Cn = r c, Dn = r d, En = r e, Fn = r g, Divider = r k\<rparr>))"
    unfolding XPT2046_Calculate_CalibrationFactor_def Let_def v [symmetric] fit using assms(2) by simp
  have exact: "real_of_int a / k * ?x i + real_of_int b / k * ?y i + real_of_int c / k = ?xd i"
    "real_of_int d / k * ?x i + real_of_int e / k * ?y i + real_of_int g / k = ?yd i" if "k \<noteq> 0" "i < 3" for i
  proof -
    have "i \<in> {0, 1, 2}" using \<open>i < 3\<close> by auto
    then have p: "a * ?x i + b * ?y i + c = k * ?xd i" "d * ?x i + e * ?y i + g = k * ?yd i"
      unfolding v by (elim insertE emptyE; simp only: cramer)+
    show "real_of_int a / k * ?x i + real_of_int b / k * ?y i + real_of_int c / k = ?xd i"
      "real_of_int d / k * ?x i + real_of_int e / k * ?y i + real_of_int g / k = ?yd i"
      by (rule quotient_point [OF p(1) \<open>k \<noteq> 0\<close>], rule quotient_point [OF p(2) \<open>k \<noteq> 0\<close>])
  qed
  show ?thesis
  proof (cases "k = 0")
    case True
    then show ?thesis using assms(3) unfolding calc by (simp add: k_def)
  next
    case False
    then have "ok" "f = \<lparr>An = r a, Bn = r b, Cn = r c, Dn = r d, En = r e, Fn = r g, Divider = r k\<rparr>"
      using assms(3) unfolding calc by simp_all
    then show ?thesis using False exact [OF False] unfolding k_def [symmetric] by blast
  qed
qed

text \<open>Four samples at the corners of a square: the divisor is not zero and the calibration succeeds.\<close>

lemma calibration_is_exact_witness:
  "\<exists>f. XPT2046_Calculate_CalibrationFactor (\<lambda>v. v) [(60, 80), (60, 240), (180, 240), (180, 80)]
     [(1000, 1000), (3000, 1000), (3000, 3000), (1000, 3000)]
     \<lparr>An = 0, Bn = 0, Cn = 0, Dn = 0, En = 0, Fn = 0, Divider = 0\<rparr> = (True, f)"
proof -
  let ?ds = "[(60, 80), (60, 240), (180, 240), (180, 80)] :: (int \<times> int) list"
    and ?ss = "[(1000, 1000), (3000, 1000), (3000, 3000), (1000, 3000)] :: (int \<times> int) list"
    and ?old = "\<lparr>An = 0, Bn = 0, Cn = 0, Dn = 0, En = 0, Fn = 0, Divider = 0\<rparr> :: strType_XPT2046_Calibration"
  obtain ok f where run: "XPT2046_Calculate_CalibrationFactor (\<lambda>v. v) ?ds ?ss ?old = (ok, f)" by (metis prod.exhaust)
  have "ok"
    using calibration_is_exact [OF _ _ run] by (simp add: factors_def minor_def offset_term_def)
  then show ?thesis using run by auto
qed

section \<open>The event handler\<close>

text \<open>The buttons' functions leave alone what the state has beyond the drawing board's variables.\<close>

lemma more_kept: "keeps kept m \<Longrightarrow> keeps palette_st.more m"
  for m :: "('z palette_st_scheme, 'a) state"
proof -
  have "kept s = kept t \<Longrightarrow> palette_st.more s = palette_st.more t" for s t :: "'z palette_st_scheme"
    by (cases s; cases t) (simp add: kept_def)
  then show "keeps kept m \<Longrightarrow> keeps palette_st.more m" unfolding keeps_def by blast
qed

lemma keeps_beyond [keep_intros]: "keeps palette_st.more (set_flag i v)" "keeps palette_st.more (redraw F fuel i)"
  "keeps palette_st.more (Lcd.LCD_SetColors c d)" "keeps palette_st.more (Draw_Trail fuel x y x' y' br)"
  "keeps palette_st.more (Command_Clear_Palette fuel)"
proof -
  show "keeps palette_st.more (set_flag i v)" unfolding set_flag_def by (intro keep_intros) simp
  show "keeps palette_st.more (redraw F fuel i)" unfolding redraw_def by (intro keep_intros more_kept keeps_draw_button)
  show "keeps palette_st.more (Lcd.LCD_SetColors c d)" by (intro more_kept keep_intros)
  show "keeps palette_st.more (Draw_Trail fuel x y x' y' br)" by (rule more_kept [OF keeps_trail])
  show "keeps palette_st.more (Command_Clear_Palette fuel)" unfolding Command_Clear_Palette_def by (intro more_kept keep_intros)
qed

lemma keeps_select [keep_intros]: "keeps palette_st.more (Command_Select_Color b)" "keeps palette_st.more (Command_Select_Brush b)"
  unfolding Command_Select_Color_def Command_Select_Brush_def when_true_def by (intro keep_intros; simp)+

lemma keeps_loops [keep_intros]: "keeps palette_st.more (run_command fuel b)" "keeps palette_st.more (button_down F fuel x y i)"
  unfolding run_command_def button_down_def by (cases "btn_command b"; simp add: keep_intros) (intro keep_intros)

lemma keeps_touches: "keeps palette_st.more (Touch_Button_Down F fuel x y)" "keeps palette_st.more (Touch_Button_Up F fuel x y)"
  unfolding Touch_Button_Down_def
proof -
  show "keeps palette_st.more (all_of (map (button_down F fuel x y) [0..<16]))" by (rule keeps_all_of) (auto intro: keep_intros)
  have "keeps palette_st.more (up_loop F fuel x y is :: ('z palette_st_scheme, bool) state)" for "is"
    by (induction "is") (auto intro!: keep_intros)
  then show "keeps palette_st.more (Touch_Button_Up F fuel x y :: ('z palette_st_scheme, bool) state)" unfolding Touch_Button_Up_def .
qed

lemma cinfo_kept: "keeps palette_st.more m \<Longrightarrow> run_state m s = (v, t) \<Longrightarrow> cinfo t = cinfo s"
  for m :: "('z touch_st_scheme, 'a) state"
  by (drule (1) keepsD) (cases s; cases t; simp)

text \<open>The panel's own functions leave the buttons, the brush and the last point alone.\<close>

definition seen :: "'z touch_st_scheme \<Rightarrow> Touch_Button list \<times> Brush_Style \<times> strType_XPT2046_Coordinate" where
  "seen s = (button s, brush s, cinfo s)"

lemma keeps_panel: "keeps seen XPT2046_TouchDetect" "keeps seen XPT2046_Get_TouchedPoint" "keeps seen (note_touch e)"
proof -
  have log: "seen (s\<lparr>tlog := es\<rparr>) = seen s" for s :: "'z touch_st_scheme" and es by (simp add: seen_def)
  show "keeps seen (note_touch e)" by (rule keeps_note [OF log])
  show "keeps seen XPT2046_TouchDetect" unfolding XPT2046_TouchDetect_def
    by (rule keeps_bind, rule keeps_prims, rename_tac st, case_tac st)
      (simp_all, (intro keep_intros keeps_sample(2) log; simp add: seen_def)+)
  show "keeps seen XPT2046_Get_TouchedPoint" unfolding XPT2046_Get_TouchedPoint_def XPT2046_ReadAdc_Smooth_XY_def
    by (intro keep_intros keeps_samples keeps_sample(2) log; simp add: seen_def)
qed

text \<open>Points of a panel whose calibration is sane, and the last point of a handler between two events.\<close>

definition on_panel :: "u16 \<Rightarrow> u16 \<Rightarrow> bool" where
  "on_panel x y \<longleftrightarrow> sint x < 16000 \<and> 0 \<le> sint y \<and> sint y < 16000"

definition no_point :: strType_XPT2046_Coordinate where
  "no_point = \<lparr>t_x = - 1, t_y = - 1, pre_x = - 1, pre_y = - 1\<rparr>"

definition last_ok :: "strType_XPT2046_Coordinate \<Rightarrow> bool" where
  "last_ok c \<longleftrightarrow> t_x c = pre_x c \<and> t_y c = pre_y c \<and> (c = no_point \<or> on_panel (pre_x c) (pre_y c))"

lemma run_touch_down:
  fixes s :: "'z touch_st_scheme"
  assumes "board yl (button s)" "197 \<le> uint yl" "uint yl \<le> 320" "65536 \<le> fuel" "flags_ok (button s)"
    and "run_state (XPT2046_TouchDown F fuel c) s = (v, t)"
  shows "board yl (button t) \<and> flags_ok (button t) \<and> brush t = brush s \<and> cinfo t = cinfo s \<and>
    (pre_x c = - 1 \<and> pre_y c = - 1 \<or> on_panel (pre_x c) (pre_y c) \<and> on_panel (t_x c) (t_y c) \<longrightarrow> v = True)"
proof (cases "pre_x c = - 1 \<and> pre_y c = - 1")
  case True
  then show ?thesis using assms(1,5,6) by (simp add: XPT2046_TouchDown_def)
next
  case False
  obtain u where u: "run_state (Touch_Button_Down F fuel (t_x c) (t_y c)) s = (True, u)" "button u = map (mark (t_x c) (t_y c)) (button s)" "brush u = brush s"
    using run_buttons_down [OF assms(1-5), of 0 F "t_x c" "t_y c"] unfolding Touch_Button_Down_def by auto
  have t: "run_state (Draw_Trail fuel (pre_x c) (pre_y c) (t_x c) (t_y c) (brush u)) u = (v, t)"
    using assms(6) u(1) False by (simp add: XPT2046_TouchDown_def and_then_def)
  have "v = True" if "on_panel (pre_x c) (pre_y c) \<and> on_panel (t_x c) (t_y c)"
    using that assms(4) trail_spares [OF _ _ _ _ _ _ _ t] by (auto simp: on_panel_def)
  moreover have "button t = button u \<and> brush t = brush u" by (rule more_fields) (rule keepsD [OF keeps_trail t])
  moreover have "cinfo t = cinfo s" using cinfo_kept [OF keeps_touches(1) u(1)] cinfo_kept [OF keeps_beyond(4) t] by simp
  moreover have "board yl (button u)" "flags_ok (button u)" using assms(1,5) u(2) by (auto simp: board_def mark_def comp_def flags_ok_def)
  ultimately show ?thesis using False u(3) by auto
qed

lemma run_touch_release:
  fixes s :: "'z touch_st_scheme"
  assumes "board yl (button s)" "197 \<le> uint yl" "uint yl \<le> 320" "65536 \<le> fuel" "flags_ok (button s)"
  shows "\<exists>t. run_state (XPT2046_TouchUp F fuel c) s = (True, t) \<and> board yl (button t) \<and> flags_ok (button t)"
proof (cases "pre_x c = - 1 \<and> pre_y c = - 1")
  case True
  then show ?thesis using assms(1,5) by (simp add: XPT2046_TouchUp_def)
next
  case False
  obtain v t where t: "run_state (Touch_Button_Up F fuel (pre_x c) (pre_y c)) s = (v, t)" by (metis prod.exhaust)
  note up = run_touch_up [OF assms(1-4) t]
  have "board yl (button t) \<and> flags_ok (button t)"
  proof (cases "cell yl (pre_x c) (pre_y c)")
    case (Some i)
    then have "button t = (button s)[i := (button s ! i)\<lparr>touch_flag := 0\<rparr>]" using up by simp
    then show ?thesis using board_flag [OF assms(1) cell_less [OF Some]] flags_update [OF assms(5)] by simp
  qed (use up assms(1,5) in simp)
  then show ?thesis using False up t by (auto simp: XPT2046_TouchUp_def)
qed

text \<open>
  C25: the event handler keeps the drawing board: in its place, each button with a flag of 0 or 1, whatever point is touched.
  While the panel is touched the brush stays as it is; once it is not, the handler returns and there is no last point.
  If the last point is none or on the panel, and the point touched in this call, if any, is on the panel, which means in a row that is not
  negative and below 16000 and a column below 16000, the handler returns and the last point is again none or on the panel. The code
  does not limit the calibrated point, and with a point above the screen the trail may not return.
\<close>

theorem handler_keeps_board:
  assumes "board yl (button s)" "flags_ok (button s)" and "197 \<le> uint yl" "uint yl \<le> 320" "65536 \<le> fuel"
    and "run_state (XPT2046_TouchEvenHandler F fuel) s = (v, t)"
  shows "board yl (button t) \<and> flags_ok (button t) \<and>
    (if fst (run_state XPT2046_TouchDetect s) then brush t = brush s else v = True \<and> cinfo t = no_point) \<and>
    (last_ok (cinfo s) \<and>
       (\<forall>x y w. run_state (do { XPT2046_TouchDetect; note_touch (LedColour ''LED_GREEN''); XPT2046_Get_TouchedPoint }) s = (Some (x, y), w) \<longrightarrow> on_panel x y) \<longrightarrow>
     v = True \<and> last_ok (cinfo t))"
proof -
  obtain p a where a: "run_state XPT2046_TouchDetect s = (p, a)" by (metis prod.exhaust)
  define b where "b = snd (run_state (note_touch (LedColour (if p then ''LED_GREEN'' else ''LED_BLUE''))) a)"
  have b: "run_state (note_touch (LedColour (if p then ''LED_GREEN'' else ''LED_BLUE''))) a = ((), b)" by (simp add: b_def note_touch_def)
  have sb: "button b = button s \<and> brush b = brush s \<and> cinfo b = cinfo s"
    using keepsD [OF keeps_panel(1) a] keepsD [OF keeps_panel(3) b] by (simp add: seen_def)
  show ?thesis
  proof (cases p)
    case False
    obtain u where "run_state (XPT2046_TouchUp F fuel (cinfo b)) b = (True, u)" "board yl (button u)" "flags_ok (button u)"
      using run_touch_release [of yl b fuel F "cinfo b"] assms(1-5) sb by auto
    then show ?thesis using assms(6) a b False
      by (auto simp: XPT2046_TouchEvenHandler_def and_then_def always_def last_ok_def no_point_def)
  next
    case True
    obtain q w where w: "run_state XPT2046_Get_TouchedPoint b = (q, w)" by (metis prod.exhaust)
    have sw: "button w = button s" "brush w = brush s" "cinfo w = cinfo s"
      using sb keepsD [OF keeps_panel(2) w] by (simp_all add: seen_def)
    define c where "c = (case q of None \<Rightarrow> cinfo s | Some (x, y) \<Rightarrow> (cinfo s)\<lparr>t_x := x, t_y := y\<rparr>)"
    obtain r u where u: "run_state (XPT2046_TouchDown F fuel c) (w\<lparr>cinfo := c\<rparr>) = (r, u)" by (metis prod.exhaust)
    note down = run_touch_down [of yl "w\<lparr>cinfo := c\<rparr>" fuel F c, OF _ assms(3-5) _ u]
    have kept: "board yl (button u)" "flags_ok (button u)" "brush u = brush s" "cinfo u = c" using down assms(1,2) sw by simp_all
    have same: "w\<lparr>cinfo := cinfo s\<rparr> = w" using sw(3) by (cases w) simp
    have run: "v = r \<and> t = (if r then u\<lparr>cinfo := c\<lparr>pre_x := t_x c, pre_y := t_y c\<rparr>\<rparr> else u)"
      using assms(6) a b w u kept(4) True sw(3) unfolding c_def
      by (cases q) (auto simp: XPT2046_TouchEvenHandler_def and_then_def always_def same split: if_splits)
    have "r \<and> (c = no_point \<or> on_panel (t_x c) (t_y c))"
      if ok: "last_ok (cinfo s)" and on: "\<forall>x y w. run_state (do { XPT2046_TouchDetect; note_touch (LedColour ''LED_GREEN''); XPT2046_Get_TouchedPoint }) s = (Some (x, y), w) \<longrightarrow> on_panel x y"
    proof -
      have "on_panel x y" if "q = Some (x, y)" for x y using on a b w that True by simp
      then have t: "c = no_point \<or> on_panel (t_x c) (t_y c)" and pre: "pre_x c = pre_x (cinfo s)" "pre_y c = pre_y (cinfo s)"
        using ok by (auto simp: c_def last_ok_def split: option.splits)
      then have "pre_x c = - 1 \<and> pre_y c = - 1 \<or> on_panel (pre_x c) (pre_y c) \<and> on_panel (t_x c) (t_y c)"
        using ok by (auto simp: last_ok_def no_point_def)
      then show ?thesis using down assms(1,2) sw t by simp
    qed
    then show ?thesis using run kept a True by (auto simp: last_ok_def no_point_def)
  qed
qed

text \<open>A panel that is touched, with parameters that put every touch at the origin.\<close>

definition panel_example :: touch_st where
  "panel_example = touch_example\<lparr>touch_state := XPT2046_STATE_PRESSED,
     strXPT2046_TouchPara := \<lambda>_. \<lparr>dX_X = 0, dX_Y = 0, dX = 0, dY_X = 0, dY_Y = 0, dY = 0\<rparr>\<rparr>"

lemma point_at_origin:
  assumes "fl s = (\<lambda>v. v)" and "strXPT2046_TouchPara s = (\<lambda>_. \<lparr>dX_X = 0, dX_Y = 0, dX = 0, dY_X = 0, dY_Y = 0, dY = 0\<rparr>)"
    and "run_state XPT2046_Get_TouchedPoint s = (Some (x, y), w)"
  shows "x = 0 \<and> y = 0"
proof -
  obtain p u where u: "run_state XPT2046_ReadAdc_Smooth_XY s = (p, u)" by (metis prod.exhaust)
  have "keeps (\<lambda>s. (fl s, strXPT2046_TouchPara s)) (XPT2046_ReadAdc_Smooth_XY :: ('z touch_st_scheme, (u16 \<times> u16) option) state)"
    unfolding XPT2046_ReadAdc_Smooth_XY_def by (intro keep_intros keeps_samples keeps_sample(2); simp)
  from keepsD [OF this] u have "fl u = fl s" "strXPT2046_TouchPara u = strXPT2046_TouchPara s" by blast+
  then show ?thesis using assms u by (cases p) (auto simp: XPT2046_Get_TouchedPoint_def touched_axis_def trunc_def)
qed

lemma handler_keeps_board_witness:
  "\<exists>t. run_state (XPT2046_TouchEvenHandler (\<lambda>_ _. 0) 65536) panel_example = (True, t) \<and> board ILI9341_MORE_PIXEL (button t) \<and> brush t = brush board_example"
proof -
  obtain v t where run: "run_state (XPT2046_TouchEvenHandler (\<lambda>_ _. 0) 65536) panel_example = (v, t)" by (metis prod.exhaust)
  have e: "button panel_example = init_buttons ILI9341_MORE_PIXEL" "cinfo panel_example = no_point" "brush panel_example = brush board_example"
    "touch_state panel_example = XPT2046_STATE_PRESSED" "pen panel_example = (\<lambda>_. False)" "fl panel_example = (\<lambda>v. v)"
    "strXPT2046_TouchPara panel_example = (\<lambda>_. \<lparr>dX_X = 0, dX_Y = 0, dX = 0, dY_X = 0, dY_Y = 0, dY = 0\<rparr>)"
    by (simp_all add: panel_example_def touch_example_def palette_st.defs touch_st.defs no_point_def board_example_def lcd_st.defs)
  have pressed: "\<exists>a. run_state XPT2046_TouchDetect panel_example = (True, a) \<and> fl a = fl panel_example \<and> strXPT2046_TouchPara a = strXPT2046_TouchPara panel_example"
    by (simp add: XPT2046_TouchDetect_def run_pen_active e)
  have "board ILI9341_MORE_PIXEL (button panel_example)" "flags_ok (button panel_example)" "last_ok (cinfo panel_example)"
    unfolding e by (rule board_init) (simp_all add: flags_ok_def init_buttons_def last_ok_def no_point_def)
  moreover have "\<forall>x y w. run_state (do { XPT2046_TouchDetect; note_touch (LedColour ''LED_GREEN''); XPT2046_Get_TouchedPoint }) panel_example = (Some (x, y), w) \<longrightarrow>
      on_panel x y"
    using pressed by (auto simp: note_touch_def e on_panel_def dest!: point_at_origin [rotated 2])
  ultimately show ?thesis using handler_keeps_board [OF _ _ _ _ _ run] pressed run by (auto simp: ILI9341_MORE_PIXEL_def e)
qed

end
