(* ===== verification/Touch_Flash.thy ===== *)
theory Touch_Flash
  imports Touch_Panel
begin

text \<open>
  \<open>Calibrate_or_Get_TouchParaWithFlash\<close> of \<open>src/applications/bsp_lcd_xpt2046.c\<close>: the parameters of the touch panel in a serial flash. The
  driver of the flash is not in the repository: its four functions are a parameter, and what is documented of such a
  memory is \<open>nor_flash\<close>. The bytes of a \<open>float\<close> are a parameter too, \<open>enc\<close> and \<open>dec\<close>.
\<close>

section \<open>The function\<close>

record 'f flash_ops =
  SPI_FLASH_Init :: "'f \<Rightarrow> 'f"
  SPI_FLASH_BufferRead :: "nat \<Rightarrow> nat \<Rightarrow> 'f \<Rightarrow> u8 list"
  SPI_FLASH_SectorErase :: "nat \<Rightarrow> 'f \<Rightarrow> 'f"
  SPI_FLASH_BufferWrite :: "u8 list \<Rightarrow> nat \<Rightarrow> 'f \<Rightarrow> 'f"

record 'f flash_st = touch_st +
  flash :: 'f

abbreviation (input) FLASH_TOUCH_PARA_FLAG_VALUE :: u8 where "FLASH_TOUCH_PARA_FLAG_VALUE \<equiv> 0xA5"
abbreviation (input) FLASH_TOUCH_PARA_FLAG_ADDR :: nat where "FLASH_TOUCH_PARA_FLAG_ADDR \<equiv> 1024"
abbreviation (input) FLASH_TOUCH_PARA_ADDR :: nat where "FLASH_TOUCH_PARA_ADDR \<equiv> 2048"

text \<open>The array of parameters as bytes, and back.\<close>

definition para_values :: "strType_XPT2046_TouchPara \<Rightarrow> real list" where
  "para_values p = [dX_X p, dX_Y p, dX p, dY_X p, dY_Y p, dY p]"

definition para_bytes :: "(real \<Rightarrow> u8 list) \<Rightarrow> (nat \<Rightarrow> strType_XPT2046_TouchPara) \<Rightarrow> u8 list" where
  "para_bytes enc P = concat (map enc (concat (map (\<lambda>i. para_values (P i)) [0..<8])))"

definition para_of_bytes :: "(u8 list \<Rightarrow> real) \<Rightarrow> u8 list \<Rightarrow> nat \<Rightarrow> strType_XPT2046_TouchPara" where
  "para_of_bytes dec bs i = (let q = (\<lambda>j. dec (take 4 (drop (4 * (6 * i + j)) bs))) in
     \<lparr>dX_X = q 0, dX_Y = q 1, dX = q 2, dY_X = q 3, dY_Y = q 4, dY = q 5\<rparr>)"

definition load_para :: "'f flash_ops \<Rightarrow> (u8 list \<Rightarrow> real) \<Rightarrow> (('f, 'z) flash_st_scheme, unit) state" where
  "load_para fo dec = do {
     bs \<leftarrow> gets (\<lambda>s. SPI_FLASH_BufferRead fo FLASH_TOUCH_PARA_ADDR (4 * 6 * 8) (flash s));
     modify (\<lambda>s. s\<lparr>strXPT2046_TouchPara := (\<lambda>i. if i < 8 then para_of_bytes dec bs i else strXPT2046_TouchPara s i)\<rparr>)
   }"

text \<open>Waiting for a calibration that succeeds.\<close>

primrec calibrate_loop :: "nat \<Rightarrow> (lcd_font \<Rightarrow> nat \<Rightarrow> u8) \<Rightarrow> nat \<Rightarrow> (nat \<Rightarrow> strType_XPT2046_Calibration) \<Rightarrow> u8 \<Rightarrow> ('z touch_st_scheme, bool) state" where
  "calibrate_loop 0 F fuel garbage LCD_Mode = ret False"
| "calibrate_loop (Suc n) F fuel garbage LCD_Mode = do {
     r \<leftarrow> XPT2046_Touch_Calibrate F fuel (garbage n) LCD_Mode;
     case r of None \<Rightarrow> ret False
     | Some b \<Rightarrow> if b then ret True else calibrate_loop n F fuel garbage LCD_Mode
   }"

definition Calibrate_or_Get_TouchParaWithFlash ::
  "'f flash_ops \<Rightarrow> (real \<Rightarrow> u8 list) \<Rightarrow> (u8 list \<Rightarrow> real) \<Rightarrow> (lcd_font \<Rightarrow> nat \<Rightarrow> u8) \<Rightarrow> nat \<Rightarrow> (nat \<Rightarrow> strType_XPT2046_Calibration) \<Rightarrow> u8 \<Rightarrow> u8 \<Rightarrow>
    (('f, 'z) flash_st_scheme, bool) state" where
  "Calibrate_or_Get_TouchParaWithFlash fo enc dec F fuel garbage LCD_Mode forceCal = do {
     modify (\<lambda>s. s\<lparr>flash := SPI_FLASH_Init fo (flash s)\<rparr>);
     bs \<leftarrow> gets (\<lambda>s. SPI_FLASH_BufferRead fo FLASH_TOUCH_PARA_FLAG_ADDR 1 (flash s));
     let para_flag = hd bs;
     if para_flag \<noteq> FLASH_TOUCH_PARA_FLAG_VALUE \<or> forceCal = 1
     then do {
       when_true (para_flag = FLASH_TOUCH_PARA_FLAG_VALUE \<and> forceCal = 1) (load_para fo dec);
       ok \<leftarrow> calibrate_loop fuel F fuel garbage LCD_Mode;
       if ok then do {
         modify (\<lambda>s. s\<lparr>flash := SPI_FLASH_SectorErase fo 0 (flash s)\<rparr>);
         modify (\<lambda>s. s\<lparr>flash := SPI_FLASH_BufferWrite fo [FLASH_TOUCH_PARA_FLAG_VALUE] FLASH_TOUCH_PARA_FLAG_ADDR (flash s)\<rparr>);
         modify (\<lambda>s. s\<lparr>flash := SPI_FLASH_BufferWrite fo (para_bytes enc (strXPT2046_TouchPara s)) FLASH_TOUCH_PARA_ADDR (flash s)\<rparr>);
         ret True
       }
       else ret False
     }
     else do { load_para fo dec; ret True }
   }"

section \<open>The memory\<close>

definition slice :: "(nat \<Rightarrow> u8) \<Rightarrow> nat \<Rightarrow> nat \<Rightarrow> u8 list" where
  "slice g a n = map g [a..<a + n]"

lemma slice_eq: "length bs = n \<Longrightarrow> (\<And>i. i < n \<Longrightarrow> g (a + i) = bs ! i) \<Longrightarrow> slice g a n = bs"
  by (rule nth_equalityI) (simp_all add: slice_def)

text \<open>
  A flash memory: reading returns its bytes, erasing sets those of a sector of 4096 to 255, writing can only clear
  bits, and starting the driver changes nothing.
\<close>

definition nor_flash :: "('f \<Rightarrow> nat \<Rightarrow> u8) \<Rightarrow> 'f flash_ops \<Rightarrow> bool" where
  "nor_flash content fo \<longleftrightarrow>
     (\<forall>f. content (SPI_FLASH_Init fo f) = content f) \<and>
     (\<forall>a n f. SPI_FLASH_BufferRead fo a n f = slice (content f) a n) \<and>
     (\<forall>a f. content (SPI_FLASH_SectorErase fo a f) = (\<lambda>i. if i div 4096 = a div 4096 then 255 else content f i)) \<and>
     (\<forall>bs a f. content (SPI_FLASH_BufferWrite fo bs a f) =
       (\<lambda>i. if a \<le> i \<and> i < a + length bs then content f i AND bs ! (i - a) else content f i))"

lemma nor_flashD:
  assumes "nor_flash content fo"
  shows "content (SPI_FLASH_Init fo f) = content f" "SPI_FLASH_BufferRead fo a n f = slice (content f) a n"
    "content (SPI_FLASH_SectorErase fo a f) = (\<lambda>i. if i div 4096 = a div 4096 then 255 else content f i)"
    "content (SPI_FLASH_BufferWrite fo bs a f) = (\<lambda>i. if a \<le> i \<and> i < a + length bs then content f i AND bs ! (i - a) else content f i)"
  using assms by (auto simp: nor_flash_def)

lemma all_ones: "255 AND b = b" for b :: u8
proof -
  have "(255 :: u8) = - 1" by simp
  then show ?thesis by (simp only: and.left_neutral)
qed

section \<open>The bytes of the parameters\<close>

lemma block_nth: "(\<And>x. x \<in> set xs \<Longrightarrow> length (f x) = k) \<Longrightarrow> i < length xs \<Longrightarrow> take k (drop (k * i) (concat (map f xs))) = f (xs ! i)"
proof (induction xs arbitrary: i)
  case (Cons x xs)
  then show ?case by (cases i) simp_all
qed simp

lemma blocks_length: "(\<And>x. x \<in> set xs \<Longrightarrow> length (f x) = k) \<Longrightarrow> length (concat (map f xs)) = k * length xs"
  by (induction xs) simp_all

lemma para_bytes_length: "(\<And>x. length (enc x) = 4) \<Longrightarrow> length (para_bytes enc P) = 192"
proof -
  assume enc: "\<And>x. length (enc x) = 4"
  have "length (concat (map (\<lambda>i. para_values (P i)) [0..<8])) = 6 * 8"
    using blocks_length [of "[0..<8]" "\<lambda>i. para_values (P i)" 6] by (simp add: para_values_def)
  then show ?thesis unfolding para_bytes_def using blocks_length [of _ enc 4] enc by simp
qed

lemma para_bytes_nth:
  assumes "\<And>x. length (enc x) = 4" and "i < 8" and "j < 6"
  shows "take 4 (drop (4 * (6 * i + j)) (para_bytes enc P)) = enc (para_values (P i) ! j)"
proof -
  let ?vs = "concat (map (\<lambda>i. para_values (P i)) [0..<8])"
  have l: "length ?vs = 48" using blocks_length [of "[0..<8]" "\<lambda>i. para_values (P i)" 6] by (simp add: para_values_def)
  have b: "take 6 (drop (6 * i) ?vs) = para_values (P i)"
    using block_nth [of "[0..<8]" "\<lambda>i. para_values (P i)" 6 i] assms(2) by (simp add: para_values_def)
  have "?vs ! (6 * i + j) = take 6 (drop (6 * i) ?vs) ! j" using assms(2,3) l by simp
  moreover have "take 4 (drop (4 * (6 * i + j)) (concat (map enc ?vs))) = enc (?vs ! (6 * i + j))"
    using assms l by (intro block_nth) simp_all
  ultimately show ?thesis unfolding para_bytes_def b by simp
qed

lemma para_of_values: "(\<And>j. j < 6 \<Longrightarrow> dec (take 4 (drop (4 * (6 * i + j)) bs)) = para_values p ! j) \<Longrightarrow> para_of_bytes dec bs i = p"
proof -
  assume q: "\<And>j. j < 6 \<Longrightarrow> dec (take 4 (drop (4 * (6 * i + j)) bs)) = para_values p ! j"
  show ?thesis using q [of 0] q [of 1] q [of 2] q [of 3] q [of 4] q [of 5]
    by (cases p) (simp add: para_of_bytes_def para_values_def Let_def add.commute)
qed

lemma para_roundtrip:
  assumes "\<And>x. length (enc x) = 4" and "\<And>x. x \<in> set (para_values (P i)) \<Longrightarrow> dec (enc x) = x" and "i < 8"
  shows "para_of_bytes dec (para_bytes enc P) i = P i"
proof (rule para_of_values)
  fix j :: nat
  assume "j < 6"
  then have "para_values (P i) ! j \<in> set (para_values (P i))" by (intro nth_mem) (simp add: para_values_def)
  then show "dec (take 4 (drop (4 * (6 * i + j)) (para_bytes enc P))) = para_values (P i) ! j"
    using para_bytes_nth [OF assms(1,3) \<open>j < 6\<close>] assms(2) by simp
qed

text \<open>A flash that holds the flag and the parameters \<open>P\<close>.\<close>

definition holds_para :: "('f \<Rightarrow> nat \<Rightarrow> u8) \<Rightarrow> (u8 list \<Rightarrow> real) \<Rightarrow> 'f \<Rightarrow> (nat \<Rightarrow> strType_XPT2046_TouchPara) \<Rightarrow> bool" where
  "holds_para content dec f P \<longleftrightarrow> content f 1024 = 0xA5 \<and> (\<forall>i<8. para_of_bytes dec (slice (content f) 2048 192) i = P i)"

lemma written_para:
  assumes "nor_flash content fo" and "\<And>x. length (enc x) = 4" and "\<And>i x. i < 8 \<Longrightarrow> x \<in> set (para_values (P i)) \<Longrightarrow> dec (enc x) = x"
  shows "holds_para content dec
    (SPI_FLASH_BufferWrite fo (para_bytes enc P) 2048 (SPI_FLASH_BufferWrite fo [0xA5] 1024 (SPI_FLASH_SectorErase fo 0 f))) P"
proof -
  note len = para_bytes_length [of enc P, OF assms(2)]
  let ?f = "SPI_FLASH_BufferWrite fo (para_bytes enc P) 2048 (SPI_FLASH_BufferWrite fo [0xA5] 1024 (SPI_FLASH_SectorErase fo 0 f))"
  have "content ?f (2048 + i) = para_bytes enc P ! i" if "i < 192" for i
    using that len by (simp add: nor_flashD [OF assms(1)] all_ones)
  then have "slice (content ?f) 2048 192 = para_bytes enc P" by (intro slice_eq len)
  moreover have "content ?f 1024 = 0xA5" by (simp add: nor_flashD [OF assms(1)] all_ones)
  ultimately show ?thesis using para_roundtrip [of enc P _ dec, OF assms(2) assms(3)] by (simp add: holds_para_def)
qed

section \<open>What calibrating leaves alone\<close>

text \<open>The flash, and the parameters of the scan mode \<open>i\<close>.\<close>

definition durable :: "nat \<Rightarrow> ('f, 'z) flash_st_scheme \<Rightarrow> 'f \<times> strType_XPT2046_TouchPara" where
  "durable i s = (flash s, strXPT2046_TouchPara s i)"

lemma keeps_flash: "keeps kept m \<Longrightarrow> keeps (durable i) m"
  for m :: "(('f, 'z) flash_st_scheme, 'a) state"
proof -
  have "kept s = kept t \<Longrightarrow> durable i s = durable i t" for s t :: "('f, 'z) flash_st_scheme"
    by (cases s; cases t) (simp add: kept_def durable_def)
  then show "keeps kept m \<Longrightarrow> keeps (durable i) m" unfolding keeps_def by blast
qed

lemma keeps_kept_string: "keeps kept (Lcd.ILI9341_DispStringLine_EN l cs)"
  using keeps_string [of 0 l cs] unfolding Lcd.ILI9341_DispStringLine_EN_def Lcd.ILI9341_DispString_EN_def .

lemma keeps_flash_display [keep_intros]: "keeps (durable i) (Lcd.ILI9341_Clear x y w h)" "keeps (durable i) (Lcd.ILI9341_DispStringLine_EN l cs)"
  "keeps (durable i) (Lcd.LCD_SetFont f)" "keeps (durable i) (Lcd.LCD_SetColors c d)" "keeps (durable i) (Lcd.LCD_SetTextColor c)" "keeps (durable i) (ILI9341_DrawCross fuel x y)"
  "keeps (durable i) (centred msg)" "keeps (durable i) LCD_GetFont"
  unfolding Lcd.ILI9341_Clear_def ILI9341_DrawCross_def centred_def LCD_GetFont_def
  by (rule keeps_flash, intro keep_intros keeps_kept_string)+

lemma keeps_flash_scan [keep_intros]: "keeps (durable i) (Lcd.ILI9341_GramScan md)"
proof -
  have send: "keeps (durable i) (Lcd.ILI9341_Write_Cmd c :: (('f, 'z) flash_st_scheme, unit) state)"
    "keeps (durable i) (Lcd.ILI9341_Write_Data d :: (('f, 'z) flash_st_scheme, unit) state)" for c d
    by (rule keeps_flash, intro keep_intros)+
  show "keeps (durable i) (Lcd.ILI9341_GramScan md :: (('f, 'z) flash_st_scheme, unit) state)"
    unfolding Lcd.ILI9341_GramScan_def Lcd.scan_axes_def Let_def by (intro keep_intros send; simp add: durable_def)
qed

lemma keeps_flash_panel [keep_intros]: "keeps (durable i) (XPT2046_DelayUS n)" "keeps (durable i) XPT2046_ReadAdc_Smooth_XY"
  unfolding XPT2046_DelayUS_def XPT2046_ReadAdc_Smooth_XY_def
  by (intro keep_intros keeps_note keeps_samples keeps_sample(2); simp add: durable_def)+

lemma keeps_flash_sample [keep_intros]: "keeps (durable i) (wait_sample n)"
  by (induction n) (auto intro!: keep_intros)

lemma keeps_flash_points [keep_intros]: "keeps (durable i) (calibrate_points ps fuel k)"
  by (induction ps arbitrary: k) (auto intro!: keep_intros simp: calibrate_point_def)

lemma keeps_flash_calibrate [keep_intros]: "i \<noteq> unat md \<Longrightarrow> keeps (durable i) (XPT2046_Touch_Calibrate F fuel garbage md)"
  unfolding XPT2046_Touch_Calibrate_def calibrate_fails_def Let_def by (intro keep_intros; simp add: durable_def)

lemma keeps_flash_loop: "i \<noteq> unat md \<Longrightarrow> keeps (durable i) (calibrate_loop n F fuel garbage md)"
  by (induction n) (auto intro!: keep_intros)

section \<open>Parameters that were stored come back\<close>

lemma loads:
  assumes "nor_flash content fo" and "holds_para content dec (flash s) P"
  shows "run_state (Calibrate_or_Get_TouchParaWithFlash fo enc dec F fuel garbage md 0) s =
    (True, s\<lparr>flash := SPI_FLASH_Init fo (flash s), strXPT2046_TouchPara := (\<lambda>i. if i < 8 then P i else strXPT2046_TouchPara s i)\<rparr>)"
proof -
  note d = nor_flashD [OF assms(1)]
  have flag: "content (flash s) 1024 = 0xA5" using assms(2) by (simp add: holds_para_def)
  have para: "(\<lambda>i. if i < 8 then para_of_bytes dec (slice (content (flash s)) 2048 192) i
      else strXPT2046_TouchPara (s\<lparr>flash := SPI_FLASH_Init fo (flash s)\<rparr>) i) = (\<lambda>i. if i < 8 then P i else strXPT2046_TouchPara s i)"
    using assms(2) by (auto simp: holds_para_def)
  show ?thesis by (simp add: Calibrate_or_Get_TouchParaWithFlash_def load_para_def d slice_def [of _ 1024] flag para)
qed

lemma stores:
  assumes "nor_flash content fo" and "\<And>x. length (enc x) = 4"
    and "run_state (Calibrate_or_Get_TouchParaWithFlash fo enc dec F fuel garbage md force) s = (True, t)"
    and "\<And>i x. i < 8 \<Longrightarrow> x \<in> set (para_values (strXPT2046_TouchPara t i)) \<Longrightarrow> dec (enc x) = x"
  shows "holds_para content dec (flash t) (strXPT2046_TouchPara t)"
proof -
  note d = nor_flashD [OF assms(1)]
  let ?a = "s\<lparr>flash := SPI_FLASH_Init fo (flash s)\<rparr>"
  show ?thesis
  proof (cases "content (flash s) 1024 \<noteq> 0xA5 \<or> force = 1")
    case False
    then have "t = snd (run_state (load_para fo dec) ?a)"
      using assms(3) by (simp add: Calibrate_or_Get_TouchParaWithFlash_def d slice_def [of _ 1024] split_beta)
    then show ?thesis using False by (simp add: load_para_def holds_para_def d)
  next
    case True
    let ?b = "snd (run_state (when_true (content (flash s) 1024 = 0xA5 \<and> force = 1) (load_para fo dec)) ?a)"
    obtain ok u where u: "run_state (calibrate_loop fuel F fuel garbage md) ?b = (ok, u)" by (metis prod.exhaust)
    have "ok" "t = u\<lparr>flash := SPI_FLASH_BufferWrite fo (para_bytes enc (strXPT2046_TouchPara u)) 2048
        (SPI_FLASH_BufferWrite fo [0xA5] 1024 (SPI_FLASH_SectorErase fo 0 (flash u)))\<rparr>"
      using True assms(3) u by (auto simp: Calibrate_or_Get_TouchParaWithFlash_def d slice_def [of _ 1024] split_beta split: if_splits)
    then show ?thesis using written_para [OF assms(1,2), of "strXPT2046_TouchPara t" dec] assms(4) by simp
  qed
qed

text \<open>
  C26: parameters that were stored come back: once the function has returned, the flash holds the flag and the parameters of all eight
  scan modes that are in memory; whatever else happens, a later call that does not force a calibration, on the same flash, reads exactly these,
  touches neither the panel nor the display, and returns. The values are ones that four bytes can hold.
\<close>

theorem stored_parameters_return:
  assumes "nor_flash content fo" and "\<And>x. length (enc x) = 4"
    and "run_state (Calibrate_or_Get_TouchParaWithFlash fo enc dec F fuel garbage md force) s = (True, t)"
    and "\<And>i x. i < 8 \<Longrightarrow> x \<in> set (para_values (strXPT2046_TouchPara t i)) \<Longrightarrow> dec (enc x) = x"
    and "content (flash s') = content (flash t)"
    and "run_state (Calibrate_or_Get_TouchParaWithFlash fo enc dec F' fuel' garbage' md' 0) s' = (v, t')"
  shows "v = True \<and> (\<forall>i<8. strXPT2046_TouchPara t' i = strXPT2046_TouchPara t i) \<and> tlog t' = tlog s' \<and> bus t' = bus s' \<and>
    content (flash t') = content (flash t)"
proof -
  have "holds_para content dec (flash s') (strXPT2046_TouchPara t)"
    using stores [OF assms(1,2,3)] assms(4,5) by (simp add: holds_para_def)
  from loads [OF assms(1) this, of enc F' fuel' garbage' md'] show ?thesis using assms(5,6) nor_flashD(1) [OF assms(1)] by auto
qed

definition nor_example :: "(nat \<Rightarrow> u8) flash_ops" where
  "nor_example = \<lparr>SPI_FLASH_Init = (\<lambda>f. f), SPI_FLASH_BufferRead = (\<lambda>a n f. slice f a n),
     SPI_FLASH_SectorErase = (\<lambda>a f i. if i div 4096 = a div 4096 then 255 else f i),
     SPI_FLASH_BufferWrite = (\<lambda>bs a f i. if a \<le> i \<and> i < a + length bs then f i AND bs ! (i - a) else f i)\<rparr>"

lemma nor_example: "nor_flash (\<lambda>f. f) nor_example"
  by (simp add: nor_flash_def nor_example_def)

text \<open>The bytes of 0 and 1 in single precision.\<close>

definition enc_example :: "real \<Rightarrow> u8 list" where
  "enc_example x = (if x = 0 then [0, 0, 0, 0] else [0, 0, 0x80, 0x3F])"

definition dec_example :: "u8 list \<Rightarrow> real" where
  "dec_example bs = (if bs = [0, 0, 0x80, 0x3F] then 1 else 0)"

definition calibration0 :: strType_XPT2046_Calibration where
  "calibration0 = \<lparr>An = 0, Bn = 0, Cn = 0, Dn = 0, En = 0, Fn = 0, Divider = 0\<rparr>"

definition flash_example :: "(nat \<Rightarrow> u8) flash_st" where
  "flash_example = touch_st.extend (touch_st.truncate touch_example) (flash_st.fields (\<lambda>i. if i = 1024 then 0xA5 else 0))"

abbreviation para_zero :: strType_XPT2046_TouchPara where
  "para_zero \<equiv> \<lparr>dX_X = 0, dX_Y = 0, dX = 0, dY_X = 0, dY_Y = 0, dY = 0\<rparr>"

lemma dec_zeros: "set bs \<subseteq> {0} \<Longrightarrow> dec_example bs = 0"
  by (auto simp: dec_example_def)

lemma set_slice: "set (slice g a n) = g ` {a..<a + n}"
  by (simp add: slice_def)

lemma example_holds: "holds_para (\<lambda>f. f) dec_example (flash flash_example) (\<lambda>_. para_zero)"
proof -
  have f: "flash flash_example = (\<lambda>i. if i = 1024 then 0xA5 else 0)" by (simp add: flash_example_def touch_st.defs flash_st.defs)
  have "set (slice (flash flash_example) 2048 192) \<subseteq> {0}" unfolding set_slice f by auto
  then have "set (take n (drop k (slice (flash flash_example) 2048 192))) \<subseteq> {0}" for n k
    by (meson set_drop_subset set_take_subset subset_trans)
  moreover have "para_values para_zero ! j = 0" if "j < 6" for j
    using that nth_mem [of j "para_values para_zero"] by (simp add: para_values_def)
  ultimately have "para_of_bytes dec_example (slice (flash flash_example) 2048 192) i = para_zero" for i
    by (intro para_of_values) (simp add: dec_zeros)
  then show ?thesis by (simp add: holds_para_def f)
qed

lemma stored_parameters_return_witness:
  "\<exists>t t'. run_state (Calibrate_or_Get_TouchParaWithFlash nor_example enc_example dec_example (\<lambda>_ _. 0) 1 (\<lambda>_. calibration0) 6 0) flash_example = (True, t) \<and>
     run_state (Calibrate_or_Get_TouchParaWithFlash nor_example enc_example dec_example (\<lambda>_ _. 0) 1 (\<lambda>_. calibration0) 3 0) (flash_example\<lparr>flash := flash t\<rparr>) = (True, t') \<and>
     (\<forall>i<8. strXPT2046_TouchPara t' i = para_zero)"
proof -
  let ?run = "\<lambda>md. run_state (Calibrate_or_Get_TouchParaWithFlash nor_example enc_example dec_example (\<lambda>_ _. 0) 1 (\<lambda>_. calibration0) md 0)"
  obtain t where t: "?run 6 flash_example = (True, t)" "\<And>i. i < 8 \<Longrightarrow> strXPT2046_TouchPara t i = para_zero"
    using loads [OF nor_example example_holds] by auto
  obtain v t' where t': "?run 3 (flash_example\<lparr>flash := flash t\<rparr>) = (v, t')" by (metis prod.exhaust)
  have "v = True \<and> (\<forall>i<8. strXPT2046_TouchPara t' i = strXPT2046_TouchPara t i)"
    using stored_parameters_return [OF nor_example _ t(1) _ _ t'] t(2)
    by (auto simp: enc_example_def dec_example_def para_values_def)
  then show ?thesis using t t' by auto
qed

text \<open>
  Until a forced calibration has succeeded the flash keeps what it held; afterwards the parameters of the other scan modes
  are those the flash held.
\<close>

lemma other_modes_kept:
  assumes "nor_flash content fo" and "holds_para content dec (flash s) P" and "i < 8" "i \<noteq> unat md"
    and "run_state (Calibrate_or_Get_TouchParaWithFlash fo enc dec F fuel garbage md 1) s = (v, t)"
  shows "(\<not> v \<longrightarrow> content (flash t) = content (flash s)) \<and> strXPT2046_TouchPara t i = P i"
proof -
  note d = nor_flashD [OF assms(1)]
  let ?a = "s\<lparr>flash := SPI_FLASH_Init fo (flash s)\<rparr>"
  have flag: "content (flash s) 1024 = 0xA5" and para: "para_of_bytes dec (slice (content (flash s)) 2048 192) i = P i"
    using assms(2,3) by (simp_all add: holds_para_def)
  define b where "b = snd (run_state (load_para fo dec) ?a)"
  have b: "run_state (load_para fo dec) ?a = ((), b)" "flash b = SPI_FLASH_Init fo (flash s)" "strXPT2046_TouchPara b i = P i"
    using assms(3) para by (simp_all add: b_def load_para_def d)
  obtain ok u where u: "run_state (calibrate_loop fuel F fuel garbage md) b = (ok, u)" by (metis prod.exhaust)
  have "flash u = flash b" "strXPT2046_TouchPara u i = P i"
    using keepsD [OF keeps_flash_loop [OF assms(4)] u] b(3) by (simp_all add: durable_def)
  moreover have "run_state (Calibrate_or_Get_TouchParaWithFlash fo enc dec F fuel garbage md 1) s =
      (if ok then (True, u\<lparr>flash := SPI_FLASH_BufferWrite fo (para_bytes enc (strXPT2046_TouchPara u)) 2048
        (SPI_FLASH_BufferWrite fo [0xA5] 1024 (SPI_FLASH_SectorErase fo 0 (flash u)))\<rparr>) else (False, u))"
    using b(1) u flag by (auto simp: Calibrate_or_Get_TouchParaWithFlash_def d slice_def [of _ 1024] when_true_def)
  ultimately show ?thesis using assms(5) b(2) by (auto simp: d split: if_splits)
qed

end
