(* ===== verification/Spec2Isabelle.thy ===== *)
theory Spec2Isabelle
  imports Gpio Led_Key Sccb Sccb_Device Ov7725 Ov7725_Frames I2c Hmc5883l Ltr390 Adc_Sensors Bme280_Data
    Bme280_Driver Bme280_Device Bme280_Selftest Bme280 Format Sd_Card App_State App_Scenes App_Frames App_Init App_Main
    App_Pages App_Invariant App_Boot App_Screens App_Tasks App_Lifetimes App_Log
    Lcd Lcd_Panel Lcd_Text Lcd_Draw Lcd_Circle App_Display Lcd_Demo
    Palette Palette_Buttons Palette_Trails Touch Touch_Panel Touch_Flash
begin

text \<open>
  The firmware of an environment tracker on an STM32F103 board: \<open>src/applications\<close>, its own drivers
  and main program, with the pin driver \<open>src/drivers/drv_gpio.c\<close> below it.

  \<^bold>\<open>How the code is modelled.\<close> A C function is a term of the state monad over the memory
  it can reach (\<open>Prelude\<close>); machine integers are words, the rest of \<open>int\<close> arithmetic is written out
  where a value can leave the range. A component's static and global variables are a
  record that extends the record of the component below it, so that a function of a driver can
  be called in the state of the whole program: board, pins, camera, dust sensor,
  weather sensor, application. \<open>Board\<close> holds the outside: the history \<open>hist\<close> of everything the
  program has done to it, and the environment \<open>env\<close>, a record of functions from the
  history to the outside's answers (levels of pins, replies on the I2C bus, conversions, the
  clock, whether memory is left, what opening a file returns, bytes that were never initialised). Theorems that do not restrict the
  environment hold for every behaviour of the hardware and of the libraries. What C leaves
  undefined (use after free, overrun of an array, a shift by a negative distance, a conversion out of range, a failed
  assertion) is an event \<open>Fault\<close> in the history, after which the model goes on with an arbitrary value, or, after a free, with
  what the freed cell held. A few such cases are not flagged, and the model goes on with the value cut to the width of the type: a product of
  sides in \<open>ILI9341_Clear\<close> and intermediate products in \<open>XPT2046_Calculate_CalibrationFactor\<close> that leave 31 bits, conversions of
  reals out of range in \<open>Touch\<close>, an index \<open>LCD_Mode\<close> above 7, and the field \<open>Pull\<close> that \<open>SCCB_GPIO_Config\<close> leaves uninitialised,
  which is taken as no pull. Floating-point results pass
  through \<open>rnd\<close>, the rounding of the environment; theorems on values assume \<open>close_rounding\<close>, a bound on its
  relative error, and infinities, not-a-number and negative zero are left out.

  \<^bold>\<open>The parts.\<close>
  \<^item> \<open>Gpio\<close> (\<open>drv_gpio.c\<close>): the table of pins, levels and modes, the table of interrupt handlers, enabling
    and disabling of lines with shared vectors, dispatch. Invariant \<open>gpio_inv\<close>.
  \<^item> \<open>Led_Key\<close> (\<open>led_embedded.c\<close>, \<open>key_embedded.c\<close>).
  \<^item> \<open>Sccb\<close> (\<open>bsp_ov7725_sccb.c\<close>): the bit-level bus of the camera, with a monitor that decodes the two lines;
    \<open>Sccb_Device\<close>: on a camera that follows the protocol the bus is access to a register file.
  \<^item> \<open>Ov7725\<close>, \<open>Ov7725_Frames\<close> (\<open>bsp_ov7725.c\<close>): configuration, window, effects, the frame buffer between
    the interrupt and the main loop.
  \<^item> \<open>I2c\<close> (\<open>rt_i2c_transfer\<close> and the register access that three drivers write in the same words); the locale
    \<open>reg_file\<close> is what the sensors rely on. \<open>Structs\<close>: the structures they allocate.
  \<^item> \<open>Hmc5883l\<close>, \<open>Ltr390\<close> (\<open>i2c_HMC5883L.c\<close>, \<open>i2c_LTR390.c\<close>): parameters in bit fields, measurements.
  \<^item> \<open>Adc_Sensors\<close> (\<open>adc_GP2Y1014AU0F.c\<close>, \<open>adc_LM386.c\<close>): conversion, running mean, density.
  \<^item> \<open>Bme280_Data\<close>, \<open>Bme280_Driver\<close>, \<open>Bme280_Device\<close>, \<open>Bme280_Selftest\<close>, \<open>Bme280\<close> (\<open>Bosch_BME280.c\<close>, its self-test,
    \<open>i2c_BME280.c\<close>): calibration and compensation in floating point, settings and power modes on a register file, checksum,
    start-up, and the glue that allocates the structure.
  \<^item> \<open>Format\<close>, \<open>Sd_Card\<close> (\<open>SD_card.c\<close>): printing of numbers, mounting, appending, the console commands; files are
    read off the history.
  \<^item> \<open>App_State\<close>, \<open>App_Scenes\<close>, \<open>App_Init\<close>, \<open>App_Main\<close> (\<open>main.c\<close>): the global variables, saving, the
    periodic tasks; the screens, the key handlers and the settings menus; the start-up; the step relation \<open>app_step\<close>
    of the running program. Steps are the calls of the main loop in turn, interrupts on
    the pin lines between any two of them, and the two console commands that change the debug flag. A single attempt to start up is one step.
  \<^item> \<open>Lcd\<close>, \<open>Lcd_Draw\<close>, \<open>Lcd_Demo\<close> (\<open>bsp_lcd_ili9341.c\<close>): the display driver. Its state is a record of its own, with
    the commands and data written to the panel as \<open>bus\<close>. \<open>Lcd_Panel\<close> is the panel: windows and pixels, and the picture
    after a history. \<open>App_Display\<close>: the application's calls, which the application's model only records,
    carried out by the driver.
  \<^item> \<open>Palette\<close> (\<open>palette.c\<close>): the drawing board, whose state extends the display driver's with the buttons and the brush.
    \<open>Touch\<close>, \<open>Touch_Flash\<close> (\<open>bsp_lcd_xpt2046.c\<close>): the touch panel on top of it, from the pins to the event handler, and the
    parameters kept in a serial flash. The driver of that flash is not in the repository: its functions are a parameter.

  \<^bold>\<open>What is shown.\<close> For the drivers: the frames on the wires and what a device that follows the
  protocol holds afterwards (refinement of register access), round trips of settings, values of measurements with their
  bounds, the outcome of every start-up path, and that no path loses memory. For the
  program: \<open>App_Frames\<close> says what each operation leaves alone; \<open>App_Pages\<close> defines the page machine
  the screens refine; \<open>App_Invariant\<close> proves the invariant \<open>app_inv\<close> (menu variables in range, key handlers
  of the page shown) over all steps; \<open>App_Boot\<close> that a board whose parts work starts; \<open>App_Screens\<close> that keys
  navigate as in the page machine; \<open>App_Tasks\<close> that each periodic task runs its body exactly when it is due, across
  the wrap-around of the clock; \<open>App_Lifetimes\<close> what happens to a sensor's structure when the
  sensor is lost; \<open>App_Log\<close> what is written to the data file. Locales state the interfaces: \<open>reg_file\<close> and its like
  for devices, \<open>periodic\<close> and \<open>bus_task\<close> for the tasks, each interpreted on the code's definitions.
  For the display: \<open>draws\<close> says how an operation changes the picture whatever was sent before; \<open>Lcd_Text\<close> places characters and
  strings, \<open>Lcd_Draw\<close> and \<open>Lcd_Circle\<close> say which pixels lines, rectangles and circles set and when drawing them
  ends, \<open>App_Display\<close> that driver and panel implement a canvas, and what the menu and a photo look like.
  For the touch panel: \<open>Palette_Buttons\<close> says what touches and releases do to the buttons and the brush, with the invariant \<open>board\<close>;
  \<open>Palette_Trails\<close> where trails go, which pixels thick lines set and where they stop; \<open>Touch_Panel\<close> that touches are debounced, samples smoothed,
  the calibration is exact, and the event handler keeps the board's invariant; \<open>Touch_Flash\<close> that stored parameters come back.

  \<^bold>\<open>Fuel.\<close> The loop \<open>while (mainFuncInit() != RT_EOK)\<close> need not end; \<open>init_loop n\<close> makes at most \<open>n\<close> attempts and says if
  it ran out, and \<open>start_up_succeeds\<close> holds for every positive \<open>n\<close>. The relation \<open>app_step\<close> has no bound: a
  failed attempt is a step that may be repeated for ever. The loops that draw lines and circles are bounded by
  variables of sixteen bits that can wrap around; their \<open>fuel\<close> counts rounds, the result says whether the function
  returned, and the theorems give the fuel that is enough, or show that none is. All other loops are bounded by
  their code.

  \<^bold>\<open>Not modelled.\<close> RT-Thread (threads, file system, device layer), the vendor's libraries, CubeMX code and start-up
  files are third-party or generated; the functions the application calls are answers of the
  environment. Interrupts are taken between calls of the main loop, not inside them. Log output is left out, except that printing a
  character array with \<open>%s\<close> reads it to its null. The counter \<open>count\<close> of the main
  loop, whose overflow after $2^{31}$ rounds is undefined, is left out.
  The bitmaps of the characters in \<open>fonts.c\<close> are a parameter. The program starts the touch panel and never polls it, so \<open>Touch\<close> is
  not part of the steps of \<open>app_step\<close>. The other drivers of \<open>src/drivers\<close> are RT-Thread's board support.
\<close>

end
